(* ===== verification/Prelude.thy ===== *)
theory Prelude
  imports Complex_Main
begin

text \<open>
  Shared vocabulary of the development: JavaScript strings and JSON values, HTTP answers,
  database tables as lists of rows with the SQL operations the handlers issue on them, and
  the transaction wrapper every \<open>try\<close>/\<open>COMMIT\<close>/\<open>ROLLBACK\<close> block of the server has.

  A JavaScript string is the list of its UTF-16 code units; a number is a finite rational or
  one of the three special values (binary64 rounding is not modelled). \<open>JDate\<close> stands for a
  timestamp that the code renders as text (\<open>toISOString\<close>, \<open>to_char\<close>).
\<close>

named_theorems row_simps \<open>how the table operations act on membership, keys and lookups\<close>
named_theorems tx_simps \<open>how a transaction outcome reaches the caller\<close>

section \<open>Strings and JSON values\<close>

type_synonym jsstr = "nat list"

definition js :: "string \<Rightarrow> jsstr" where
  "js s = map of_char s"

lemma js_inject [simp]: "js s = js t \<longleftrightarrow> s = t"
proof
  assume "js s = js t"
  moreover have "inj (of_char :: char \<Rightarrow> nat)" by (simp add: inj_def)
  ultimately show "s = t" by (simp add: js_def inj_map_eq_map)
qed simp

lemma js_Nil_iff [simp]: "js s = [] \<longleftrightarrow> s = []" "[] = js s \<longleftrightarrow> s = []"
  by (auto simp: js_def)

text \<open>\<open>String(key || "unknown")\<close>, how the limiters read a caller's key.\<close>

definition normalized_key :: "jsstr \<Rightarrow> jsstr" where
  "normalized_key key = (if key = [] then js ''unknown'' else key)"

lemma normalized_key_idem [simp]: "normalized_key (normalized_key k) = normalized_key k"
  by (simp add: normalized_key_def js_def)

text \<open>The text of a whole number.\<close>

fun decimal :: "nat \<Rightarrow> jsstr" where
  "decimal n = (if n < 10 then [48 + n] else decimal (n div 10) @ [48 + n mod 10])"

declare decimal.simps [simp del]

lemma decimal_plain: "set (decimal n) \<subseteq> {48..57}"
  by (induction n rule: decimal.induct) (subst decimal.simps, auto)

fun digits_value :: "nat \<Rightarrow> jsstr \<Rightarrow> nat" where
  "digits_value n [] = n"
| "digits_value n (c # s) = digits_value (10 * n + (c - 48)) s"

lemma digits_value_snoc: "digits_value n (s @ [c]) = 10 * digits_value n s + (c - 48)"
  by (induction s arbitrary: n) simp_all

lemma decimal_value: "digits_value 0 (decimal n) = n"
  by (induction n rule: decimal.induct) (subst decimal.simps, auto simp: digits_value_snoc)

lemma decimal_inject [simp]: "decimal m = decimal n \<longleftrightarrow> m = n"
  by (metis decimal_value)

datatype jsnum = Fin rat | PosInf | NegInf | NaN

datatype json =
    JNull
  | JBool bool
  | JNum jsnum
  | JStr jsstr
  | JArr "json list"
  | JObj "(jsstr \<times> json) list"
  | JDate int

abbreviation jint :: "int \<Rightarrow> json" where
  "jint i \<equiv> JNum (Fin (of_int i))"

abbreviation jstr :: "string \<Rightarrow> json" where
  "jstr s \<equiv> JStr (js s)"

text \<open>\<open>Number.isInteger\<close>, \<open>Number.isSafeInteger\<close> and \<open>Number.isFinite\<close>, with the integer read off.\<close>

definition integer_of :: "jsnum \<Rightarrow> int option" where
  "integer_of n = (case n of Fin r \<Rightarrow> if of_int \<lfloor>r\<rfloor> = r then Some \<lfloor>r\<rfloor> else None | _ \<Rightarrow> None)"

definition MAX_SAFE_INTEGER :: int where
  "MAX_SAFE_INTEGER = 9007199254740991"

definition safe_integer_of :: "jsnum \<Rightarrow> int option" where
  "safe_integer_of n =
     (case integer_of n of
        Some i \<Rightarrow> if \<bar>i\<bar> \<le> MAX_SAFE_INTEGER then Some i else None
      | None \<Rightarrow> None)"

lemma integer_of_int [simp]: "integer_of (Fin (of_int i)) = Some i"
  by (simp add: integer_of_def)

lemma integer_of_numeral [simp]:
  "integer_of (Fin (numeral n)) = Some (numeral n)" "integer_of (Fin 1) = Some 1"
  "integer_of (Fin 0) = Some 0"
  by (simp_all add: integer_of_def)

lemma safe_integer_of_int [simp]:
  "safe_integer_of (Fin (of_int i)) = (if \<bar>i\<bar> \<le> MAX_SAFE_INTEGER then Some i else None)"
  by (simp add: safe_integer_of_def)

lemma safe_integer_of_SomeD:
  "safe_integer_of n = Some i \<Longrightarrow> n = Fin (of_int i) \<and> \<bar>i\<bar> \<le> MAX_SAFE_INTEGER"
  by (auto simp: safe_integer_of_def integer_of_def split: option.splits jsnum.splits if_splits)

text \<open>Own properties of a parsed JSON object: \<open>Object.hasOwn\<close>, property reads, \<open>Object.keys\<close>.\<close>

type_synonym obj = "(jsstr \<times> json) list"

definition prop_of :: "obj \<Rightarrow> string \<Rightarrow> json option" where
  "prop_of ob k = map_of ob (js k)"

definition has_own :: "obj \<Rightarrow> string \<Rightarrow> bool" where
  "has_own ob k \<longleftrightarrow> prop_of ob k \<noteq> None"

definition keys_within :: "obj \<Rightarrow> string list \<Rightarrow> bool" where
  "keys_within ob ks \<longleftrightarrow> (\<forall>kv \<in> set ob. fst kv \<in> set (map js ks))"

section \<open>HTTP answers\<close>

datatype header = WWW_Authenticate_Bearer | Retry_After int

record response =
  r_status :: nat
  r_headers :: "header list"
  r_body :: "json option"

definition json_response :: "nat \<Rightarrow> json \<Rightarrow> response" where
  "json_response status body = \<lparr>r_status = status, r_headers = [], r_body = Some body\<rparr>"

definition error_body :: "string \<Rightarrow> json" where
  "error_body code = JObj [(js ''error'', jstr code)]"

lemma json_response_sel [simp]:
  "r_status (json_response s b) = s"
  "r_headers (json_response s b) = []"
  "r_body (json_response s b) = Some b"
  by (simp_all add: json_response_def)

lemma json_response_inject [simp]:
  "json_response s b = json_response s' b' \<longleftrightarrow> s = s' \<and> b = b'"
  by (simp add: json_response_def)

section \<open>Tables as lists of rows\<close>

definition update_where :: "('r \<Rightarrow> bool) \<Rightarrow> ('r \<Rightarrow> 'r) \<Rightarrow> 'r list \<Rightarrow> 'r list" where
  "update_where P f rows = map (\<lambda>r. if P r then f r else r) rows"

definition delete_where :: "('r \<Rightarrow> bool) \<Rightarrow> 'r list \<Rightarrow> 'r list" where
  "delete_where P rows = filter (\<lambda>r. \<not> P r) rows"

definition count_where :: "('r \<Rightarrow> bool) \<Rightarrow> 'r list \<Rightarrow> nat" where
  "count_where P rows = length (filter P rows)"

text \<open>\<open>INSERT ... ON CONFLICT (key) DO UPDATE\<close>: the stored row is merged with the excluded one.\<close>

definition upsert :: "('r \<Rightarrow> 'k) \<Rightarrow> ('r \<Rightarrow> 'r \<Rightarrow> 'r) \<Rightarrow> 'r \<Rightarrow> 'r list \<Rightarrow> 'r list" where
  "upsert key merge row rows =
     (if key row \<in> set (map key rows)
      then update_where (\<lambda>r. key r = key row) (\<lambda>r. merge r row) rows
      else rows @ [row])"

lemma set_update_where [row_simps]:
  "set (update_where P f rows) = f ` {r \<in> set rows. P r} \<union> {r \<in> set rows. \<not> P r}"
  by (auto simp: update_where_def)

lemma update_where_mem:
  "r' \<in> set (update_where P f rows) \<longleftrightarrow>
     (\<exists>r \<in> set rows. r' = (if P r then f r else r))"
  by (auto simp: update_where_def)

lemma update_where_all:
  "(\<And>r. r \<in> set rows \<Longrightarrow> P r \<Longrightarrow> Q (f r)) \<Longrightarrow> (\<And>r. r \<in> set rows \<Longrightarrow> \<not> P r \<Longrightarrow> Q r) \<Longrightarrow>
     \<forall>r \<in> set (update_where P f rows). Q r"
  by (auto simp: update_where_def)

lemma set_delete_where [row_simps]:
  "set (delete_where P rows) = {r \<in> set rows. \<not> P r}"
  by (auto simp: delete_where_def)

lemma length_update_where [row_simps]: "length (update_where P f rows) = length rows"
  by (simp add: update_where_def)

lemma map_key_update_where [row_simps]:
  "(\<And>r. P r \<Longrightarrow> key (f r) = key r) \<Longrightarrow> map key (update_where P f rows) = map key rows"
  by (simp add: update_where_def)

lemma update_where_none [row_simps]:
  "(\<And>r. r \<in> set rows \<Longrightarrow> \<not> P r) \<Longrightarrow> update_where P f rows = rows"
  unfolding update_where_def by (rule map_idI) simp

lemma filter_update_where_other:
  "(\<And>r. P r \<Longrightarrow> \<not> Q r \<and> \<not> Q (f r)) \<Longrightarrow> filter Q (update_where P f rows) = filter Q rows"
  by (induction rows) (auto simp: update_where_def)

lemma distinct_key_delete_where [row_simps]:
  "distinct (map key rows) \<Longrightarrow> distinct (map key (delete_where P rows))"
  by (simp add: delete_where_def distinct_map_filter)

lemma find_key_Some:
  assumes "distinct (map key rows)"
  shows "find (\<lambda>r. key r = k) rows = Some r \<longleftrightarrow> r \<in> set rows \<and> key r = k"
  using assms
proof (induction rows)
  case (Cons a rows)
  then show ?case by (cases "key a = k") (auto simp: image_iff)
qed simp

lemma find_Some_mem: "find P rows = Some r \<Longrightarrow> r \<in> set rows \<and> P r"
  by (auto simp: find_Some_iff)

lemma find_none_iff: "find P rows = None \<longleftrightarrow> (\<forall>r \<in> set rows. \<not> P r)"
  by (auto simp: find_None_iff)

lemma key_unique:
  "distinct (map key rows) \<Longrightarrow> r \<in> set rows \<Longrightarrow> s \<in> set rows \<Longrightarrow> key r = key s \<Longrightarrow> r = s"
  by (meson distinct_map inj_onD)

lemma find_update_where_key:
  assumes "distinct (map key rows)" and "\<And>r. P r \<Longrightarrow> key (f r) = key r"
  shows "find (\<lambda>r. key r = k) (update_where P f rows) =
    map_option (\<lambda>r. if P r then f r else r) (find (\<lambda>r. key r = k) rows)"
  using assms
proof (induction rows)
  case (Cons a rows)
  then show ?case by (cases "P a"; cases "key a = k") (auto simp: update_where_def)
qed (simp add: update_where_def)

lemma find_delete_where_key:
  assumes "distinct (map key rows)"
  shows "find (\<lambda>r. key r = k) (delete_where P rows) =
    (case find (\<lambda>r. key r = k) rows of
       None \<Rightarrow> None | Some r \<Rightarrow> if P r then None else Some r)"
  using assms
proof (induction rows)
  case (Cons a rows)
  then have "key a = k \<Longrightarrow> find (\<lambda>r. key r = k) rows = None"
    by (auto simp: find_None_iff image_iff)
  with Cons show ?case by (cases "key a = k"; cases "P a") (auto simp: delete_where_def)
qed (simp add: delete_where_def)

lemma find_snoc:
  "find P (rows @ [row]) =
     (case find P rows of Some r \<Rightarrow> Some r | None \<Rightarrow> if P row then Some row else None)"
  by (induction rows) auto

lemma map_key_upsert:
  assumes "\<And>r. key r = key row \<Longrightarrow> key (merge r row) = key row"
  shows "map key (upsert key merge row rows) =
    (if key row \<in> set (map key rows) then map key rows else map key rows @ [key row])"
proof -
  have "map key (update_where (\<lambda>r. key r = key row) (\<lambda>r. merge r row) rows) = map key rows"
    by (rule map_key_update_where) (use assms in simp)
  then show ?thesis by (simp add: upsert_def)
qed

lemma distinct_key_upsert:
  assumes "distinct (map key rows)"
    and "\<And>r. key r = key row \<Longrightarrow> key (merge r row) = key row"
  shows "distinct (map key (upsert key merge row rows))"
  using assms(1) by (subst map_key_upsert) (use assms(2) in auto)

lemma find_upsert_key:
  assumes "distinct (map key rows)"
    and "\<And>r. key r = key row \<Longrightarrow> key (merge r row) = key row"
  shows "find (\<lambda>r. key r = k) (upsert key merge row rows) =
    (if k = key row
     then Some (case find (\<lambda>r. key r = k) rows of None \<Rightarrow> row | Some r \<Rightarrow> merge r row)
     else find (\<lambda>r. key r = k) rows)"
proof (cases "key row \<in> set (map key rows)")
  case True
  then obtain r where r: "r \<in> set rows" "key r = key row" by auto
  with assms(1) have found: "find (\<lambda>r. key r = key row) rows = Some r"
    by (simp add: find_key_Some)
  have upd: "find (\<lambda>r. key r = k) (update_where (\<lambda>r. key r = key row) (\<lambda>r. merge r row) rows) =
      map_option (\<lambda>r. if key r = key row then merge r row else r)
        (find (\<lambda>r. key r = k) rows)"
    by (rule find_update_where_key [OF assms(1)]) (use assms(2) in simp)
  show ?thesis
  proof (cases "k = key row")
    case True
    with found upd r \<open>key row \<in> set (map key rows)\<close> show ?thesis by (simp add: upsert_def)
  next
    case False
    with upd \<open>key row \<in> set (map key rows)\<close> show ?thesis
      by (cases "find (\<lambda>r. key r = k) rows") (auto simp: upsert_def dest: find_Some_mem)
  qed
next
  case False
  then have "find (\<lambda>r. key r = key row) rows = None"
    by (auto simp: find_None_iff image_iff)
  with False show ?thesis by (auto simp: upsert_def find_snoc split: option.splits)
qed

lemma set_upsert_subset:
  "set (upsert key merge row rows) \<subseteq>
     set rows \<union> {row} \<union> {merge r row | r. r \<in> set rows \<and> key r = key row}"
  by (auto simp: upsert_def set_update_where)

text \<open>A cleanup that deletes at most \<open>n\<close> of the rows that are old, in some order.\<close>

lemma batch_delete:
  fixes key :: "'r \<Rightarrow> 'k :: linorder"
  assumes "distinct (map ident rows)" "batch = take n (sort_key key (filter old rows))"
  shows "length (filter old (delete_where (\<lambda>r. ident r \<in> ident ` set batch) rows)) = length (filter old rows) - n"
    and "filter (\<lambda>r. \<not> old r) (delete_where (\<lambda>r. ident r \<in> ident ` set batch) rows) = filter (\<lambda>r. \<not> old r) rows"
    and "length batch = min n (length (filter old rows))" "set batch \<subseteq> {r \<in> set rows. old r}"
proof -
  have dist: "distinct (filter old rows)" using assms(1) by (simp add: distinct_map)
  show len: "length batch = min n (length (filter old rows))" by (simp add: assms(2) min.commute)
  have "set batch \<subseteq> set (sort_key key (filter old rows))" unfolding assms(2) by (rule set_take_subset)
  then show sub: "set batch \<subseteq> {r \<in> set rows. old r}" by simp
  have ident: "ident r \<in> ident ` set batch \<longleftrightarrow> r \<in> set batch" if "r \<in> set rows" for r
    using that sub assms(1) by (auto dest: key_unique)
  have "distinct batch" using dist by (simp add: assms(2))
  moreover have "set (filter old (delete_where (\<lambda>r. ident r \<in> ident ` set batch) rows)) =
      set (filter old rows) - set batch"
    using ident by (auto simp: delete_where_def)
  moreover have "distinct (filter old (delete_where (\<lambda>r. ident r \<in> ident ` set batch) rows))"
    using assms(1) by (simp add: delete_where_def distinct_map)
  ultimately show "length (filter old (delete_where (\<lambda>r. ident r \<in> ident ` set batch) rows)) =
      length (filter old rows) - n"
    using sub len dist by (simp add: distinct_card [symmetric] card_Diff_subset)
  show "filter (\<lambda>r. \<not> old r) (delete_where (\<lambda>r. ident r \<in> ident ` set batch) rows) = filter (\<lambda>r. \<not> old r) rows"
    using ident sub by (auto simp: delete_where_def intro!: filter_cong)
qed

section \<open>Transactions\<close>

text \<open>
  A handler's transaction body is a function of the database it sees: it commits with an
  answer and a new database, rolls back with an answer, or raises. \<open>run_tx\<close> is the
  surrounding \<open>try { connect; BEGIN; ... } catch { ROLLBACK; answer }\<close>: uncommitted work is
  never visible, a raise anywhere (also of \<open>connect\<close>, \<open>BEGIN\<close> or a query, \<open>Tx_fails\<close>) gives
  the catch block's answer on the old database, and a \<open>COMMIT\<close> that took effect but whose
  acknowledgement is lost (\<open>Tx_lost_ack\<close>) gives the catch block's answer on the new one.
\<close>

datatype ('a, 'db) tx_outcome = Commit 'a 'db | Rollback 'a | Throw

datatype tx_fault = Tx_ok | Tx_fails | Tx_lost_ack

definition run_tx :: "tx_fault \<Rightarrow> 'a \<Rightarrow> ('db \<Rightarrow> ('a, 'db) tx_outcome) \<Rightarrow> 'db \<Rightarrow> 'a \<times> 'db" where
  "run_tx fault on_error body db =
     (if fault = Tx_fails then (on_error, db)
      else case body db of
        Commit a db' \<Rightarrow> (if fault = Tx_lost_ack then on_error else a, db')
      | Rollback a \<Rightarrow> (a, db)
      | Throw \<Rightarrow> (on_error, db))"

lemma run_tx_simps [tx_simps]:
  "run_tx Tx_fails e body db = (e, db)"
  "body db = Commit a db' \<Longrightarrow> run_tx Tx_ok e body db = (a, db')"
  "body db = Commit a db' \<Longrightarrow> run_tx Tx_lost_ack e body db = (e, db')"
  "body db = Rollback a \<Longrightarrow> fault \<noteq> Tx_fails \<Longrightarrow> run_tx fault e body db = (a, db)"
  "body db = Throw \<Longrightarrow> run_tx fault e body db = (e, db)"
  by (simp_all add: run_tx_def)

lemma run_tx_db:
  "snd (run_tx fault e body db) = db \<or> (\<exists>a db'. body db = Commit a db' \<and>
     snd (run_tx fault e body db) = db')"
  by (simp add: run_tx_def split: tx_outcome.split)

lemma run_tx_answer:
  "fst (run_tx fault e body db) = e \<or> body db = Rollback (fst (run_tx fault e body db)) \<or>
     (\<exists>db'. body db = Commit (fst (run_tx fault e body db)) db' \<and>
            snd (run_tx fault e body db) = db')"
  by (simp add: run_tx_def split: tx_outcome.split)

lemma run_tx_preserves:
  assumes "I db" and "\<And>a db'. body db = Commit a db' \<Longrightarrow> I db'"
  shows "I (snd (run_tx fault e body db))"
  using assms run_tx_db [of fault e body db] by metis

end
