(* ===== verification/Pairing_Code.thy ===== *)
theory Pairing_Code
  imports Prelude "HOL-Library.Word"
begin

text \<open>
  Pairing codes, device names and device credentials (\<open>src/src/telemetry-pairing.js\<close>).
  JavaScript's bitwise operators work on 32-bit integers, so the encoder's buffer is a
  \<open>32 word\<close> with \<open>signed_drop_bit\<close> for \<open>>>\<close>. A byte is a \<open>nat\<close> below 256, a string its
  UTF-16 code units. The hash function is a parameter.
\<close>

unbundle bit_operations_syntax

section \<open>encodePairingCode\<close>

definition CROCKFORD_ALPHABET :: jsstr where
  "CROCKFORD_ALPHABET = js ''0123456789ABCDEFGHJKMNPQRSTVWXYZ''"

text \<open>The inner \<open>while (bits >= 5)\<close> loop.\<close>

fun emit_digits :: "32 word \<Rightarrow> nat \<Rightarrow> jsstr \<Rightarrow> 32 word \<times> nat \<times> jsstr" where
  "emit_digits buffer bits encoded =
     (if 5 \<le> bits
      then let b = bits - 5
           in emit_digits (buffer AND (push_bit b 1 - 1)) b
                (encoded @ [CROCKFORD_ALPHABET ! unat (signed_drop_bit b buffer AND 31)])
      else (buffer, bits, encoded))"

declare emit_digits.simps [simp del]

fun encode_byte :: "nat \<Rightarrow> 32 word \<times> nat \<times> jsstr \<Rightarrow> 32 word \<times> nat \<times> jsstr" where
  "encode_byte byte (buffer, bits, encoded) =
     emit_digits (push_bit 8 buffer OR word_of_nat byte) (bits + 8) encoded"

definition is_buffer :: "nat list \<Rightarrow> bool" where
  "is_buffer bytes \<longleftrightarrow> (\<forall>b \<in> set bytes. b < 256)"

text \<open>The encoder throws (\<open>None\<close>) unless it is given exactly ten bytes.\<close>

definition encodePairingCode :: "nat list \<Rightarrow> jsstr option" where
  "encodePairingCode bytes =
     (if length bytes \<noteq> 10 then None
      else Some (snd (snd (fold encode_byte bytes (0, 0, [])))))"

subsection \<open>The digits as a number\<close>

definition digit_value :: "nat \<Rightarrow> nat" where
  "digit_value c = (case map_of (zip CROCKFORD_ALPHABET [0..<32]) c of Some d \<Rightarrow> d | None \<Rightarrow> 0)"

definition code_value :: "jsstr \<Rightarrow> nat" where
  "code_value s = foldl (\<lambda>n c. n * 32 + digit_value c) 0 s"

definition bytes_value :: "nat list \<Rightarrow> nat" where
  "bytes_value bs = foldl (\<lambda>n b. n * 256 + b) 0 bs"

lemma length_CROCKFORD_ALPHABET [simp]: "length CROCKFORD_ALPHABET = 32"
  by (simp add: CROCKFORD_ALPHABET_def js_def)

lemma distinct_CROCKFORD_ALPHABET: "distinct CROCKFORD_ALPHABET"
  by (simp add: CROCKFORD_ALPHABET_def js_def)

lemma digit_value_nth [simp]: "d < 32 \<Longrightarrow> digit_value (CROCKFORD_ALPHABET ! d) = d"
  using distinct_CROCKFORD_ALPHABET
  by (simp add: digit_value_def map_of_zip_nth)

lemma code_value_snoc [simp]: "code_value (s @ [c]) = code_value s * 32 + digit_value c"
  by (simp add: code_value_def)

lemma bytes_value_snoc [simp]: "bytes_value (bs @ [b]) = bytes_value bs * 256 + b"
  by (simp add: bytes_value_def)

lemma bytes_value_less: "is_buffer bs \<Longrightarrow> bytes_value bs < 256 ^ length bs"
  by (induction bs rule: rev_induct) (auto simp: is_buffer_def bytes_value_def)

lemma bytes_value_inject:
  "length bs = length cs \<Longrightarrow> is_buffer bs \<Longrightarrow> is_buffer cs \<Longrightarrow> bytes_value bs = bytes_value cs \<Longrightarrow>
   bs = cs"
proof (induction bs arbitrary: cs rule: rev_induct)
  case (snoc b bs)
  from snoc.prems(1) obtain c cs' where cs: "cs = cs' @ [c]" "length cs' = length bs"
    by (cases cs rule: rev_cases) auto
  with snoc.prems have lt: "b < 256" "c < 256" and eq: "bytes_value bs * 256 + b = bytes_value cs' * 256 + c"
    by (auto simp: is_buffer_def)
  from arg_cong [OF eq, of "\<lambda>n. n mod 256"] lt have "b = c" by simp
  with eq have "bytes_value bs = bytes_value cs'" by simp
  with snoc cs \<open>b = c\<close> show ?case by (simp add: is_buffer_def)
qed simp

subsection \<open>What the loop keeps\<close>

lemma unat_low_bits:
  "b < 32 \<Longrightarrow> unat (w AND (push_bit b 1 - 1) :: 32 word) = unat w mod 2 ^ b"
proof -
  assume "b < 32"
  have "push_bit b 1 - 1 = (mask b :: 32 word)" by (simp add: mask_eq_exp_minus_1 push_bit_of_1)
  then have "w AND (push_bit b 1 - 1) = take_bit b w" by (simp only: take_bit_eq_mask)
  then have "unat (w AND (push_bit b 1 - 1)) = take_bit b (unat w)"
    by (simp only: unsigned_take_bit_eq)
  then show ?thesis by (simp only: take_bit_eq_mod)
qed

lemma unat_digit:
  assumes "unat w < 2 ^ (b + 5)" "b < 26"
  shows "unat (signed_drop_bit b w AND 31 :: 32 word) = unat w div 2 ^ b"
proof -
  have "(2 :: nat) ^ (b + 5) \<le> 2 ^ 30" using assms(2) by (intro power_increasing) auto
  with assms(1) have "unat w < 2 ^ 31" by simp
  then have "drop_bit 31 (unat w) = 0" by (simp only: drop_bit_eq_div) simp
  then have "drop_bit 31 w = 0" by (simp only: word_unat_eq_iff unat_drop_bit_eq) simp
  then have "\<not> bit w 31" by (simp only: bit_iff_odd_drop_bit) simp
  then have "signed_drop_bit b w = drop_bit b w"
    by (intro bit_word_eqI) (auto simp: bit_simps dest: bit_imp_le_length)
  moreover have "(31 :: 32 word) = mask 5" by (simp add: mask_eq_exp_minus_1)
  ultimately have "signed_drop_bit b w AND 31 = take_bit 5 (drop_bit b w)"
    by (simp only: take_bit_eq_mask)
  moreover have "unat w div 2 ^ b < 2 ^ 5"
    using assms(1) by (simp add: less_mult_imp_div_less power_add mult.commute)
  moreover have "unat (take_bit 5 (drop_bit b w)) = take_bit 5 (drop_bit b (unat w))"
    by (simp only: unsigned_take_bit_eq unat_drop_bit_eq)
  ultimately show ?thesis by (simp add: take_bit_eq_mod drop_bit_eq_div)
qed

lemma unat_push_byte:
  assumes "unat w < 2 ^ 20" "byte < 256"
  shows "unat (push_bit 8 w OR word_of_nat byte :: 32 word) = unat w * 256 + byte"
proof -
  have "push_bit 8 w OR word_of_nat byte = push_bit 8 w + (word_of_nat byte :: 32 word)"
  proof (rule disjunctive_add_eq_or [symmetric], rule bit_word_eqI)
    fix n
    have "bit (word_of_nat byte :: 32 word) n \<Longrightarrow> n < 8"
      using assms(2) bit_take_bit_iff [of 8 byte n] by (simp add: bit_simps take_bit_eq_mod)
    then show "bit (push_bit 8 w AND word_of_nat byte) n = bit (0 :: 32 word) n"
      by (auto simp: bit_simps)
  qed
  moreover have "unat (push_bit 8 w) = unat w * 256"
  proof -
    have "unat (push_bit 8 w) = take_bit 32 (push_bit 8 (unat w))" by (simp only: unsigned_push_bit_eq) simp
    with assms(1) show ?thesis by (simp add: push_bit_eq_mult take_bit_eq_mod)
  qed
  moreover have "unat (word_of_nat byte :: 32 word) = byte"
    using assms(2) by (simp add: unsigned_of_nat take_bit_eq_mod)
  ultimately show ?thesis
    using assms by (simp add: unat_plus_if')
qed

text \<open>The state of the encoder after some bytes: the digits emitted so far and the pending bits spell
  the number the bytes spell.\<close>

definition encodes :: "nat \<Rightarrow> nat \<Rightarrow> 32 word \<times> nat \<times> jsstr \<Rightarrow> bool" where
  "encodes num n st =
     (case st of (buffer, bits, encoded) \<Rightarrow>
        unat buffer < 2 ^ bits \<and> code_value encoded * 2 ^ bits + unat buffer = num \<and>
        5 * length encoded + bits = n \<and> set encoded \<subseteq> set CROCKFORD_ALPHABET)"

lemma emit_digits_encodes:
  "encodes num n (buffer, bits, encoded) \<Longrightarrow> bits \<le> 30 \<Longrightarrow>
   encodes num n (emit_digits buffer bits encoded) \<and> fst (snd (emit_digits buffer bits encoded)) < 5"
proof (induction buffer bits encoded rule: emit_digits.induct)
  case (1 buffer bits encoded)
  show ?case
  proof (cases "5 \<le> bits")
    case True
    define b where "b = bits - 5"
    have bits: "bits = b + 5" using True by (simp add: b_def)
    let ?d = "unat buffer div 2 ^ b"
    have small: "unat buffer < 2 ^ (b + 5)" using "1.prems"(1) bits by (simp add: encodes_def)
    then have d: "?d < 32" by (simp add: less_mult_imp_div_less power_add mult.commute)
    have "encodes num n (buffer', b, encoded @ [CROCKFORD_ALPHABET ! ?d])"
      if "unat buffer' = unat buffer mod 2 ^ b" for buffer'
      using "1.prems" d bits div_mult_mod_eq [of "unat buffer" "2 ^ b"] nth_mem [of ?d CROCKFORD_ALPHABET]
        that by (auto simp: encodes_def algebra_simps power_add)
    then have "encodes num n (buffer AND (push_bit b 1 - 1), b, encoded @ [CROCKFORD_ALPHABET ! ?d])"
      using "1.prems"(2) bits unat_low_bits [of b buffer] by simp
    moreover have "unat (signed_drop_bit b buffer AND 31) = ?d"
      using small "1.prems"(2) bits by (intro unat_digit) auto
    ultimately show ?thesis
      using "1.IH" [OF True b_def] "1.prems"(2) bits emit_digits.simps [of buffer bits encoded]
      by (simp add: b_def [symmetric] Let_def)
  next
    case False
    with "1.prems" show ?thesis by (simp add: emit_digits.simps [of buffer bits encoded])
  qed
qed

lemma encode_bytes_encodes:
  assumes "is_buffer bytes"
  shows "encodes (bytes_value bytes) (8 * length bytes) (fold encode_byte bytes (0, 0, [])) \<and>
    fst (snd (fold encode_byte bytes (0, 0, []))) < 5"
  using assms
proof (induction bytes rule: rev_induct)
  case Nil
  show ?case by (simp add: encodes_def bytes_value_def code_value_def)
next
  case (snoc byte bytes)
  obtain buffer bits encoded where st: "fold encode_byte bytes (0, 0, []) = (buffer, bits, encoded)"
    by (metis prod_cases3)
  with snoc have inv: "encodes (bytes_value bytes) (8 * length bytes) (buffer, bits, encoded)"
    and bits: "bits < 5" and byte: "byte < 256" by (auto simp: is_buffer_def)
  have "(2 :: nat) ^ bits \<le> 2 ^ 4" using bits by (intro power_increasing) auto
  with inv have small: "unat buffer < 2 ^ 20" by (simp add: encodes_def)
  have "encodes (bytes_value (bytes @ [byte])) (8 * length (bytes @ [byte]))
      (push_bit 8 buffer OR word_of_nat byte, bits + 8, encoded)"
    using inv byte by (auto simp: encodes_def unat_push_byte [OF small byte] power_add algebra_simps)
  from emit_digits_encodes [OF this] bits st show ?case by simp
qed

lemma encodePairingCode_value:
  assumes "encodePairingCode bytes = Some code" "is_buffer bytes"
  shows "length code = 16 \<and> set code \<subseteq> set CROCKFORD_ALPHABET \<and> code_value code = bytes_value bytes"
proof -
  obtain buffer bits encoded where st: "fold encode_byte bytes (0, 0, []) = (buffer, bits, encoded)"
    by (metis prod_cases3)
  from assms(1) st have len: "length bytes = 10" and code: "code = encoded"
    by (auto simp: encodePairingCode_def split: if_splits)
  from encode_bytes_encodes [OF assms(2)] st len
  have inv: "encodes (bytes_value bytes) 80 (buffer, bits, encoded)" and "bits < 5" by auto
  then have "5 * length encoded + bits = 80" "bits < 5" by (auto simp: encodes_def)
  then have "bits = 0" "length encoded = 16" by presburger+
  with inv code show ?thesis by (simp add: encodes_def)
qed

section \<open>Formatting and normalising a code\<close>

text \<open>\<open>/^[0-9A-HJKMNP-TV-Z]{16}$/\<close>.\<close>

definition crockford_char :: "nat \<Rightarrow> bool" where
  "crockford_char c \<longleftrightarrow> (48 \<le> c \<and> c \<le> 57) \<or> (65 \<le> c \<and> c \<le> 72) \<or> c = 74 \<or> c = 75 \<or> c = 77 \<or> c = 78 \<or>
     (80 \<le> c \<and> c \<le> 84) \<or> (86 \<le> c \<and> c \<le> 90)"

definition canonical_code :: "jsstr \<Rightarrow> bool" where
  "canonical_code s \<longleftrightarrow> length s = 16 \<and> list_all crockford_char s"

definition formatPairingCode :: "jsstr \<Rightarrow> jsstr option" where
  "formatPairingCode s =
     (if \<not> canonical_code s then None
      else Some (take 4 s @ js ''-'' @ take 4 (drop 4 s) @ js ''-'' @ take 4 (drop 8 s) @ js ''-'' @
             drop 12 s))"

definition generatePairingCode :: "nat list \<Rightarrow> jsstr option" where
  "generatePairingCode random =
     (case encodePairingCode random of None \<Rightarrow> None | Some code \<Rightarrow> formatPairingCode code)"

definition separator :: "nat \<Rightarrow> bool" where
  "separator c \<longleftrightarrow> c \<in> {32, 9, 13, 10, 45}"

definition upcase :: "nat \<Rightarrow> nat" where
  "upcase c = (if 97 \<le> c \<and> c \<le> 122 then c - 32 else c)"

text \<open>The argument is \<open>None\<close> when the value is not a string.\<close>

definition normalizePairingCode :: "jsstr option \<Rightarrow> jsstr option" where
  "normalizePairingCode v =
     (case v of
        None \<Rightarrow> None
      | Some s \<Rightarrow>
          let canonical = map upcase (filter (\<lambda>c. \<not> separator c) s)
          in if canonical_code canonical then Some canonical else None)"

lemma crockford_char_iff: "crockford_char c \<longleftrightarrow> c \<in> set CROCKFORD_ALPHABET"
proof -
  have "list_all (\<lambda>c. crockford_char c \<longleftrightarrow> c \<in> set CROCKFORD_ALPHABET) [0..<91]" by code_simp
  then have "\<forall>c \<in> {0..<91}. crockford_char c \<longleftrightarrow> c \<in> set CROCKFORD_ALPHABET"
    by (simp only: list_all_iff set_upt)
  moreover have "list_all (\<lambda>c. c < 91) CROCKFORD_ALPHABET" by code_simp
  then have "c \<in> set CROCKFORD_ALPHABET \<Longrightarrow> c < 91" by (simp add: list_all_iff)
  moreover have "crockford_char c \<Longrightarrow> c < 91" by (auto simp: crockford_char_def)
  ultimately show ?thesis by auto
qed

lemma crockford_not_separator: "crockford_char c \<Longrightarrow> \<not> separator c \<and> upcase c = c"
  by (auto simp: crockford_char_def separator_def upcase_def)

lemma normalize_canonical: "list_all crockford_char s \<Longrightarrow> map upcase (filter (\<lambda>c. \<not> separator c) s) = s"
  by (induction s) (auto simp: crockford_not_separator)

lemma separator_dash [simp]: "filter (\<lambda>c. \<not> separator c) (js ''-'') = []"
  by (simp add: js_def separator_def)

lemma format_normalize:
  assumes "canonical_code s" "formatPairingCode s = Some f"
  shows "normalizePairingCode (Some f) = Some s"
proof -
  have keep: "filter (\<lambda>c. \<not> separator c) s = s"
    using assms(1) by (auto simp: canonical_code_def list_all_iff crockford_not_separator intro!: filter_True)
  have part: "filter (\<lambda>c. \<not> separator c) (take n (drop m s)) = take n (drop m s)" for n m
    using assms(1) by (auto simp: canonical_code_def list_all_iff crockford_not_separator
        dest!: in_set_takeD in_set_dropD intro!: filter_True)
  have f: "f = take 4 (drop 0 s) @ js ''-'' @ take 4 (drop 4 s) @ js ''-'' @ take 4 (drop 8 s) @ js ''-'' @
             take 4 (drop 12 s)"
    using assms by (auto simp: formatPairingCode_def canonical_code_def)
  have "take 4 s @ take 4 (drop 4 s) = take 8 s" using take_add [of 4 4 s] by simp
  moreover have "take 8 s @ take 4 (drop 8 s) = take 12 s" using take_add [of 8 4 s] by simp
  ultimately have "take 4 s @ take 4 (drop 4 s) @ take 4 (drop 8 s) @ drop 12 s = s"
    by (metis append_assoc append_take_drop_id)
  then have whole: "take 4 (drop 0 s) @ take 4 (drop 4 s) @ take 4 (drop 8 s) @ take 4 (drop 12 s) = s"
    using assms(1) by (simp add: canonical_code_def)
  have "filter (\<lambda>c. \<not> separator c) f = s"
    unfolding f filter_append part separator_dash append_Nil by (rule whole)
  with assms(1) normalize_canonical [of s] keep show ?thesis
    by (simp add: normalizePairingCode_def canonical_code_def Let_def)
qed

section \<open>Device names\<close>

definition high_surrogate :: "nat \<Rightarrow> bool" where
  "high_surrogate c \<longleftrightarrow> 0xd800 \<le> c \<and> c \<le> 0xdbff"

definition low_surrogate :: "nat \<Rightarrow> bool" where
  "low_surrogate c \<longleftrightarrow> 0xdc00 \<le> c \<and> c \<le> 0xdfff"

fun hasUnpairedSurrogate :: "jsstr \<Rightarrow> bool" where
  "hasUnpairedSurrogate [] = False"
| "hasUnpairedSurrogate (code # rest) =
     (if high_surrogate code
      then (case rest of
              [] \<Rightarrow> True
            | next_code # rest' \<Rightarrow> \<not> low_surrogate next_code \<or> hasUnpairedSurrogate rest')
      else low_surrogate code \<or> hasUnpairedSurrogate rest)"

text \<open>\<open>[...s].length\<close>: a surrogate pair is one code point.\<close>

fun codePoints :: "jsstr \<Rightarrow> nat" where
  "codePoints [] = 0"
| "codePoints [c] = 1"
| "codePoints (c # d # rest) =
     (if high_surrogate c \<and> low_surrogate d then Suc (codePoints rest) else Suc (codePoints (d # rest)))"

text \<open>The Unicode property \<open>White_Space\<close>; all its code points are single code units.\<close>

definition white_space :: "nat \<Rightarrow> bool" where
  "white_space c \<longleftrightarrow> (9 \<le> c \<and> c \<le> 13) \<or> c = 32 \<or> c = 0x85 \<or> c = 0xa0 \<or> c = 0x1680 \<or>
     (0x2000 \<le> c \<and> c \<le> 0x200a) \<or> c = 0x2028 \<or> c = 0x2029 \<or> c = 0x202f \<or> c = 0x205f \<or> c = 0x3000"

definition strip_white_space :: "jsstr \<Rightarrow> jsstr" where
  "strip_white_space s = rev (dropWhile white_space (rev (dropWhile white_space s)))"

definition DEFAULT_DEVICE_NAME :: jsstr where
  "DEFAULT_DEVICE_NAME = js ''Telemetry device''"

text \<open>The argument is \<open>None\<close> for \<open>undefined\<close>.\<close>

definition normalizeDeviceName :: "json option \<Rightarrow> jsstr option" where
  "normalizeDeviceName v =
     (case v of
        None \<Rightarrow> Some DEFAULT_DEVICE_NAME
      | Some (JStr s) \<Rightarrow>
          if hasUnpairedSurrogate s then None
          else let normalized = strip_white_space s; n = codePoints normalized
               in if 0 < n \<and> n \<le> 64 then Some normalized else None
      | Some _ \<Rightarrow> None)"

lemma white_space_not_surrogate: "white_space c \<Longrightarrow> \<not> high_surrogate c \<and> \<not> low_surrogate c"
  by (auto simp: white_space_def high_surrogate_def low_surrogate_def)

lemma unpaired_dropWhile: "\<not> hasUnpairedSurrogate s \<Longrightarrow> \<not> hasUnpairedSurrogate (dropWhile white_space s)"
  by (induction s) (auto dest: white_space_not_surrogate)

lemma unpaired_butlast:
  "\<not> hasUnpairedSurrogate (s @ [c]) \<Longrightarrow> white_space c \<Longrightarrow> \<not> hasUnpairedSurrogate s"
proof (induction s rule: hasUnpairedSurrogate.induct)
  case (2 code rest)
  show ?case
  proof (cases "high_surrogate code")
    case True
    with "2.prems" show ?thesis
      using "2.IH"(1) [OF True] white_space_not_surrogate [of c] by (cases rest) auto
  next
    case False
    with 2 show ?thesis by simp
  qed
qed simp

lemma unpaired_strip_right:
  "\<not> hasUnpairedSurrogate s \<Longrightarrow> \<not> hasUnpairedSurrogate (rev (dropWhile white_space (rev s)))"
proof (induction s rule: rev_induct)
  case (snoc c s)
  then show ?case using unpaired_butlast [of s c] by auto
qed simp

lemma strip_well_formed: "\<not> hasUnpairedSurrogate s \<Longrightarrow> \<not> hasUnpairedSurrogate (strip_white_space s)"
  unfolding strip_white_space_def by (intro unpaired_strip_right unpaired_dropWhile)

lemma dropWhile_again: "dropWhile P (dropWhile P s) = dropWhile P s"
  by (induction s) auto

lemma strip_right_keeps_left:
  assumes "dropWhile P s = s"
  shows "dropWhile P (rev (dropWhile P (rev s))) = rev (dropWhile P (rev s))"
proof (cases "rev (dropWhile P (rev s))")
  case (Cons a t)
  have "rev s = takeWhile P (rev s) @ dropWhile P (rev s)" by simp
  then have "s = rev (dropWhile P (rev s)) @ rev (takeWhile P (rev s))"
    by (metis rev_append rev_rev_ident)
  with Cons have "\<exists>u. s = a # u" by (metis append_Cons)
  with assms have "\<not> P a" by (metis dropWhile.simps(2) dropWhile_eq_Cons_conv list.distinct(1) list.inject)
  with Cons show ?thesis by simp
next
  case Nil
  then show ?thesis by (simp only: dropWhile.simps)
qed

lemma strip_idem [simp]: "strip_white_space (strip_white_space s) = strip_white_space s"
  using strip_right_keeps_left [of white_space "dropWhile white_space s"]
  by (simp add: strip_white_space_def dropWhile_again)

lemma normalized_name_bound: "normalizeDeviceName v = Some name \<Longrightarrow> codePoints name \<le> 64"
proof (cases v)
  case None
  moreover have "codePoints DEFAULT_DEVICE_NAME = 16"
    by (simp add: DEFAULT_DEVICE_NAME_def js_def high_surrogate_def low_surrogate_def)
  ultimately show "normalizeDeviceName v = Some name \<Longrightarrow> ?thesis" by (auto simp: normalizeDeviceName_def)
next
  case (Some j)
  then show "normalizeDeviceName v = Some name \<Longrightarrow> ?thesis"
    by (auto simp: normalizeDeviceName_def Let_def split: json.splits if_splits)
qed

section \<open>Credentials and keyed hashes\<close>

text \<open>\<open>Buffer.toString("base64url")\<close>, and \<open>Buffer.from(_, "base64url")\<close>, which reads both base64
  alphabets and skips other characters.\<close>

definition BASE64URL :: jsstr where
  "BASE64URL = js ''ABCDEFGHIJKLMNOPQRSTUVWXYZabcdefghijklmnopqrstuvwxyz0123456789-_''"

fun base64url :: "nat list \<Rightarrow> jsstr" where
  "base64url [] = []"
| "base64url [a] = [BASE64URL ! (a div 4), BASE64URL ! (a mod 4 * 16)]"
| "base64url [a, b] =
     [BASE64URL ! (a div 4), BASE64URL ! (a mod 4 * 16 + b div 16), BASE64URL ! (b mod 16 * 4)]"
| "base64url (a # b # c # rest) =
     [BASE64URL ! (a div 4), BASE64URL ! (a mod 4 * 16 + b div 16),
      BASE64URL ! (b mod 16 * 4 + c div 64), BASE64URL ! (c mod 64)] @ base64url rest"

definition base64_digit :: "nat \<Rightarrow> nat option" where
  "base64_digit c =
     (if 65 \<le> c \<and> c \<le> 90 then Some (c - 65)
      else if 97 \<le> c \<and> c \<le> 122 then Some (c - 71)
      else if 48 \<le> c \<and> c \<le> 57 then Some (c + 4)
      else if c = 43 \<or> c = 45 then Some 62
      else if c = 47 \<or> c = 95 then Some 63
      else None)"

fun base64_bytes :: "nat list \<Rightarrow> nat list" where
  "base64_bytes (p # q # r # s # rest) =
     [p * 4 + q div 16, q mod 16 * 16 + r div 4, r mod 4 * 64 + s] @ base64_bytes rest"
| "base64_bytes [p, q, r] = [p * 4 + q div 16, q mod 16 * 16 + r div 4]"
| "base64_bytes [p, q] = [p * 4 + q div 16]"
| "base64_bytes _ = []"

definition base64url_decode :: "jsstr \<Rightarrow> nat list" where
  "base64url_decode s = base64_bytes (List.map_filter base64_digit s)"

lemma base64_digit_nth: "d < 64 \<Longrightarrow> base64_digit (BASE64URL ! d) = Some d"
proof -
  have "list_all (\<lambda>d. base64_digit (BASE64URL ! d) = Some d) [0..<64]" by code_simp
  then show "d < 64 \<Longrightarrow> ?thesis" by (simp add: list_all_iff)
qed

lemma is_buffer_simps [simp]:
  "is_buffer []" "is_buffer (b # bs) \<longleftrightarrow> b < 256 \<and> is_buffer bs"
  by (auto simp: is_buffer_def)

lemma base64_sextets:
  fixes a b c :: nat
  assumes "a < 256" "b < 256" "c < 256"
  shows "a div 4 < 64" "a mod 4 * 16 < 64" "a mod 4 * 16 + b div 16 < 64" "b mod 16 * 4 < 64"
    "b mod 16 * 4 + c div 64 < 64" "c mod 64 < 64"
  using assms by simp_all

lemma base64_bytes_back:
  fixes a b c :: nat
  assumes "a < 256" "b < 256" "c < 256"
  shows "a div 4 * 4 + a mod 4 * 16 div 16 = a" "a div 4 * 4 + (a mod 4 * 16 + b div 16) div 16 = a"
    "(a mod 4 * 16 + b div 16) mod 16 * 16 + b mod 16 * 4 div 4 = b"
    "(a mod 4 * 16 + b div 16) mod 16 * 16 + (b mod 16 * 4 + c div 64) div 4 = b"
    "(b mod 16 * 4 + c div 64) mod 4 * 64 + c mod 64 = c"
proof -
  have "b div 16 < 16" "c div 64 < 4" using assms by simp_all
  then have sextet: "(x * 16 + b div 16) div 16 = x" "(x * 16 + b div 16) mod 16 = b div 16"
    "(x * 4 + c div 64) div 4 = x" "(x * 4 + c div 64) mod 4 = c div 64" for x
    by (simp_all add: div_add1_eq)
  show "a div 4 * 4 + a mod 4 * 16 div 16 = a" "a div 4 * 4 + (a mod 4 * 16 + b div 16) div 16 = a"
    "(a mod 4 * 16 + b div 16) mod 16 * 16 + b mod 16 * 4 div 4 = b"
    "(a mod 4 * 16 + b div 16) mod 16 * 16 + (b mod 16 * 4 + c div 64) div 4 = b"
    "(b mod 16 * 4 + c div 64) mod 4 * 64 + c mod 64 = c"
    unfolding sextet by simp_all
qed

lemma map_filter_nil: "List.map_filter f [] = []"
  by (simp add: List.map_filter_def)

lemma map_filter_digit:
  "d < 64 \<Longrightarrow>
     List.map_filter base64_digit (BASE64URL ! d # xs) = d # List.map_filter base64_digit xs"
  by (simp add: List.map_filter_def base64_digit_nth)

lemma base64url_roundtrip: "is_buffer bs \<Longrightarrow> base64url_decode (base64url bs) = bs"
proof (induction bs rule: base64url.induct)
  case 1
  show ?case by (simp add: base64url_decode_def List.map_filter_def)
next
  case (2 a)
  then show ?case
    using base64_sextets [of a 0 0] base64_bytes_back [of a 0 0]
    by (simp only: base64url_decode_def base64url.simps is_buffer_simps map_filter_digit map_filter_nil
        base64_bytes.simps)
next
  case (3 a b)
  then show ?case
    using base64_sextets [of a b 0] base64_bytes_back [of a b 0]
    by (simp only: base64url_decode_def base64url.simps is_buffer_simps map_filter_digit map_filter_nil
        base64_bytes.simps)
next
  case (4 a b c rest)
  then show ?case
    using base64_sextets [of a b c] base64_bytes_back [of a b c]
    by (simp only: base64url_decode_def base64url.simps append_Cons append_Nil is_buffer_simps
        map_filter_digit base64_bytes.simps)
qed

lemma length_base64url: "length (base64url bs) = (4 * length bs + 2) div 3"
  by (induction bs rule: base64url.induct) auto

lemma base64url_alphabet: "is_buffer bs \<Longrightarrow> set (base64url bs) \<subseteq> set BASE64URL"
proof -
  have len: "length BASE64URL = 64" by (simp add: BASE64URL_def js_def)
  show "is_buffer bs \<Longrightarrow> ?thesis"
  proof (induction bs rule: base64url.induct)
    case (2 a)
    then show ?case using base64_sextets [of a 0 0] by (auto simp: len)
  next
    case (3 a b)
    then show ?case using base64_sextets [of a b 0] by (auto simp: len)
  next
    case (4 a b c rest)
    then show ?case using base64_sextets [of a b c] by (auto simp: len)
  qed simp
qed

text \<open>\<open>hmac pepper data\<close> stands for \<open>createHmac("sha256", pepper).update(data).digest("hex")\<close>.\<close>

definition hashPairingCode :: "(jsstr \<Rightarrow> jsstr \<Rightarrow> jsstr) \<Rightarrow> jsstr \<Rightarrow> jsstr \<Rightarrow> jsstr" where
  "hashPairingCode hmac pepper canonicalCode =
     hmac pepper (js ''verselink-telemetry-pairing:'' @ canonicalCode)"

definition generateDeviceCredential :: "nat list \<Rightarrow> jsstr" where
  "generateDeviceCredential random = js ''vlt_'' @ base64url random"

definition hashDeviceCredential :: "(jsstr \<Rightarrow> jsstr \<Rightarrow> jsstr) \<Rightarrow> jsstr \<Rightarrow> jsstr \<Rightarrow> jsstr" where
  "hashDeviceCredential hmac pepper credential =
     hmac pepper (js ''verselink-telemetry-device:'' @ credential)"

section \<open>Properties of codes and names\<close>

text \<open>A pairing code is the big-endian base-32 rendering of its ten random bytes: sixteen Crockford
  digits that spell the same number, so different bytes give different codes.\<close>

theorem pairing_code_faithful:
  assumes "length bytes = 10" "is_buffer bytes"
  shows "\<exists>code. encodePairingCode bytes = Some code \<and> canonical_code code \<and>
    code_value code = bytes_value bytes \<and>
    (\<forall>bytes'. is_buffer bytes' \<and> encodePairingCode bytes' = Some code \<longrightarrow> bytes' = bytes)"
proof -
  obtain code where code: "encodePairingCode bytes = Some code"
    using assms(1) by (simp add: encodePairingCode_def)
  note spelled = encodePairingCode_value [OF code assms(2)]
  have "bytes' = bytes" if "is_buffer bytes'" "encodePairingCode bytes' = Some code" for bytes'
    using encodePairingCode_value [OF that(2,1)] spelled that assms
    by (intro bytes_value_inject) (auto simp: encodePairingCode_def split: if_splits)
  with code spelled show ?thesis
    by (auto simp: canonical_code_def list_all_iff crockford_char_iff)
qed

theorem pairing_code_faithful_witness:
  "\<exists>code. encodePairingCode [255, 0, 1, 2, 3, 4, 5, 6, 7, 8] = Some code \<and> canonical_code code"
  using pairing_code_faithful [of "[255, 0, 1, 2, 3, 4, 5, 6, 7, 8]"] by auto

text \<open>C36. The displayed code reads back: whatever ten bytes were drawn, typing the grouped code in
  (in any case, with any of the separators the server ignores) gives the canonical code the
  hash is taken of.\<close>

theorem pairing_code_reads_back:
  assumes "length random = 10" "is_buffer random"
    and "map upcase (filter (\<lambda>c. \<not> separator c) typed) =
         map upcase (filter (\<lambda>c. \<not> separator c) displayed)"
    and "generatePairingCode random = Some displayed"
  shows "normalizePairingCode (Some typed) = encodePairingCode random"
proof -
  obtain code where code: "encodePairingCode random = Some code"
    using assms(1) by (simp add: encodePairingCode_def)
  with assms(4) have displayed: "formatPairingCode code = Some displayed"
    by (simp add: generatePairingCode_def)
  moreover from displayed have "canonical_code code" by (simp add: formatPairingCode_def split: if_splits)
  ultimately have "normalizePairingCode (Some displayed) = Some code" by (intro format_normalize)
  with assms(3) code show ?thesis by (simp add: normalizePairingCode_def Let_def)
qed

theorem pairing_code_reads_back_witness:
  "normalizePairingCode (Some (js '' 00000000 0000zzzz'')) =
   encodePairingCode [0, 0, 0, 0, 0, 0, 0, 15, 255, 255]"
proof -
  have "encodePairingCode [0, 0, 0, 0, 0, 0, 0, 15, 255, 255] = Some (js ''000000000000ZZZZ'')"
    by (simp add: encodePairingCode_def emit_digits.simps Let_def CROCKFORD_ALPHABET_def js_def)
  then have "generatePairingCode [0, 0, 0, 0, 0, 0, 0, 15, 255, 255] = Some (js ''0000-0000-0000-ZZZZ'')"
    by (simp add: generatePairingCode_def formatPairingCode_def canonical_code_def crockford_char_def js_def)
  then show ?thesis
    by (intro pairing_code_reads_back [where displayed = "js ''0000-0000-0000-ZZZZ''"])
      (simp_all add: js_def separator_def upcase_def)
qed

text \<open>An accepted device name is well-formed UTF-16 of 1 to 64 code points with no white space at
  either end, and normalising it again changes nothing; in particular it satisfies the column's
  length check.\<close>

theorem device_name_normal:
  assumes "normalizeDeviceName v = Some name"
  shows "\<not> hasUnpairedSurrogate name \<and> 1 \<le> codePoints name \<and> codePoints name \<le> 64 \<and>
    strip_white_space name = name \<and> normalizeDeviceName (Some (JStr name)) = Some name"
proof (cases v)
  case None
  with assms have "name = DEFAULT_DEVICE_NAME" by (simp add: normalizeDeviceName_def)
  moreover have "\<not> hasUnpairedSurrogate DEFAULT_DEVICE_NAME \<and> codePoints DEFAULT_DEVICE_NAME = 16 \<and>
      strip_white_space DEFAULT_DEVICE_NAME = DEFAULT_DEVICE_NAME"
    by (simp add: DEFAULT_DEVICE_NAME_def js_def high_surrogate_def low_surrogate_def
        strip_white_space_def white_space_def)
  ultimately show ?thesis by (simp add: normalizeDeviceName_def Let_def)
next
  case (Some j)
  with assms obtain s where s: "v = Some (JStr s)" "\<not> hasUnpairedSurrogate s" "name = strip_white_space s"
      "0 < codePoints name" "codePoints name \<le> 64"
    by (auto simp: normalizeDeviceName_def Let_def split: json.splits if_splits)
  moreover have "\<not> hasUnpairedSurrogate name" using s by (simp add: strip_well_formed)
  ultimately show ?thesis by (simp add: normalizeDeviceName_def Let_def)
qed

theorem device_name_normal_witness:
  "normalizeDeviceName (Some (JStr (js ''  My rig ''))) = Some (js ''My rig'') \<and>
   strip_white_space (js ''My rig'') = js ''My rig''"
proof -
  have "normalizeDeviceName (Some (JStr (js ''  My rig ''))) = Some (js ''My rig'')"
    by (simp add: normalizeDeviceName_def js_def high_surrogate_def low_surrogate_def
        strip_white_space_def white_space_def Let_def)
  with device_name_normal [OF this] show ?thesis by blast
qed

text \<open>C1. A generated credential has the shape the bearer parser accepts, and its random bytes can be read
  back from it, so different draws give different credentials.\<close>

theorem device_credential_faithful:
  assumes "length random = 32" "is_buffer random"
  shows "length (generateDeviceCredential random) = 47 \<and>
    base64url_decode (drop 4 (generateDeviceCredential random)) = random"
  using assms by (simp add: generateDeviceCredential_def js_def length_base64url base64url_roundtrip)

theorem device_credential_faithful_witness:
  "base64url_decode (drop 4 (generateDeviceCredential (replicate 32 7))) = replicate 32 7"
  using device_credential_faithful [of "replicate 32 7"] by (simp add: is_buffer_def)

end
