(* ===== verification/Telemetry_Db.thy ===== *)
theory Telemetry_Db
  imports Pairing_Code
begin

text \<open>
  The telemetry tables of the schema in \<open>src/src/server.js\<close> (\<open>schemaSql\<close>): accounts, paired
  devices, the current presence of each device, its history and the pairing codes. Times are
  microseconds; ids are canonical (lower-case) uuids. \<open>telemetry_ok\<close> collects the primary
  keys, unique indexes, foreign keys and CHECK constraints the schema declares; an
  operation that would break one raises in the code and is \<open>None\<close> or \<open>Throw\<close> here.
\<close>

section \<open>Rows\<close>

datatype account_status = Active | Blocked | Deleted

record app_user =
  user_id :: jsstr
  account_status :: account_status

record device =
  device_id :: jsstr
  app_user_id :: jsstr
  device_name :: jsstr
  credential_hash :: jsstr
  device_created_at :: int
  last_seen_at :: "int option"
  revoked_at :: "int option"
  last_presence_revision :: int

text \<open>The nine columns that \<open>projectPresence\<close> fills and that revisions are compared on.\<close>

record projection =
  schema_version :: int
  session_active :: "bool option"
  location_raw :: "jsstr option"
  location_observed_at :: "jsstr option"
  jurisdiction :: "jsstr option"
  ship_name :: "jsstr option"
  quantum_destination :: "jsstr option"
  quantum_state :: "jsstr option"
  last_event_at :: "jsstr option"

record presence =
  presence_device :: jsstr
  presence_revision :: int
  presence_snapshot :: projection
  presence_received_at :: int

record history_entry =
  entry_id :: jsstr
  entry_device :: jsstr
  entry_revision :: int
  entry_location_raw :: "jsstr option"
  entry_location_observed_at :: "jsstr option"
  entry_jurisdiction :: "jsstr option"
  entry_ship_name :: "jsstr option"
  entry_received_at :: int

record pairing_code =
  pairing_id :: jsstr
  pairing_user :: jsstr
  code_hash :: jsstr
  pairing_created_at :: int
  expires_at :: int
  consumed_at :: "int option"
  invalidated_at :: "int option"

record telemetry_db =
  app_users :: "app_user list"
  telemetry_devices :: "device list"
  telemetry_presence :: "presence list"
  telemetry_presence_history :: "history_entry list"
  telemetry_pairing_codes :: "pairing_code list"

section \<open>Constraints\<close>

text \<open>\<open>octet_length\<close> of a text column is the length of its UTF-8 encoding: per code unit 1, 2 or 3
  bytes, and 4 for a surrogate pair.\<close>

fun utf8_length :: "jsstr \<Rightarrow> nat" where
  "utf8_length [] = 0"
| "utf8_length (c # rest) =
     (if c < 0x80 then 1 + utf8_length rest
      else if c < 0x800 then 2 + utf8_length rest
      else if high_surrogate c then
        (case rest of
           d # rest' \<Rightarrow> if low_surrogate d then 4 + utf8_length rest' else 3 + utf8_length rest
         | [] \<Rightarrow> 3)
      else 3 + utf8_length rest)"

definition text_between :: "nat \<Rightarrow> nat \<Rightarrow> jsstr option \<Rightarrow> bool" where
  "text_between lo hi v =
     (case v of None \<Rightarrow> True | Some s \<Rightarrow> lo \<le> utf8_length s \<and> utf8_length s \<le> hi)"

definition quantum_states :: "jsstr list" where
  "quantum_states = [js ''target_selected'', js ''fuel_requested'', js ''arrived'']"

definition projection_checks :: "projection \<Rightarrow> bool" where
  "projection_checks p \<longleftrightarrow>
     schema_version p = 1 \<and>
     text_between 1 256 (location_raw p) \<and> text_between 0 128 (jurisdiction p) \<and>
     text_between 1 128 (ship_name p) \<and> text_between 0 256 (quantum_destination p) \<and>
     (case quantum_state p of None \<Rightarrow> True | Some s \<Rightarrow> s \<in> set quantum_states) \<and>
     (location_raw p = None) = (location_observed_at p = None) \<and>
     (quantum_state p \<noteq> None \<or> quantum_destination p = None)"

definition presence_checks :: "presence \<Rightarrow> bool" where
  "presence_checks p \<longleftrightarrow>
     projection_checks (presence_snapshot p) \<and>
     1 \<le> presence_revision p \<and> presence_revision p \<le> MAX_SAFE_INTEGER"

definition history_checks :: "history_entry \<Rightarrow> bool" where
  "history_checks h \<longleftrightarrow>
     1 \<le> entry_revision h \<and> entry_revision h \<le> MAX_SAFE_INTEGER \<and>
     text_between 1 256 (entry_location_raw h) \<and> text_between 0 128 (entry_jurisdiction h) \<and>
     text_between 1 128 (entry_ship_name h) \<and>
     (entry_location_raw h = None) = (entry_location_observed_at h = None)"

definition device_checks :: "device \<Rightarrow> bool" where
  "device_checks d \<longleftrightarrow>
     codePoints (device_name d) \<le> 64 \<and>
     0 \<le> last_presence_revision d \<and> last_presence_revision d \<le> MAX_SAFE_INTEGER"

definition pairing_checks :: "pairing_code \<Rightarrow> bool" where
  "pairing_checks c \<longleftrightarrow>
     pairing_created_at c < expires_at c \<and> \<not> (consumed_at c \<noteq> None \<and> invalidated_at c \<noteq> None)"

definition pairing_open :: "pairing_code \<Rightarrow> bool" where
  "pairing_open c \<longleftrightarrow> consumed_at c = None \<and> invalidated_at c = None"

definition telemetry_ok :: "telemetry_db \<Rightarrow> bool" where
  "telemetry_ok db \<longleftrightarrow>
     distinct (map user_id (app_users db)) \<and>
     distinct (map device_id (telemetry_devices db)) \<and>
     distinct (map credential_hash (telemetry_devices db)) \<and>
     (\<forall>d \<in> set (telemetry_devices db). device_checks d \<and> app_user_id d \<in> user_id ` set (app_users db)) \<and>
     distinct (map presence_device (telemetry_presence db)) \<and>
     (\<forall>p \<in> set (telemetry_presence db). presence_checks p \<and>
        presence_device p \<in> device_id ` set (telemetry_devices db)) \<and>
     distinct (map entry_id (telemetry_presence_history db)) \<and>
     distinct (map (\<lambda>h. (entry_device h, entry_revision h)) (telemetry_presence_history db)) \<and>
     (\<forall>h \<in> set (telemetry_presence_history db). history_checks h \<and>
        entry_device h \<in> device_id ` set (telemetry_devices db)) \<and>
     distinct (map pairing_id (telemetry_pairing_codes db)) \<and>
     distinct (map code_hash (telemetry_pairing_codes db)) \<and>
     distinct (map pairing_user (filter pairing_open (telemetry_pairing_codes db))) \<and>
     (\<forall>c \<in> set (telemetry_pairing_codes db). pairing_checks c \<and>
        pairing_user c \<in> user_id ` set (app_users db))"

definition find_user :: "telemetry_db \<Rightarrow> jsstr \<Rightarrow> app_user option" where
  "find_user db uid = find (\<lambda>u. user_id u = uid) (app_users db)"

definition find_device :: "telemetry_db \<Rightarrow> jsstr \<Rightarrow> device option" where
  "find_device db did = find (\<lambda>d. device_id d = did) (telemetry_devices db)"

definition find_presence :: "telemetry_db \<Rightarrow> jsstr \<Rightarrow> presence option" where
  "find_presence db did = find (\<lambda>p. presence_device p = did) (telemetry_presence db)"

text \<open>PostgreSQL's \<open>text\<close> cannot hold a NUL character: a parameter with one makes the query raise.\<close>

definition pg_text :: "jsstr \<Rightarrow> bool" where
  "pg_text s \<longleftrightarrow> 0 \<notin> set s"

definition pg_text_option :: "jsstr option \<Rightarrow> bool" where
  "pg_text_option v = (case v of None \<Rightarrow> True | Some s \<Rightarrow> pg_text s)"

definition projection_storable :: "projection \<Rightarrow> bool" where
  "projection_storable p \<longleftrightarrow>
     list_all pg_text_option [location_raw p, location_observed_at p, jurisdiction p, ship_name p,
       quantum_destination p, quantum_state p, last_event_at p]"

text \<open>The uuids of the path and the queries: \<open>uuidPattern\<close> accepts upper case, the column compares the
  canonical form.\<close>

definition lowcase :: "nat \<Rightarrow> nat" where
  "lowcase c = (if 65 \<le> c \<and> c \<le> 90 then c + 32 else c)"

definition uuid_canonical :: "jsstr \<Rightarrow> jsstr" where
  "uuid_canonical s = map lowcase s"

definition hex_digit :: "nat \<Rightarrow> bool" where
  "hex_digit c \<longleftrightarrow> (48 \<le> c \<and> c \<le> 57) \<or> (97 \<le> c \<and> c \<le> 102) \<or> (65 \<le> c \<and> c \<le> 70)"

definition uuid_shape :: "nat \<Rightarrow> jsstr \<Rightarrow> bool" where
  "uuid_shape max_version s \<longleftrightarrow>
     length s = 36 \<and>
     (\<forall>i \<in> set [0..<36]. if i \<in> {8, 13, 18, 23} then s ! i = 45 else hex_digit (s ! i)) \<and>
     49 \<le> s ! 14 \<and> s ! 14 \<le> 48 + max_version \<and>
     s ! 19 \<in> {56, 57, 97, 98, 65, 66}"

section \<open>Lemmas on lookups and the invariant\<close>

lemma find_device_Some:
  "find_device db did = Some d \<Longrightarrow> d \<in> set (telemetry_devices db) \<and> device_id d = did"
  unfolding find_device_def by (rule find_Some_mem)

lemma find_user_Some: "find_user db uid = Some u \<Longrightarrow> u \<in> set (app_users db) \<and> user_id u = uid"
  unfolding find_user_def by (rule find_Some_mem)

lemma find_presence_Some:
  "find_presence db did = Some p \<Longrightarrow> p \<in> set (telemetry_presence db) \<and> presence_device p = did"
  unfolding find_presence_def by (rule find_Some_mem)

lemma telemetry_okD:
  assumes "telemetry_ok db"
  shows ok_users: "distinct (map user_id (app_users db))"
    and ok_devices: "distinct (map device_id (telemetry_devices db))"
    and ok_credentials: "distinct (map credential_hash (telemetry_devices db))"
    and ok_presence: "distinct (map presence_device (telemetry_presence db))"
    and ok_codes: "distinct (map pairing_id (telemetry_pairing_codes db))"
    and ok_code_hashes: "distinct (map code_hash (telemetry_pairing_codes db))"
    and ok_open: "distinct (map pairing_user (filter pairing_open (telemetry_pairing_codes db)))"
  using assms by (simp_all add: telemetry_ok_def)

end
