(* ===== verification/Session.thy ===== *)
theory Session
  imports Telemetry_Db
begin

text \<open>
  Who a browser request speaks for: the origin check (\<open>src/src/request-origin.js\<close>), the cookie
  parser and the session lookups of \<open>src/src/server.js\<close> (\<open>parseCookies\<close>, \<open>getSessionContext\<close>,
  \<open>pairingBrowserAccount\<close>), and the shapes of the secret tokens
  (\<open>src/src/auth-primitives.js\<close>). The URL parser, \<open>decodeURIComponent\<close> and the keyed hash are
  parameters.
\<close>

section \<open>createOriginChecker\<close>

text \<open>\<open>url_origin s\<close> is \<open>new URL(s).origin\<close>, \<open>None\<close> when the constructor throws; the header is \<open>None\<close>
  when it is missing.\<close>

definition createOriginChecker ::
    "(jsstr \<Rightarrow> jsstr option) \<Rightarrow> jsstr \<Rightarrow> bool \<Rightarrow> bool \<Rightarrow> jsstr option \<Rightarrow> bool" where
  "createOriginChecker url_origin configuredAppUrl requireOrigin exactOrigin origin =
     (case origin of
        None \<Rightarrow> \<not> requireOrigin
      | Some o' \<Rightarrow>
          if o' = [] then \<not> requireOrigin
          else (case url_origin configuredAppUrl of
                  None \<Rightarrow> False
                | Some expectedOrigin \<Rightarrow>
                    (case url_origin o' of
                       None \<Rightarrow> False
                     | Some parsed \<Rightarrow> parsed = expectedOrigin \<and> (\<not> exactOrigin \<or> o' = parsed))))"

section \<open>Cookies\<close>

fun split_on :: "nat \<Rightarrow> jsstr \<Rightarrow> jsstr list" where
  "split_on sep [] = [[]]"
| "split_on sep (c # s) =
     (if c = sep then [] # split_on sep s
      else case split_on sep s of p # ps \<Rightarrow> (c # p) # ps | [] \<Rightarrow> [[c]])"

fun join_with :: "nat \<Rightarrow> jsstr list \<Rightarrow> jsstr" where
  "join_with sep [] = []"
| "join_with sep [p] = p"
| "join_with sep (p # ps) = p @ sep # join_with sep ps"

definition trim_space :: "nat \<Rightarrow> bool" where
  "trim_space c \<longleftrightarrow> (white_space c \<and> c \<noteq> 0x85) \<or> c = 0xfeff"

definition js_trim :: "jsstr \<Rightarrow> jsstr" where
  "js_trim s = rev (dropWhile trim_space (rev (dropWhile trim_space s)))"

text \<open>One \<open>key=value\<close> part; \<open>None\<close> when \<open>decodeURIComponent\<close> throws.\<close>

definition cookie_part :: "(jsstr \<Rightarrow> jsstr option) \<Rightarrow> jsstr \<Rightarrow> (jsstr \<times> jsstr) option" where
  "cookie_part decode part =
     (case split_on 61 (js_trim part) of
        key # val \<Rightarrow> map_option (Pair key) (decode (join_with 61 val))
      | [] \<Rightarrow> None)"

text \<open>\<open>Object.fromEntries\<close> keeps the last of equal keys; parts with an empty key are dropped.\<close>

definition parseCookies :: "(jsstr \<Rightarrow> jsstr option) \<Rightarrow> jsstr \<Rightarrow> (jsstr \<times> jsstr) list option" where
  "parseCookies decode hdr =
     (let parts = map (cookie_part decode) (split_on 59 hdr)
      in if None \<in> set parts then None
         else Some (filter (\<lambda>(key, v). key \<noteq> []) (rev (map the parts))))"

definition token_char :: "nat \<Rightarrow> bool" where
  "token_char c \<longleftrightarrow> (65 \<le> c \<and> c \<le> 90) \<or> (97 \<le> c \<and> c \<le> 122) \<or> (48 \<le> c \<and> c \<le> 57) \<or> c = 95 \<or> c = 45"

definition sessionPattern :: "jsstr \<Rightarrow> bool" where
  "sessionPattern s \<longleftrightarrow> 32 \<le> length s \<and> list_all token_char s"

section \<open>Sessions\<close>

record dashboard_session =
  session_hash :: jsstr
  session_user :: jsstr
  session_expires_at :: int

definition hashSession :: "(jsstr \<Rightarrow> jsstr \<Rightarrow> jsstr) \<Rightarrow> jsstr \<Rightarrow> jsstr \<Rightarrow> jsstr" where
  "hashSession hmac pepper session = hmac pepper (js ''session:'' @ session)"

definition find_session :: "dashboard_session list \<Rightarrow> jsstr \<Rightarrow> int \<Rightarrow> dashboard_session option" where
  "find_session sessions h now = find (\<lambda>r. session_hash r = h \<and> now < session_expires_at r) sessions"

definition cookie_session :: "(jsstr \<times> jsstr) list \<Rightarrow> jsstr option" where
  "cookie_session cookies =
     (case map_of cookies (js ''bp_session'') of
        None \<Rightarrow> None | Some s \<Rightarrow> if sessionPattern s then Some s else None)"

text \<open>\<open>getSessionContext\<close>: the account id of an unexpired session of an active account. (When the cookie
  cannot be decoded the exception reaches the server's catch block; that is \<open>None\<close> here too.)\<close>

definition getSessionContext ::
    "(jsstr \<Rightarrow> jsstr option) \<Rightarrow> (jsstr \<Rightarrow> jsstr \<Rightarrow> jsstr) \<Rightarrow> jsstr \<Rightarrow> jsstr \<Rightarrow> dashboard_session list \<Rightarrow>
     app_user list \<Rightarrow> int \<Rightarrow> jsstr option" where
  "getSessionContext decode hmac pepper cookie sessions users now =
     (case parseCookies decode cookie of
        None \<Rightarrow> None
      | Some cookies \<Rightarrow>
          (case cookie_session cookies of
             None \<Rightarrow> None
           | Some session \<Rightarrow>
               (case find_session sessions (hashSession hmac pepper session) now of
                  None \<Rightarrow> None
                | Some row \<Rightarrow>
                    (case find (\<lambda>u. user_id u = session_user row) users of
                       None \<Rightarrow> None
                     | Some u \<Rightarrow> if account_status u = Active then Some (session_user row) else None))))"

datatype browser_account = Unauthenticated | Inactive jsstr | Active_account jsstr

definition pairingBrowserAccount ::
    "(jsstr \<Rightarrow> jsstr option) \<Rightarrow> (jsstr \<Rightarrow> jsstr \<Rightarrow> jsstr) \<Rightarrow> jsstr \<Rightarrow> jsstr \<Rightarrow> dashboard_session list \<Rightarrow>
     app_user list \<Rightarrow> int \<Rightarrow> browser_account" where
  "pairingBrowserAccount decode hmac pepper cookie sessions users now =
     (case parseCookies decode cookie of
        None \<Rightarrow> Unauthenticated
      | Some cookies \<Rightarrow>
          (case cookie_session cookies of
             None \<Rightarrow> Unauthenticated
           | Some session \<Rightarrow>
               (case find_session sessions (hashSession hmac pepper session) now of
                  None \<Rightarrow> Unauthenticated
                | Some row \<Rightarrow>
                    (case find (\<lambda>u. user_id u = session_user row) users of
                       None \<Rightarrow> Unauthenticated
                     | Some u \<Rightarrow>
                         if account_status u \<noteq> Active then Inactive (session_user row)
                         else Active_account (session_user row)))))"

section \<open>Token shapes\<close>

definition recoveryTokenPattern :: "jsstr \<Rightarrow> bool" where
  "recoveryTokenPattern s \<longleftrightarrow>
     take 4 s = js ''vlr_'' \<and> list_all token_char (drop 4 s) \<and> 43 \<le> length (drop 4 s) \<and> length (drop 4 s) \<le> 64"

definition generateRecoveryToken :: "nat list \<Rightarrow> jsstr" where
  "generateRecoveryToken random = js ''vlr_'' @ base64url random"

definition isRecoveryToken :: "jsstr option \<Rightarrow> bool" where
  "isRecoveryToken token = recoveryTokenPattern (case token of None \<Rightarrow> [] | Some s \<Rightarrow> s)"

definition hashRecoveryToken :: "(jsstr \<Rightarrow> jsstr \<Rightarrow> jsstr) \<Rightarrow> jsstr \<Rightarrow> jsstr \<Rightarrow> jsstr" where
  "hashRecoveryToken hmac pepper token = hmac pepper (js ''verselink-recovery:'' @ token)"

definition verseLinkTokenPattern :: "jsstr \<Rightarrow> bool" where
  "verseLinkTokenPattern s \<longleftrightarrow>
     take 3 s = js ''vl_'' \<and> list_all token_char (drop 3 s) \<and> 43 \<le> length (drop 3 s) \<and> length (drop 3 s) \<le> 64"

definition generateVerseLinkToken :: "nat list \<Rightarrow> jsstr" where
  "generateVerseLinkToken random = js ''vl_'' @ base64url random"

definition hashAuthToken :: "(jsstr \<Rightarrow> jsstr \<Rightarrow> jsstr) \<Rightarrow> jsstr \<Rightarrow> jsstr \<Rightarrow> jsstr" where
  "hashAuthToken hmac pepper token = hmac pepper (js ''verselink-auth:'' @ token)"

section \<open>Properties\<close>

text \<open>The strict origin check of the mutating telemetry routes lets a request through exactly when its
  \<open>Origin\<close> header is, character for character, the origin of the configured application URL.\<close>

theorem strict_origin_exact:
  assumes "\<And>e. url_origin configured = Some e \<Longrightarrow> url_origin e = Some e \<and> e \<noteq> []"
  shows "createOriginChecker url_origin configured True True origin \<longleftrightarrow>
    origin \<noteq> None \<and> origin = url_origin configured"
  using assms by (auto simp: createOriginChecker_def split: option.splits)

theorem strict_origin_exact_witness:
  "createOriginChecker (\<lambda>s. if take 10 s = js ''https://vl'' then Some (js ''https://vl'') else None)
     (js ''https://vl/app'') True True (Some (js ''https://vl'')) \<and>
   \<not> createOriginChecker (\<lambda>s. if take 10 s = js ''https://vl'' then Some (js ''https://vl'') else None)
     (js ''https://vl/app'') True True (Some (js ''https://vl/app''))"
  using strict_origin_exact [of "\<lambda>s. if take 10 s = js ''https://vl'' then Some (js ''https://vl'') else None"
    "js ''https://vl/app''"] by (simp add: js_def split: if_splits)

lemma split_on_Cons: "\<exists>p ps. split_on sep s = p # ps"
  by (induction s) (auto split: list.splits)

lemma join_split: "join_with sep (split_on sep s) = s"
proof (induction s)
  case (Cons c s)
  obtain p ps where "split_on sep s = p # ps" using split_on_Cons by blast
  with Cons show ?case by (cases ps) auto
qed simp

lemma cookie_value_roundtrip:
  assumes "decode = Some" "61 \<notin> set key" "js_trim (key @ 61 # v) = key @ 61 # v"
  shows "cookie_part decode (key @ 61 # v) = Some (key, v)"
proof -
  have "split_on 61 (key @ 61 # v) = key # split_on 61 v"
    using assms(2) by (induction key) (auto split: list.splits)
  with assms show ?thesis by (simp add: cookie_part_def join_split)
qed

lemma find_session_Some:
  assumes "distinct (map session_hash sessions)"
  shows "find_session sessions h now = Some row \<longleftrightarrow>
    row \<in> set sessions \<and> session_hash row = h \<and> now < session_expires_at row"
proof
  assume "find_session sessions h now = Some row"
  then show "row \<in> set sessions \<and> session_hash row = h \<and> now < session_expires_at row"
    unfolding find_session_def by (auto dest: find_Some_mem)
next
  assume row: "row \<in> set sessions \<and> session_hash row = h \<and> now < session_expires_at row"
  then obtain r where r: "find_session sessions h now = Some r"
    using find_none_iff [of "\<lambda>r. session_hash r = h \<and> now < session_expires_at r" sessions]
    unfolding find_session_def by (cases "find (\<lambda>r. session_hash r = h \<and> now < session_expires_at r) sessions") auto
  then have "r \<in> set sessions \<and> session_hash r = h" unfolding find_session_def by (auto dest: find_Some_mem)
  with row key_unique [OF assms] have "r = row" by blast
  with r show "find_session sessions h now = Some row" by simp
qed

text \<open>C35. A browser session names an account only through an unexpired session row and only while the account
  is active.\<close>

theorem session_exact:
  assumes "distinct (map session_hash sessions)" "distinct (map user_id users)"
    and "parseCookies decode cookie = Some cookies"
  shows "getSessionContext decode hmac pepper cookie sessions users now = Some uid \<longleftrightarrow>
    (\<exists>session row u. cookie_session cookies = Some session \<and> row \<in> set sessions \<and>
       session_hash row = hashSession hmac pepper session \<and> now < session_expires_at row \<and>
       session_user row = uid \<and> u \<in> set users \<and> user_id u = uid \<and> account_status u = Active)"
    (is "_ \<longleftrightarrow> ?rhs")
proof
  assume "getSessionContext decode hmac pepper cookie sessions users now = Some uid"
  with assms show ?rhs
    by (fastforce simp: getSessionContext_def find_session_Some find_key_Some split: option.splits if_splits)
next
  assume ?rhs
  then obtain session row u where *: "cookie_session cookies = Some session"
    "row \<in> set sessions \<and> session_hash row = hashSession hmac pepper session \<and> now < session_expires_at row"
    "session_user row = uid" "u \<in> set users" "user_id u = uid" "account_status u = Active" by blast
  then have "find (\<lambda>u. user_id u = uid) users = Some u" using assms(2) by (simp add: find_key_Some)
  moreover have "find_session sessions (hashSession hmac pepper session) now = Some row"
    using * assms(1) by (simp add: find_session_Some)
  ultimately show "getSessionContext decode hmac pepper cookie sessions users now = Some uid"
    using * assms(3) by (simp add: getSessionContext_def)
qed

theorem session_exact_witness:
  "getSessionContext Some (\<lambda>p x. x) [] (js ''a=1; bp_session=0123456789abcdef0123456789abcdef'')
     [\<lparr>session_hash = js ''session:0123456789abcdef0123456789abcdef'', session_user = js ''u'', session_expires_at = 9\<rparr>]
     [\<lparr>user_id = js ''u'', account_status = Active\<rparr>] 5 = Some (js ''u'')"
proof -
  let ?cookie = "js ''a=1; bp_session=0123456789abcdef0123456789abcdef''"
  let ?s = "js ''0123456789abcdef0123456789abcdef''"
  have cookies: "parseCookies Some ?cookie = Some [(js ''bp_session'', ?s), (js ''a'', js ''1'')]"
    by (simp add: parseCookies_def cookie_part_def js_trim_def trim_space_def white_space_def js_def)
  have "cookie_session [(js ''bp_session'', ?s), (js ''a'', js ''1'')] = Some ?s"
    by (simp add: cookie_session_def sessionPattern_def token_char_def js_def)
  then show ?thesis
    by (subst session_exact [OF _ _ cookies]) (simp_all add: hashSession_def js_def)
qed

end
