(* ===== verification/Device_Auth.thy ===== *)
theory Device_Auth
  imports Telemetry_Db
begin

text \<open>
  Device authentication (\<open>src/src/telemetry-device-auth.js\<close>) and the helpers of
  \<open>src/src/server.js\<close> that the telemetry routes answer with (\<open>telemetryError\<close>,
  \<open>telemetryRateLimited\<close>) and read their bodies with (\<open>readTelemetryJson\<close>). \<open>JSON.parse\<close> and
  the keyed hash are parameters.
\<close>

section \<open>The request's headers\<close>

text \<open>Node fills \<open>rawHeaders\<close> (name and value alternating), \<open>headersDistinct\<close> and \<open>headers\<close>; a field
  is \<open>None\<close> when it is missing (or, for \<open>headers\<close>, not a string).\<close>

record http_request =
  rawHeaders :: "jsstr list option"
  headersDistinct_authorization :: "jsstr list option"
  headers_authorization :: "jsstr option"
  content_type :: jsstr

fun authorization_values :: "jsstr list \<Rightarrow> jsstr list" where
  "authorization_values (name # val # rest) =
     (if map lowcase name = js ''authorization'' then val # authorization_values rest
      else authorization_values rest)"
| "authorization_values _ = []"

definition only_value :: "jsstr list \<Rightarrow> jsstr option" where
  "only_value vs = (case vs of [v] \<Rightarrow> Some v | _ \<Rightarrow> None)"

definition authorizationValue :: "http_request \<Rightarrow> jsstr option" where
  "authorizationValue request =
     (case rawHeaders request of
        Some raw \<Rightarrow> if odd (length raw) then None else only_value (authorization_values raw)
      | None \<Rightarrow>
          (case headersDistinct_authorization request of
             Some vs \<Rightarrow> only_value vs
           | None \<Rightarrow> headers_authorization request))"

definition base64url_char :: "nat \<Rightarrow> bool" where
  "base64url_char c \<longleftrightarrow>
     (65 \<le> c \<and> c \<le> 90) \<or> (97 \<le> c \<and> c \<le> 122) \<or> (48 \<le> c \<and> c \<le> 57) \<or> c = 95 \<or> c = 45"

text \<open>\<open>/^vlt_[A-Za-z0-9_-]{43}$/\<close> and \<open>/^Bearer (vlt_[A-Za-z0-9_-]{43})$/\<close>.\<close>

definition credentialPattern :: "jsstr \<Rightarrow> bool" where
  "credentialPattern s \<longleftrightarrow> length s = 47 \<and> take 4 s = js ''vlt_'' \<and> list_all base64url_char (drop 4 s)"

definition bearerPattern :: "jsstr \<Rightarrow> jsstr option" where
  "bearerPattern s =
     (if take 7 s = js ''Bearer '' \<and> credentialPattern (drop 7 s) then Some (drop 7 s) else None)"

definition parseDeviceAuthorization :: "http_request \<Rightarrow> jsstr option" where
  "parseDeviceAuthorization request =
     (case authorizationValue request of
        None \<Rightarrow> None
      | Some v \<Rightarrow>
          (case bearerPattern v of
             Some credential \<Rightarrow> if credentialPattern credential then Some credential else None
           | None \<Rightarrow> None))"

section \<open>Answers of the telemetry routes\<close>

definition telemetryError :: "nat \<Rightarrow> string \<Rightarrow> int option \<Rightarrow> response" where
  "telemetryError status code retryAfter =
     \<lparr>r_status = status,
      r_headers = (case retryAfter of None \<Rightarrow> [] | Some n \<Rightarrow> [Retry_After (max 0 n)]),
      r_body = Some (error_body code)\<rparr>"

definition telemetryRateLimited :: "int \<Rightarrow> response" where
  "telemetryRateLimited retryAfter = telemetryError 429 ''rate_limited'' (Some retryAfter)"

datatype auth_result =
    Invalid_device_credential
  | Device_revoked
  | Account_inactive
  | Authenticated (auth_device: jsstr) (auth_user: jsstr)

definition deviceAuthHttpMetadata :: "auth_result \<Rightarrow> response option" where
  "deviceAuthHttpMetadata result =
     (case result of
        Invalid_device_credential \<Rightarrow>
          Some \<lparr>r_status = 401, r_headers = [WWW_Authenticate_Bearer],
                r_body = Some (error_body ''invalid_device_credential'')\<rparr>
      | Device_revoked \<Rightarrow>
          Some \<lparr>r_status = 401, r_headers = [WWW_Authenticate_Bearer],
                r_body = Some (error_body ''device_revoked'')\<rparr>
      | Account_inactive \<Rightarrow>
          Some \<lparr>r_status = 403, r_headers = [], r_body = Some (error_body ''account_inactive'')\<rparr>
      | Authenticated d u \<Rightarrow> None)"

section \<open>authenticateTelemetryDevice\<close>

definition find_credential :: "telemetry_db \<Rightarrow> jsstr \<Rightarrow> device option" where
  "find_credential db h = find (\<lambda>d. credential_hash d = h) (telemetry_devices db)"

text \<open>The join with \<open>app_users\<close> finds no row when the device's owner is missing.\<close>

definition authenticateTelemetryDevice ::
    "(jsstr \<Rightarrow> jsstr \<Rightarrow> jsstr) \<Rightarrow> jsstr \<Rightarrow> http_request \<Rightarrow> telemetry_db \<Rightarrow> auth_result" where
  "authenticateTelemetryDevice hmac pepper request db =
     (case parseDeviceAuthorization request of
        None \<Rightarrow> Invalid_device_credential
      | Some credential \<Rightarrow>
          (case find_credential db (hashDeviceCredential hmac pepper credential) of
             None \<Rightarrow> Invalid_device_credential
           | Some d \<Rightarrow>
               (case find_user db (app_user_id d) of
                  None \<Rightarrow> Invalid_device_credential
                | Some u \<Rightarrow>
                    if revoked_at d \<noteq> None then Device_revoked
                    else if account_status u \<noteq> Active then Account_inactive
                    else Authenticated (device_id d) (app_user_id d))))"

section \<open>readTelemetryJson\<close>

text \<open>The incoming body: its text with its size in bytes, or a stream that fails.\<close>

datatype incoming = Body_text jsstr nat | Body_fails

datatype parsed_body = Parsed obj | Body_error nat string

definition js_space :: "nat \<Rightarrow> bool" where
  "js_space c \<longleftrightarrow> (white_space c \<and> c \<noteq> 0x85) \<or> c = 0xfeff"

text \<open>\<open>/^application\/json(?:\s*;|$)/i\<close>.\<close>

definition json_content_type :: "jsstr \<Rightarrow> bool" where
  "json_content_type ct \<longleftrightarrow>
     map lowcase (take 16 ct) = js ''application/json'' \<and>
     (drop 16 ct = [] \<or>
      (case dropWhile js_space (drop 16 ct) of c # _ \<Rightarrow> c = 59 | [] \<Rightarrow> False))"

definition readTelemetryJson ::
    "(jsstr \<Rightarrow> json option) \<Rightarrow> http_request \<Rightarrow> incoming \<Rightarrow> nat \<Rightarrow> parsed_body" where
  "readTelemetryJson json_parse request body maxBytes =
     (if \<not> json_content_type (content_type request) then Body_error 400 ''invalid_payload''
      else case body of
        Body_fails \<Rightarrow> Body_error 400 ''invalid_payload''
      | Body_text text_read size_read \<Rightarrow>
          if maxBytes < size_read then Body_error 413 ''payload_too_large''
          else case json_parse text_read of
            Some (JObj ob) \<Rightarrow> Parsed ob
          | _ \<Rightarrow> Body_error 400 ''invalid_payload'')"

section \<open>Properties\<close>

lemma base64url_char_alphabet: "c \<in> set BASE64URL \<Longrightarrow> base64url_char c"
proof -
  have "list_all base64url_char BASE64URL"
    by (simp add: BASE64URL_def js_def base64url_char_def)
  then show "c \<in> set BASE64URL \<Longrightarrow> ?thesis" by (simp add: list_all_iff)
qed

lemma generated_credential_pattern:
  "length random = 32 \<Longrightarrow> is_buffer random \<Longrightarrow> credentialPattern (generateDeviceCredential random)"
  using base64url_alphabet [of random]
  by (auto simp: credentialPattern_def generateDeviceCredential_def js_def length_base64url
      list_all_iff intro: base64url_char_alphabet)

lemma find_credential_Some:
  "find_credential db h = Some d \<Longrightarrow> d \<in> set (telemetry_devices db) \<and> credential_hash d = h"
  unfolding find_credential_def by (rule find_Some_mem)

lemma authenticated_device:
  assumes "authenticateTelemetryDevice hmac pepper request db = Authenticated did uid"
  shows "\<exists>credential d u. parseDeviceAuthorization request = Some credential \<and>
    d \<in> set (telemetry_devices db) \<and> credential_hash d = hashDeviceCredential hmac pepper credential \<and>
    device_id d = did \<and> app_user_id d = uid \<and> revoked_at d = None \<and>
    u \<in> set (app_users db) \<and> user_id u = uid \<and> account_status u = Active"
  using assms
  by (auto simp: authenticateTelemetryDevice_def dest!: find_credential_Some find_user_Some
      split: option.splits if_splits)

text \<open>A generated credential sent once as a bearer token is what the parser gives back, wherever the
  header stands among others and however its name is capitalised; two authorization headers are
  refused.\<close>

theorem bearer_roundtrip:
  assumes "length random = 32" "is_buffer random"
    and "even (length before)" "even (length after)"
    and "authorization_values before = []" "authorization_values after = others"
    and "map lowcase name = js ''authorization''"
    and "rawHeaders request = Some (before @ [name, js ''Bearer '' @ generateDeviceCredential random] @ after)"
  shows "parseDeviceAuthorization request =
    (if others = [] then Some (generateDeviceCredential random) else None)"
proof -
  have app: "authorization_values (xs @ ys) = authorization_values xs @ authorization_values ys"
    if "even (length xs)" for xs ys
    using that by (induction xs rule: authorization_values.induct) auto
  note pattern = generated_credential_pattern [OF assms(1,2)]
  have "authorizationValue request =
      only_value ((js ''Bearer '' @ generateDeviceCredential random) # others)"
    using assms by (simp add: authorizationValue_def app)
  moreover have "bearerPattern (js ''Bearer '' @ generateDeviceCredential random) =
      Some (generateDeviceCredential random)"
    using pattern by (simp add: bearerPattern_def js_def)
  ultimately show ?thesis
    using pattern by (cases others) (simp_all add: parseDeviceAuthorization_def only_value_def)
qed

theorem bearer_roundtrip_witness:
  "parseDeviceAuthorization
     \<lparr>rawHeaders = Some [js ''Host'', js ''x'', js ''AUTHORIZATION'',
        js ''Bearer '' @ generateDeviceCredential (replicate 32 0)],
      headersDistinct_authorization = None, headers_authorization = None, content_type = []\<rparr> =
   Some (generateDeviceCredential (replicate 32 0))"
  using bearer_roundtrip [of "replicate 32 0" "[js ''Host'', js ''x'']" "[]" "[]" "js ''AUTHORIZATION''"
    "\<lparr>rawHeaders = Some [js ''Host'', js ''x'', js ''AUTHORIZATION'',
        js ''Bearer '' @ generateDeviceCredential (replicate 32 0)],
      headersDistinct_authorization = None, headers_authorization = None, content_type = []\<rparr>"]
  by (simp add: is_buffer_def js_def lowcase_def)

text \<open>C22. Authentication succeeds exactly for the credential of a device that is not revoked and whose
  account is active, with that device and account; it never changes the database.\<close>

theorem authentication_exact:
  assumes "telemetry_ok db"
  shows "authenticateTelemetryDevice hmac pepper request db = Authenticated did uid \<longleftrightarrow>
    (\<exists>credential d u. parseDeviceAuthorization request = Some credential \<and>
       d \<in> set (telemetry_devices db) \<and> credential_hash d = hashDeviceCredential hmac pepper credential \<and>
       device_id d = did \<and> app_user_id d = uid \<and> revoked_at d = None \<and>
       u \<in> set (app_users db) \<and> user_id u = uid \<and> account_status u = Active)"
    (is "_ \<longleftrightarrow> ?rhs")
proof
  assume ?rhs
  then obtain credential d u where d: "parseDeviceAuthorization request = Some credential"
      "d \<in> set (telemetry_devices db)" "credential_hash d = hashDeviceCredential hmac pepper credential"
      "device_id d = did" "app_user_id d = uid" "revoked_at d = None"
    and u: "u \<in> set (app_users db)" "user_id u = uid" "account_status u = Active" by blast
  have "find_credential db (hashDeviceCredential hmac pepper credential) = Some d"
    using d(2,3) find_key_Some [OF ok_credentials [OF assms]] by (simp add: find_credential_def)
  moreover have "find_user db uid = Some u"
    using u find_key_Some [OF ok_users [OF assms]] by (simp add: find_user_def)
  ultimately show "authenticateTelemetryDevice hmac pepper request db = Authenticated did uid"
    using d u by (simp add: authenticateTelemetryDevice_def)
qed (rule authenticated_device)

theorem authentication_exact_witness:
  "authenticateTelemetryDevice (\<lambda>p x. x) [] \<lparr>rawHeaders = None, headersDistinct_authorization = None,
      headers_authorization = Some (js ''Bearer '' @ generateDeviceCredential (replicate 32 0)),
      content_type = []\<rparr>
     \<lparr>app_users = [\<lparr>user_id = js ''u'', account_status = Active\<rparr>],
      telemetry_devices = [\<lparr>device_id = js ''d'', app_user_id = js ''u'', device_name = js ''rig'',
        credential_hash = hashDeviceCredential (\<lambda>p x. x) [] (generateDeviceCredential (replicate 32 0)),
        device_created_at = 0, last_seen_at = None, revoked_at = None, last_presence_revision = 0\<rparr>],
      telemetry_presence = [], telemetry_presence_history = [], telemetry_pairing_codes = []\<rparr> =
   Authenticated (js ''d'') (js ''u'')"
proof -
  let ?credential = "generateDeviceCredential (replicate 32 0)"
  let ?request = "\<lparr>rawHeaders = None, headersDistinct_authorization = None,
      headers_authorization = Some (js ''Bearer '' @ ?credential), content_type = []\<rparr>"
  have "credentialPattern ?credential"
    by (rule generated_credential_pattern) (simp_all add: is_buffer_def)
  then have "parseDeviceAuthorization ?request = Some ?credential"
    by (simp add: parseDeviceAuthorization_def authorizationValue_def bearerPattern_def js_def)
  then show ?thesis
    by (subst authentication_exact)
      (simp_all add: telemetry_ok_def device_checks_def js_def MAX_SAFE_INTEGER_def
        high_surrogate_def low_surrogate_def)
qed

end
