(* ===== verification/Presence_Payload.thy ===== *)
theory Presence_Payload
  imports Device_Auth
begin

text \<open>
  The contract of a presence body (first part of \<open>src/src/telemetry-presence.js\<close>): text bounds
  in UTF-8 bytes, RFC 3339 timestamps, the shape of each section, and the projection onto the
  columns that are stored and compared. A property that is absent is \<open>None\<close>, \<open>null\<close> is \<open>JNull\<close>.
\<close>

section \<open>Timestamps\<close>

definition digit :: "nat \<Rightarrow> bool" where
  "digit c \<longleftrightarrow> 48 \<le> c \<and> c \<le> 57"

definition number_at :: "nat \<Rightarrow> nat \<Rightarrow> jsstr \<Rightarrow> nat" where
  "number_at i n s = foldl (\<lambda>v c. v * 10 + (c - 48)) 0 (take n (drop i s))"

definition leap_year :: "nat \<Rightarrow> bool" where
  "leap_year year \<longleftrightarrow> year mod 4 = 0 \<and> (year mod 100 \<noteq> 0 \<or> year mod 400 = 0)"

definition month_days :: "nat \<Rightarrow> nat \<Rightarrow> nat" where
  "month_days year month =
     [31, if leap_year year then 29 else 28, 31, 30, 31, 30, 31, 31, 30, 31, 30, 31] ! (month - 1)"

text \<open>\<open>(\d{4})-(\d{2})-(\d{2})T(\d{2}):(\d{2}):(\d{2})\<close> at the front.\<close>

definition date_time_shape :: "jsstr \<Rightarrow> bool" where
  "date_time_shape s \<longleftrightarrow>
     19 \<le> length s \<and>
     (\<forall>i \<in> set [0, 1, 2, 3, 5, 6, 8, 9, 11, 12, 14, 15, 17, 18]. digit (s ! i)) \<and>
     s ! 4 = 45 \<and> s ! 7 = 45 \<and> s ! 10 = 84 \<and> s ! 13 = 58 \<and> s ! 16 = 58"

text \<open>\<open>(?:\.(\d{1,9}))?\<close>: what is left for the zone, \<open>None\<close> when the fraction is malformed.\<close>

definition after_fraction :: "jsstr \<Rightarrow> jsstr option" where
  "after_fraction s =
     (case s of
        c # rest \<Rightarrow>
          if c = 46
          then let n = length (takeWhile digit rest)
               in if 1 \<le> n \<and> n \<le> 9 then Some (dropWhile digit rest) else None
          else Some s
      | [] \<Rightarrow> Some [])"

text \<open>\<open>(Z|([+-])(\d{2}):(\d{2}))$\<close> with its range check.\<close>

definition zone_ok :: "jsstr \<Rightarrow> bool" where
  "zone_ok z \<longleftrightarrow>
     z = js ''Z'' \<or>
     (length z = 6 \<and> (z ! 0 = 43 \<or> z ! 0 = 45) \<and> digit (z ! 1) \<and> digit (z ! 2) \<and> z ! 3 = 58 \<and>
      digit (z ! 4) \<and> digit (z ! 5) \<and> number_at 1 2 z \<le> 23 \<and> number_at 4 2 z \<le> 59)"

definition validRFC3339Nano :: "json \<Rightarrow> bool" where
  "validRFC3339Nano v =
     (case v of
        JStr s \<Rightarrow>
          date_time_shape s \<and>
          (case after_fraction (drop 19 s) of None \<Rightarrow> False | Some z \<Rightarrow>
             zone_ok z \<and>
             (let year = number_at 0 4 s; month = number_at 5 2 s; day = number_at 8 2 s;
                  hour = number_at 11 2 s; minute = number_at 14 2 s; second = number_at 17 2 s
              in 1 \<le> month \<and> month \<le> 12 \<and> 1 \<le> day \<and> day \<le> month_days year month \<and>
                 hour \<le> 23 \<and> minute \<le> 59 \<and> second \<le> 60))
      | _ \<Rightarrow> False)"

section \<open>Validation\<close>

definition boundedText :: "json \<Rightarrow> nat \<Rightarrow> nat \<Rightarrow> bool" where
  "boundedText v maximum minimum =
     (case v of
        JStr s \<Rightarrow> \<not> hasUnpairedSurrogate s \<and> minimum \<le> utf8_length s \<and> utf8_length s \<le> maximum
      | _ \<Rightarrow> False)"

definition nullableText :: "obj \<Rightarrow> string \<Rightarrow> nat \<Rightarrow> bool" where
  "nullableText body key maximum =
     (case prop_of body key of None \<Rightarrow> False | Some v \<Rightarrow> v = JNull \<or> boundedText v maximum 0)"

text \<open>A property read as text or \<open>null\<close>, and one of a nested section that may be \<open>null\<close> as a whole.\<close>

definition text_prop :: "obj \<Rightarrow> string \<Rightarrow> jsstr option" where
  "text_prop ob key = (case prop_of ob key of Some (JStr s) \<Rightarrow> Some s | _ \<Rightarrow> None)"

definition section_text :: "obj \<Rightarrow> string \<Rightarrow> string \<Rightarrow> jsstr option" where
  "section_text body part key =
     (case prop_of body part of Some (JObj ob) \<Rightarrow> text_prop ob key | _ \<Rightarrow> None)"

definition projectPresence :: "obj \<Rightarrow> projection" where
  "projectPresence body =
     \<lparr>schema_version = 1,
      session_active = (case prop_of body ''session_active'' of Some (JBool b) \<Rightarrow> Some b | _ \<Rightarrow> None),
      location_raw = section_text body ''location'' ''raw'',
      location_observed_at = section_text body ''location'' ''observed_at'',
      jurisdiction = text_prop body ''jurisdiction'',
      ship_name = section_text body ''ship'' ''name'',
      quantum_destination = section_text body ''quantum'' ''destination'',
      quantum_state = section_text body ''quantum'' ''state'',
      last_event_at = text_prop body ''last_event_at''\<rparr>"

definition session_ok :: "obj \<Rightarrow> bool" where
  "session_ok body =
     (case prop_of body ''session_active'' of
        Some JNull \<Rightarrow> True | Some (JBool b) \<Rightarrow> True | _ \<Rightarrow> False)"

definition location_ok :: "obj \<Rightarrow> bool" where
  "location_ok body =
     (case prop_of body ''location'' of
        Some JNull \<Rightarrow> True
      | Some (JObj ob) \<Rightarrow>
          (case prop_of ob ''raw'' of None \<Rightarrow> False | Some v \<Rightarrow> boundedText v 256 1) \<and>
          (case prop_of ob ''observed_at'' of None \<Rightarrow> False | Some v \<Rightarrow> validRFC3339Nano v)
      | _ \<Rightarrow> False)"

definition ship_ok :: "obj \<Rightarrow> bool" where
  "ship_ok body =
     (case prop_of body ''ship'' of
        Some JNull \<Rightarrow> True
      | Some (JObj ob) \<Rightarrow> (case prop_of ob ''name'' of None \<Rightarrow> False | Some v \<Rightarrow> boundedText v 128 1)
      | _ \<Rightarrow> False)"

definition quantum_ok :: "obj \<Rightarrow> bool" where
  "quantum_ok body =
     (case prop_of body ''quantum'' of
        Some JNull \<Rightarrow> True
      | Some (JObj ob) \<Rightarrow>
          nullableText ob ''destination'' 256 \<and>
          (case prop_of ob ''state'' of Some (JStr s) \<Rightarrow> s \<in> set quantum_states | _ \<Rightarrow> False)
      | _ \<Rightarrow> False)"

definition party_count_ok :: "obj \<Rightarrow> bool" where
  "party_count_ok body =
     (case prop_of body ''party_count'' of
        Some JNull \<Rightarrow> True
      | Some (JNum n) \<Rightarrow> (case integer_of n of Some i \<Rightarrow> 0 \<le> i \<and> i \<le> 100 | None \<Rightarrow> False)
      | _ \<Rightarrow> False)"

definition last_event_ok :: "obj \<Rightarrow> bool" where
  "last_event_ok body =
     (case prop_of body ''last_event_at'' of
        None \<Rightarrow> False | Some v \<Rightarrow> v = JNull \<or> validRFC3339Nano v)"

definition payload_revision :: "obj \<Rightarrow> int option" where
  "payload_revision body =
     (case prop_of body ''revision'' of
        Some (JNum n) \<Rightarrow> (case safe_integer_of n of Some i \<Rightarrow> if i < 1 then None else Some i | None \<Rightarrow> None)
      | _ \<Rightarrow> None)"

datatype validated =
    Payload_error string
  | Payload_ok (payload_snapshot: projection) (payload_rev: int)

definition validatePresencePayload :: "json \<Rightarrow> validated" where
  "validatePresencePayload v =
     (case v of
        JObj body \<Rightarrow>
          if \<not> has_own body ''schema'' then Payload_error ''invalid_payload''
          else if prop_of body ''schema'' \<noteq> Some (jint 1) then Payload_error ''unsupported_schema''
          else (case payload_revision body of
            None \<Rightarrow> Payload_error ''invalid_payload''
          | Some revision \<Rightarrow>
              if session_ok body \<and> nullableText body ''shard'' 128 \<and> location_ok body \<and>
                 nullableText body ''jurisdiction'' 128 \<and> ship_ok body \<and> quantum_ok body \<and>
                 party_count_ok body \<and> last_event_ok body
              then Payload_ok (projectPresence body) revision
              else Payload_error ''invalid_payload'')
      | _ \<Rightarrow> Payload_error ''invalid_payload'')"

section \<open>Lemmas\<close>

lemma boundedText_str: "boundedText v hi lo \<longleftrightarrow>
    (\<exists>s. v = JStr s \<and> \<not> hasUnpairedSurrogate s \<and> lo \<le> utf8_length s \<and> utf8_length s \<le> hi)"
  by (auto simp: boundedText_def split: json.splits)

lemma nullable_text_between: "nullableText ob key hi \<Longrightarrow> text_between 0 hi (text_prop ob key)"
  by (auto simp: nullableText_def text_prop_def text_between_def boundedText_str split: option.splits json.splits)

lemma validRFC3339Nano_str: "validRFC3339Nano v \<Longrightarrow> \<exists>s. v = JStr s"
  by (auto simp: validRFC3339Nano_def split: json.splits)

lemma location_ok_cases:
  assumes "location_ok body"
  obtains "prop_of body ''location'' = Some JNull"
  | ob raw seen where "prop_of body ''location'' = Some (JObj ob)" "prop_of ob ''raw'' = Some (JStr raw)"
      "1 \<le> utf8_length raw" "utf8_length raw \<le> 256" "prop_of ob ''observed_at'' = Some (JStr seen)"
proof (cases "prop_of body ''location''")
  case (Some v)
  with assms that validRFC3339Nano_str show thesis
    by (cases v) (fastforce simp: location_ok_def boundedText_str split: option.splits)+
qed (use assms in \<open>simp add: location_ok_def\<close>)

lemma location_checks:
  "location_ok body \<Longrightarrow>
     text_between 1 256 (section_text body ''location'' ''raw'') \<and>
     (section_text body ''location'' ''raw'' = None) = (section_text body ''location'' ''observed_at'' = None)"
  by (erule location_ok_cases) (simp_all add: section_text_def text_prop_def text_between_def)

lemma ship_checks: "ship_ok body \<Longrightarrow> text_between 1 128 (section_text body ''ship'' ''name'')"
proof (cases "prop_of body ''ship''")
  case (Some v)
  then show "ship_ok body \<Longrightarrow> ?thesis"
    by (cases v) (auto simp: ship_ok_def section_text_def text_prop_def text_between_def boundedText_str
        split: option.splits)
qed (simp add: ship_ok_def)

lemma quantum_checks:
  "quantum_ok body \<Longrightarrow>
     text_between 0 256 (section_text body ''quantum'' ''destination'') \<and>
     (case section_text body ''quantum'' ''state'' of None \<Rightarrow> True | Some s \<Rightarrow> s \<in> set quantum_states) \<and>
     (section_text body ''quantum'' ''state'' \<noteq> None \<or> section_text body ''quantum'' ''destination'' = None)"
proof (cases "prop_of body ''quantum''")
  case (Some v)
  then show "quantum_ok body \<Longrightarrow> ?thesis"
  proof (cases v)
    case (JObj ob)
    with Some show "quantum_ok body \<Longrightarrow> ?thesis"
      using nullable_text_between [of ob "''destination''" 256]
      by (cases "prop_of ob ''state''")
        (auto simp: quantum_ok_def section_text_def text_prop_def [of ob "''state''"] split: json.splits)
  qed (simp_all add: quantum_ok_def section_text_def text_between_def)
qed (simp add: quantum_ok_def)

lemma payload_revision_bounds: "payload_revision body = Some r \<Longrightarrow> 1 \<le> r \<and> r \<le> MAX_SAFE_INTEGER"
  by (auto simp: payload_revision_def split: option.splits json.splits if_splits dest!: safe_integer_of_SomeD)

lemma validated_object:
  assumes "validatePresencePayload v = Payload_ok snapshot revision"
  shows "\<exists>body. v = JObj body \<and> snapshot = projectPresence body \<and> payload_revision body = Some revision \<and>
    session_ok body \<and> location_ok body \<and> nullableText body ''jurisdiction'' 128 \<and> ship_ok body \<and>
    quantum_ok body \<and> last_event_ok body"
  using assms by (auto simp: validatePresencePayload_def split: json.splits if_splits option.splits)

section \<open>Properties\<close>

text \<open>Everything the validation lets through satisfies every CHECK constraint of the presence table,
  and its revision is a positive safe integer: the byte bounds, the pairing of the location columns
  and the quantum columns agree between the code and the schema.\<close>

theorem payload_satisfies_schema:
  assumes "validatePresencePayload v = Payload_ok snapshot revision"
  shows "presence_checks \<lparr>presence_device = did, presence_revision = revision,
    presence_snapshot = snapshot, presence_received_at = now\<rparr>"
proof -
  obtain body where body: "snapshot = projectPresence body" "payload_revision body = Some revision"
      "location_ok body" "nullableText body ''jurisdiction'' 128" "ship_ok body" "quantum_ok body"
    using validated_object [OF assms] by blast
  with payload_revision_bounds location_checks ship_checks quantum_checks nullable_text_between
  show ?thesis by (simp add: presence_checks_def projection_checks_def projectPresence_def)
qed

definition sample_payload :: obj where
  "sample_payload =
     [(js ''schema'', jint 1), (js ''revision'', jint 7), (js ''session_active'', JBool True),
      (js ''shard'', JNull),
      (js ''location'', JObj [(js ''raw'', jstr ''Area18''), (js ''observed_at'', jstr ''2024-02-29T23:59:60.5Z'')]),
      (js ''jurisdiction'', JNull), (js ''ship'', JNull), (js ''quantum'', JNull),
      (js ''party_count'', jint 3), (js ''last_event_at'', JNull)]"

definition sample_projection :: projection where
  "sample_projection =
     \<lparr>schema_version = 1, session_active = Some True, location_raw = Some (js ''Area18''),
      location_observed_at = Some (js ''2024-02-29T23:59:60.5Z''), jurisdiction = None, ship_name = None,
      quantum_destination = None, quantum_state = None, last_event_at = None\<rparr>"

lemma sample_payload_valid [simp]:
  "validatePresencePayload (JObj sample_payload) = Payload_ok sample_projection 7"
proof -
  have "validRFC3339Nano (jstr ''2024-02-29T23:59:60.5Z'')"
    by (simp add: validRFC3339Nano_def date_time_shape_def after_fraction_def zone_ok_def number_at_def
        month_days_def leap_year_def digit_def js_def)
  moreover have "boundedText (jstr ''Area18'') 256 1"
    by (simp add: boundedText_def js_def high_surrogate_def low_surrogate_def)
  moreover have "integer_of (Fin 7) = Some 7" "integer_of (Fin 3) = Some 3" by simp_all
  ultimately show ?thesis
    by (simp add: validatePresencePayload_def sample_payload_def has_own_def prop_of_def
        payload_revision_def session_ok_def nullableText_def location_ok_def ship_ok_def quantum_ok_def
        party_count_ok_def last_event_ok_def projectPresence_def sample_projection_def section_text_def
        text_prop_def safe_integer_of_def MAX_SAFE_INTEGER_def)
qed

theorem payload_satisfies_schema_witness:
  "presence_checks \<lparr>presence_device = js ''d'', presence_revision = 7,
    presence_snapshot = sample_projection, presence_received_at = 1000\<rparr>"
  by (rule payload_satisfies_schema [of "JObj sample_payload"]) simp

end
