(* ===== verification/Rate_Limit.thy ===== *)
theory Rate_Limit
  imports Prelude "HOL-Library.AList"
begin

text \<open>
  The limiters of \<open>src/src/rate-limit.js\<close> and the public-search limiter of
  \<open>src/src/server.js\<close>. A JavaScript \<open>Map\<close> is an association list in insertion order with
  distinct keys (\<open>set\<close> is \<open>AList.update\<close>, which keeps the position of an existing key);
  times are integer milliseconds.

  The locale \<open>window_limiter\<close> is the contract the request handlers rely on: what one key's
  window looks like from outside. It is interpreted on \<open>createRequestRateLimiter\<close> and on
  \<open>publicRateLimit\<close>; the bound on admissions in an arbitrary time window is proved once in it.
\<close>

section \<open>The contract: fixed windows per key\<close>

text \<open>How many of a key's calls are admitted with a time in \<open>lo \<le> t < hi\<close>; \<open>canon\<close> is the limiter's own
  view of a caller's key (\<open>String(key || "unknown")\<close>).\<close>

fun granted :: "('k \<Rightarrow> 'k) \<Rightarrow> ('l \<Rightarrow> 'k \<Rightarrow> int \<Rightarrow> bool \<times> 'l) \<Rightarrow> 'l \<Rightarrow> 'k \<Rightarrow> int \<Rightarrow> int \<Rightarrow> ('k \<times> int) list \<Rightarrow> nat" where
  "granted canon admit l k lo hi [] = 0"
| "granted canon admit l k lo hi ((k', t) # calls) =
     (if fst (admit l k' t) \<and> canon k' = k \<and> lo \<le> t \<and> t < hi then 1 else 0) +
     granted canon admit (snd (admit l k' t)) k lo hi calls"

locale window_limiter =
  fixes canon :: "'k \<Rightarrow> 'k"
    and admit :: "'l \<Rightarrow> 'k \<Rightarrow> int \<Rightarrow> bool \<times> 'l"
    and view :: "'l \<Rightarrow> 'k \<Rightarrow> int \<Rightarrow> (nat \<times> int) option"
    and wf :: "'l \<Rightarrow> bool"
    and limit :: nat
    and window :: int
  assumes wf_admit: "wf l \<Longrightarrow> wf (snd (admit l k t))"
    and view_live: "wf l \<Longrightarrow> view l k t = Some (c, r) \<Longrightarrow> t < r \<and> c \<le> limit"
    and view_later: "t \<le> t' \<Longrightarrow>
      view l k t' = (case view l k t of
        None \<Rightarrow> None | Some (c, r) \<Rightarrow> if t' < r then Some (c, r) else None)"
    and view_other: "wf l \<Longrightarrow> k \<noteq> canon k' \<Longrightarrow> t \<le> t' \<Longrightarrow>
      view (snd (admit l k' t)) k t' = view l k t'"
    and view_hit: "wf l \<Longrightarrow> view l (canon k) t = Some (c, r) \<Longrightarrow>
      fst (admit l k t) = (c < limit) \<and>
      view (snd (admit l k t)) (canon k) t = Some (if c < limit then Suc c else c, r)"
    and view_miss: "wf l \<Longrightarrow> view l (canon k) t = None \<Longrightarrow>
      view (snd (admit l k t)) (canon k) t = (if fst (admit l k t) then Some (1, t + window) else None)"
    and limit_pos: "0 < limit"
    and window_pos: "0 < window"
begin

lemma granted_past_hi:
  "\<forall>c \<in> set calls. hi \<le> snd c \<Longrightarrow> granted canon admit l k lo hi calls = 0"
  by (induction calls arbitrary: l) auto

lemma granted_same_window:
  assumes "wf l" "view l k now = Some (c, r)" "hi \<le> r"
    and "sorted (map snd calls)" "\<forall>x \<in> set calls. now \<le> snd x"
  shows "granted canon admit l k lo hi calls \<le> limit - c"
  using assms
proof (induction calls arbitrary: l now c)
  case (Cons call calls)
  obtain k' t where call: "call = (k', t)" by (cases call)
  with Cons.prems have now: "now \<le> t" and later: "\<forall>x \<in> set calls. t \<le> snd x"
    and sorted: "sorted (map snd calls)" by auto
  note wf' = wf_admit [OF Cons.prems(1), of k' t]
  show ?case
  proof (cases "t < hi")
    case True
    with Cons.prems(2,3) now have view_t: "view l k t = Some (c, r)"
      by (simp add: view_later [of now t])
    show ?thesis
    proof (cases "canon k' = k")
      case True
      with view_t have view_k': "view l (canon k') t = Some (c, r)" by simp
      have "granted canon admit (snd (admit l k' t)) k lo hi calls \<le>
          limit - (if c < limit then Suc c else c)"
        using view_hit [OF Cons.prems(1) view_k'] wf' True Cons.prems(3) sorted later
        by (intro Cons.IH [where now = t]) auto
      with True call show ?thesis using view_hit [OF Cons.prems(1) view_k'] by auto
    next
      case False
      with view_other [OF Cons.prems(1), of k k' t t] view_t wf' Cons.prems(3) sorted later
      have "granted canon admit (snd (admit l k' t)) k lo hi calls \<le> limit - c"
        by (intro Cons.IH [where now = t]) auto
      with False call show ?thesis by simp
    qed
  next
    case False
    with later have "granted canon admit (snd (admit l k' t)) k lo hi calls = 0"
      by (intro granted_past_hi) auto
    with False call show ?thesis by simp
  qed
qed simp

lemma granted_no_window:
  assumes "wf l" "view l k now = None" "hi \<le> now + window"
    and "sorted (map snd calls)" "\<forall>x \<in> set calls. now \<le> snd x"
  shows "granted canon admit l k lo hi calls \<le> limit"
  using assms
proof (induction calls arbitrary: l now)
  case (Cons call calls)
  obtain k' t where call: "call = (k', t)" by (cases call)
  with Cons.prems have now: "now \<le> t" and later: "\<forall>x \<in> set calls. t \<le> snd x"
    and sorted: "sorted (map snd calls)" by auto
  note wf' = wf_admit [OF Cons.prems(1), of k' t]
  from Cons.prems(2) now have view_t: "view l k t = None" by (simp add: view_later [of now t])
  from Cons.prems(3) now have hi: "hi \<le> t + window" by simp
  show ?case
  proof (cases "canon k' = k \<and> fst (admit l k' t)")
    case True
    with view_miss [OF Cons.prems(1), of k' t] view_t wf' sorted later hi
    have "granted canon admit (snd (admit l k' t)) k lo hi calls \<le> limit - 1"
      by (intro granted_same_window [where now = t and r = "t + window"]) auto
    with True call limit_pos show ?thesis by auto
  next
    case False
    with view_other [OF Cons.prems(1), of k k' t t] view_miss [OF Cons.prems(1), of k' t] view_t
    have "view (snd (admit l k' t)) k t = None" by (cases "canon k' = k") auto
    with wf' sorted later hi have "granted canon admit (snd (admit l k' t)) k lo hi calls \<le> limit"
      by (intro Cons.IH [where now = t]) auto
    with False call show ?thesis by auto
  qed
qed simp

lemma granted_open_window:
  assumes "wf l" "view l k now = Some (c, r)" "hi \<le> r + window"
    and "sorted (map snd calls)" "\<forall>x \<in> set calls. now \<le> snd x"
  shows "granted canon admit l k lo hi calls \<le> (limit - c) + limit"
  using assms
proof (induction calls arbitrary: l now c)
  case (Cons call calls)
  obtain k' t where call: "call = (k', t)" by (cases call)
  with Cons.prems have now: "now \<le> t" and later: "\<forall>x \<in> set calls. t \<le> snd x"
    and sorted: "sorted (map snd calls)" by auto
  note wf' = wf_admit [OF Cons.prems(1), of k' t]
  show ?case
  proof (cases "t < r")
    case True
    with Cons.prems(2) now have view_t: "view l k t = Some (c, r)"
      by (simp add: view_later [of now t])
    show ?thesis
    proof (cases "canon k' = k")
      case True
      with view_t have view_k': "view l (canon k') t = Some (c, r)" by simp
      have "granted canon admit (snd (admit l k' t)) k lo hi calls \<le>
          (limit - (if c < limit then Suc c else c)) + limit"
        using view_hit [OF Cons.prems(1) view_k'] wf' True Cons.prems(3) sorted later
        by (intro Cons.IH [where now = t]) auto
      with True call show ?thesis using view_hit [OF Cons.prems(1) view_k'] by auto
    next
      case False
      with view_other [OF Cons.prems(1), of k k' t t] view_t wf' Cons.prems(3) sorted later
      have "granted canon admit (snd (admit l k' t)) k lo hi calls \<le> (limit - c) + limit"
        by (intro Cons.IH [where now = t]) auto
      with False call show ?thesis by simp
    qed
  next
    case False
    with Cons.prems(2) now have "view l k t = None" by (simp add: view_later [of now t])
    moreover have "hi \<le> t + window" using Cons.prems(3) False by simp
    ultimately have "granted canon admit l k lo hi (call # calls) \<le> limit"
      using Cons.prems(1,4) call later by (intro granted_no_window [where now = t]) auto
    then show ?thesis by simp
  qed
qed simp

text \<open>In no half-open time interval of one window's length is a key admitted more than twice the limit:
  the tail of one window and the head of the next.\<close>

lemma granted_sliding_bound:
  assumes "wf l" "sorted (map snd calls)" "hi - lo \<le> window"
  shows "granted canon admit l k lo hi calls \<le> 2 * limit"
  using assms(1,2)
proof (induction calls arbitrary: l)
  case (Cons call calls)
  obtain k' t where call: "call = (k', t)" by (cases call)
  show ?case
  proof (cases "lo \<le> t")
    case True
    with Cons.prems call have from_lo: "\<forall>x \<in> set (call # calls). lo \<le> snd x" by force
    show ?thesis
    proof (cases "view l k lo")
      case None
      with Cons.prems from_lo assms(3) have "granted canon admit l k lo hi (call # calls) \<le> limit"
        by (intro granted_no_window) auto
      then show ?thesis by simp
    next
      case (Some cr)
      then obtain c r where cr: "view l k lo = Some (c, r)" by (cases cr) auto
      with view_live [OF Cons.prems(1)] have "lo < r" by blast
      with Cons.prems from_lo cr assms(3)
      have "granted canon admit l k lo hi (call # calls) \<le> (limit - c) + limit"
        by (intro granted_open_window) auto
      then show ?thesis by simp
    qed
  next
    case False
    with call Cons show ?thesis by (simp add: wf_admit)
  qed
qed simp

end

section \<open>createRequestRateLimiter\<close>

record limiter_config =
  limit :: int
  windowMs :: int
  maxEntries :: int

record window_entry =
  count :: int
  resetAt :: int

record request_limiter =
  entries :: "(jsstr \<times> window_entry) list"
  overflowBucket :: "window_entry option"

record rate_result =
  allowed :: bool
  remaining :: int
  rate_resetAt :: int
  retryAfter :: int
  capacityLimited :: bool

definition ceil_div :: "int \<Rightarrow> int \<Rightarrow> int" where
  "ceil_div a b = - ((- a) div b)"

text \<open>The constructor throws a \<open>TypeError\<close> (\<open>None\<close>) on a bad configuration.\<close>

definition valid_limiter_config :: "limiter_config \<Rightarrow> bool" where
  "valid_limiter_config cfg \<longleftrightarrow> 1 \<le> limit cfg \<and> 1 \<le> windowMs cfg \<and> 1 \<le> maxEntries cfg"

definition createRequestRateLimiter :: "limiter_config \<Rightarrow> request_limiter option" where
  "createRequestRateLimiter cfg =
     (if valid_limiter_config cfg then Some \<lparr>entries = [], overflowBucket = None\<rparr> else None)"

definition limiter_cleanup :: "int \<Rightarrow> request_limiter \<Rightarrow> request_limiter" where
  "limiter_cleanup timestamp l =
     l\<lparr>entries := filter (\<lambda>(key, entry). \<not> resetAt entry \<le> timestamp) (entries l),
       overflowBucket :=
         (case overflowBucket l of
            Some b \<Rightarrow> if resetAt b \<le> timestamp then None else Some b
          | None \<Rightarrow> None)\<rparr>"

definition limiter_allow :: "limiter_config \<Rightarrow> request_limiter \<Rightarrow> jsstr \<Rightarrow> int \<Rightarrow> bool \<times> request_limiter" where
  "limiter_allow cfg l0 key timestamp =
     (let l = limiter_cleanup timestamp l0 in
      (case map_of (entries l) (normalized_key key) of
         None \<Rightarrow> int (length (entries l)) < maxEntries cfg
       | Some entry \<Rightarrow> resetAt entry \<le> timestamp \<or> count entry < limit cfg, l))"

text \<open>The earliest reset among the active entries, the loop over \<open>entries.values()\<close>. With no
  entry the code has \<open>Infinity\<close>; it only runs at capacity, when there is at least one entry.\<close>

fun earliest_reset :: "(jsstr \<times> window_entry) list \<Rightarrow> int" where
  "earliest_reset [] = 0"
| "earliest_reset [(key, entry)] = resetAt entry"
| "earliest_reset ((key, entry) # rest) = min (resetAt entry) (earliest_reset rest)"

definition overflow_result :: "int \<Rightarrow> int \<Rightarrow> rate_result" where
  "overflow_result reset timestamp =
     \<lparr>allowed = False, remaining = 0, rate_resetAt = reset,
      retryAfter = max 1 (ceil_div (reset - timestamp) 1000), capacityLimited = True\<rparr>"

definition bump_overflow :: "int \<Rightarrow> window_entry option \<Rightarrow> window_entry" where
  "bump_overflow reset bucket =
     (let b = (case bucket of
                 Some b \<Rightarrow> if resetAt b \<noteq> reset then \<lparr>count = 0, resetAt = reset\<rparr> else b
               | None \<Rightarrow> \<lparr>count = 0, resetAt = reset\<rparr>)
      in b\<lparr>count := min MAX_SAFE_INTEGER (count b + 1)\<rparr>)"

definition limiter_consume ::
    "limiter_config \<Rightarrow> request_limiter \<Rightarrow> jsstr \<Rightarrow> int \<Rightarrow> rate_result \<times> request_limiter" where
  "limiter_consume cfg l0 key timestamp =
     (let l = limiter_cleanup timestamp l0;
          k = normalized_key key;
          found = map_of (entries l) k
      in if found = None \<and> maxEntries cfg \<le> int (length (entries l))
         then let reset = earliest_reset (entries l)
              in (overflow_result reset timestamp,
                  l\<lparr>overflowBucket := Some (bump_overflow reset (overflowBucket l))\<rparr>)
         else let entry = (case found of
                             Some e \<Rightarrow> e
                           | None \<Rightarrow> \<lparr>count = 0, resetAt = timestamp + windowMs cfg\<rparr>);
                  ok = count entry < limit cfg;
                  entry' = (if ok then entry\<lparr>count := count entry + 1\<rparr> else entry)
              in (\<lparr>allowed = ok, remaining = max 0 (limit cfg - count entry'),
                   rate_resetAt = resetAt entry',
                   retryAfter = max 0 (ceil_div (resetAt entry' - timestamp) 1000),
                   capacityLimited = False\<rparr>,
                  l\<lparr>entries := AList.update k entry' (entries l)\<rparr>))"

definition limiter_size :: "request_limiter \<Rightarrow> nat" where
  "limiter_size l = length (entries l)"

definition overflowCount :: "request_limiter \<Rightarrow> int" where
  "overflowCount l = (case overflowBucket l of Some b \<Rightarrow> count b | None \<Rightarrow> 0)"

subsection \<open>The limiter's invariant and its windows\<close>

definition limiter_ok :: "limiter_config \<Rightarrow> request_limiter \<Rightarrow> bool" where
  "limiter_ok cfg l \<longleftrightarrow>
     distinct (map fst (entries l)) \<and>
     (\<forall>(k, e) \<in> set (entries l). 0 \<le> count e \<and> count e \<le> limit cfg) \<and>
     int (length (entries l)) \<le> maxEntries cfg"

definition limiter_view :: "request_limiter \<Rightarrow> jsstr \<Rightarrow> int \<Rightarrow> (nat \<times> int) option" where
  "limiter_view l key timestamp =
     (case map_of (entries l) key of
        Some e \<Rightarrow> if timestamp < resetAt e then Some (nat (count e), resetAt e) else None
      | None \<Rightarrow> None)"

definition limiter_admit ::
    "limiter_config \<Rightarrow> request_limiter \<Rightarrow> jsstr \<Rightarrow> int \<Rightarrow> bool \<times> request_limiter" where
  "limiter_admit cfg l key timestamp =
     (let (rate, l') = limiter_consume cfg l key timestamp in (allowed rate, l'))"

lemma createRequestRateLimiter_ok:
  "createRequestRateLimiter cfg = Some l \<Longrightarrow> valid_limiter_config cfg \<and> limiter_ok cfg l"
  by (auto simp: createRequestRateLimiter_def limiter_ok_def valid_limiter_config_def
      split: if_splits)

lemma map_of_cleanup [simp]:
  "distinct (map fst (entries l)) \<Longrightarrow>
   map_of (entries (limiter_cleanup t l)) k =
     (case map_of (entries l) k of Some e \<Rightarrow> if resetAt e \<le> t then None else Some e | None \<Rightarrow> None)"
proof -
  have "map_of (filter (\<lambda>(key, entry). \<not> resetAt entry \<le> t) es) k =
      (case map_of es k of Some e \<Rightarrow> if resetAt e \<le> t then None else Some e | None \<Rightarrow> None)"
    if "distinct (map fst es)" for es
    using that by (induction es) (auto simp: map_of_eq_None_iff image_iff split: option.splits)
  then show "distinct (map fst (entries l)) \<Longrightarrow> ?thesis" by (simp add: limiter_cleanup_def)
qed

lemma cleanup_ok: "limiter_ok cfg l \<Longrightarrow> limiter_ok cfg (limiter_cleanup t l)"
proof -
  assume ok: "limiter_ok cfg l"
  have "length (entries (limiter_cleanup t l)) \<le> length (entries l)"
    by (simp add: limiter_cleanup_def)
  then have "int (length (entries (limiter_cleanup t l))) \<le> maxEntries cfg"
    using ok by (simp add: limiter_ok_def)
  with ok show ?thesis by (auto simp: limiter_ok_def limiter_cleanup_def distinct_map_filter)
qed

lemma length_AList_update:
  "length (AList.update k v al) = (if k \<in> fst ` set al then length al else Suc (length al))"
  by (induction al) auto

lemma AList_update_mem: "x \<in> set (AList.update k v al) \<Longrightarrow> x = (k, v) \<or> x \<in> set al"
  by (induction al) (auto split: if_splits)

lemma AList_update_ok:
  assumes "limiter_ok cfg l" "0 \<le> count e" "count e \<le> limit cfg"
    and "k \<in> fst ` set (entries l) \<or> int (length (entries l)) < maxEntries cfg"
  shows "limiter_ok cfg (l\<lparr>entries := AList.update k e (entries l)\<rparr>)"
  using assms by (auto simp: limiter_ok_def distinct_update length_AList_update
      dest!: AList_update_mem)

lemma consume_ok:
  assumes "valid_limiter_config cfg" "limiter_ok cfg l"
  shows "limiter_ok cfg (snd (limiter_consume cfg l key t))"
proof -
  define l1 where "l1 = limiter_cleanup t l"
  have ok: "limiter_ok cfg l1" unfolding l1_def by (rule cleanup_ok [OF assms(2)])
  show ?thesis
  proof (cases "map_of (entries l1) (normalized_key key)")
    case None
    show ?thesis
    proof (cases "maxEntries cfg \<le> int (length (entries l1))")
      case True
      with None ok show ?thesis
        by (simp add: limiter_consume_def Let_def l1_def [symmetric] limiter_ok_def)
    next
      case False
      with None ok assms(1) show ?thesis
        by (auto simp: limiter_consume_def Let_def l1_def [symmetric] valid_limiter_config_def
            intro!: AList_update_ok)
    qed
  next
    case (Some e)
    from map_of_SomeD [OF this]
    have "0 \<le> count e \<and> count e \<le> limit cfg" "normalized_key key \<in> fst ` set (entries l1)"
      using ok by (force simp: limiter_ok_def)+
    with Some ok show ?thesis
      by (auto simp: limiter_consume_def Let_def l1_def [symmetric] intro!: AList_update_ok)
  qed
qed

text \<open>What one call does to the caller's own window, and to everybody else's.\<close>

lemma view_other_key:
  assumes ok: "limiter_ok cfg l" and other: "k' \<noteq> normalized_key k" and later: "t \<le> t'"
  shows "limiter_view (snd (limiter_admit cfg l k t)) k' t' = limiter_view l k' t'"
proof -
  define l1 where "l1 = limiter_cleanup t l"
  have "map_of (entries (snd (limiter_admit cfg l k t))) k' = map_of (entries l1) k'"
    using other
    by (simp add: limiter_admit_def limiter_consume_def Let_def l1_def [symmetric] update_conv')
  moreover have "distinct (map fst (entries l))" using ok by (simp add: limiter_ok_def)
  ultimately show ?thesis using later
    by (simp add: limiter_view_def l1_def split: option.splits)
qed

lemma view_own_hit:
  assumes ok: "limiter_ok cfg l" and hit: "limiter_view l (normalized_key k) t = Some (c, r)"
  shows "fst (limiter_admit cfg l k t) = (int c < limit cfg)"
    and "limiter_view (snd (limiter_admit cfg l k t)) (normalized_key k) t =
      Some (if int c < limit cfg then Suc c else c, r)"
proof -
  define l1 where "l1 = limiter_cleanup t l"
  from hit obtain e where e: "map_of (entries l) (normalized_key k) = Some e" "t < resetAt e"
      "c = nat (count e)" "r = resetAt e"
    by (auto simp: limiter_view_def split: option.splits if_splits)
  from e(1) ok have pos: "0 \<le> count e" by (auto simp: limiter_ok_def dest!: map_of_SomeD)
  from ok e have l1: "map_of (entries l1) (normalized_key k) = Some e"
    by (simp add: l1_def limiter_ok_def)
  show "fst (limiter_admit cfg l k t) = (int c < limit cfg)"
    using pos e by (simp add: limiter_admit_def limiter_consume_def Let_def l1_def [symmetric] l1)
  show "limiter_view (snd (limiter_admit cfg l k t)) (normalized_key k) t =
      Some (if int c < limit cfg then Suc c else c, r)"
    using pos e
    by (simp add: limiter_admit_def limiter_consume_def Let_def l1_def [symmetric] l1 update_conv'
        limiter_view_def Suc_nat_eq_nat_zadd1 add.commute)
qed

lemma view_own_miss:
  assumes ok: "limiter_ok cfg l" and valid: "valid_limiter_config cfg"
    and miss: "limiter_view l (normalized_key k) t = None"
  shows "limiter_view (snd (limiter_admit cfg l k t)) (normalized_key k) t =
    (if fst (limiter_admit cfg l k t) then Some (1, t + windowMs cfg) else None)"
proof -
  define l1 where "l1 = limiter_cleanup t l"
  have "map_of (entries l1) (normalized_key k) = None"
  proof (cases "map_of (entries l) (normalized_key k)")
    case None
    with ok show ?thesis by (simp add: l1_def limiter_ok_def)
  next
    case (Some e)
    with miss have "resetAt e \<le> t" by (simp add: limiter_view_def split: if_splits)
    with Some ok show ?thesis by (simp add: l1_def limiter_ok_def)
  qed
  with valid show ?thesis
    by (simp add: limiter_admit_def limiter_consume_def Let_def limiter_view_def update_conv'
        overflow_result_def valid_limiter_config_def l1_def [symmetric])
qed

locale request_window =
  fixes cfg :: limiter_config
  assumes valid: "valid_limiter_config cfg"
begin

lemma limit_positive: "0 < nat (limit cfg)"
  using valid by (simp add: valid_limiter_config_def)

end

sublocale request_window \<subseteq> window_limiter normalized_key "limiter_admit cfg" limiter_view
  "limiter_ok cfg" "nat (limit cfg)" "windowMs cfg"
proof (unfold_locales, goal_cases)
  case (1 l k t)
  then show ?case
    using consume_ok [OF valid 1, of k t] by (simp add: limiter_admit_def case_prod_beta)
next
  case (2 l k t c r)
  then show ?case
    by (auto simp: limiter_view_def limiter_ok_def dest!: map_of_SomeD split: option.splits if_splits)
next
  case (3 t t' l k)
  then show ?case by (auto simp: limiter_view_def split: option.splits)
next
  case (4 l k k' t t')
  then show ?case by (intro view_other_key)
next
  case (5 l k t c r)
  then show ?case using limit_positive
    by (simp add: view_own_hit zless_nat_eq_int_zless [symmetric])
next
  case (6 l k t)
  then show ?case by (intro view_own_miss valid)
next
  case 7
  show ?case by (rule limit_positive)
next
  case 8
  show ?case using valid by (simp add: valid_limiter_config_def)
qed

context request_window
begin

lemma sliding_bound:
  "createRequestRateLimiter cfg = Some l \<Longrightarrow> sorted (map snd calls) \<Longrightarrow> hi - lo \<le> windowMs cfg \<Longrightarrow>
     granted normalized_key (limiter_admit cfg) l k lo hi calls \<le> 2 * nat (limit cfg)"
  using createRequestRateLimiter_ok by (intro granted_sliding_bound) auto

end

subsection \<open>Runs, and what a refusal promises\<close>

definition limiter_run :: "limiter_config \<Rightarrow> (jsstr \<times> int) list \<Rightarrow> request_limiter \<Rightarrow> request_limiter" where
  "limiter_run cfg calls l = fold (\<lambda>(key, t) l. snd (limiter_consume cfg l key t)) calls l"

lemma limiter_run_ok:
  "valid_limiter_config cfg \<Longrightarrow> limiter_ok cfg l \<Longrightarrow> limiter_ok cfg (limiter_run cfg calls l)"
  by (induction calls arbitrary: l) (auto simp: limiter_run_def consume_ok)

lemma earliest_reset_attained:
  "es \<noteq> [] \<Longrightarrow> \<exists>(k, e) \<in> set es. resetAt e = earliest_reset es"
  by (induction es rule: earliest_reset.induct) (auto simp: min_def)

lemma ceil_div_covers: "x \<le> 1000 * ceil_div x 1000"
  using div_mult_mod_eq [of "- x" 1000] pos_mod_sign [of 1000 "- x"] by (simp add: ceil_div_def)

lemma cleanup_drops:
  assumes "(k, e) \<in> set (entries l)" "resetAt e \<le> t"
  shows "length (entries (limiter_cleanup t l)) < length (entries l)"
  using assms by (auto simp: limiter_cleanup_def intro!: length_filter_less)

lemma consume_fresh_allowed:
  assumes "valid_limiter_config cfg"
    and "map_of (entries (limiter_cleanup t l)) (normalized_key k) = None"
    and "int (length (entries (limiter_cleanup t l))) < maxEntries cfg"
  shows "allowed (fst (limiter_consume cfg l k t))"
  using assms by (simp add: limiter_consume_def Let_def valid_limiter_config_def)

lemma retry_after_own:
  assumes valid: "valid_limiter_config cfg" and ok: "limiter_ok cfg l"
    and e: "map_of (entries (limiter_cleanup t l)) (normalized_key k) = Some e"
    and refused: "\<not> allowed (fst (limiter_consume cfg l k t))"
  shows "allowed (fst (limiter_consume cfg (snd (limiter_consume cfg l k t)) k
           (t + 1000 * retryAfter (fst (limiter_consume cfg l k t)))))"
proof -
  define l1 l2 where "l1 = limiter_cleanup t l" and "l2 = snd (limiter_consume cfg l k t)"
  define t2 where "t2 = t + 1000 * retryAfter (fst (limiter_consume cfg l k t))"
  have e1: "map_of (entries l1) (normalized_key k) = Some e" using e by (simp add: l1_def)
  have ok2: "limiter_ok cfg l2" unfolding l2_def by (rule consume_ok [OF valid ok])
  from refused have full: "\<not> count e < limit cfg"
    by (simp add: limiter_consume_def Let_def l1_def [symmetric] e1)
  then have e2: "map_of (entries l2) (normalized_key k) = Some e"
    by (simp add: l2_def limiter_consume_def Let_def l1_def [symmetric] e1 update_conv')
  have "resetAt e - t \<le> 1000 * retryAfter (fst (limiter_consume cfg l k t))"
    using ceil_div_covers [of "resetAt e - t"] full
    by (simp add: limiter_consume_def Let_def l1_def [symmetric] e1)
  then have expired: "resetAt e \<le> t2" by (simp add: t2_def)
  have "length (entries (limiter_cleanup t2 l2)) < length (entries l2)"
    using map_of_SomeD [OF e2] expired by (rule cleanup_drops)
  then have "int (length (entries (limiter_cleanup t2 l2))) < maxEntries cfg"
    using ok2 by (simp add: limiter_ok_def)
  moreover have "map_of (entries (limiter_cleanup t2 l2)) (normalized_key k) = None"
    using ok2 e2 expired by (simp add: limiter_ok_def)
  ultimately show ?thesis
    unfolding l2_def [symmetric] t2_def [symmetric] using valid by (intro consume_fresh_allowed)
qed

lemma retry_after_capacity:
  assumes valid: "valid_limiter_config cfg" and ok: "limiter_ok cfg l"
    and none: "map_of (entries (limiter_cleanup t l)) (normalized_key k) = None"
    and refused: "\<not> allowed (fst (limiter_consume cfg l k t))"
  shows "allowed (fst (limiter_consume cfg (snd (limiter_consume cfg l k t)) k
           (t + 1000 * retryAfter (fst (limiter_consume cfg l k t)))))"
proof -
  define l1 l2 where "l1 = limiter_cleanup t l" and "l2 = snd (limiter_consume cfg l k t)"
  define t2 where "t2 = t + 1000 * retryAfter (fst (limiter_consume cfg l k t))"
  have none1: "map_of (entries l1) (normalized_key k) = None" using none by (simp add: l1_def)
  have ok2: "limiter_ok cfg l2" unfolding l2_def by (rule consume_ok [OF valid ok])
  from refused none1 valid have full: "maxEntries cfg \<le> int (length (entries l1))"
    by (simp add: limiter_consume_def Let_def l1_def [symmetric] valid_limiter_config_def
        split: if_splits)
  then have result: "fst (limiter_consume cfg l k t) = overflow_result (earliest_reset (entries l1)) t"
    and same: "entries l2 = entries l1"
    using none1 by (simp_all add: l2_def limiter_consume_def Let_def l1_def [symmetric])
  from full valid have "entries l1 \<noteq> []" by (auto simp: valid_limiter_config_def)
  from earliest_reset_attained [OF this] obtain k' e
    where e: "(k', e) \<in> set (entries l2)" "resetAt e = earliest_reset (entries l1)"
    by (auto simp: same)
  have "resetAt e - t \<le> 1000 * retryAfter (fst (limiter_consume cfg l k t))"
    using ceil_div_covers [of "resetAt e - t"] unfolding result e(2)
    by (simp add: overflow_result_def)
  then have expired: "resetAt e \<le> t2" by (simp add: t2_def)
  have "length (entries (limiter_cleanup t2 l2)) < length (entries l2)"
    using e(1) expired by (rule cleanup_drops)
  then have "int (length (entries (limiter_cleanup t2 l2))) < maxEntries cfg"
    using ok2 by (simp add: limiter_ok_def)
  moreover have "map_of (entries (limiter_cleanup t2 l2)) (normalized_key k) = None"
    using ok2 none1 by (simp add: limiter_ok_def same)
  ultimately show ?thesis
    unfolding l2_def [symmetric] t2_def [symmetric] using valid by (intro consume_fresh_allowed)
qed

section \<open>createRateLimiter: counting failures\<close>

record failure_entry =
  failures :: int
  failure_resetAt :: int

type_synonym failure_entries = "(jsstr \<times> failure_entry) list"

text \<open>\<open>cleanup\<close>: expired entries go, then the oldest ones until at most \<open>maxEntries\<close> are left.\<close>

definition failure_cleanup :: "limiter_config \<Rightarrow> int \<Rightarrow> failure_entries \<Rightarrow> failure_entries" where
  "failure_cleanup cfg timestamp es =
     (let live = filter (\<lambda>(key, entry). \<not> failure_resetAt entry \<le> timestamp) es
      in drop (length live - nat (maxEntries cfg)) live)"

definition getEntry ::
    "limiter_config \<Rightarrow> failure_entries \<Rightarrow> jsstr \<Rightarrow> int \<Rightarrow> failure_entry \<times> failure_entries" where
  "getEntry cfg es0 key timestamp =
     (let es = failure_cleanup cfg timestamp es0;
          fresh = \<lparr>failures = 0, failure_resetAt = timestamp + windowMs cfg\<rparr>;
          opened = (fresh, failure_cleanup cfg timestamp (AList.update key fresh es))
      in case map_of es key of
           None \<Rightarrow> opened
         | Some current \<Rightarrow>
             if failure_resetAt current \<le> timestamp then opened else (current, es))"

definition failure_allow ::
    "limiter_config \<Rightarrow> failure_entries \<Rightarrow> jsstr \<Rightarrow> int \<Rightarrow> bool \<times> failure_entries" where
  "failure_allow cfg es key timestamp =
     (let (entry, es') = getEntry cfg es (normalized_key key) timestamp
      in (failures entry < limit cfg, es'))"

text \<open>\<open>entry.failures += 1\<close> changes the object that the map holds, if the map still holds it.\<close>

definition recordFailure ::
    "limiter_config \<Rightarrow> failure_entries \<Rightarrow> jsstr \<Rightarrow> int \<Rightarrow> failure_entries" where
  "recordFailure cfg es key timestamp =
     (let k = normalized_key key;
          (entry, es') = getEntry cfg es k timestamp
      in if k \<in> set (map fst es')
         then AList.update k (entry\<lparr>failures := failures entry + 1\<rparr>) es' else es')"

definition failure_clear :: "failure_entries \<Rightarrow> jsstr \<Rightarrow> failure_entries" where
  "failure_clear es key = AList.delete (normalized_key key) es"

subsection \<open>Runs of the failure limiter\<close>

datatype failure_call = Allow_call jsstr int | Failure_call jsstr int | Clear_call jsstr

fun failure_step :: "limiter_config \<Rightarrow> failure_call \<Rightarrow> failure_entries \<Rightarrow> failure_entries" where
  "failure_step cfg (Allow_call key t) es = snd (failure_allow cfg es key t)"
| "failure_step cfg (Failure_call key t) es = recordFailure cfg es key t"
| "failure_step cfg (Clear_call key) es = failure_clear es key"

fun call_key :: "failure_call \<Rightarrow> jsstr" where
  "call_key (Allow_call key t) = normalized_key key"
| "call_key (Failure_call key t) = normalized_key key"
| "call_key (Clear_call key) = normalized_key key"

text \<open>A call that neither clears the key nor comes at or after the end of its window.\<close>

fun within_window :: "jsstr \<Rightarrow> int \<Rightarrow> failure_call \<Rightarrow> bool" where
  "within_window k reset (Allow_call key t) \<longleftrightarrow> t < reset"
| "within_window k reset (Failure_call key t) \<longleftrightarrow> t < reset"
| "within_window k reset (Clear_call key) \<longleftrightarrow> normalized_key key \<noteq> k"

fun is_failure_of :: "jsstr \<Rightarrow> failure_call \<Rightarrow> bool" where
  "is_failure_of k (Failure_call key t) \<longleftrightarrow> normalized_key key = k"
| "is_failure_of k _ \<longleftrightarrow> False"

definition keys_in :: "jsstr set \<Rightarrow> failure_entries \<Rightarrow> bool" where
  "keys_in K es \<longleftrightarrow> distinct (map fst es) \<and> fst ` set es \<subseteq> K"

lemma keys_in_cleanup:
  assumes "keys_in K es" "finite K" "int (card K) \<le> maxEntries cfg"
  shows "failure_cleanup cfg t es = filter (\<lambda>(key, entry). \<not> failure_resetAt entry \<le> t) es"
    and "keys_in K (failure_cleanup cfg t es)"
proof -
  have "length (map fst es) \<le> card K"
    using assms(1,2) by (metis distinct_card card_mono keys_in_def set_map)
  then have "length (filter (\<lambda>(key, entry). \<not> failure_resetAt entry \<le> t) es) \<le> card K"
    by (auto intro: le_trans [OF length_filter_le])
  then have none: "length (filter (\<lambda>(key, entry). \<not> failure_resetAt entry \<le> t) es) -
      nat (maxEntries cfg) = 0"
    using assms(3) by simp
  then show "failure_cleanup cfg t es = filter (\<lambda>(key, entry). \<not> failure_resetAt entry \<le> t) es"
    by (simp add: failure_cleanup_def Let_def)
  then show "keys_in K (failure_cleanup cfg t es)"
    using assms(1) by (auto simp: keys_in_def distinct_map_filter)
qed

lemma keys_in_update: "keys_in K es \<Longrightarrow> k \<in> K \<Longrightarrow> keys_in K (AList.update k e es)"
  by (auto simp: keys_in_def distinct_update dest!: AList_update_mem)

lemma failure_length_le:
  "length (failure_cleanup cfg t es) \<le> nat (maxEntries cfg)"
  by (simp add: failure_cleanup_def Let_def)

lemma map_of_filter_live:
  "distinct (map fst es) \<Longrightarrow>
   map_of (filter (\<lambda>(key, entry). \<not> failure_resetAt entry \<le> t) es) k =
     (case map_of es k of
        Some e \<Rightarrow> if failure_resetAt e \<le> t then None else Some e | None \<Rightarrow> None)"
  by (induction es) (auto simp: map_of_eq_None_iff image_iff split: option.splits)

text \<open>While all keys ever used fit into the table, nothing is evicted, and \<open>getEntry\<close> behaves like a
  map with expiry.\<close>

lemma getEntry_fits:
  assumes K: "keys_in K es" "finite K" "int (card K) \<le> maxEntries cfg" "key \<in> K"
    and window: "1 \<le> windowMs cfg"
  shows "keys_in K (snd (getEntry cfg es key t))"
    and "map_of (snd (getEntry cfg es key t)) key = Some (fst (getEntry cfg es key t))"
    and "fst (getEntry cfg es key t) =
      (case map_of es key of
         Some e \<Rightarrow> if failure_resetAt e \<le> t then \<lparr>failures = 0, failure_resetAt = t + windowMs cfg\<rparr>
                   else e
       | None \<Rightarrow> \<lparr>failures = 0, failure_resetAt = t + windowMs cfg\<rparr>)"
    and "k \<noteq> key \<Longrightarrow> map_of es k = Some e \<Longrightarrow> t < failure_resetAt e \<Longrightarrow>
      map_of (snd (getEntry cfg es key t)) k = Some e"
proof -
  define fresh where "fresh = \<lparr>failures = 0, failure_resetAt = t + windowMs cfg\<rparr>"
  note clean = keys_in_cleanup [OF K(1-3), of t]
  have upd: "keys_in K (AList.update key fresh (failure_cleanup cfg t es))"
    using clean(2) K(4) by (rule keys_in_update)
  note clean' = keys_in_cleanup [OF upd K(2,3), of t]
  have dist: "distinct (map fst es)" "distinct (map fst (AList.update key fresh (failure_cleanup cfg t es)))"
    using K(1) upd by (simp_all add: keys_in_def)
  have m: "map_of (failure_cleanup cfg t es) k' =
      (case map_of es k' of Some e \<Rightarrow> if failure_resetAt e \<le> t then None else Some e | None \<Rightarrow> None)"
    for k' unfolding clean(1) by (rule map_of_filter_live [OF dist(1)])
  have m': "map_of (failure_cleanup cfg t (AList.update key fresh (failure_cleanup cfg t es))) k' =
      (if k' = key then Some fresh else map_of (failure_cleanup cfg t es) k')" for k'
    unfolding clean'(1) using window
    by (simp add: map_of_filter_live [OF dist(2)] update_conv' m)
      (auto simp: fresh_def split: option.splits)
  show "keys_in K (snd (getEntry cfg es key t))"
    using clean(2) clean'(2)
    by (auto simp: getEntry_def Let_def fresh_def [symmetric] split: option.splits)
  show "map_of (snd (getEntry cfg es key t)) key = Some (fst (getEntry cfg es key t))"
    using m' by (auto simp: getEntry_def Let_def fresh_def [symmetric] split: option.splits)
  show "fst (getEntry cfg es key t) =
      (case map_of es key of Some e \<Rightarrow> if failure_resetAt e \<le> t then fresh else e | None \<Rightarrow> fresh)"
    by (auto simp: getEntry_def Let_def fresh_def [symmetric] m split: option.splits)
  show "map_of (snd (getEntry cfg es key t)) k = Some e"
    if "k \<noteq> key" "map_of es k = Some e" "t < failure_resetAt e"
    using that m' m by (auto simp: getEntry_def Let_def fresh_def [symmetric] split: option.splits)
qed

lemma failure_step_fits:
  assumes K: "keys_in K es" "finite K" "int (card K) \<le> maxEntries cfg" "call_key call \<in> K"
    and window: "1 \<le> windowMs cfg"
    and e: "map_of es k = Some e" "within_window k (failure_resetAt e) call"
  shows "keys_in K (failure_step cfg call es) \<and>
    map_of (failure_step cfg call es) k =
      Some (if is_failure_of k call then e\<lparr>failures := failures e + 1\<rparr> else e)"
proof (cases call)
  case (Allow_call key t)
  with K window have fits: "keys_in K es" "finite K" "int (card K) \<le> maxEntries cfg"
    "normalized_key key \<in> K" "1 \<le> windowMs cfg" by auto
  note g = getEntry_fits [OF fits, where t = t]
  show ?thesis
    using Allow_call e g(1-3) g(4) [where k = k and e = e]
    by (cases "normalized_key key = k") (auto simp: failure_allow_def case_prod_beta)
next
  case (Failure_call key t)
  with K window have fits: "keys_in K es" "finite K" "int (card K) \<le> maxEntries cfg"
    "normalized_key key \<in> K" "1 \<le> windowMs cfg" by auto
  note g = getEntry_fits [OF fits, where t = t]
  have mem: "normalized_key key \<in> set (map fst (snd (getEntry cfg es (normalized_key key) t)))"
    using map_of_SomeD [OF g(2)] by force
  show ?thesis
    using Failure_call e g(1-3) g(4) [where k = k and e = e] mem keys_in_update [OF g(1) fits(4)]
    by (cases "normalized_key key = k")
      (auto simp: recordFailure_def Let_def case_prod_beta update_conv')
next
  case (Clear_call key)
  with K e show ?thesis
    by (auto simp: failure_clear_def keys_in_def delete_conv' distinct_delete AList.delete_keys
        set_map [symmetric] distinct_removeAll simp del: set_map)
qed

lemma failure_run_fits:
  assumes "keys_in K es" "finite K" "int (card K) \<le> maxEntries cfg" "call_key ` set calls \<subseteq> K"
    and "1 \<le> windowMs cfg" "map_of es k = Some e"
    and "\<forall>call \<in> set calls. within_window k (failure_resetAt e) call"
  shows "keys_in K (fold (failure_step cfg) calls es) \<and>
    map_of (fold (failure_step cfg) calls es) k =
      Some (e\<lparr>failures := failures e + int (count_where (is_failure_of k) calls)\<rparr>)"
  using assms
proof (induction calls arbitrary: es e)
  case (Cons call calls)
  define e' where "e' = (if is_failure_of k call then e\<lparr>failures := failures e + 1\<rparr> else e)"
  from Cons.prems have "keys_in K (failure_step cfg call es) \<and> map_of (failure_step cfg call es) k = Some e'"
    unfolding e'_def by (intro failure_step_fits) auto
  moreover have "failure_resetAt e' = failure_resetAt e" by (simp add: e'_def)
  ultimately have "keys_in K (fold (failure_step cfg) calls (failure_step cfg call es)) \<and>
      map_of (fold (failure_step cfg) calls (failure_step cfg call es)) k =
        Some (e'\<lparr>failures := failures e' + int (count_where (is_failure_of k) calls)\<rparr>)"
    using Cons.prems by (intro Cons.IH) auto
  then show ?case by (simp add: e'_def count_where_def)
qed (simp add: count_where_def)

section \<open>publicRateLimit\<close>

definition publicRateLimit ::
    "(jsstr \<times> window_entry) list \<Rightarrow> jsstr \<Rightarrow> int \<Rightarrow> bool \<times> (jsstr \<times> window_entry) list" where
  "publicRateLimit rate remoteAddress now =
     (let address = normalized_key remoteAddress;
          opened = (True, AList.update address \<lparr>count = 1, resetAt = now + 60000\<rparr> rate)
      in case map_of rate address of
           None \<Rightarrow> opened
         | Some current \<Rightarrow>
             if resetAt current \<le> now then opened
             else if 120 \<le> count current then (False, rate)
             else (True, AList.update address (current\<lparr>count := count current + 1\<rparr>) rate))"

definition public_rate_ok :: "(jsstr \<times> window_entry) list \<Rightarrow> bool" where
  "public_rate_ok rate \<longleftrightarrow>
     distinct (map fst rate) \<and> (\<forall>(k, e) \<in> set rate. 0 \<le> count e \<and> count e \<le> 120)"

definition public_rate_view :: "(jsstr \<times> window_entry) list \<Rightarrow> jsstr \<Rightarrow> int \<Rightarrow> (nat \<times> int) option" where
  "public_rate_view rate address now =
     (case map_of rate address of
        Some e \<Rightarrow> if now < resetAt e then Some (nat (count e), resetAt e) else None
      | None \<Rightarrow> None)"

lemma public_rate_ok_update:
  "public_rate_ok rate \<Longrightarrow> 0 \<le> count e \<Longrightarrow> count e \<le> 120 \<Longrightarrow>
     public_rate_ok (AList.update k e rate)"
  by (auto simp: public_rate_ok_def distinct_update dest!: AList_update_mem)

lemma public_rate_count:
  "public_rate_ok rate \<Longrightarrow> map_of rate k = Some e \<Longrightarrow> 0 \<le> count e \<and> count e \<le> 120"
  by (auto simp: public_rate_ok_def dest!: map_of_SomeD)

interpretation public_rate: window_limiter normalized_key publicRateLimit public_rate_view
  public_rate_ok 120 60000
proof (unfold_locales, goal_cases)
  case (1 l k t)
  then show ?case
    by (auto simp: publicRateLimit_def Let_def intro!: public_rate_ok_update
        dest: public_rate_count split: option.splits)
next
  case (2 l k t c r)
  then show ?case
    by (auto simp: public_rate_view_def dest: public_rate_count split: option.splits if_splits)
next
  case (3 t t' l k)
  then show ?case by (auto simp: public_rate_view_def split: option.splits)
next
  case (4 l k k' t t')
  then show ?case
    by (auto simp: publicRateLimit_def public_rate_view_def Let_def update_conv'
        split: option.splits)
next
  case (5 l k t c r)
  then obtain e where e: "map_of l (normalized_key k) = Some e" "t < resetAt e"
      "c = nat (count e)" "r = resetAt e"
    by (auto simp: public_rate_view_def split: option.splits if_splits)
  with public_rate_count [OF 5(1) e(1)] show ?case
    by (auto simp: publicRateLimit_def public_rate_view_def Let_def update_conv')
next
  case (6 l k t)
  then show ?case
    by (auto simp: publicRateLimit_def public_rate_view_def Let_def update_conv'
        split: option.splits if_splits)
qed simp_all

section \<open>Properties of the limiters\<close>

text \<open>C23. A window limiter created by \<open>createRequestRateLimiter\<close> admits a key at most twice its limit in
  any half-open time interval of one window's length, wherever the interval lies and whatever other
  keys do in between (times not decreasing).\<close>

theorem request_limiter_sliding_bound:
  assumes "createRequestRateLimiter cfg = Some l0" "sorted (map snd calls)"
    and "hi - lo \<le> windowMs cfg"
  shows "granted normalized_key (limiter_admit cfg) l0 k lo hi calls \<le> 2 * nat (limit cfg)"
  using assms createRequestRateLimiter_ok [OF assms(1)]
  by (intro request_window.sliding_bound [OF request_window.intro]) auto

text \<open>The configurations the server creates its limiters with.\<close>

definition telemetryHeartbeatRateLimit :: limiter_config where
  "telemetryHeartbeatRateLimit = \<lparr>limit = 120, windowMs = 60000, maxEntries = 10000\<rparr>"

definition telemetryPresenceRateLimit :: limiter_config where
  "telemetryPresenceRateLimit = \<lparr>limit = 120, windowMs = 60000, maxEntries = 10000\<rparr>"

definition telemetryPairingCreateRateLimit :: limiter_config where
  "telemetryPairingCreateRateLimit = \<lparr>limit = 5, windowMs = 60 * 60000, maxEntries = 10000\<rparr>"

definition telemetryPairingClaimRateLimit :: limiter_config where
  "telemetryPairingClaimRateLimit = \<lparr>limit = 20, windowMs = 15 * 60000, maxEntries = 10000\<rparr>"

definition telemetryManagementListRateLimit :: limiter_config where
  "telemetryManagementListRateLimit = \<lparr>limit = 60, windowMs = 60000, maxEntries = 10000\<rparr>"

definition telemetryManagementMutationRateLimit :: limiter_config where
  "telemetryManagementMutationRateLimit = \<lparr>limit = 30, windowMs = 60000, maxEntries = 10000\<rparr>"

definition telemetryHistoryRateLimit :: limiter_config where
  "telemetryHistoryRateLimit = \<lparr>limit = 60, windowMs = 60000, maxEntries = 10000\<rparr>"

interpretation heartbeat_rate: request_window telemetryHeartbeatRateLimit
  by unfold_locales (simp add: telemetryHeartbeatRateLimit_def valid_limiter_config_def)

interpretation presence_rate: request_window telemetryPresenceRateLimit
  by unfold_locales (simp add: telemetryPresenceRateLimit_def valid_limiter_config_def)

interpretation pairing_create_rate: request_window telemetryPairingCreateRateLimit
  by unfold_locales (simp add: telemetryPairingCreateRateLimit_def valid_limiter_config_def)

interpretation pairing_claim_rate: request_window telemetryPairingClaimRateLimit
  by unfold_locales (simp add: telemetryPairingClaimRateLimit_def valid_limiter_config_def)

theorem request_limiter_sliding_bound_witness:
  "granted normalized_key (limiter_admit \<lparr>limit = 1, windowMs = 10, maxEntries = 2\<rparr>)
     \<lparr>entries = [], overflowBucket = None\<rparr> (js ''a'') 9 19
     [(js ''a'', 9), (js ''b'', 10), (js ''a'', 12), (js ''a'', 18)] \<le> 2"
  using request_limiter_sliding_bound [of "\<lparr>limit = 1, windowMs = 10, maxEntries = 2\<rparr>"
    "\<lparr>entries = [], overflowBucket = None\<rparr>"
    "[(js ''a'', 9), (js ''b'', 10), (js ''a'', 12), (js ''a'', 18)]" 19 9 "js ''a''"]
  by (simp add: createRequestRateLimiter_def valid_limiter_config_def)

text \<open>Whatever sequence of calls it serves, the limiter never holds more than \<open>maxEntries\<close> windows, and
  no window counts more than \<open>limit\<close> admitted calls.\<close>

theorem request_limiter_bounded:
  assumes "createRequestRateLimiter cfg = Some l0"
  shows "int (limiter_size (limiter_run cfg calls l0)) \<le> maxEntries cfg \<and>
    (\<forall>(k, e) \<in> set (entries (limiter_run cfg calls l0)). 0 \<le> count e \<and> count e \<le> limit cfg)"
proof -
  have "limiter_ok cfg (limiter_run cfg calls l0)"
    using createRequestRateLimiter_ok [OF assms] by (blast intro: limiter_run_ok)
  then show ?thesis by (auto simp: limiter_ok_def limiter_size_def)
qed

theorem request_limiter_bounded_witness:
  "limiter_size (limiter_run \<lparr>limit = 2, windowMs = 10, maxEntries = 1\<rparr>
     [(js ''a'', 0), (js ''b'', 1), (js ''a'', 2), (js ''a'', 3)]
     \<lparr>entries = [], overflowBucket = None\<rparr>) \<le> 1"
  using request_limiter_bounded [of "\<lparr>limit = 2, windowMs = 10, maxEntries = 1\<rparr>"
    "\<lparr>entries = [], overflowBucket = None\<rparr>"
    "[(js ''a'', 0), (js ''b'', 1), (js ''a'', 2), (js ''a'', 3)]"]
  by (simp add: createRequestRateLimiter_def valid_limiter_config_def)

text \<open>A refusal's \<open>retryAfter\<close> is honest: the same caller asking again that many seconds later is
  admitted, whether its own window was full or the table was.\<close>

theorem request_limiter_retry_after:
  assumes "valid_limiter_config cfg" "limiter_ok cfg l"
    and "limiter_consume cfg l k t = (rate, l')" "\<not> allowed rate"
  shows "allowed (fst (limiter_consume cfg l' k (t + 1000 * retryAfter rate)))"
  using retry_after_own [OF assms(1,2), of t k] retry_after_capacity [OF assms(1,2), of t k] assms(3,4)
  by (cases "map_of (entries (limiter_cleanup t l)) (normalized_key k)") auto

theorem request_limiter_retry_after_witness:
  "allowed (fst (limiter_consume \<lparr>limit = 1, windowMs = 1500, maxEntries = 1\<rparr>
     \<lparr>entries = [(js ''a'', \<lparr>count = 1, resetAt = 1500\<rparr>)], overflowBucket = None\<rparr> (js ''a'') 2100))"
  using request_limiter_retry_after [of "\<lparr>limit = 1, windowMs = 1500, maxEntries = 1\<rparr>"
    "\<lparr>entries = [(js ''a'', \<lparr>count = 1, resetAt = 1500\<rparr>)], overflowBucket = None\<rparr>" "js ''a''" 100]
  by (simp add: limiter_consume_def limiter_cleanup_def limiter_ok_def valid_limiter_config_def
      normalized_key_def js_def ceil_div_def Let_def)

text \<open>Lockout: once a key's window has counted \<open>limit\<close> failures, \<open>allow\<close> refuses the key until the
  window ends, whatever other keys do, as long as the keys in use fit into the table (so that
  nothing is evicted) and nobody clears the key.\<close>

theorem failure_limiter_lockout:
  assumes K: "keys_in K es" "finite K" "int (card K) \<le> maxEntries cfg" "normalized_key key \<in> K"
    and calls: "call_key ` set calls \<subseteq> K"
      "\<forall>call \<in> set calls. within_window (normalized_key key) (t0 + windowMs cfg) call"
    and window: "1 \<le> windowMs cfg"
    and first: "map_of (failure_cleanup cfg t0 es) (normalized_key key) = None"
    and many: "limit cfg \<le> 1 + int (count_where (is_failure_of (normalized_key key)) calls)"
    and now: "t < t0 + windowMs cfg"
  shows "\<not> fst (failure_allow cfg (fold (failure_step cfg) calls (recordFailure cfg es key t0)) key t)"
proof -
  let ?k = "normalized_key key"
  note g = getEntry_fits [OF K window, where t = t0]
  have dist: "distinct (map fst es)" using K(1) by (simp add: keys_in_def)
  have fresh: "fst (getEntry cfg es ?k t0) = \<lparr>failures = 0, failure_resetAt = t0 + windowMs cfg\<rparr>"
    using first g(3) map_of_filter_live [OF dist, of t0 ?k] keys_in_cleanup(1) [OF K(1-3), of t0]
    by (auto split: option.splits if_splits)
  have mem: "?k \<in> set (map fst (snd (getEntry cfg es ?k t0)))"
    using map_of_SomeD [OF g(2)] by force
  define es1 where "es1 = recordFailure cfg es key t0"
  have es1: "es1 = AList.update ?k \<lparr>failures = 1, failure_resetAt = t0 + windowMs cfg\<rparr>
      (snd (getEntry cfg es ?k t0))"
    using mem fresh by (auto simp: es1_def recordFailure_def Let_def case_prod_beta)
  have "keys_in K es1" unfolding es1 using g(1) K(4) by (rule keys_in_update)
  moreover have "map_of es1 ?k = Some \<lparr>failures = 1, failure_resetAt = t0 + windowMs cfg\<rparr>"
    by (simp add: es1 update_conv')
  ultimately have run: "keys_in K (fold (failure_step cfg) calls es1) \<and>
      map_of (fold (failure_step cfg) calls es1) ?k =
        Some \<lparr>failures = 1 + int (count_where (is_failure_of ?k) calls), failure_resetAt = t0 + windowMs cfg\<rparr>"
    using failure_run_fits [of K es1 cfg calls ?k] K calls window by simp
  from getEntry_fits(3) [OF conjunct1 [OF run] K(2-4) window, where t = t] conjunct2 [OF run] many now
  show ?thesis by (simp add: failure_allow_def case_prod_beta es1_def)
qed

theorem failure_limiter_lockout_witness:
  "\<not> fst (failure_allow \<lparr>limit = 2, windowMs = 100, maxEntries = 5\<rparr>
      (fold (failure_step \<lparr>limit = 2, windowMs = 100, maxEntries = 5\<rparr>)
        [Failure_call (js ''b'') 3, Failure_call (js ''a'') 7]
        (recordFailure \<lparr>limit = 2, windowMs = 100, maxEntries = 5\<rparr> [] (js ''a'') 0)) (js ''a'') 99)"
  using failure_limiter_lockout [of "{js ''a'', js ''b''}" "[]"
    "\<lparr>limit = 2, windowMs = 100, maxEntries = 5\<rparr>" "js ''a''"
    "[Failure_call (js ''b'') 3, Failure_call (js ''a'') 7]" 0 99]
  by (simp add: keys_in_def normalized_key_def failure_cleanup_def count_where_def js_def)

text \<open>The public search limiter admits a client address at most \<open>2 * 120\<close> times in any minute.\<close>

theorem public_rate_sliding_bound:
  assumes "sorted (map snd calls)" "hi - lo \<le> 60000"
  shows "granted normalized_key publicRateLimit [] address lo hi calls \<le> 240"
proof -
  have "public_rate_ok []" by (simp add: public_rate_ok_def)
  from public_rate.granted_sliding_bound [OF this assms] show ?thesis by simp
qed

theorem public_rate_sliding_bound_witness:
  "granted normalized_key publicRateLimit [] (js ''a'') 0 60000 [(js ''a'', 1), (js ''a'', 2)] \<le> 240"
  using public_rate_sliding_bound [of "[(js ''a'', 1), (js ''a'', 2)]" 60000 0 "js ''a''"] by simp

end
