(* ===== verification/Auth_InFlight.thy ===== *)
theory Auth_InFlight
  imports Prelude "HOL-Library.Multiset" "HOL-Library.AList"
begin

text \<open>
  The concurrency gate in front of device authentication
  (\<open>src/src/telemetry-auth-inflight.js\<close>). A release closure is a value: the key it was
  handed out for and its own \<open>released\<close> flag. Any interleaving of acquisitions and release
  calls (also of one closure called twice) is a list of events.

  The locale \<open>gate\<close> is the contract: the gate's state represents the multiset of keys whose
  closures have not been called yet. It is interpreted on the limiter.
\<close>

section \<open>The contract of a gate\<close>

datatype 'p gate_event = Acquire 'p | Release nat

fun gate_step ::
    "('s \<Rightarrow> 'p \<Rightarrow> ('tok \<times> 's) option) \<Rightarrow> ('tok \<Rightarrow> 's \<Rightarrow> 'tok \<times> 's) \<Rightarrow>
     'p gate_event \<Rightarrow> 's \<times> 'tok list \<Rightarrow> 's \<times> 'tok list" where
  "gate_step acquire rel (Acquire p) (s, toks) =
     (case acquire s p of
        None \<Rightarrow> (s, toks)
      | Some (tok, s') \<Rightarrow> (s', toks @ [tok]))"
| "gate_step acquire rel (Release i) (s, toks) =
     (if i < length toks
      then let (tok, s') = rel (toks ! i) s in (s', toks[i := tok])
      else (s, toks))"

definition held_keys :: "('tok \<Rightarrow> 'k option) \<Rightarrow> 'tok list \<Rightarrow> 'k multiset" where
  "held_keys held toks = mset (List.map_filter held toks)"

lemma held_keys_simps [simp]:
  "held_keys held [] = {#}"
  "held_keys held (tok # toks) =
     (case held tok of None \<Rightarrow> held_keys held toks | Some k \<Rightarrow> add_mset k (held_keys held toks))"
  "held_keys held (toks @ toks') = held_keys held toks + held_keys held toks'"
  by (auto simp: held_keys_def List.map_filter_def split: option.splits)

lemma held_keys_mem: "tok \<in> set toks \<Longrightarrow> held tok = Some k \<Longrightarrow> k \<in># held_keys held toks"
  by (induction toks) (auto split: option.splits)

lemma held_keys_update:
  "i < length toks \<Longrightarrow> held (toks ! i) = Some k \<Longrightarrow> held tok = None \<Longrightarrow>
     k \<in># held_keys held toks \<and> held_keys held (toks[i := tok]) = held_keys held toks - {#k#}"
proof (induction toks arbitrary: i)
  case (Cons a toks)
  show ?case
  proof (cases i)
    case 0
    with Cons.prems show ?thesis by simp
  next
    case (Suc j)
    with Cons show ?thesis by (auto split: option.splits)
  qed
qed simp

locale gate =
  fixes acquire :: "'s \<Rightarrow> 'p \<Rightarrow> ('tok \<times> 's) option"
    and rel :: "'tok \<Rightarrow> 's \<Rightarrow> 'tok \<times> 's"
    and held :: "'tok \<Rightarrow> 'k option"
    and represents :: "'s \<Rightarrow> 'k multiset \<Rightarrow> bool"
  assumes acquire_adds: "represents s M \<Longrightarrow> acquire s p = Some (tok, s') \<Longrightarrow>
      \<exists>k. held tok = Some k \<and> represents s' (add_mset k M)"
    and release_removes: "represents s M \<Longrightarrow> held tok = Some k \<Longrightarrow> k \<in># M \<Longrightarrow>
      held (fst (rel tok s)) = None \<and> represents (snd (rel tok s)) (M - {#k#})"
    and release_again: "held tok = None \<Longrightarrow> rel tok s = (tok, s)"
begin

lemma step_represents:
  assumes "represents s (held_keys held toks)" "gate_step acquire rel ev (s, toks) = (s', toks')"
  shows "represents s' (held_keys held toks')"
proof (cases ev)
  case (Acquire p)
  with assms show ?thesis
    by (auto dest: acquire_adds split: option.splits)
next
  case (Release i)
  show ?thesis
  proof (cases "i < length toks")
    case True
    with Release assms(2) have s': "s' = snd (rel (toks ! i) s)" "toks' = toks[i := fst (rel (toks ! i) s)]"
      by (auto simp: case_prod_beta)
    show ?thesis
    proof (cases "held (toks ! i)")
      case None
      with release_again [OF None, of s] s' assms(1) show ?thesis by simp
    next
      case (Some k)
      with True have "k \<in># held_keys held toks" using held_keys_mem nth_mem by metis
      from release_removes [OF assms(1) Some this]
        held_keys_update [of i toks held k "fst (rel (toks ! i) s)", OF True Some] s'
      show ?thesis by simp
    qed
  qed (use assms Release in simp)
qed

lemma run_represents:
  "represents s (held_keys held toks) \<Longrightarrow>
   fold (gate_step acquire rel) events (s, toks) = (s', toks') \<Longrightarrow>
   represents s' (held_keys held toks')"
proof (induction events arbitrary: s toks)
  case (Cons ev events)
  obtain s1 toks1 where step: "gate_step acquire rel ev (s, toks) = (s1, toks1)" by fastforce
  with Cons.IH [OF step_represents [OF Cons.prems(1) step]] Cons.prems(2) show ?case by simp
qed simp

end

section \<open>createTelemetryAuthInFlightLimiter\<close>

record inflight_limits =
  perPeerLimit :: int
  globalLimit :: int
  maxPeers :: int

record inflight =
  activeByPeer :: "(jsstr \<times> int) list"
  activeTotal :: int

record release_closure =
  closure_key :: jsstr
  released :: bool

definition default_inflight_limits :: inflight_limits where
  "default_inflight_limits = \<lparr>perPeerLimit = 4, globalLimit = 8, maxPeers = 2048\<rparr>"

definition createTelemetryAuthInFlightLimiter :: "inflight_limits \<Rightarrow> inflight option" where
  "createTelemetryAuthInFlightLimiter lims =
     (if 0 < perPeerLimit lims \<and> 0 < globalLimit lims \<and> 0 < maxPeers lims
      then Some \<lparr>activeByPeer = [], activeTotal = 0\<rparr> else None)"

text \<open>\<open>activeByPeer.get(key) || d\<close>: an absent entry and a stored zero both give the default.\<close>

definition get_or :: "(jsstr \<times> int) list \<Rightarrow> jsstr \<Rightarrow> int \<Rightarrow> int" where
  "get_or m key d = (case map_of m key of Some n \<Rightarrow> if n = 0 then d else n | None \<Rightarrow> d)"

definition tryAcquire :: "inflight_limits \<Rightarrow> inflight \<Rightarrow> jsstr \<Rightarrow> (release_closure \<times> inflight) option" where
  "tryAcquire lims s peer =
     (let key = normalized_key peer;
          activeForPeer = get_or (activeByPeer s) key 0
      in if globalLimit lims \<le> activeTotal s \<or> perPeerLimit lims \<le> activeForPeer then None
         else if activeForPeer = 0 \<and> maxPeers lims \<le> int (length (activeByPeer s)) then None
         else Some (\<lparr>closure_key = key, released = False\<rparr>,
                    \<lparr>activeByPeer = AList.update key (activeForPeer + 1) (activeByPeer s),
                     activeTotal = activeTotal s + 1\<rparr>))"

definition release :: "release_closure \<Rightarrow> inflight \<Rightarrow> release_closure \<times> inflight" where
  "release c s =
     (if released c then (c, s)
      else let key = closure_key c;
               remainingForPeer = get_or (activeByPeer s) key 1 - 1
           in (c\<lparr>released := True\<rparr>,
               \<lparr>activeByPeer =
                  (if remainingForPeer = 0 then AList.delete key (activeByPeer s)
                   else AList.update key remainingForPeer (activeByPeer s)),
                activeTotal = activeTotal s - 1\<rparr>))"

definition gate_snapshot :: "inflight \<Rightarrow> int \<times> nat" where
  "gate_snapshot s = (activeTotal s, length (activeByPeer s))"

text \<open>\<open>run\<close>: the operation is given the limiter as it is while it holds the slot and gives back the
  limiter as the other requests have left it, with its value or the error it throws; the
  \<open>finally\<close> block releases on both paths.\<close>

definition run_inflight ::
    "inflight_limits \<Rightarrow> inflight \<Rightarrow> jsstr \<Rightarrow> (inflight \<Rightarrow> ('e + 'a) \<times> inflight) \<Rightarrow>
     (inflight \<Rightarrow> ('e + 'a) \<times> inflight) \<Rightarrow> ('e + 'a) \<times> inflight" where
  "run_inflight lims s peer operation onSaturated =
     (case tryAcquire lims s peer of
        None \<Rightarrow> onSaturated s
      | Some (c, s1) \<Rightarrow> (let (result, s2) = operation s1 in (result, snd (release c s2))))"

subsection \<open>What the limiter's state stands for\<close>

definition closure_held :: "release_closure \<Rightarrow> jsstr option" where
  "closure_held c = (if released c then None else Some (closure_key c))"

definition represents_inflight :: "inflight_limits \<Rightarrow> inflight \<Rightarrow> jsstr multiset \<Rightarrow> bool" where
  "represents_inflight lims s M \<longleftrightarrow>
     distinct (map fst (activeByPeer s)) \<and>
     (\<forall>k. map_of (activeByPeer s) k = (if k \<in># M then Some (int (count M k)) else None)) \<and>
     activeTotal s = int (size M) \<and>
     int (size M) \<le> globalLimit lims \<and>
     (\<forall>k. int (count M k) \<le> perPeerLimit lims) \<and>
     int (card (set_mset M)) \<le> maxPeers lims"

lemma represents_get_or:
  "represents_inflight lims s M \<Longrightarrow> get_or (activeByPeer s) k d = (if k \<in># M then int (count M k) else d)"
  by (auto simp: represents_inflight_def get_or_def count_eq_zero_iff)

lemma represents_peers:
  assumes "represents_inflight lims s M"
  shows "length (activeByPeer s) = card (set_mset M)" "fst ` set (activeByPeer s) = set_mset M"
proof -
  have "k \<in> fst ` set (activeByPeer s) \<longleftrightarrow> k \<in># M" for k
    using assms map_of_eq_None_iff [of "activeByPeer s" k]
    by (auto simp: represents_inflight_def split: if_splits)
  then show keys: "fst ` set (activeByPeer s) = set_mset M" by blast
  have "length (activeByPeer s) = card (set (map fst (activeByPeer s)))"
    using assms distinct_card by (fastforce simp: represents_inflight_def)
  with keys show "length (activeByPeer s) = card (set_mset M)" by simp
qed

lemma tryAcquire_represents:
  assumes r: "represents_inflight lims s M" and a: "tryAcquire lims s peer = Some (c, s')"
  shows "closure_held c = Some (normalized_key peer) \<and>
    represents_inflight lims s' (add_mset (normalized_key peer) M)"
proof -
  let ?k = "normalized_key peer"
  have g: "get_or (activeByPeer s) ?k 0 = int (count M ?k)"
    using represents_get_or [OF r, of ?k 0] by (simp add: not_in_iff)
  from a have c: "c = \<lparr>closure_key = ?k, released = False\<rparr>"
    and s': "s' = \<lparr>activeByPeer = AList.update ?k (int (count M ?k) + 1) (activeByPeer s),
                   activeTotal = activeTotal s + 1\<rparr>"
    and room: "activeTotal s < globalLimit lims" "int (count M ?k) < perPeerLimit lims"
      "count M ?k = 0 \<Longrightarrow> int (length (activeByPeer s)) < maxPeers lims"
    by (auto simp: tryAcquire_def Let_def g split: if_splits)
  have "card (set_mset (add_mset ?k M)) = (if ?k \<in># M then card (set_mset M) else Suc (card (set_mset M)))"
    by (simp add: card_insert_if)
  with r room represents_peers [OF r] have "int (card (set_mset (add_mset ?k M))) \<le> maxPeers lims"
    by (auto simp: represents_inflight_def not_in_iff)
  with r room s' c show ?thesis
    by (auto simp: represents_inflight_def closure_held_def distinct_update update_conv'
        not_in_iff)
qed

lemma release_represents:
  assumes r: "represents_inflight lims s M" and held: "closure_held c = Some k" and k: "k \<in># M"
  shows "closure_held (fst (release c s)) = None \<and> represents_inflight lims (snd (release c s)) (M - {#k#})"
proof -
  from held have c: "c = \<lparr>closure_key = k, released = False\<rparr>"
    by (cases c) (auto simp: closure_held_def split: if_splits)
  have g: "get_or (activeByPeer s) k 1 = int (count M k)"
    using represents_get_or [OF r, of k 1] k by simp
  have pos: "0 < count M k" using k by simp
  have "set_mset (M - {#k#}) \<subseteq> set_mset M" by (meson in_diffD subsetI)
  then have peers: "card (set_mset (M - {#k#})) \<le> card (set_mset M)" by (intro card_mono) auto
  have size: "int (size (M - {#k#})) = int (size M) - 1"
    using k size_Diff_singleton [OF k] size_eq_0_iff_empty [of M] by (cases "size M") auto
  have more: "Suc 0 < count M k" if "count M k \<noteq> Suc 0" using pos that by linarith
  have under: "int (count M k) - 1 \<le> perPeerLimit lims"
    using r by (simp add: represents_inflight_def order_trans [of _ "int (count M k)"])
  have mem: "k' \<in># M - {#k#} \<longleftrightarrow> (if k' = k then 1 < count M k else k' \<in># M)" for k'
    by (auto simp: count_greater_zero_iff [symmetric] simp del: count_greater_zero_iff)
  show ?thesis
    using r peers pos more under
    by (auto simp: represents_inflight_def release_def Let_def g c size mem closure_held_def
        distinct_update distinct_delete update_conv' delete_conv' of_nat_diff
        simp flip: not_in_iff)
qed

interpretation inflight_gate: gate "tryAcquire lims" release closure_held "represents_inflight lims"
  for lims
proof (unfold_locales, goal_cases)
  case (1 s M p tok s')
  with tryAcquire_represents show ?case by blast
next
  case (2 s M tok k)
  then show ?case by (rule release_represents)
next
  case (3 tok s)
  then show ?case by (simp add: release_def closure_held_def split: if_splits)
qed

section \<open>Properties of the gate\<close>

text \<open>C24. Under any interleaving of acquisitions and releases from a fresh limiter, at most
  \<open>globalLimit\<close> slots are held, at most \<open>perPeerLimit\<close> by one peer and by at most \<open>maxPeers\<close>
  peers, and the limiter's counters are exactly the closures that are still to be called.\<close>

theorem inflight_bounded:
  assumes "createTelemetryAuthInFlightLimiter lims = Some s0"
    and "fold (gate_step (tryAcquire lims) release) events (s0, []) = (s, closures)"
  shows "gate_snapshot s = (int (length (filter (\<lambda>c. \<not> released c) closures)),
           card (closure_key ` {c \<in> set closures. \<not> released c})) \<and>
    int (length (filter (\<lambda>c. \<not> released c) closures)) \<le> globalLimit lims \<and>
    int (length (filter (\<lambda>c. \<not> released c \<and> closure_key c = peer) closures)) \<le> perPeerLimit lims \<and>
    int (card (closure_key ` {c \<in> set closures. \<not> released c})) \<le> maxPeers lims"
proof -
  have "represents_inflight lims s0 (held_keys closure_held [])"
    using assms(1) by (auto simp: createTelemetryAuthInFlightLimiter_def represents_inflight_def
        split: if_splits)
  from inflight_gate.run_represents [OF this assms(2)]
  have r: "represents_inflight lims s (held_keys closure_held closures)" .
  have size: "size (held_keys closure_held cs) = length (filter (\<lambda>c. \<not> released c) cs)" for cs
    by (induction cs) (auto simp: closure_held_def)
  have per: "count (held_keys closure_held cs) peer =
      length (filter (\<lambda>c. \<not> released c \<and> closure_key c = peer) cs)" for cs
    by (induction cs) (auto simp: closure_held_def)
  have keys: "set_mset (held_keys closure_held cs) = closure_key ` {c \<in> set cs. \<not> released c}" for cs
    by (induction cs) (auto simp: closure_held_def)
  have "int (count (held_keys closure_held closures) peer) \<le> perPeerLimit lims"
    using r by (simp add: represents_inflight_def)
  with r represents_peers(1) [OF r] show ?thesis
    unfolding per by (simp add: represents_inflight_def gate_snapshot_def size keys)
qed

theorem inflight_bounded_witness:
  "gate_snapshot (fst (fold (gate_step (tryAcquire default_inflight_limits) release)
      [Acquire (js ''p''), Acquire (js ''q''), Release 0, Release 0, Acquire (js ''q'')]
      (\<lparr>activeByPeer = [], activeTotal = 0\<rparr>, []))) = (2, 1)"
proof -
  let ?events = "[Acquire (js ''p''), Acquire (js ''q''), Release 0, Release 0, Acquire (js ''q'')]"
  have "createTelemetryAuthInFlightLimiter default_inflight_limits = Some \<lparr>activeByPeer = [], activeTotal = 0\<rparr>"
    by (simp add: createTelemetryAuthInFlightLimiter_def default_inflight_limits_def)
  moreover have run: "fold (gate_step (tryAcquire default_inflight_limits) release) ?events
      (\<lparr>activeByPeer = [], activeTotal = 0\<rparr>, []) =
      (\<lparr>activeByPeer = [(js ''q'', 2)], activeTotal = 2\<rparr>,
       [\<lparr>closure_key = js ''p'', released = True\<rparr>, \<lparr>closure_key = js ''q'', released = False\<rparr>,
        \<lparr>closure_key = js ''q'', released = False\<rparr>])"
    by (simp add: tryAcquire_def release_def get_or_def default_inflight_limits_def normalized_key_def
        Let_def)
  ultimately have "gate_snapshot \<lparr>activeByPeer = [(js ''q'', 2)], activeTotal = 2\<rparr> =
      (2, card (closure_key ` {c \<in> {\<lparr>closure_key = js ''p'', released = True\<rparr>,
         \<lparr>closure_key = js ''q'', released = False\<rparr>}. \<not> released c}))"
    using inflight_bounded [of _ _ ?events] by fastforce
  with run show ?thesis by (simp add: gate_snapshot_def)
qed

text \<open>\<open>run\<close> gives its slot back: whatever the operation did, and also when it throws, the gate
  afterwards stands for exactly the slots the operation left held besides its own, and the
  operation's result or error is handed through.\<close>

theorem run_inflight_balanced:
  assumes "represents_inflight lims s M" "tryAcquire lims s peer = Some (c, s1)"
    and "operation s1 = (result, s2)" "represents_inflight lims s2 (add_mset (normalized_key peer) M')"
  shows "fst (run_inflight lims s peer operation onSaturated) = result \<and>
    represents_inflight lims (snd (run_inflight lims s peer operation onSaturated)) M'"
  using tryAcquire_represents [OF assms(1,2)] assms release_represents [OF assms(4), of c]
  by (simp add: run_inflight_def)

theorem run_inflight_balanced_witness:
  "run_inflight default_inflight_limits \<lparr>activeByPeer = [], activeTotal = 0\<rparr> (js ''p'')
     (\<lambda>s. (Inl ''boom'', s)) (\<lambda>s. (Inr (0 :: nat), s)) =
   (Inl ''boom'', \<lparr>activeByPeer = [], activeTotal = 0\<rparr>)"
proof -
  let ?s1 = "\<lparr>activeByPeer = [(js ''p'', 1)], activeTotal = 1\<rparr>"
  let ?run = "run_inflight default_inflight_limits \<lparr>activeByPeer = [], activeTotal = 0\<rparr> (js ''p'')
     (\<lambda>s. (Inl ''boom'', s)) (\<lambda>s. (Inr (0 :: nat), s))"
  have empty: "represents_inflight default_inflight_limits \<lparr>activeByPeer = [], activeTotal = 0\<rparr> {#}"
    by (simp add: represents_inflight_def default_inflight_limits_def)
  have got: "tryAcquire default_inflight_limits \<lparr>activeByPeer = [], activeTotal = 0\<rparr> (js ''p'') =
      Some (\<lparr>closure_key = js ''p'', released = False\<rparr>, ?s1)"
    by (simp add: tryAcquire_def get_or_def default_inflight_limits_def normalized_key_def js_def Let_def)
  have "represents_inflight default_inflight_limits ?s1 (add_mset (normalized_key (js ''p'')) {#})"
    using tryAcquire_represents [OF empty got] by simp
  from run_inflight_balanced [of _ _ _ _ _ _ "\<lambda>s. (Inl ''boom'', s)", OF empty got refl this,
      of "\<lambda>s. (Inr 0, s)"]
  have run: "fst ?run = Inl ''boom'' \<and> represents_inflight default_inflight_limits (snd ?run) {#}"
    by simp
  then have "snd ?run = \<lparr>activeByPeer = [], activeTotal = 0\<rparr>"
    by (cases "snd ?run") (auto simp: represents_inflight_def map_of_eq_None_iff dest: represents_peers)
  with run show ?thesis by (simp add: prod_eq_iff)
qed

end
