(* ===== verification/Telemetry_Env.thy ===== *)
theory Telemetry_Env
  imports Device_Auth Rate_Limit Auth_InFlight
begin

text \<open>
  The state the telemetry handlers share, and the environment one request runs in. JavaScript
  gives control away only at an \<open>await\<close>; at the \<open>i\<close>-th one of a request \<open>interfere env i\<close> is
  whatever the other requests do to the shared state meanwhile. \<open>db_raises env i\<close> says that
  the query there fails, \<open>tx_fault\<close> how a transaction ends, and \<open>clock env i\<close> is the database
  clock. The theorems hold for every environment; \<open>quiet\<close> is the one of a request that runs
  alone.
\<close>

record telemetry_state =
  db :: telemetry_db
  heartbeat_limiter :: request_limiter
  presence_limiter :: request_limiter
  pairing_create_limiter :: request_limiter
  pairing_claim_limiter :: request_limiter
  management_list_limiter :: request_limiter
  management_mutation_limiter :: request_limiter
  history_limiter :: request_limiter
  gate_state :: inflight

record environment =
  interfere :: "nat \<Rightarrow> telemetry_state \<Rightarrow> telemetry_state"
  db_raises :: "nat \<Rightarrow> bool"
  tx_fault :: tx_fault
  clock :: "nat \<Rightarrow> int"
  now_ms :: int

definition quiet :: "environment \<Rightarrow> bool" where
  "quiet env \<longleftrightarrow> interfere env = (\<lambda>i s. s) \<and> db_raises env = (\<lambda>i. False) \<and> tx_fault env = Tx_ok"

text \<open>What the server is configured with: the keyed hash and its pepper, and \<open>JSON.parse\<close>.\<close>

record secrets =
  hmac :: "jsstr \<Rightarrow> jsstr \<Rightarrow> jsstr"
  pepper :: jsstr
  json_parse :: "jsstr \<Rightarrow> json option"

text \<open>The pre-authentication limiter key.\<close>

definition device_rate_key :: "secrets \<Rightarrow> http_request \<Rightarrow> jsstr \<Rightarrow> jsstr" where
  "device_rate_key sec request peer =
     (case parseDeviceAuthorization request of
        Some credential \<Rightarrow> js ''credential:'' @ hashDeviceCredential (hmac sec) (pepper sec) credential
      | None \<Rightarrow> js ''peer:'' @ peer)"

definition server_unavailable :: response where
  "server_unavailable = telemetryError 503 ''server_unavailable'' None"

text \<open>The lookup behind the concurrency gate, at the \<open>i\<close>-th await: \<open>Inl\<close> is an answer already sent.\<close>

definition gated_authentication ::
    "secrets \<Rightarrow> environment \<Rightarrow> nat \<Rightarrow> http_request \<Rightarrow> jsstr \<Rightarrow> telemetry_state \<Rightarrow>
     (response + auth_result) \<times> telemetry_state" where
  "gated_authentication sec env i request peer s =
     (case run_inflight default_inflight_limits (gate_state s) peer
             (\<lambda>g. let s' = interfere env i (s\<lparr>gate_state := g\<rparr>)
                  in (Inr (if db_raises env i then Inl server_unavailable
                           else Inr (authenticateTelemetryDevice (hmac sec) (pepper sec) request (db s')), s'),
                      gate_state s'))
             (\<lambda>g. (Inr (Inl (telemetryError 429 ''rate_limited'' (Some 1)), s), g)) of
        (Inr (answer, s'), g) \<Rightarrow> (answer, s'\<lparr>gate_state := g\<rparr>)
      | (Inl (), g) \<Rightarrow> (Inl server_unavailable, s))"

lemma gated_authentication_cases:
  obtains (saturated) "tryAcquire default_inflight_limits (gate_state s) peer = None"
      "gated_authentication sec env i request peer s =
         (Inl (telemetryError 429 ''rate_limited'' (Some 1)), s)"
  | (admitted) c g s' where "tryAcquire default_inflight_limits (gate_state s) peer = Some (c, g)"
      "s' = interfere env i (s\<lparr>gate_state := g\<rparr>)"
      "gated_authentication sec env i request peer s =
         (if db_raises env i then Inl server_unavailable
          else Inr (authenticateTelemetryDevice (hmac sec) (pepper sec) request (db s')),
          s'\<lparr>gate_state := snd (release c (gate_state s'))\<rparr>)"
proof (cases "tryAcquire default_inflight_limits (gate_state s) peer")
  case None
  then show thesis
    by (intro saturated) (simp_all add: gated_authentication_def run_inflight_def)
next
  case (Some a)
  then obtain c g where "tryAcquire default_inflight_limits (gate_state s) peer = Some (c, g)"
    by (cases a) auto
  then show thesis
    by (intro admitted [of c g]) (simp_all add: gated_authentication_def run_inflight_def Let_def)
qed

text \<open>The states a request that writes nothing to the database can meet: what the environment makes of
  the starting state, up to the limiters and the gate.\<close>

inductive env_reach :: "environment \<Rightarrow> telemetry_state \<Rightarrow> telemetry_state \<Rightarrow> bool" for env where
  env_start: "db y = db x \<Longrightarrow> env_reach env x y"
| env_interfere: "env_reach env x y \<Longrightarrow> db z = db (interfere env i y) \<Longrightarrow> env_reach env x z"

lemma env_reach_db: "env_reach env x y \<Longrightarrow> db z = db y \<Longrightarrow> env_reach env x z"
  by (induction rule: env_reach.induct) (auto intro: env_reach.intros)

lemma env_reach_from: "env_reach env x y \<Longrightarrow> db w = db x \<Longrightarrow> env_reach env w y"
  by (induction rule: env_reach.induct) (auto intro: env_reach.intros)

lemma env_reach_trans: "env_reach env y z \<Longrightarrow> env_reach env x y \<Longrightarrow> env_reach env x z"
  by (induction rule: env_reach.induct) (auto intro: env_reach.intros env_reach_db)

lemma env_reach_invariant:
  assumes "env_reach env x y" "P (db x)" "\<And>i z. P (db z) \<Longrightarrow> P (db (interfere env i z))"
  shows "P (db y)"
  using assms by (induction rule: env_reach.induct) auto

lemma env_reach_quiet: "env_reach env x y \<Longrightarrow> quiet env \<Longrightarrow> db y = db x"
  by (induction rule: env_reach.induct) (auto simp: quiet_def)

lemma env_reach_once: "db y = db x \<Longrightarrow> db z = db (interfere env i y) \<Longrightarrow> env_reach env x z"
  by (rule env_interfere [OF env_start])

text \<open>Authentication writes nothing.\<close>

lemma gated_authentication_reach:
  "gated_authentication sec env i request peer s = (answer, s') \<Longrightarrow> env_reach env s s'"
proof (cases rule: gated_authentication_cases [of s peer sec env i request])
  case saturated
  then show "gated_authentication sec env i request peer s = (answer, s') \<Longrightarrow> ?thesis"
    by (simp add: env_start)
next
  case (admitted c g s1)
  then show "gated_authentication sec env i request peer s = (answer, s') \<Longrightarrow> ?thesis"
    by (intro env_reach_once [of "s\<lparr>gate_state := g\<rparr>" s s' env i]) auto
qed

lemma gated_authentication_Inr:
  assumes "gated_authentication sec env i request peer s = (Inr auth, s')"
  shows "auth = authenticateTelemetryDevice (hmac sec) (pepper sec) request (db s')"
  using assms
  by (cases rule: gated_authentication_cases [of s peer sec env i request]) (auto split: if_splits)

lemma tryAcquire_release:
  assumes "represents_inflight lims g M" "tryAcquire lims g peer = Some (c, g')"
  shows "represents_inflight lims (snd (release c g')) M"
  using tryAcquire_represents [OF assms] release_represents [of lims g' "add_mset (normalized_key peer) M" c]
  by simp

section \<open>A concrete server\<close>

text \<open>One account with one paired device, a request with its credential, and a parser that knows one body.
  The witnesses of the handlers' properties run on it.\<close>

definition sample_credential :: jsstr where
  "sample_credential = generateDeviceCredential (replicate 32 0)"

definition sample_secrets :: "obj \<Rightarrow> secrets" where
  "sample_secrets body = \<lparr>hmac = (\<lambda>p x. x), pepper = [], json_parse = (\<lambda>text_read. Some (JObj body))\<rparr>"

definition sample_device :: device where
  "sample_device =
     \<lparr>device_id = js ''d'', app_user_id = js ''u'', device_name = js ''rig'',
      credential_hash = hashDeviceCredential (\<lambda>p x. x) [] sample_credential,
      device_created_at = 0, last_seen_at = None, revoked_at = None, last_presence_revision = 0\<rparr>"

definition sample_db :: telemetry_db where
  "sample_db =
     \<lparr>app_users = [\<lparr>user_id = js ''u'', account_status = Active\<rparr>], telemetry_devices = [sample_device],
      telemetry_presence = [], telemetry_presence_history = [], telemetry_pairing_codes = []\<rparr>"

definition empty_limiter :: request_limiter where
  "empty_limiter = \<lparr>entries = [], overflowBucket = None\<rparr>"

definition sample_state :: telemetry_state where
  "sample_state =
     \<lparr>db = sample_db, heartbeat_limiter = empty_limiter, presence_limiter = empty_limiter,
      pairing_create_limiter = empty_limiter, pairing_claim_limiter = empty_limiter,
      management_list_limiter = empty_limiter, management_mutation_limiter = empty_limiter,
      history_limiter = empty_limiter, gate_state = \<lparr>activeByPeer = [], activeTotal = 0\<rparr>\<rparr>"

definition sample_request :: http_request where
  "sample_request =
     \<lparr>rawHeaders = None, headersDistinct_authorization = None,
      headers_authorization = Some (js ''Bearer '' @ sample_credential),
      content_type = js ''application/json''\<rparr>"

definition alone :: environment where
  "alone = \<lparr>interfere = (\<lambda>i s. s), db_raises = (\<lambda>i. False), tx_fault = Tx_ok, clock = (\<lambda>i. 1000), now_ms = 1\<rparr>"

lemma quiet_alone: "quiet alone"
  by (simp add: quiet_def alone_def)

lemma sample_authorization [simp]: "parseDeviceAuthorization sample_request = Some sample_credential"
proof -
  have "credentialPattern sample_credential"
    unfolding sample_credential_def by (rule generated_credential_pattern) (simp_all add: is_buffer_def)
  then show ?thesis
    by (simp add: parseDeviceAuthorization_def authorizationValue_def bearerPattern_def sample_request_def js_def)
qed

lemma sample_authenticates [simp]:
  "authenticateTelemetryDevice (hmac (sample_secrets body)) (pepper (sample_secrets body)) sample_request sample_db =
     Authenticated (js ''d'') (js ''u'')"
  by (simp add: authenticateTelemetryDevice_def find_credential_def find_user_def sample_secrets_def
      sample_db_def sample_device_def)

lemma sample_db_ok [simp]: "telemetry_ok sample_db"
  by (simp add: sample_db_def sample_device_def telemetry_ok_def device_checks_def js_def MAX_SAFE_INTEGER_def
      high_surrogate_def low_surrogate_def)

lemma alone_simps [simp]:
  "interfere alone i s = s" "db_raises alone i = False" "tx_fault alone = Tx_ok" "clock alone i = 1000"
  by (simp_all add: alone_def)

lemma sample_admitted [simp]:
  assumes "gate_state s = \<lparr>activeByPeer = [], activeTotal = 0\<rparr>" "db s = sample_db"
  shows "gated_authentication (sample_secrets body) alone i sample_request peer s =
     (Inr (Authenticated (js ''d'') (js ''u'')), s)"
proof -
  have "s\<lparr>gate_state := \<lparr>activeByPeer = [], activeTotal = 0\<rparr>\<rparr> = s"
    using assms(1) by (metis (full_types) telemetry_state.surjective telemetry_state.update_convs(9))
  then show ?thesis
    using assms by (simp add: gated_authentication_def run_inflight_def tryAcquire_def release_def get_or_def
      Let_def default_inflight_limits_def)
qed

lemma sample_state_simps [simp]:
  "gate_state sample_state = \<lparr>activeByPeer = [], activeTotal = 0\<rparr>" "db sample_state = sample_db"
  "heartbeat_limiter sample_state = empty_limiter" "presence_limiter sample_state = empty_limiter"
  "pairing_create_limiter sample_state = empty_limiter" "pairing_claim_limiter sample_state = empty_limiter"
  "management_list_limiter sample_state = empty_limiter"
  "management_mutation_limiter sample_state = empty_limiter" "history_limiter sample_state = empty_limiter"
  by (simp_all add: sample_state_def)

lemma sample_first_call [simp]:
  "limit cfg = int (Suc n) \<Longrightarrow> 0 < maxEntries cfg \<Longrightarrow>
     allowed (fst (limiter_consume cfg empty_limiter k t))"
  by (simp add: limiter_consume_def limiter_cleanup_def empty_limiter_def Let_def)

lemma sample_body [simp]:
  "10 \<le> n \<Longrightarrow>
     readTelemetryJson (json_parse (sample_secrets body)) sample_request (Body_text x 10) n = Parsed body"
  by (simp add: readTelemetryJson_def sample_secrets_def sample_request_def json_content_type_def js_def
      lowcase_def)

end
