(* ===== verification/Heartbeat.thy ===== *)
theory Heartbeat
  imports Telemetry_Env
begin

text \<open>
  The heartbeat route (\<open>src/src/telemetry-heartbeat-handler.js\<close>): rate limit before the body is
  read, the concurrency gate around authentication, validation, one conditional \<open>UPDATE\<close>, and
  a second authentication when the update found nothing.
\<close>

section \<open>The handler\<close>

definition owner_active :: "telemetry_db \<Rightarrow> jsstr \<Rightarrow> bool" where
  "owner_active d uid = (case find_user d uid of Some u \<Rightarrow> account_status u = Active | None \<Rightarrow> False)"

text \<open>The condition of every device statement of the telemetry routes: this device, this owner, not
  revoked, owner active.\<close>

definition live_device :: "telemetry_db \<Rightarrow> jsstr \<Rightarrow> jsstr \<Rightarrow> device option" where
  "live_device d did uid =
     (case find_device d did of
        Some dev \<Rightarrow> if app_user_id dev = uid \<and> revoked_at dev = None \<and> owner_active d uid then Some dev else None
      | None \<Rightarrow> None)"

definition touch_last_seen :: "jsstr \<Rightarrow> jsstr \<Rightarrow> int \<Rightarrow> telemetry_db \<Rightarrow> telemetry_db option" where
  "touch_last_seen did uid now d =
     (case live_device d did uid of
        None \<Rightarrow> None
      | Some dev \<Rightarrow>
          Some (d\<lparr>telemetry_devices :=
             update_where (\<lambda>r. device_id r = did) (\<lambda>r. r\<lparr>last_seen_at := Some now\<rparr>) (telemetry_devices d)\<rparr>))"

definition heartbeat_body_error :: "obj \<Rightarrow> response option" where
  "heartbeat_body_error body =
     (if \<not> has_own body ''schema'' then Some (telemetryError 400 ''invalid_payload'' None)
      else if prop_of body ''schema'' \<noteq> Some (jint 1) then Some (telemetryError 400 ''unsupported_schema'' None)
      else if \<not> keys_within body [''schema''] then Some (telemetryError 400 ''invalid_payload'' None)
      else None)"

definition heartbeat_ok_body :: "int \<Rightarrow> json" where
  "heartbeat_ok_body received =
     JObj [(js ''schema'', jint 1), (js ''ok'', JBool True), (js ''received_at'', JDate received)]"

text \<open>After the update found no live device: authenticate again and say why.\<close>

definition heartbeat_recheck ::
    "secrets \<Rightarrow> environment \<Rightarrow> http_request \<Rightarrow> jsstr \<Rightarrow> telemetry_state \<Rightarrow> response \<times> telemetry_state" where
  "heartbeat_recheck sec env request peer s =
     (case gated_authentication sec env 3 request peer s of
        (Inl response, s') \<Rightarrow> (response, s')
      | (Inr auth, s') \<Rightarrow>
          (case deviceAuthHttpMetadata auth of
             Some response \<Rightarrow> (response, s')
           | None \<Rightarrow> (telemetryError 401 ''invalid_device_credential'' None, s')))"

definition heartbeat_update ::
    "secrets \<Rightarrow> environment \<Rightarrow> http_request \<Rightarrow> jsstr \<Rightarrow> auth_result \<Rightarrow> telemetry_state \<Rightarrow>
     response \<times> telemetry_state" where
  "heartbeat_update sec env request peer auth s0 =
     (let s = interfere env 2 s0 in
      if db_raises env 2 then (server_unavailable, s)
      else case touch_last_seen (auth_device auth) (auth_user auth) (clock env 2) (db s) of
        Some d \<Rightarrow> (json_response 200 (heartbeat_ok_body (clock env 2)), s\<lparr>db := d\<rparr>)
      | None \<Rightarrow> heartbeat_recheck sec env request peer s)"

definition handleTelemetryHeartbeat ::
    "secrets \<Rightarrow> environment \<Rightarrow> http_request \<Rightarrow> jsstr \<Rightarrow> incoming \<Rightarrow> telemetry_state \<Rightarrow>
     response \<times> telemetry_state" where
  "handleTelemetryHeartbeat sec env request peer body s0 =
     (let (rate, limiter) = limiter_consume telemetryHeartbeatRateLimit (heartbeat_limiter s0)
                              (device_rate_key sec request peer) (now_ms env);
          s1 = s0\<lparr>heartbeat_limiter := limiter\<rparr>
      in if \<not> allowed rate then (telemetryRateLimited (retryAfter rate), s1)
      else let parsed = readTelemetryJson (json_parse sec) request body (4 * 1024);
               (admitted, s2) = gated_authentication sec env 1 request peer (interfere env 0 s1)
      in case admitted of
           Inl response \<Rightarrow> (response, s2)
         | Inr auth \<Rightarrow>
             (case deviceAuthHttpMetadata auth of
                Some response \<Rightarrow> (response, s2)
              | None \<Rightarrow>
                  (case parsed of
                     Body_error status code \<Rightarrow> (telemetryError status code None, s2)
                   | Parsed ob \<Rightarrow>
                       (case heartbeat_body_error ob of
                          Some response \<Rightarrow> (response, s2)
                        | None \<Rightarrow> heartbeat_update sec env request peer auth s2))))"

section \<open>Lemmas\<close>

lemma live_device_Some:
  "live_device d did uid = Some dev \<longleftrightarrow>
     find_device d did = Some dev \<and> app_user_id dev = uid \<and> revoked_at dev = None \<and> owner_active d uid"
  by (auto simp: live_device_def split: option.splits)

lemma find_device_update:
  assumes "telemetry_ok d" "\<And>r. device_id (f r) = device_id r"
  shows "find_device (d\<lparr>telemetry_devices := update_where P f (telemetry_devices d)\<rparr>) did =
    map_option (\<lambda>r. if P r then f r else r) (find_device d did)"
  unfolding find_device_def using find_update_where_key [OF ok_devices [OF assms(1)]] assms(2) by simp

text \<open>An update of the device table that keeps ids, owners and hashes keeps the constraints.\<close>

lemma telemetry_ok_devices:
  assumes ok: "telemetry_ok d"
    and keeps: "\<And>r. device_id (f r) = device_id r" "\<And>r. app_user_id (f r) = app_user_id r"
      "\<And>r. credential_hash (f r) = credential_hash r"
    and checks: "\<And>r. r \<in> set (telemetry_devices d) \<Longrightarrow> P r \<Longrightarrow> device_checks r \<Longrightarrow> device_checks (f r)"
  shows "telemetry_ok (d\<lparr>telemetry_devices := update_where P f (telemetry_devices d)\<rparr>)"
proof -
  have ids: "map device_id (update_where P f (telemetry_devices d)) = map device_id (telemetry_devices d)"
    and hashes: "map credential_hash (update_where P f (telemetry_devices d)) =
      map credential_hash (telemetry_devices d)"
    using keeps by (simp_all add: map_key_update_where)
  from arg_cong [OF ids, of set]
  have "device_id ` set (update_where P f (telemetry_devices d)) = device_id ` set (telemetry_devices d)"
    by simp
  moreover have "\<forall>r \<in> set (update_where P f (telemetry_devices d)).
      device_checks r \<and> app_user_id r \<in> user_id ` set (app_users d)"
    using ok keeps(2) checks by (auto simp: update_where_mem telemetry_ok_def)
  ultimately show ?thesis using ok ids hashes by (simp add: telemetry_ok_def)
qed

lemma touch_last_seen_ok: "telemetry_ok d \<Longrightarrow> touch_last_seen did uid now d = Some d' \<Longrightarrow> telemetry_ok d'"
  by (auto simp: touch_last_seen_def device_checks_def intro!: telemetry_ok_devices split: option.splits)

section \<open>Properties\<close>

lemma authenticated_live:
  assumes ok: "telemetry_ok d" and auth: "authenticateTelemetryDevice h p request d = Authenticated did uid"
  shows "\<exists>dev. live_device d did uid = Some dev"
proof -
  from authenticated_device [OF auth] obtain dev u where
    dev: "dev \<in> set (telemetry_devices d)" "device_id dev = did" "app_user_id dev = uid" "revoked_at dev = None"
    and u: "u \<in> set (app_users d)" "user_id u = uid" "account_status u = Active" by blast
  have "find_device d did = Some dev" "find_user d uid = Some u"
    using dev u find_key_Some [OF ok_devices [OF ok]] find_key_Some [OF ok_users [OF ok]]
    by (simp_all add: find_device_def find_user_def)
  with dev u show ?thesis by (auto simp: live_device_Some owner_active_def)
qed

lemma metadata_not_ok:
  "deviceAuthHttpMetadata auth = Some response \<Longrightarrow> r_status response = 401 \<or> r_status response = 403"
  by (auto simp: deviceAuthHttpMetadata_def split: auth_result.splits)

lemma metadata_None: "deviceAuthHttpMetadata auth = None \<longleftrightarrow> (\<exists>did uid. auth = Authenticated did uid)"
  by (auto simp: deviceAuthHttpMetadata_def split: auth_result.splits)

lemma telemetryError_status [simp]: "r_status (telemetryError n code retry) = n"
  by (simp add: telemetryError_def)

lemma other_status [simp]: "r_status server_unavailable = 503" "r_status (telemetryRateLimited n) = 429"
  by (simp_all add: server_unavailable_def telemetryRateLimited_def)

lemma gated_authentication_answer:
  "gated_authentication sec env i request peer s = (Inl response, s') \<Longrightarrow>
     r_status response = 429 \<or> r_status response = 503"
  by (cases rule: gated_authentication_cases [of s peer sec env i request]) (auto split: if_splits)

lemma readTelemetryJson_status:
  "readTelemetryJson parse request body n = Body_error status code \<Longrightarrow> status = 400 \<or> status = 413"
  by (auto simp: readTelemetryJson_def split: if_splits incoming.splits option.splits json.splits)

lemma heartbeat_body_error_status: "heartbeat_body_error ob = Some response \<Longrightarrow> r_status response = 400"
  by (auto simp: heartbeat_body_error_def split: if_splits)

lemma heartbeat_recheck_result:
  assumes "heartbeat_recheck sec env request peer x = (response, s)"
  shows "r_status response \<noteq> 200 \<and> env_reach env x s"
  using assms gated_authentication_reach [of sec env 3 request peer x]
  by (auto simp: heartbeat_recheck_def split: prod.splits sum.splits option.splits
      dest: metadata_not_ok gated_authentication_answer)

lemma heartbeat_update_result:
  assumes "heartbeat_update sec env request peer auth s0 = (response, s)"
  shows "(response = json_response 200 (heartbeat_ok_body (clock env 2)) \<and>
      touch_last_seen (auth_device auth) (auth_user auth) (clock env 2) (db (interfere env 2 s0)) = Some (db s)) \<or>
    (r_status response \<noteq> 200 \<and> env_reach env s0 s)"
proof -
  let ?x = "interfere env 2 s0"
  have reach: "env_reach env s0 ?x" by (rule env_reach_once) simp_all
  show ?thesis
  proof (cases "db_raises env 2")
    case True
    with assms have "response = server_unavailable" "s = ?x" by (simp_all add: heartbeat_update_def Let_def)
    with reach show ?thesis by simp
  next
    case False
    show ?thesis
    proof (cases "touch_last_seen (auth_device auth) (auth_user auth) (clock env 2) (db ?x)")
      case None
      with False assms have "heartbeat_recheck sec env request peer ?x = (response, s)"
        by (simp add: heartbeat_update_def Let_def)
      from heartbeat_recheck_result [OF this] env_reach_trans [OF _ reach] show ?thesis by simp
    next
      case (Some d)
      with False assms have response: "response = json_response 200 (heartbeat_ok_body (clock env 2))"
        and s: "s = ?x\<lparr>db := d\<rparr>"
        by (simp_all add: heartbeat_update_def Let_def)
      have "db s = d" unfolding s by simp
      with Some response show ?thesis by (simp only: simp_thms)
    qed
  qed
qed

lemma heartbeat_result:
  assumes "handleTelemetryHeartbeat sec env request peer body s0 = (response, s)"
  shows "(\<exists>x did uid. env_reach env s0 x \<and> response = json_response 200 (heartbeat_ok_body (clock env 2)) \<and>
      authenticateTelemetryDevice (hmac sec) (pepper sec) request (db x) = Authenticated did uid \<and>
      touch_last_seen did uid (clock env 2) (db (interfere env 2 x)) = Some (db s)) \<or>
    (r_status response \<noteq> 200 \<and> env_reach env s0 s)"
proof -
  obtain rate limiter where rate: "limiter_consume telemetryHeartbeatRateLimit (heartbeat_limiter s0)
      (device_rate_key sec request peer) (now_ms env) = (rate, limiter)" by fastforce
  define s1 where "s1 = s0\<lparr>heartbeat_limiter := limiter\<rparr>"
  obtain admitted s2 where gate: "gated_authentication sec env 1 request peer (interfere env 0 s1) = (admitted, s2)"
    by fastforce
  have "env_reach env s0 (interfere env 0 s1)"
    by (rule env_reach_once [of s1]) (simp_all add: s1_def)
  from env_reach_trans [OF gated_authentication_reach [OF gate] this] have reach: "env_reach env s0 s2" .
  note run = assms [unfolded handleTelemetryHeartbeat_def Let_def rate prod.case s1_def [symmetric] gate]
  show ?thesis
  proof (cases "allowed rate")
    case False
    with run have "response = telemetryRateLimited (retryAfter rate)" "s = s1" by simp_all
    then show ?thesis by (auto simp: s1_def intro: env_start)
  next
    case allowed: True
    show ?thesis
    proof (cases admitted)
      case (Inl r)
      with run allowed have "response = r" "s = s2" by simp_all
      with reach gated_authentication_answer [OF gate [unfolded Inl]] show ?thesis by auto
    next
      case (Inr auth)
      note auth = gated_authentication_Inr [OF gate [unfolded Inr]]
      show ?thesis
      proof (cases "deviceAuthHttpMetadata auth")
        case (Some r)
        with run allowed Inr have "response = r" "s = s2" by simp_all
        with reach metadata_not_ok [OF Some] show ?thesis by auto
      next
        case None
        then obtain did uid where a: "auth = Authenticated did uid" by (auto simp: metadata_None)
        show ?thesis
        proof (cases "\<exists>ob. readTelemetryJson (json_parse sec) request body (4 * 1024) = Parsed ob \<and>
            heartbeat_body_error ob = None")
          case True
          with run allowed Inr None a
          have update: "heartbeat_update sec env request peer (Authenticated did uid) s2 = (response, s)" by auto
          have "authenticateTelemetryDevice (hmac sec) (pepper sec) request (db s2) = Authenticated did uid"
            using auth a by simp
          with heartbeat_update_result [OF update] reach env_reach_trans [OF _ reach] show ?thesis by auto
        next
          case False
          with run allowed Inr None have "s = s2" "r_status response \<noteq> 200"
            by (auto split: parsed_body.splits option.splits
                dest: readTelemetryJson_status heartbeat_body_error_status)
          with reach show ?thesis by blast
        qed
      qed
    qed
  qed
qed

text \<open>Whatever happens concurrently, a heartbeat that answers 200 has stamped exactly the
  authenticated device, which at that moment was unrevoked and owned by an active account; every
  other answer leaves the database as the other requests left it.\<close>

theorem heartbeat_only_live:
  assumes "handleTelemetryHeartbeat sec env request peer body s0 = (response, s)"
    and "telemetry_ok (db s0)" "\<And>i x. telemetry_ok (db x) \<Longrightarrow> telemetry_ok (db (interfere env i x))"
  shows "telemetry_ok (db s) \<and>
    (if r_status response = 200
     then \<exists>x did uid dev. env_reach env s0 x \<and>
            authenticateTelemetryDevice (hmac sec) (pepper sec) request (db x) = Authenticated did uid \<and>
            live_device (db (interfere env 2 x)) did uid = Some dev \<and>
            db s = (db (interfere env 2 x))\<lparr>telemetry_devices := update_where (\<lambda>r. device_id r = did)
              (\<lambda>r. r\<lparr>last_seen_at := Some (clock env 2)\<rparr>) (telemetry_devices (db (interfere env 2 x)))\<rparr>
     else env_reach env s0 s)"
proof (cases "r_status response = 200")
  case True
  with heartbeat_result [OF assms(1)] obtain x did uid where reach: "env_reach env s0 x"
    and auth: "authenticateTelemetryDevice (hmac sec) (pepper sec) request (db x) = Authenticated did uid"
    and touch: "touch_last_seen did uid (clock env 2) (db (interfere env 2 x)) = Some (db s)" by blast
  have "telemetry_ok (db (interfere env 2 x))"
    by (intro assms(3) env_reach_invariant [OF reach, of telemetry_ok] assms(2))
  with touch have "telemetry_ok (db s)" by (blast intro: touch_last_seen_ok)
  with True reach auth touch show ?thesis by (auto simp: touch_last_seen_def split: option.splits)
next
  case False
  with heartbeat_result [OF assms(1)] have reach: "env_reach env s0 s" by auto
  with False env_reach_invariant [OF reach, of telemetry_ok] assms(2,3) show ?thesis by simp
qed

lemma sample_live [simp]: "live_device sample_db (js ''d'') (js ''u'') = Some sample_device"
  by (simp add: live_device_def find_device_def owner_active_def find_user_def sample_db_def sample_device_def)

theorem heartbeat_only_live_witness:
  "r_status (fst (handleTelemetryHeartbeat (sample_secrets [(js ''schema'', jint 1)]) alone sample_request
      (js ''peer'') (Body_text [] 10) sample_state)) = 200 \<and>
   telemetry_ok (db (snd (handleTelemetryHeartbeat (sample_secrets [(js ''schema'', jint 1)]) alone sample_request
      (js ''peer'') (Body_text [] 10) sample_state)))"
proof -
  let ?sec = "sample_secrets [(js ''schema'', jint 1)]"
  obtain response s where run: "handleTelemetryHeartbeat ?sec alone sample_request (js ''peer'') (Body_text [] 10)
      sample_state = (response, s)" by fastforce
  obtain rate limiter where rate: "limiter_consume telemetryHeartbeatRateLimit empty_limiter
      (device_rate_key ?sec sample_request (js ''peer'')) (now_ms alone) = (rate, limiter)" by fastforce
  then have "allowed rate"
    using sample_first_call [of telemetryHeartbeatRateLimit 119 "device_rate_key ?sec sample_request (js ''peer'')"
      "now_ms alone"] by (simp add: telemetryHeartbeatRateLimit_def)
  with run rate have "r_status response = 200"
    by (auto simp: handleTelemetryHeartbeat_def deviceAuthHttpMetadata_def heartbeat_body_error_def has_own_def
        prop_of_def keys_within_def heartbeat_update_def touch_last_seen_def Let_def)
  with heartbeat_only_live [OF run] run show ?thesis by simp
qed

end
