(* ===== verification/Presence.thy ===== *)
theory Presence
  imports Presence_Payload Heartbeat
begin

text \<open>
  The presence route (handler of \<open>src/src/telemetry-presence.js\<close>) with the history it appends
  (\<open>insertAcceptedPresenceHistory\<close> of \<open>src/src/telemetry-management.js\<close>). The transaction locks
  the device and its owner, compares the submitted revision with the device's high-water
  mark, and on a greater one advances the mark, replaces the stored presence and appends to
  the history. The locale \<open>versioned_store\<close> says what such a store promises its clients.
\<close>

section \<open>The contract: a store versioned by revisions\<close>

text \<open>A store holds a high-water mark and the value accepted with it, if that is still there.\<close>

definition newest :: "int \<times> 'v option \<Rightarrow> int \<times> 'v \<Rightarrow> int \<times> 'v option" where
  "newest cur x = (if fst cur < fst x then (fst x, Some (snd x)) else cur)"

locale versioned_store =
  fixes submit :: "'s \<Rightarrow> int \<times> 'v \<Rightarrow> 's"
    and stored :: "'s \<Rightarrow> int \<times> 'v option"
    and wf :: "'s \<Rightarrow> bool"
    and valid :: "int \<times> 'v \<Rightarrow> bool"
  assumes wf_submit: "wf s \<Longrightarrow> valid x \<Longrightarrow> wf (submit s x)"
    and stored_submit: "wf s \<Longrightarrow> valid x \<Longrightarrow> stored (submit s x) = newest (stored s) x"
begin

lemma wf_run: "wf s \<Longrightarrow> list_all valid xs \<Longrightarrow> wf (fold (\<lambda>x s. submit s x) xs s)"
  by (induction xs arbitrary: s) (auto simp: wf_submit)

lemma stored_run:
  "wf s \<Longrightarrow> list_all valid xs \<Longrightarrow> stored (fold (\<lambda>x s. submit s x) xs s) = fold (\<lambda>x c. newest c x) xs (stored s)"
  by (induction xs arbitrary: s) (auto simp: wf_submit stored_submit)

lemma newest_run:
  "(fold (\<lambda>x c. newest c x) xs cur = cur \<and> (\<forall>x \<in> set xs. fst x \<le> fst cur)) \<or>
   (\<exists>y \<in> set xs. fst cur < fst y \<and> fold (\<lambda>x c. newest c x) xs cur = (fst y, Some (snd y)) \<and>
      (\<forall>x \<in> set xs. fst x \<le> fst y))"
proof (induction xs arbitrary: cur)
  case (Cons a xs)
  show ?case
  proof (cases "fst cur < fst a")
    case True
    then have a: "newest cur a = (fst a, Some (snd a))" by (simp add: newest_def)
    from Cons.IH [of "newest cur a"] show ?thesis
    proof (elim disjE bexE conjE)
      assume "fold (\<lambda>x c. newest c x) xs (newest cur a) = newest cur a"
        "\<forall>x \<in> set xs. fst x \<le> fst (newest cur a)"
      with a True show ?thesis by (intro disjI2 bexI [of _ a]) auto
    next
      fix y assume "y \<in> set xs" "fst (newest cur a) < fst y"
        "fold (\<lambda>x c. newest c x) xs (newest cur a) = (fst y, Some (snd y))" "\<forall>x \<in> set xs. fst x \<le> fst y"
      with a True show ?thesis by (intro disjI2 bexI [of _ y]) auto
    qed
  next
    case False
    then have "newest cur a = cur" by (simp add: newest_def)
    with Cons.IH [of cur] False show ?thesis by fastforce
  qed
qed simp

text \<open>The mark only grows.\<close>

lemma mark_grows:
  "wf s \<Longrightarrow> list_all valid xs \<Longrightarrow> fst (stored s) \<le> fst (stored (fold (\<lambda>x s. submit s x) xs s))"
  using newest_run [of xs "stored s"] by (auto simp: stored_run)

text \<open>Two runs over the same submissions, in any order and with any repetition, agree when a revision names
  one value.\<close>

lemma order_independent:
  assumes "wf s" "list_all valid xs" "list_all valid ys" "set xs = set ys"
    and one_value: "\<And>x y. x \<in> set xs \<Longrightarrow> y \<in> set xs \<Longrightarrow> fst x = fst y \<Longrightarrow> x = y"
  shows "stored (fold (\<lambda>x s. submit s x) xs s) = stored (fold (\<lambda>x s. submit s x) ys s)"
proof -
  have "fold (\<lambda>x c. newest c x) xs (stored s) = fold (\<lambda>x c. newest c x) ys (stored s)"
    using newest_run [of xs "stored s"] newest_run [of ys "stored s"] assms(4)
  proof (elim disjE bexE conjE)
    fix x y
    assume x: "x \<in> set xs" "fold (\<lambda>x c. newest c x) xs (stored s) = (fst x, Some (snd x))"
        "\<forall>z \<in> set xs. fst z \<le> fst x"
      and y: "y \<in> set ys" "fold (\<lambda>x c. newest c x) ys (stored s) = (fst y, Some (snd y))"
        "\<forall>z \<in> set ys. fst z \<le> fst y"
    with assms(4) have "fst x = fst y" by (simp add: order_antisym)
    with one_value x y assms(4) have "x = y" by blast
    with x y show ?thesis by simp
  qed (auto simp: not_le [symmetric])
  with assms show ?thesis by (simp add: stored_run)
qed

end

section \<open>insertAcceptedPresenceHistory\<close>

definition entry_place :: "history_entry \<Rightarrow> jsstr option \<times> jsstr option \<times> jsstr option \<times> jsstr option" where
  "entry_place h = (entry_location_raw h, entry_location_observed_at h, entry_jurisdiction h, entry_ship_name h)"

text \<open>\<open>ORDER BY revision DESC LIMIT 1\<close> among one device's entries.\<close>

fun latest_entry :: "jsstr \<Rightarrow> history_entry list \<Rightarrow> history_entry option" where
  "latest_entry did [] = None"
| "latest_entry did (h # hs) =
     (if entry_device h \<noteq> did then latest_entry did hs
      else case latest_entry did hs of
        None \<Rightarrow> Some h
      | Some h' \<Rightarrow> if entry_revision h' \<le> entry_revision h then Some h else Some h')"

definition history_of :: "jsstr \<Rightarrow> jsstr \<Rightarrow> int \<Rightarrow> projection \<Rightarrow> int \<Rightarrow> history_entry" where
  "history_of fresh did revision snapshot receivedAt =
     \<lparr>entry_id = fresh, entry_device = did, entry_revision = revision,
      entry_location_raw = location_raw snapshot, entry_location_observed_at = location_observed_at snapshot,
      entry_jurisdiction = jurisdiction snapshot, entry_ship_name = ship_name snapshot,
      entry_received_at = receivedAt\<rparr>"

text \<open>\<open>None\<close> when the insert raises: a violated CHECK or a generated id that is taken.\<close>

definition insertAcceptedPresenceHistory ::
    "jsstr \<Rightarrow> jsstr \<Rightarrow> int \<Rightarrow> projection \<Rightarrow> int \<Rightarrow> history_entry list \<Rightarrow> history_entry list option" where
  "insertAcceptedPresenceHistory fresh did revision snapshot receivedAt hs =
     (let h = history_of fresh did revision snapshot receivedAt in
      if map_option entry_place (latest_entry did hs) = Some (entry_place h) then Some hs
      else if \<not> history_checks h then None
      else if (did, revision) \<in> set (map (\<lambda>h. (entry_device h, entry_revision h)) hs) then Some hs
      else if fresh \<in> set (map entry_id hs) then None
      else Some (hs @ [h]))"

section \<open>The transaction\<close>

datatype presence_answer =
    No_live_device
  | Stale int
  | Revision_conflict int
  | Repeated int
  | Accepted int int
  | Unavailable

text \<open>\<open>INSERT ... ON CONFLICT (device_id) DO UPDATE\<close>, raising (\<open>None\<close>) on a violated CHECK or a NUL.\<close>

definition save_presence :: "presence \<Rightarrow> presence list \<Rightarrow> presence list option" where
  "save_presence p ps =
     (if presence_checks p \<and> projection_storable (presence_snapshot p)
      then Some (upsert presence_device (\<lambda>old new. new) p ps) else None)"

definition advance_revision :: "jsstr \<Rightarrow> int \<Rightarrow> device list \<Rightarrow> device list" where
  "advance_revision did revision ds =
     update_where (\<lambda>r. device_id r = did \<and> last_presence_revision r < revision)
       (\<lambda>r. r\<lparr>last_presence_revision := revision\<rparr>) ds"

definition accept_presence ::
    "jsstr \<Rightarrow> int \<Rightarrow> projection \<Rightarrow> int \<Rightarrow> jsstr \<Rightarrow> telemetry_db \<Rightarrow> telemetry_db option" where
  "accept_presence did revision snapshot now fresh d =
     (case save_presence \<lparr>presence_device = did, presence_revision = revision,
             presence_snapshot = snapshot, presence_received_at = now\<rparr> (telemetry_presence d) of
        None \<Rightarrow> None
      | Some ps \<Rightarrow>
          (case insertAcceptedPresenceHistory fresh did revision snapshot now (telemetry_presence_history d) of
             None \<Rightarrow> None
           | Some hs \<Rightarrow>
               Some (d\<lparr>telemetry_devices := advance_revision did revision (telemetry_devices d),
                       telemetry_presence := ps, telemetry_presence_history := hs\<rparr>)))"

definition presence_tx ::
    "jsstr \<Rightarrow> jsstr \<Rightarrow> int \<Rightarrow> projection \<Rightarrow> int \<Rightarrow> jsstr \<Rightarrow> telemetry_db \<Rightarrow>
     (presence_answer, telemetry_db) tx_outcome" where
  "presence_tx did uid revision snapshot now fresh d =
     (case live_device d did uid of
        None \<Rightarrow> Rollback No_live_device
      | Some dev \<Rightarrow>
          let currentRevision = last_presence_revision dev in
          if MAX_SAFE_INTEGER < currentRevision \<or> currentRevision < 0 then Throw
          else if revision < currentRevision then Rollback (Stale currentRevision)
          else if revision = currentRevision
          then (if map_option presence_snapshot (find_presence d did) = Some snapshot
                then Commit (Repeated currentRevision) d
                else Rollback (Revision_conflict currentRevision))
          else (case accept_presence did revision snapshot now fresh d of
                  None \<Rightarrow> Throw
                | Some d' \<Rightarrow> Commit (Accepted revision now) d'))"

section \<open>The handler\<close>

definition conflict_body :: "string \<Rightarrow> int \<Rightarrow> json" where
  "conflict_body code current = JObj [(js ''error'', jstr code), (js ''current_revision'', jint current)]"

fun presence_response :: "presence_answer \<Rightarrow> response" where
  "presence_response No_live_device = telemetryError 401 ''invalid_device_credential'' None"
| "presence_response (Stale current) = json_response 409 (conflict_body ''stale_revision'' current)"
| "presence_response (Revision_conflict current) = json_response 409 (conflict_body ''revision_conflict'' current)"
| "presence_response (Repeated current) =
     json_response 200 (JObj [(js ''schema'', jint 1), (js ''accepted'', JBool False), (js ''revision'', jint current)])"
| "presence_response (Accepted revision received) =
     json_response 200 (JObj [(js ''schema'', jint 1), (js ''accepted'', JBool True),
       (js ''revision'', jint revision), (js ''received_at'', JDate received)])"
| "presence_response Unavailable = server_unavailable"

text \<open>\<open>fresh\<close> is the uuid the database draws for a history entry.\<close>

definition store_presence ::
    "secrets \<Rightarrow> environment \<Rightarrow> http_request \<Rightarrow> jsstr \<Rightarrow> jsstr \<Rightarrow> jsstr \<Rightarrow> int \<Rightarrow> projection \<Rightarrow> telemetry_state \<Rightarrow>
     response \<times> telemetry_state" where
  "store_presence sec env request fresh did uid revision snapshot s0 =
     (let s = interfere env 2 s0;
          (answer, d) = run_tx (tx_fault env) Unavailable
             (presence_tx did uid revision snapshot (clock env 2) fresh) (db s);
          s' = s\<lparr>db := d\<rparr>
      in if answer \<noteq> No_live_device then (presence_response answer, s')
         else let s3 = interfere env 3 s'
              in if db_raises env 3 then (server_unavailable, s3)
                 else (case deviceAuthHttpMetadata
                          (authenticateTelemetryDevice (hmac sec) (pepper sec) request (db s3)) of
                         Some response \<Rightarrow> (response, s3)
                       | None \<Rightarrow> (presence_response No_live_device, s3)))"

definition handleTelemetryPresence ::
    "secrets \<Rightarrow> environment \<Rightarrow> http_request \<Rightarrow> jsstr \<Rightarrow> incoming \<Rightarrow> jsstr \<Rightarrow> telemetry_state \<Rightarrow>
     response \<times> telemetry_state" where
  "handleTelemetryPresence sec env request peer body fresh s0 =
     (let (rate, limiter) = limiter_consume telemetryPresenceRateLimit (presence_limiter s0)
                              (device_rate_key sec request peer) (now_ms env);
          s1 = s0\<lparr>presence_limiter := limiter\<rparr>
      in if \<not> allowed rate then (telemetryRateLimited (retryAfter rate), s1)
      else let parsed = readTelemetryJson (json_parse sec) request body (16 * 1024);
               (admitted, s2) = gated_authentication sec env 1 request peer (interfere env 0 s1)
      in case admitted of
           Inl response \<Rightarrow> (response, s2)
         | Inr auth \<Rightarrow>
             (case deviceAuthHttpMetadata auth of
                Some response \<Rightarrow> (response, s2)
              | None \<Rightarrow>
                  (case parsed of
                     Body_error status code \<Rightarrow> (telemetryError status code None, s2)
                   | Parsed ob \<Rightarrow>
                       (case validatePresencePayload (JObj ob) of
                          Payload_error code \<Rightarrow>
                            (telemetryError 400
                               (if code = ''unsupported_schema'' then code else ''invalid_payload'') None, s2)
                        | Payload_ok snapshot revision \<Rightarrow>
                            store_presence sec env request fresh (auth_device auth) (auth_user auth)
                              revision snapshot s2))))"

section \<open>What an accepted submission changes\<close>

lemma presence_tx_Commit:
  assumes "presence_tx did uid revision snapshot now fresh d = Commit a d'"
  shows "(\<exists>dev. live_device d did uid = Some dev \<and>
    ((a = Repeated revision \<and> d' = d \<and> revision = last_presence_revision dev) \<or>
     (a = Accepted revision now \<and> last_presence_revision dev < revision \<and>
      accept_presence did revision snapshot now fresh d = Some d')))"
  using assms by (auto simp: presence_tx_def Let_def split: option.splits if_splits)

lemma presence_tx_Rollback:
  "presence_tx did uid revision snapshot now fresh d = Rollback a \<Longrightarrow>
     a = No_live_device \<or> (\<exists>c. a = Stale c \<or> a = Revision_conflict c)"
  by (auto simp: presence_tx_def Let_def split: option.splits if_splits)

lemma accept_presence_Some:
  assumes "accept_presence did revision snapshot now fresh d = Some d'"
  obtains hs where
    "presence_checks \<lparr>presence_device = did, presence_revision = revision, presence_snapshot = snapshot,
       presence_received_at = now\<rparr>"
    "projection_storable snapshot"
    "insertAcceptedPresenceHistory fresh did revision snapshot now (telemetry_presence_history d) = Some hs"
    "d' = d\<lparr>telemetry_devices := advance_revision did revision (telemetry_devices d),
       telemetry_presence := upsert presence_device (\<lambda>old new. new)
         \<lparr>presence_device = did, presence_revision = revision, presence_snapshot = snapshot,
          presence_received_at = now\<rparr> (telemetry_presence d),
       telemetry_presence_history := hs\<rparr>"
  using assms by (auto simp: accept_presence_def save_presence_def split: option.splits if_splits)

lemma find_device_advance:
  assumes "telemetry_ok d"
  shows "find (\<lambda>r. device_id r = k) (advance_revision did revision (telemetry_devices d)) =
    map_option (\<lambda>r. if device_id r = did \<and> last_presence_revision r < revision
                    then r\<lparr>last_presence_revision := revision\<rparr> else r) (find_device d k)"
  unfolding find_device_def advance_revision_def
  by (rule find_update_where_key [OF ok_devices [OF assms]]) simp

lemma insert_history_cases:
  assumes "insertAcceptedPresenceHistory fresh did revision snapshot now hs = Some hs'"
  shows "hs' = hs \<or>
    (hs' = hs @ [history_of fresh did revision snapshot now] \<and>
     map_option entry_place (latest_entry did hs) \<noteq> Some (entry_place (history_of fresh did revision snapshot now)) \<and>
     history_checks (history_of fresh did revision snapshot now) \<and>
     (did, revision) \<notin> set (map (\<lambda>h. (entry_device h, entry_revision h)) hs) \<and> fresh \<notin> set (map entry_id hs))"
  using assms by (auto simp: insertAcceptedPresenceHistory_def Let_def split: if_splits)

lemma advance_revision_keys [simp]:
  "map device_id (advance_revision did revision ds) = map device_id ds"
  "map credential_hash (advance_revision did revision ds) = map credential_hash ds"
  by (simp_all add: advance_revision_def map_key_update_where)

lemma accept_presence_ok:
  assumes ok: "telemetry_ok d" and dev: "find_device d did \<noteq> None"
    and acc: "accept_presence did revision snapshot now fresh d = Some d'"
  shows "telemetry_ok d'"
proof -
  let ?row = "\<lparr>presence_device = did, presence_revision = revision, presence_snapshot = snapshot,
       presence_received_at = now\<rparr>"
  from accept_presence_Some [OF acc] obtain hs where checks: "presence_checks ?row"
    and hs: "insertAcceptedPresenceHistory fresh did revision snapshot now (telemetry_presence_history d) = Some hs"
    and d': "d' = d\<lparr>telemetry_devices := advance_revision did revision (telemetry_devices d),
       telemetry_presence := upsert presence_device (\<lambda>old new. new) ?row (telemetry_presence d),
       telemetry_presence_history := hs\<rparr>" by metis
  have did: "did \<in> device_id ` set (telemetry_devices d)"
    using dev by (auto dest!: find_device_Some)
  have devices: "telemetry_ok (d\<lparr>telemetry_devices := advance_revision did revision (telemetry_devices d)\<rparr>)"
    unfolding advance_revision_def
    by (rule telemetry_ok_devices [OF ok])
      (use checks in \<open>auto simp: device_checks_def presence_checks_def\<close>)
  have ids: "device_id ` set (advance_revision did revision (telemetry_devices d)) = device_id ` set (telemetry_devices d)"
    by (metis advance_revision_keys(1) set_map)
  have "distinct (map presence_device (upsert presence_device (\<lambda>old new. new) ?row (telemetry_presence d)))"
    by (rule distinct_key_upsert [OF ok_presence [OF ok]]) simp
  moreover have "\<forall>p \<in> set (upsert presence_device (\<lambda>old new. new) ?row (telemetry_presence d)).
      presence_checks p \<and> presence_device p \<in> device_id ` set (telemetry_devices d)"
  proof
    fix p assume "p \<in> set (upsert presence_device (\<lambda>old new. new) ?row (telemetry_presence d))"
    then have "p \<in> set (telemetry_presence d) \<or> p = ?row"
      using set_upsert_subset [of presence_device "\<lambda>old new. new" ?row "telemetry_presence d"] by blast
    with ok checks did show "presence_checks p \<and> presence_device p \<in> device_id ` set (telemetry_devices d)"
      by (auto simp: telemetry_ok_def)
  qed
  moreover have "distinct (map entry_id hs) \<and> distinct (map (\<lambda>h. (entry_device h, entry_revision h)) hs) \<and>
      (\<forall>h \<in> set hs. history_checks h \<and> entry_device h \<in> device_id ` set (telemetry_devices d))"
    using insert_history_cases [OF hs] ok did by (auto simp: telemetry_ok_def history_of_def)
  ultimately show ?thesis
    using devices ids unfolding d' telemetry_ok_def by simp
qed

lemma presence_tx_ok:
  "telemetry_ok d \<Longrightarrow> presence_tx did uid revision snapshot now fresh d = Commit a d' \<Longrightarrow> telemetry_ok d'"
  using accept_presence_ok [of d did revision snapshot now fresh d']
  by (auto dest!: presence_tx_Commit simp: live_device_Some)

lemma accept_presence_lookup:
  assumes ok: "telemetry_ok d" and acc: "accept_presence did revision snapshot now fresh d = Some d'"
  shows "find_presence d' k =
      (if k = did then Some \<lparr>presence_device = did, presence_revision = revision, presence_snapshot = snapshot,
         presence_received_at = now\<rparr> else find_presence d k)"
    and "find_device d' k = map_option (\<lambda>r. if k = did \<and> last_presence_revision r < revision
            then r\<lparr>last_presence_revision := revision\<rparr> else r) (find_device d k)"
    and "app_users d' = app_users d" "telemetry_pairing_codes d' = telemetry_pairing_codes d"
proof -
  let ?row = "\<lparr>presence_device = did, presence_revision = revision, presence_snapshot = snapshot,
       presence_received_at = now\<rparr>"
  from accept_presence_Some [OF acc] obtain hs where
    d': "d' = d\<lparr>telemetry_devices := advance_revision did revision (telemetry_devices d),
       telemetry_presence := upsert presence_device (\<lambda>old new. new) ?row (telemetry_presence d),
       telemetry_presence_history := hs\<rparr>" by metis
  have "find (\<lambda>p. presence_device p = k) (upsert presence_device (\<lambda>old new. new) ?row (telemetry_presence d)) =
      (if k = presence_device ?row
       then Some (case find (\<lambda>p. presence_device p = k) (telemetry_presence d) of None \<Rightarrow> ?row | Some r \<Rightarrow> ?row)
       else find (\<lambda>p. presence_device p = k) (telemetry_presence d))"
    by (rule find_upsert_key [OF ok_presence [OF ok]]) simp
  then show "find_presence d' k = (if k = did then Some ?row else find_presence d k)"
    unfolding d' find_presence_def by (auto split: option.splits)
  show "find_device d' k = map_option (\<lambda>r. if k = did \<and> last_presence_revision r < revision
            then r\<lparr>last_presence_revision := revision\<rparr> else r) (find_device d k)"
    using find_device_advance [OF ok, of k did revision] unfolding d' find_device_def [of "_ :: telemetry_db"]
    by (cases "find (\<lambda>r. device_id r = k) (telemetry_devices d)") (auto dest: find_Some_mem)
  show "app_users d' = app_users d" "telemetry_pairing_codes d' = telemetry_pairing_codes d"
    by (simp_all add: d')
qed

section \<open>The store is versioned\<close>

text \<open>A stored presence carries its device's high-water mark. (The converse does not hold: blocking an account
  deletes its presences and keeps the marks.)\<close>

definition presence_tracks :: "telemetry_db \<Rightarrow> bool" where
  "presence_tracks d \<longleftrightarrow>
     (\<forall>dev \<in> set (telemetry_devices d).
        case find_presence d (device_id dev) of
          Some p \<Rightarrow> presence_revision p = last_presence_revision dev
        | None \<Rightarrow> True)"

lemma presence_tracksD:
  assumes "presence_tracks d" "find_device d k = Some dev" "find_presence d k = Some p"
  shows "presence_revision p = last_presence_revision dev"
  using assms find_device_Some [OF assms(2)] by (auto simp: presence_tracks_def)

lemma presence_tracksI:
  assumes "telemetry_ok d"
    and "\<And>k dev p. find_device d k = Some dev \<Longrightarrow> find_presence d k = Some p \<Longrightarrow>
      presence_revision p = last_presence_revision dev"
  shows "presence_tracks d"
  unfolding presence_tracks_def
proof
  fix dev assume "dev \<in> set (telemetry_devices d)"
  with ok_devices [OF assms(1)] have "find_device d (device_id dev) = Some dev"
    by (simp add: find_device_def find_key_Some)
  from assms(2) [OF this] show "case find_presence d (device_id dev) of
          Some p \<Rightarrow> presence_revision p = last_presence_revision dev
        | None \<Rightarrow> True" by (simp split: option.splits)
qed

lemma accept_presence_tracks:
  assumes ok: "telemetry_ok d" and tracks: "presence_tracks d"
    and dev: "find_device d did = Some dev" "last_presence_revision dev < revision"
    and acc: "accept_presence did revision snapshot now fresh d = Some d'"
  shows "presence_tracks d'"
proof (rule presence_tracksI)
  show "telemetry_ok d'" using accept_presence_ok [OF ok _ acc] dev by simp
  fix k dev' p assume dev': "find_device d' k = Some dev'" and p: "find_presence d' k = Some p"
  show "presence_revision p = last_presence_revision dev'"
  proof (cases "k = did")
    case True
    with dev' dev have "dev' = dev\<lparr>last_presence_revision := revision\<rparr>"
      by (simp add: accept_presence_lookup(2) [OF ok acc])
    with True p show ?thesis by (auto simp: accept_presence_lookup(1) [OF ok acc])
  next
    case False
    with dev' have "find_device d k = Some dev'"
      by (cases "find_device d k") (simp_all add: accept_presence_lookup(2) [OF ok acc])
    with presence_tracksD [OF tracks this] False p show ?thesis
      by (simp add: accept_presence_lookup(1) [OF ok acc])
  qed
qed

text \<open>A uuid that no entry has.\<close>

definition unused_id :: "history_entry list \<Rightarrow> jsstr" where
  "unused_id hs = 0 # concat (map entry_id hs)"

lemma unused_id_fresh: "unused_id hs \<notin> set (map entry_id hs)"
proof
  have longer: "x \<in> set (map entry_id hs) \<Longrightarrow> length x \<le> length (concat (map entry_id hs))" for x
    by (induction hs) auto
  assume "unused_id hs \<in> set (map entry_id hs)"
  from longer [OF this] show False by (simp add: unused_id_def)
qed

definition submit_presence :: "jsstr \<Rightarrow> jsstr \<Rightarrow> int \<Rightarrow> telemetry_db \<Rightarrow> int \<times> projection \<Rightarrow> telemetry_db" where
  "submit_presence did uid now d x =
     snd (run_tx Tx_ok Unavailable
       (presence_tx did uid (fst x) (snd x) now (unused_id (telemetry_presence_history d))) d)"

definition stored_presence :: "jsstr \<Rightarrow> telemetry_db \<Rightarrow> int \<times> projection option" where
  "stored_presence did d =
     (case find_device d did of None \<Rightarrow> 0 | Some dev \<Rightarrow> last_presence_revision dev,
      map_option presence_snapshot (find_presence d did))"

definition submittable :: "int \<times> projection \<Rightarrow> bool" where
  "submittable x \<longleftrightarrow>
     1 \<le> fst x \<and> fst x \<le> MAX_SAFE_INTEGER \<and> projection_checks (snd x) \<and> projection_storable (snd x)"

definition serves :: "jsstr \<Rightarrow> jsstr \<Rightarrow> telemetry_db \<Rightarrow> bool" where
  "serves did uid d \<longleftrightarrow> telemetry_ok d \<and> presence_tracks d \<and> live_device d did uid \<noteq> None"

lemma insert_history_succeeds:
  "projection_checks snapshot \<Longrightarrow> 1 \<le> revision \<Longrightarrow> revision \<le> MAX_SAFE_INTEGER \<Longrightarrow> fresh \<notin> set (map entry_id hs) \<Longrightarrow>
     insertAcceptedPresenceHistory fresh did revision snapshot now hs \<noteq> None"
  by (auto simp: insertAcceptedPresenceHistory_def history_checks_def history_of_def projection_checks_def Let_def)

lemma accept_presence_succeeds:
  assumes "submittable (revision, snapshot)" "fresh \<notin> set (map entry_id (telemetry_presence_history d))"
  shows "accept_presence did revision snapshot now fresh d \<noteq> None"
  using assms insert_history_succeeds [of snapshot revision fresh "telemetry_presence_history d" did now]
  by (auto simp: accept_presence_def save_presence_def presence_checks_def submittable_def split: option.splits)

lemma accept_presence_live:
  assumes ok: "telemetry_ok d" and acc: "accept_presence did revision snapshot now fresh d = Some d'"
  shows "live_device d' k uid = map_option (\<lambda>r. if k = did \<and> last_presence_revision r < revision
            then r\<lparr>last_presence_revision := revision\<rparr> else r) (live_device d k uid)"
proof -
  have "owner_active d' uid = owner_active d uid"
    using accept_presence_lookup(3) [OF ok acc] by (simp add: owner_active_def find_user_def)
  with accept_presence_lookup(2) [OF ok acc, of k] show ?thesis
    by (cases "find_device d k") (auto simp: live_device_def)
qed

lemma submit_presence_store:
  assumes serves: "serves did uid d" and x: "submittable x"
  shows "serves did uid (submit_presence did uid now d x)"
    and "stored_presence did (submit_presence did uid now d x) = newest (stored_presence did d) x"
proof -
  obtain revision snapshot where rs: "x = (revision, snapshot)" by (cases x)
  let ?fresh = "unused_id (telemetry_presence_history d)"
  from serves obtain dev where dev: "live_device d did uid = Some dev" and ok: "telemetry_ok d"
    and tracks: "presence_tracks d" by (auto simp: serves_def)
  then have found: "find_device d did = Some dev" "revoked_at dev = None" by (simp_all add: live_device_Some)
  have mark: "0 \<le> last_presence_revision dev" "last_presence_revision dev \<le> MAX_SAFE_INTEGER"
    using ok find_device_Some [OF found(1)] by (auto simp: telemetry_ok_def device_checks_def)
  have "serves did uid (submit_presence did uid now d x) \<and>
    stored_presence did (submit_presence did uid now d x) = newest (stored_presence did d) x"
  proof (cases "last_presence_revision dev < revision")
    case True
    obtain d' where acc: "accept_presence did revision snapshot now ?fresh d = Some d'"
      using accept_presence_succeeds [OF x [unfolded rs] unused_id_fresh] by blast
    with True mark dev have "presence_tx did uid revision snapshot now ?fresh d = Commit (Accepted revision now) d'"
      by (simp add: presence_tx_def Let_def)
    then have run: "submit_presence did uid now d x = d'"
      by (simp add: submit_presence_def rs run_tx_simps)
    have "telemetry_ok d'" using accept_presence_ok [OF ok _ acc] found by simp
    moreover have "presence_tracks d'" by (rule accept_presence_tracks [OF ok tracks found(1) True acc])
    moreover have "live_device d' did uid \<noteq> None" using accept_presence_live [OF ok acc, of did uid] dev by simp
    moreover have "stored_presence did d' = (revision, Some snapshot)"
      using True by (simp add: stored_presence_def accept_presence_lookup(1,2) [OF ok acc] found)
    moreover have "newest (stored_presence did d) x = (revision, Some snapshot)"
      using True by (simp add: newest_def stored_presence_def rs found)
    ultimately show ?thesis by (simp add: run serves_def)
  next
    case False
    have "submit_presence did uid now d x = d"
      using False mark dev
      by (simp add: submit_presence_def rs presence_tx_def Let_def run_tx_def)
    moreover have "newest (stored_presence did d) x = stored_presence did d"
      using False by (simp add: newest_def stored_presence_def rs found)
    ultimately show ?thesis using serves by simp
  qed
  then show "serves did uid (submit_presence did uid now d x)"
    and "stored_presence did (submit_presence did uid now d x) = newest (stored_presence did d) x" by simp_all
qed

interpretation presence_store: versioned_store "submit_presence did uid now" "stored_presence did"
  "serves did uid" submittable for did uid now
  by unfold_locales (rule submit_presence_store; assumption)+

section \<open>The history has no consecutive repetitions\<close>

definition device_history :: "jsstr \<Rightarrow> history_entry list \<Rightarrow> history_entry list" where
  "device_history did hs = filter (\<lambda>h. entry_device h = did) hs"

text \<open>Per device: revisions strictly increase, neighbours differ in place, and no revision is beyond the
  device's mark.\<close>

definition history_compact :: "telemetry_db \<Rightarrow> bool" where
  "history_compact d \<longleftrightarrow>
     (\<forall>did. sorted_wrt (<) (map entry_revision (device_history did (telemetry_presence_history d))) \<and>
        distinct_adj (map entry_place (device_history did (telemetry_presence_history d)))) \<and>
     (\<forall>h \<in> set (telemetry_presence_history d). \<exists>dev. find_device d (entry_device h) = Some dev \<and>
        entry_revision h \<le> last_presence_revision dev)"

lemma latest_entry_last:
  "sorted_wrt (<) (map entry_revision (device_history did hs)) \<Longrightarrow>
     latest_entry did hs = (if device_history did hs = [] then None else Some (last (device_history did hs)))"
proof (induction hs)
  case (Cons h hs)
  then show ?case
    by (cases "device_history did hs" rule: rev_cases) (auto simp: device_history_def)
qed (simp add: device_history_def)

lemma distinct_adj_snoc:
  "distinct_adj (xs @ [x]) \<longleftrightarrow> distinct_adj xs \<and> (xs = [] \<or> last xs \<noteq> x)"
  by (induction xs rule: induct_list012) auto

lemma accept_presence_compact:
  assumes ok: "telemetry_ok d" and compact: "history_compact d"
    and dev: "find_device d did = Some dev" "last_presence_revision dev < revision"
    and acc: "accept_presence did revision snapshot now fresh d = Some d'"
  shows "history_compact d'"
proof -
  let ?h = "history_of fresh did revision snapshot now"
  let ?hs = "telemetry_presence_history d"
  from accept_presence_Some [OF acc] have ins: "insertAcceptedPresenceHistory fresh did revision snapshot now ?hs =
      Some (telemetry_presence_history d')" by (metis telemetry_db.select_convs(4) telemetry_db.surjective
        telemetry_db.update_convs(2,3,4))
  have marks: "\<forall>h \<in> set ?hs. \<exists>dev'. find_device d' (entry_device h) = Some dev' \<and>
      entry_revision h \<le> last_presence_revision dev'"
  proof
    fix h assume "h \<in> set ?hs"
    with compact obtain dev' where "find_device d (entry_device h) = Some dev'"
      "entry_revision h \<le> last_presence_revision dev'" by (auto simp: history_compact_def)
    then show "\<exists>dev'. find_device d' (entry_device h) = Some dev' \<and> entry_revision h \<le> last_presence_revision dev'"
      by (auto simp: accept_presence_lookup(2) [OF ok acc])
  qed
  from insert_history_cases [OF ins] show ?thesis
  proof (elim disjE conjE)
    assume "telemetry_presence_history d' = ?hs"
    with compact marks show ?thesis by (simp add: history_compact_def)
  next
    assume grown: "telemetry_presence_history d' = ?hs @ [?h]"
      and differs: "map_option entry_place (latest_entry did ?hs) \<noteq> Some (entry_place ?h)"
    have hist: "device_history k (?hs @ [?h]) = device_history k ?hs @ (if k = did then [?h] else [])" for k
      by (simp add: device_history_def history_of_def)
    have rev: "entry_revision ?h = revision" by (simp add: history_of_def)
    have sorted: "sorted_wrt (<) (map entry_revision (device_history k ?hs))"
      and adj: "distinct_adj (map entry_place (device_history k ?hs))" for k
      using compact by (simp_all add: history_compact_def)
    have below: "\<forall>h \<in> set (device_history did ?hs). entry_revision h < revision"
      using compact dev by (fastforce simp: history_compact_def device_history_def)
    have "device_history did ?hs = [] \<or> entry_place (last (device_history did ?hs)) \<noteq> entry_place ?h"
      using differs latest_entry_last [OF sorted] by auto
    then have "distinct_adj (map entry_place (device_history k (?hs @ [?h])))" for k
      using adj [of k] by (auto simp: hist distinct_adj_snoc last_map)
    moreover have "sorted_wrt (<) (map entry_revision (device_history k (?hs @ [?h])))" for k
      using sorted [of k] below rev by (auto simp: hist sorted_wrt_append)
    moreover have "find_device d' did = Some (dev\<lparr>last_presence_revision := revision\<rparr>)"
      using accept_presence_lookup(2) [OF ok acc, of did] dev by simp
    ultimately show ?thesis using marks by (simp add: history_compact_def grown history_of_def)
  qed
qed

section \<open>Properties\<close>


lemma sample_serves [simp]: "serves (js ''d'') (js ''u'') sample_db"
  using sample_live by (simp add: serves_def presence_tracks_def find_presence_def)
    (simp add: sample_db_def sample_device_def)

lemma sample_submittable [simp]: "1 \<le> r \<Longrightarrow> r \<le> MAX_SAFE_INTEGER \<Longrightarrow> submittable (r, sample_projection)"
  using payload_satisfies_schema [of "JObj sample_payload" sample_projection 7 "[]" 0]
  by (simp add: submittable_def presence_checks_def projection_storable_def sample_projection_def
      pg_text_option_def pg_text_def js_def)


text \<open>Retrying is safe: when a submission was accepted, also if its acknowledgement was lost and the
  client saw 503, sending it again answers 200 without accepting and changes nothing.\<close>

theorem presence_retry_idempotent:
  assumes "telemetry_ok d"
    and "run_tx fault Unavailable (presence_tx did uid revision snapshot now fresh) d = (answer, d')" "d' \<noteq> d"
  shows "run_tx Tx_ok Unavailable (presence_tx did uid revision snapshot now' fresh') d' = (Repeated revision, d')"
proof -
  from assms(2,3) obtain a where commit: "presence_tx did uid revision snapshot now fresh d = Commit a d'"
    using run_tx_db [of fault Unavailable "presence_tx did uid revision snapshot now fresh" d] by auto
  from presence_tx_Commit [OF commit] assms(3) obtain dev where dev: "live_device d did uid = Some dev"
    "last_presence_revision dev < revision" "accept_presence did revision snapshot now fresh d = Some d'" by auto
  from accept_presence_Some [OF dev(3)] have "revision \<le> MAX_SAFE_INTEGER \<and> 1 \<le> revision"
    by (metis presence.select_convs(2) presence_checks_def)
  moreover have "live_device d' did uid = Some (dev\<lparr>last_presence_revision := revision\<rparr>)"
    using accept_presence_live [OF assms(1) dev(3), of did uid] dev by simp
  ultimately show ?thesis
    by (simp add: presence_tx_def Let_def run_tx_def accept_presence_lookup(1) [OF assms(1) dev(3)])
qed

theorem presence_retry_idempotent_witness:
  "\<exists>d'. run_tx Tx_lost_ack Unavailable (presence_tx (js ''d'') (js ''u'') 7 sample_projection 1000 (js ''h''))
       sample_db = (Unavailable, d') \<and>
     run_tx Tx_ok Unavailable (presence_tx (js ''d'') (js ''u'') 7 sample_projection 2000 (js ''i'')) d' =
       (Repeated 7, d')"
proof -
  obtain d' where acc: "accept_presence (js ''d'') 7 sample_projection 1000 (js ''h'') sample_db = Some d'"
    using accept_presence_succeeds [of 7 sample_projection "js ''h''" sample_db "js ''d''" 1000]
    by (auto simp: MAX_SAFE_INTEGER_def sample_db_def)
  then have "presence_tx (js ''d'') (js ''u'') 7 sample_projection 1000 (js ''h'') sample_db =
      Commit (Accepted 7 1000) d'"
    by (simp add: presence_tx_def Let_def) (simp add: sample_device_def MAX_SAFE_INTEGER_def)
  then have run: "run_tx Tx_lost_ack Unavailable (presence_tx (js ''d'') (js ''u'') 7 sample_projection 1000 (js ''h''))
       sample_db = (Unavailable, d')"
    by (simp add: run_tx_simps)
  have "find_presence d' (js ''d'') \<noteq> find_presence sample_db (js ''d'')"
    unfolding accept_presence_lookup(1) [OF sample_db_ok acc] by (simp add: find_presence_def sample_db_def)
  then have "d' \<noteq> sample_db" by auto
  from run presence_retry_idempotent [OF sample_db_ok run this] show ?thesis by blast
qed

subsection \<open>The handler under interference\<close>

lemma store_presence_result:
  assumes "store_presence sec env request fresh did uid revision snapshot s0 = (response, s)"
  shows "env_reach env s0 s \<or>
    (\<exists>dev. live_device (db (interfere env 2 s0)) did uid = Some dev \<and>
       last_presence_revision dev < revision \<and>
       accept_presence did revision snapshot (clock env 2) fresh (db (interfere env 2 s0)) = Some (db s))"
proof -
  let ?x = "interfere env 2 s0"
  have reach: "env_reach env s0 ?x" by (rule env_reach_once) simp_all
  obtain answer d where tx: "run_tx (tx_fault env) Unavailable
      (presence_tx did uid revision snapshot (clock env 2) fresh) (db ?x) = (answer, d)" by fastforce
  have final: "env_reach env (?x\<lparr>db := d\<rparr>) s \<and> (answer \<noteq> No_live_device \<longrightarrow> s = ?x\<lparr>db := d\<rparr>)"
    using assms env_reach_once [of "?x\<lparr>db := d\<rparr>" "?x\<lparr>db := d\<rparr>" "interfere env 3 (?x\<lparr>db := d\<rparr>)" env 3]
      env_start [of "?x\<lparr>db := d\<rparr>" "?x\<lparr>db := d\<rparr>" env]
    unfolding store_presence_def Let_def tx by (auto split: if_splits option.splits)
  show ?thesis
  proof (cases "d = db ?x")
    case True
    then have "env_reach env ?x s" by (intro env_reach_from [OF conjunct1 [OF final]]) simp
    from env_reach_trans [OF this reach] show ?thesis by blast
  next
    case False
    with run_tx_db [of "tx_fault env" Unavailable "presence_tx did uid revision snapshot (clock env 2) fresh" "db ?x"]
    obtain a where commit: "presence_tx did uid revision snapshot (clock env 2) fresh (db ?x) = Commit a d"
      by (auto simp: tx)
    from presence_tx_Commit [OF commit] False obtain dev where
      "live_device (db ?x) did uid = Some dev" "last_presence_revision dev < revision"
      "accept_presence did revision snapshot (clock env 2) fresh (db ?x) = Some d" "a = Accepted revision (clock env 2)"
      by auto
    moreover have "answer \<noteq> No_live_device"
      using tx commit calculation(4) by (auto simp: run_tx_def split: if_splits)
    with final have "db s = d" by simp
    ultimately show ?thesis by blast
  qed
qed

lemma presence_handler_result:
  assumes "handleTelemetryPresence sec env request peer body fresh s0 = (response, s)"
  shows "env_reach env s0 s \<or>
    (\<exists>x did uid revision snapshot dev. env_reach env s0 x \<and>
       authenticateTelemetryDevice (hmac sec) (pepper sec) request (db x) = Authenticated did uid \<and>
       live_device (db (interfere env 2 x)) did uid = Some dev \<and> last_presence_revision dev < revision \<and>
       accept_presence did revision snapshot (clock env 2) fresh (db (interfere env 2 x)) = Some (db s))"
proof -
  obtain rate limiter where rate: "limiter_consume telemetryPresenceRateLimit (presence_limiter s0)
      (device_rate_key sec request peer) (now_ms env) = (rate, limiter)" by fastforce
  define s1 where "s1 = s0\<lparr>presence_limiter := limiter\<rparr>"
  obtain admitted s2 where gate: "gated_authentication sec env 1 request peer (interfere env 0 s1) = (admitted, s2)"
    by fastforce
  have "env_reach env s0 (interfere env 0 s1)"
    by (rule env_reach_once [of s1]) (simp_all add: s1_def)
  from env_reach_trans [OF gated_authentication_reach [OF gate] this] have reach: "env_reach env s0 s2" .
  note run = assms [unfolded handleTelemetryPresence_def Let_def rate prod.case s1_def [symmetric] gate]
  show ?thesis
  proof (cases "allowed rate")
    case False
    with run have "s = s1" by simp
    then show ?thesis by (auto simp: s1_def intro: env_start)
  next
    case allowed: True
    show ?thesis
    proof (cases "\<exists>did uid ob snapshot revision. admitted = Inr (Authenticated did uid) \<and>
        readTelemetryJson (json_parse sec) request body (16 * 1024) = Parsed ob \<and>
        validatePresencePayload (JObj ob) = Payload_ok snapshot revision")
      case False
      with run allowed metadata_None have "s = s2"
        by (auto split: sum.splits option.splits parsed_body.splits validated.splits if_splits)
      with reach show ?thesis by simp
    next
      case True
      then obtain did uid ob snapshot revision where auth: "admitted = Inr (Authenticated did uid)"
        and "readTelemetryJson (json_parse sec) request body (16 * 1024) = Parsed ob"
        "validatePresencePayload (JObj ob) = Payload_ok snapshot revision" by blast
      with run allowed have "store_presence sec env request fresh did uid revision snapshot s2 = (response, s)"
        by (simp add: deviceAuthHttpMetadata_def)
      from store_presence_result [OF this] show ?thesis
      proof
        assume "env_reach env s2 s"
        from env_reach_trans [OF this reach] show ?thesis by blast
      next
        assume "\<exists>dev. live_device (db (interfere env 2 s2)) did uid = Some dev \<and>
          last_presence_revision dev < revision \<and>
          accept_presence did revision snapshot (clock env 2) fresh (db (interfere env 2 s2)) = Some (db s)"
        moreover have "authenticateTelemetryDevice (hmac sec) (pepper sec) request (db s2) = Authenticated did uid"
          using gated_authentication_Inr [OF gate [unfolded auth]] by simp
        ultimately show ?thesis using reach by blast
      qed
    qed
  qed
qed

text \<open>Whatever happens concurrently (revocation, blocking, other submissions, a failing or unacknowledged
  commit), the presence route changes the database at most once, for the authenticated device, at a
  moment when that device is unrevoked, its owner active and its mark below the submitted revision;
  the constraints of the schema and the tie between presence and mark are kept.\<close>

theorem presence_route_safe:
  assumes run: "handleTelemetryPresence sec env request peer body fresh s0 = (response, s)"
    and start: "telemetry_ok (db s0)" "presence_tracks (db s0)"
    and others: "\<And>i x. telemetry_ok (db x) \<Longrightarrow> presence_tracks (db x) \<Longrightarrow>
      telemetry_ok (db (interfere env i x)) \<and> presence_tracks (db (interfere env i x))"
  shows "telemetry_ok (db s) \<and> presence_tracks (db s) \<and>
    (env_reach env s0 s \<or>
     (\<exists>x did uid revision snapshot dev. env_reach env s0 x \<and>
        authenticateTelemetryDevice (hmac sec) (pepper sec) request (db x) = Authenticated did uid \<and>
        live_device (db (interfere env 2 x)) did uid = Some dev \<and> last_presence_revision dev < revision \<and>
        find_presence (db s) did = Some \<lparr>presence_device = did, presence_revision = revision,
          presence_snapshot = snapshot, presence_received_at = clock env 2\<rparr> \<and>
        (\<forall>k. k \<noteq> did \<longrightarrow> find_presence (db s) k = find_presence (db (interfere env 2 x)) k \<and>
           find_device (db s) k = find_device (db (interfere env 2 x)) k)))"
  using presence_handler_result [OF run]
proof (elim disjE exE conjE)
  assume reach: "env_reach env s0 s"
  have "telemetry_ok (db s) \<and> presence_tracks (db s)"
    by (rule env_reach_invariant [OF reach]) (use start others in auto)
  with reach show ?thesis by blast
next
  fix x did uid revision snapshot dev
  assume x: "env_reach env s0 x" "authenticateTelemetryDevice (hmac sec) (pepper sec) request (db x) = Authenticated did uid"
    "live_device (db (interfere env 2 x)) did uid = Some dev" "last_presence_revision dev < revision"
    and acc: "accept_presence did revision snapshot (clock env 2) fresh (db (interfere env 2 x)) = Some (db s)"
  have "telemetry_ok (db x) \<and> presence_tracks (db x)"
    by (rule env_reach_invariant [OF x(1)]) (use start others in auto)
  with others have ok: "telemetry_ok (db (interfere env 2 x))" and tracks: "presence_tracks (db (interfere env 2 x))" by auto
  have dev: "find_device (db (interfere env 2 x)) did = Some dev" using x(3) by (simp add: live_device_Some)
  have "telemetry_ok (db s)" using accept_presence_ok [OF ok _ acc] dev by simp
  moreover have "presence_tracks (db s)" by (rule accept_presence_tracks [OF ok tracks dev x(4) acc])
  moreover have "find_presence (db s) did = Some \<lparr>presence_device = did, presence_revision = revision,
          presence_snapshot = snapshot, presence_received_at = clock env 2\<rparr>"
    by (simp add: accept_presence_lookup(1) [OF ok acc])
  moreover have "find_presence (db s) k = find_presence (db (interfere env 2 x)) k \<and>
           find_device (db s) k = find_device (db (interfere env 2 x)) k" if "k \<noteq> did" for k
    using that accept_presence_lookup(1,2) [OF ok acc, of k]
    by (cases "find_device (db (interfere env 2 x)) k") simp_all
  ultimately show ?thesis using x by blast
qed

theorem presence_route_safe_witness:
  "telemetry_ok (db (snd (handleTelemetryPresence (sample_secrets sample_payload) alone sample_request (js ''peer'')
     (Body_text [] 10) (js ''h'') sample_state)))"
proof -
  obtain response s where run: "handleTelemetryPresence (sample_secrets sample_payload) alone sample_request
     (js ''peer'') (Body_text [] 10) (js ''h'') sample_state = (response, s)" by fastforce
  have "presence_tracks sample_db" using sample_serves by (simp add: serves_def)
  with presence_route_safe [OF run] run show ?thesis by simp
qed

text \<open>The location history of a device never holds two consecutive entries with the same place: every
  run of presence transactions, for any devices and with any outcome, keeps the per-device history
  strictly increasing in revision and free of consecutive repetitions.\<close>

theorem presence_history_compact:
  assumes "telemetry_ok d" "history_compact d"
  shows "telemetry_ok (fold (\<lambda>(fault, did, uid, revision, snapshot, now, fresh) d.
      snd (run_tx fault Unavailable (presence_tx did uid revision snapshot now fresh) d)) submissions d) \<and>
    history_compact (fold (\<lambda>(fault, did, uid, revision, snapshot, now, fresh) d.
      snd (run_tx fault Unavailable (presence_tx did uid revision snapshot now fresh) d)) submissions d)"
  using assms
proof (induction submissions arbitrary: d)
  case (Cons sub subs)
  obtain fault did uid revision snapshot now fresh where sub: "sub = (fault, did, uid, revision, snapshot, now, fresh)"
    by (metis prod_cases7)
  let ?d = "snd (run_tx fault Unavailable (presence_tx did uid revision snapshot now fresh) d)"
  have "telemetry_ok ?d \<and> history_compact ?d"
  proof (rule run_tx_preserves [where I = "\<lambda>d. telemetry_ok d \<and> history_compact d"])
    show "telemetry_ok d \<and> history_compact d" using Cons.prems by simp
    fix a d' assume commit: "presence_tx did uid revision snapshot now fresh d = Commit a d'"
    from presence_tx_Commit [OF commit] presence_tx_ok [OF Cons.prems(1) commit] Cons.prems
    show "telemetry_ok d' \<and> history_compact d'"
      by (auto simp: live_device_Some intro: accept_presence_compact)
  qed
  with Cons.IH [of ?d] sub show ?case by simp
qed simp

theorem presence_history_compact_witness:
  "history_compact (snd (run_tx Tx_ok Unavailable (presence_tx (js ''d'') (js ''u'') 7 sample_projection 1000 (js ''h''))
     sample_db))"
proof -
  have "history_compact sample_db"
    by (simp add: history_compact_def sample_db_def device_history_def)
  with presence_history_compact [OF sample_db_ok, of "[(Tx_ok, js ''d'', js ''u'', 7, sample_projection, 1000, js ''h'')]"]
  show ?thesis by simp
qed

end
