(* ===== verification/Pairing.thy ===== *)
theory Pairing
  imports Session Presence
begin

text \<open>
  Pairing a device with an account (\<open>handleTelemetryPairingCreate\<close>, \<open>handleTelemetryPairClaim\<close> and
  \<open>cleanupTelemetryPairingCodes\<close> of \<open>src/src/server.js\<close>). The random draws and the uuids the
  database generates are arguments; a transaction is a function of the database it locks.
  \<open>now()\<close> is the start of the transaction.
\<close>

section \<open>Creating a code\<close>

definition code_lifetime :: int where
  "code_lifetime = 10 * 60 * 1000000"

definition invalidate_open :: "jsstr \<Rightarrow> int \<Rightarrow> pairing_code list \<Rightarrow> pairing_code list" where
  "invalidate_open uid now codes =
     update_where (\<lambda>c. pairing_user c = uid \<and> pairing_open c) (\<lambda>c. c\<lparr>invalidated_at := Some now\<rparr>) codes"

datatype 'a attempt = Drawn 'a | Exhausted | Insert_raises

text \<open>Up to five draws, each a random buffer and the id the row would get; a hash that is taken is
  skipped (\<open>ON CONFLICT (code_hash) DO NOTHING\<close>).\<close>

fun insert_code ::
    "secrets \<Rightarrow> jsstr \<Rightarrow> int \<Rightarrow> (nat list \<times> jsstr) list \<Rightarrow> pairing_code list \<Rightarrow>
     (jsstr \<times> pairing_code) attempt" where
  "insert_code sec uid now [] codes = Exhausted"
| "insert_code sec uid now ((random, fresh) # draws) codes =
     (case generatePairingCode random of
        None \<Rightarrow> Insert_raises
      | Some formatted \<Rightarrow>
          (case normalizePairingCode (Some formatted) of
             None \<Rightarrow> Insert_raises
           | Some canonical \<Rightarrow>
               let h = hashPairingCode (hmac sec) (pepper sec) canonical in
               if h \<in> set (map code_hash codes) then insert_code sec uid now draws codes
               else if fresh \<in> set (map pairing_id codes) then Insert_raises
               else Drawn (formatted,
                 \<lparr>pairing_id = fresh, pairing_user = uid, code_hash = h, pairing_created_at = now,
                  expires_at = now + code_lifetime, consumed_at = None, invalidated_at = None\<rparr>)))"

datatype create_answer = Create_inactive | Create_collision | Created jsstr int | Create_unavailable

definition pairing_create_tx ::
    "secrets \<Rightarrow> jsstr \<Rightarrow> int \<Rightarrow> (nat list \<times> jsstr) list \<Rightarrow> telemetry_db \<Rightarrow>
     (create_answer, telemetry_db) tx_outcome" where
  "pairing_create_tx sec uid now draws d =
     (if \<not> owner_active d uid then Rollback Create_inactive
      else let codes = invalidate_open uid now (telemetry_pairing_codes d) in
        case insert_code sec uid now (take 5 draws) codes of
          Exhausted \<Rightarrow> Rollback Create_collision
        | Insert_raises \<Rightarrow> Throw
        | Drawn (formatted, row) \<Rightarrow>
            Commit (Created formatted (expires_at row)) (d\<lparr>telemetry_pairing_codes := codes @ [row]\<rparr>))"

fun create_response :: "create_answer \<Rightarrow> response" where
  "create_response Create_inactive = telemetryError 403 ''account_inactive'' None"
| "create_response Create_collision = server_unavailable"
| "create_response (Created code expires) =
     json_response 201 (JObj [(js ''schema'', jint 1), (js ''code'', JStr code), (js ''expires_at'', JDate expires)])"
| "create_response Create_unavailable = server_unavailable"

definition login_required :: response where
  "login_required = json_response 401 (error_body ''login required'')"

text \<open>The body of \<open>POST /api/me/telemetry/pairing\<close> is checked like a heartbeat's.\<close>

definition handleTelemetryPairingCreate ::
    "secrets \<Rightarrow> environment \<Rightarrow> bool \<Rightarrow> browser_account \<Rightarrow> http_request \<Rightarrow> incoming \<Rightarrow>
     (nat list \<times> jsstr) list \<Rightarrow> telemetry_state \<Rightarrow> response \<times> telemetry_state" where
  "handleTelemetryPairingCreate sec env same_origin account request body draws s0 =
     (if \<not> same_origin then (login_required, s0)
      else case account of
        Unauthenticated \<Rightarrow> (login_required, s0)
      | Inactive uid \<Rightarrow> (telemetryError 403 ''account_inactive'' None, s0)
      | Active_account uid \<Rightarrow>
          let (rate, limiter) = limiter_consume telemetryPairingCreateRateLimit (pairing_create_limiter s0)
                                  uid (now_ms env);
              s1 = s0\<lparr>pairing_create_limiter := limiter\<rparr>
          in if \<not> allowed rate then (telemetryRateLimited (retryAfter rate), s1)
          else let s2 = interfere env 0 s1 in
            case readTelemetryJson (json_parse sec) request body (4 * 1024) of
              Body_error status code \<Rightarrow> (telemetryError status code None, s2)
            | Parsed ob \<Rightarrow>
                (case heartbeat_body_error ob of
                   Some response \<Rightarrow> (response, s2)
                 | None \<Rightarrow>
                     let s3 = interfere env 1 s2;
                         (answer, d) = run_tx (tx_fault env) Create_unavailable
                           (pairing_create_tx sec uid (clock env 1) draws) (db s3)
                     in (create_response answer, s3\<lparr>db := d\<rparr>)))"

section \<open>Claiming a code\<close>

datatype claim_answer =
    Claim_invalid
  | Claim_used
  | Claim_expired
  | Claim_collision
  | Claimed (claimed_code: jsstr) (claimed_device: device) (claimed_credential: jsstr)
  | Claim_unavailable

definition find_code :: "telemetry_db \<Rightarrow> jsstr \<Rightarrow> pairing_code option" where
  "find_code d h = find (\<lambda>c. code_hash c = h) (telemetry_pairing_codes d)"

fun insert_device ::
    "secrets \<Rightarrow> jsstr \<Rightarrow> jsstr \<Rightarrow> int \<Rightarrow> (nat list \<times> jsstr) list \<Rightarrow> telemetry_db \<Rightarrow> (device \<times> jsstr) attempt" where
  "insert_device sec uid deviceName now [] d = Exhausted"
| "insert_device sec uid deviceName now ((random, fresh) # draws) d =
     (let credential = generateDeviceCredential random;
          h = hashDeviceCredential (hmac sec) (pepper sec) credential;
          row = \<lparr>device_id = fresh, app_user_id = uid, device_name = deviceName, credential_hash = h,
                 device_created_at = now, last_seen_at = None, revoked_at = None, last_presence_revision = 0\<rparr>
      in if \<not> (pg_text deviceName \<and> codePoints deviceName \<le> 64) then Insert_raises
         else if h \<in> set (map credential_hash (telemetry_devices d)) then insert_device sec uid deviceName now draws d
         else if fresh \<in> set (map device_id (telemetry_devices d)) then Insert_raises
         else Drawn (row, credential))"

definition set_code_where ::
    "jsstr \<Rightarrow> (pairing_code \<Rightarrow> pairing_code) \<Rightarrow> telemetry_db \<Rightarrow> telemetry_db" where
  "set_code_where cid f d =
     d\<lparr>telemetry_pairing_codes :=
         update_where (\<lambda>c. pairing_id c = cid \<and> pairing_open c) f (telemetry_pairing_codes d)\<rparr>"

definition pairing_claim_tx ::
    "secrets \<Rightarrow> jsstr \<Rightarrow> jsstr \<Rightarrow> jsstr \<Rightarrow> int \<Rightarrow> (nat list \<times> jsstr) list \<Rightarrow> telemetry_db \<Rightarrow>
     (claim_answer, telemetry_db) tx_outcome" where
  "pairing_claim_tx sec uid h deviceName now draws d =
     (case find_user d uid of
        None \<Rightarrow> Rollback Claim_invalid
      | Some owner \<Rightarrow>
          (case find_code d h of
             None \<Rightarrow> Rollback Claim_invalid
           | Some c \<Rightarrow>
               if \<not> pairing_open c then Rollback Claim_used
               else if expires_at c \<le> now then Rollback Claim_expired
               else if account_status owner \<noteq> Active
               then Commit Claim_used (set_code_where (pairing_id c) (\<lambda>c. c\<lparr>invalidated_at := Some now\<rparr>) d)
               else (case insert_device sec (pairing_user c) deviceName now (take 5 draws) d of
                       Exhausted \<Rightarrow> Rollback Claim_collision
                     | Insert_raises \<Rightarrow> Throw
                     | Drawn (dev, credential) \<Rightarrow>
                         Commit (Claimed (pairing_id c) dev credential)
                           (set_code_where (pairing_id c) (\<lambda>c. c\<lparr>consumed_at := Some now\<rparr>)
                              (d\<lparr>telemetry_devices := telemetry_devices d @ [dev]\<rparr>)))))"

fun claim_response :: "claim_answer \<Rightarrow> response" where
  "claim_response Claim_invalid = telemetryError 400 ''invalid_pairing_code'' None"
| "claim_response Claim_used = telemetryError 409 ''pairing_code_used'' None"
| "claim_response Claim_expired = telemetryError 410 ''expired_pairing_code'' None"
| "claim_response Claim_collision = server_unavailable"
| "claim_response (Claimed cid dev credential) =
     json_response 201 (JObj [(js ''schema'', jint 1), (js ''device_id'', JStr (device_id dev)),
       (js ''device_name'', JStr (device_name dev)), (js ''device_credential'', JStr credential),
       (js ''token_type'', jstr ''Bearer''), (js ''created_at'', JDate (device_created_at dev))])"
| "claim_response Claim_unavailable = server_unavailable"

text \<open>The checks of a claim's body: the device name and the hash of the canonical code, or the error.\<close>

definition claim_input :: "secrets \<Rightarrow> obj \<Rightarrow> response + (jsstr \<times> jsstr)" where
  "claim_input sec body =
     (if \<not> has_own body ''schema'' then Inl (telemetryError 400 ''invalid_payload'' None)
      else if prop_of body ''schema'' \<noteq> Some (jint 1) then Inl (telemetryError 400 ''unsupported_schema'' None)
      else if \<not> keys_within body [''schema'', ''code'', ''device_name''] \<or> \<not> has_own body ''code''
      then Inl (telemetryError 400 ''invalid_payload'' None)
      else case normalizeDeviceName (prop_of body ''device_name'') of
        None \<Rightarrow> Inl (telemetryError 400 ''invalid_payload'' None)
      | Some deviceName \<Rightarrow>
          (case normalizePairingCode (case prop_of body ''code'' of Some (JStr s) \<Rightarrow> Some s | _ \<Rightarrow> None) of
             None \<Rightarrow> Inl (telemetryError 400 ''invalid_pairing_code'' None)
           | Some canonical \<Rightarrow> Inr (deviceName, hashPairingCode (hmac sec) (pepper sec) canonical)))"

definition handleTelemetryPairClaim ::
    "secrets \<Rightarrow> environment \<Rightarrow> http_request \<Rightarrow> jsstr \<Rightarrow> incoming \<Rightarrow> (nat list \<times> jsstr) list \<Rightarrow>
     telemetry_state \<Rightarrow> response \<times> telemetry_state" where
  "handleTelemetryPairClaim sec env request peer body draws s0 =
     (let (rate, limiter) = limiter_consume telemetryPairingClaimRateLimit (pairing_claim_limiter s0)
                              peer (now_ms env);
          s1 = s0\<lparr>pairing_claim_limiter := limiter\<rparr>
      in if \<not> allowed rate then (telemetryRateLimited (retryAfter rate), s1)
      else let s2 = interfere env 0 s1 in
        case readTelemetryJson (json_parse sec) request body (4 * 1024) of
          Body_error status code \<Rightarrow> (telemetryError status code None, s2)
        | Parsed ob \<Rightarrow>
            (case claim_input sec ob of
               Inl response \<Rightarrow> (response, s2)
             | Inr (deviceName, h) \<Rightarrow>
                 let s3 = interfere env 1 s2 in
                 if db_raises env 1 then (server_unavailable, s3)
                 else (case find_code (db s3) h of
                         None \<Rightarrow> (claim_response Claim_invalid, s3)
                       | Some found \<Rightarrow>
                           let s4 = interfere env 2 s3;
                               (answer, d) = run_tx (tx_fault env) Claim_unavailable
                                 (pairing_claim_tx sec (pairing_user found) h deviceName (clock env 2) draws) (db s4)
                           in (claim_response answer, s4\<lparr>db := d\<rparr>))))"

section \<open>cleanupTelemetryPairingCodes\<close>

definition cleanup_age :: int where
  "cleanup_age = 30 * 24 * 60 * 60 * 1000000"

text \<open>The moment a code became useless; the CHECK constraint makes the three cases exclusive.\<close>

definition code_cleanup_at :: "pairing_code \<Rightarrow> int" where
  "code_cleanup_at c =
     (case consumed_at c of Some t \<Rightarrow> t
      | None \<Rightarrow> (case invalidated_at c of Some t \<Rightarrow> t | None \<Rightarrow> expires_at c))"

definition cleanup_candidates :: "int \<Rightarrow> pairing_code list \<Rightarrow> pairing_code list" where
  "cleanup_candidates now codes =
     take 500 (sort_key code_cleanup_at (filter (\<lambda>c. code_cleanup_at c \<le> now - cleanup_age) codes))"

definition cleanupTelemetryPairingCodes :: "int \<Rightarrow> telemetry_db \<Rightarrow> nat \<times> telemetry_db" where
  "cleanupTelemetryPairingCodes now d =
     (let expired = map pairing_id (cleanup_candidates now (telemetry_pairing_codes d))
      in (length expired,
          d\<lparr>telemetry_pairing_codes := delete_where (\<lambda>c. pairing_id c \<in> set expired) (telemetry_pairing_codes d)\<rparr>))"

section \<open>Lemmas on the code table\<close>

definition codes_ok :: "jsstr set \<Rightarrow> pairing_code list \<Rightarrow> bool" where
  "codes_ok users codes \<longleftrightarrow>
     distinct (map pairing_id codes) \<and> distinct (map code_hash codes) \<and>
     distinct (map pairing_user (filter pairing_open codes)) \<and>
     (\<forall>c \<in> set codes. pairing_checks c \<and> pairing_user c \<in> users)"

lemma telemetry_ok_codes:
  "telemetry_ok d \<Longrightarrow> telemetry_ok (d\<lparr>telemetry_pairing_codes := codes\<rparr>) \<longleftrightarrow>
     codes_ok (user_id ` set (app_users d)) codes"
  by (auto simp: telemetry_ok_def codes_ok_def)

lemma codes_okI: "telemetry_ok d \<Longrightarrow> codes_ok (user_id ` set (app_users d)) (telemetry_pairing_codes d)"
  by (simp add: telemetry_ok_def codes_ok_def)

text \<open>Closing open codes keeps everything: each of the three statements that set \<open>consumed_at\<close> or
  \<open>invalidated_at\<close> is an instance.\<close>

lemma codes_ok_close:
  assumes "codes_ok users codes"
    and closes: "\<And>c. P c \<Longrightarrow> pairing_open c"
    and f: "\<And>c. pairing_id (f c) = pairing_id c" "\<And>c. code_hash (f c) = code_hash c"
      "\<And>c. pairing_user (f c) = pairing_user c" "\<And>c. pairing_open c \<Longrightarrow> \<not> pairing_open (f c)"
      "\<And>c. pairing_open c \<Longrightarrow> pairing_checks c \<Longrightarrow> pairing_checks (f c)"
  shows "codes_ok users (update_where P f codes)"
proof -
  have "map pairing_id (update_where P f codes) = map pairing_id codes"
    "map code_hash (update_where P f codes) = map code_hash codes"
    using f by (simp_all add: map_key_update_where)
  moreover have "filter pairing_open (update_where P f codes) = filter (\<lambda>c. pairing_open c \<and> \<not> P c) codes"
    using closes f(4) by (induction codes) (auto simp: update_where_def)
  moreover have "distinct (map pairing_user (filter (\<lambda>c. pairing_open c \<and> \<not> P c) codes))"
    using assms(1) distinct_map_filter [of pairing_user "filter pairing_open codes" "\<lambda>c. \<not> P c"]
    by (simp add: codes_ok_def conj_commute)
  moreover have "\<forall>c \<in> set (update_where P f codes). pairing_checks c \<and> pairing_user c \<in> users"
    using assms(1) closes f by (auto simp: update_where_mem codes_ok_def)
  ultimately show ?thesis using assms(1) by (simp add: codes_ok_def)
qed

lemma invalidated_closed:
  "pairing_open c \<Longrightarrow> \<not> pairing_open (c\<lparr>invalidated_at := Some t\<rparr>)"
  "pairing_open c \<Longrightarrow> \<not> pairing_open (c\<lparr>consumed_at := Some t\<rparr>)"
  "pairing_open c \<Longrightarrow> pairing_checks c \<Longrightarrow> pairing_checks (c\<lparr>invalidated_at := Some t\<rparr>)"
  "pairing_open c \<Longrightarrow> pairing_checks c \<Longrightarrow> pairing_checks (c\<lparr>consumed_at := Some t\<rparr>)"
  by (simp_all add: pairing_open_def pairing_checks_def)

lemma insert_code_Drawn:
  "insert_code sec uid now draws codes = Drawn (formatted, row) \<Longrightarrow>
     (\<exists>random canonical. random \<in> fst ` set draws \<and> generatePairingCode random = Some formatted \<and>
        normalizePairingCode (Some formatted) = Some canonical \<and>
        code_hash row = hashPairingCode (hmac sec) (pepper sec) canonical) \<and>
     code_hash row \<notin> set (map code_hash codes) \<and> pairing_id row \<notin> set (map pairing_id codes) \<and>
     pairing_user row = uid \<and> pairing_created_at row = now \<and> expires_at row = now + code_lifetime \<and> pairing_open row"
proof (induction draws)
  case (Cons draw draws)
  obtain random fresh where draw: "draw = (random, fresh)" by (cases draw)
  with Cons.prems obtain formatted' canonical where gen: "generatePairingCode random = Some formatted'"
    "normalizePairingCode (Some formatted') = Some canonical" by (auto split: option.splits)
  show ?case
  proof (cases "hashPairingCode (hmac sec) (pepper sec) canonical \<in> set (map code_hash codes)")
    case True
    with Cons.prems draw gen have "insert_code sec uid now draws codes = Drawn (formatted, row)"
      by (simp add: Let_def)
    from Cons.IH [OF this] show ?thesis by auto
  next
    case False
    with Cons.prems draw gen have "formatted = formatted'" "fresh \<notin> set (map pairing_id codes)"
      "row = \<lparr>pairing_id = fresh, pairing_user = uid,
         code_hash = hashPairingCode (hmac sec) (pepper sec) canonical, pairing_created_at = now,
         expires_at = now + code_lifetime, consumed_at = None, invalidated_at = None\<rparr>"
      by (simp_all add: Let_def split: if_splits)
    with False draw gen show ?thesis by (auto simp: pairing_open_def)
  qed
qed simp

lemma owner_active_user: "owner_active d uid \<Longrightarrow> uid \<in> user_id ` set (app_users d)"
  by (auto simp: owner_active_def dest!: find_user_Some split: option.splits)

lemma invalidate_open_ok:
  "codes_ok users codes \<Longrightarrow> codes_ok users (invalidate_open uid now codes)"
  unfolding invalidate_open_def by (rule codes_ok_close) (auto simp: invalidated_closed)

lemma invalidate_open_none:
  "uid \<notin> set (map pairing_user (filter pairing_open (invalidate_open uid now codes)))"
  by (induction codes) (auto simp: invalidate_open_def update_where_def pairing_open_def)

lemma pairing_create_Commit:
  assumes "pairing_create_tx sec uid now draws d = Commit a d'"
  obtains formatted row where "owner_active d uid" "a = Created formatted (expires_at row)"
    "insert_code sec uid now (take 5 draws) (invalidate_open uid now (telemetry_pairing_codes d)) = Drawn (formatted, row)"
    "d' = d\<lparr>telemetry_pairing_codes := invalidate_open uid now (telemetry_pairing_codes d) @ [row]\<rparr>"
  using assms by (auto simp: pairing_create_tx_def Let_def split: if_splits attempt.splits)

lemma pairing_create_ok:
  assumes ok: "telemetry_ok d" and commit: "pairing_create_tx sec uid now draws d = Commit a d'"
  shows "telemetry_ok d'"
proof -
  from pairing_create_Commit [OF commit] obtain formatted row where active: "owner_active d uid"
    and drawn: "insert_code sec uid now (take 5 draws) (invalidate_open uid now (telemetry_pairing_codes d)) =
      Drawn (formatted, row)"
    and d': "d' = d\<lparr>telemetry_pairing_codes := invalidate_open uid now (telemetry_pairing_codes d) @ [row]\<rparr>"
    by metis
  note row = insert_code_Drawn [OF drawn]
  have "pairing_checks row" using row by (simp add: pairing_checks_def pairing_open_def code_lifetime_def)
  with row invalidate_open_ok [OF codes_okI [OF ok], of uid now] invalidate_open_none [of uid now]
    owner_active_user [OF active]
  have "codes_ok (user_id ` set (app_users d)) (invalidate_open uid now (telemetry_pairing_codes d) @ [row])"
    by (auto simp: codes_ok_def)
  with ok show ?thesis by (simp add: d' telemetry_ok_codes)
qed

lemma insert_device_Drawn:
  "insert_device sec uid deviceName now draws d = Drawn (dev, credential) \<Longrightarrow>
     (\<exists>random. random \<in> fst ` set draws \<and> credential = generateDeviceCredential random) \<and>
     credential_hash dev = hashDeviceCredential (hmac sec) (pepper sec) credential \<and>
     credential_hash dev \<notin> set (map credential_hash (telemetry_devices d)) \<and>
     device_id dev \<notin> set (map device_id (telemetry_devices d)) \<and> device_checks dev \<and>
     app_user_id dev = uid \<and> device_name dev = deviceName \<and> revoked_at dev = None \<and> last_presence_revision dev = 0"
proof (induction draws)
  case (Cons draw draws)
  obtain random fresh where draw: "draw = (random, fresh)" by (cases draw)
  let ?h = "hashDeviceCredential (hmac sec) (pepper sec) (generateDeviceCredential random)"
  from Cons.prems draw have name: "codePoints deviceName \<le> 64" by (simp add: Let_def split: if_splits)
  show ?case
  proof (cases "?h \<in> set (map credential_hash (telemetry_devices d))")
    case True
    with Cons.prems draw have "insert_device sec uid deviceName now draws d = Drawn (dev, credential)"
      by (simp add: Let_def split: if_splits)
    from Cons.IH [OF this] show ?thesis by auto
  next
    case False
    with Cons.prems draw have "credential = generateDeviceCredential random"
      "fresh \<notin> set (map device_id (telemetry_devices d))"
      "dev = \<lparr>device_id = fresh, app_user_id = uid, device_name = deviceName, credential_hash = ?h,
         device_created_at = now, last_seen_at = None, revoked_at = None, last_presence_revision = 0\<rparr>"
      by (auto simp: Let_def split: if_splits)
    with False draw name show ?thesis by (auto simp: device_checks_def MAX_SAFE_INTEGER_def)
  qed
qed simp

lemma telemetry_ok_new_device:
  assumes "telemetry_ok d" "device_checks dev" "app_user_id dev \<in> user_id ` set (app_users d)"
    and "credential_hash dev \<notin> set (map credential_hash (telemetry_devices d))"
    and "device_id dev \<notin> set (map device_id (telemetry_devices d))"
  shows "telemetry_ok (d\<lparr>telemetry_devices := telemetry_devices d @ [dev]\<rparr>)"
  using assms by (auto simp: telemetry_ok_def)

lemma find_code_Some: "find_code d h = Some c \<Longrightarrow> c \<in> set (telemetry_pairing_codes d) \<and> code_hash c = h"
  unfolding find_code_def by (rule find_Some_mem)

lemma set_code_where_ok:
  assumes "telemetry_ok d" "\<And>c. pairing_id (f c) = pairing_id c" "\<And>c. code_hash (f c) = code_hash c"
      "\<And>c. pairing_user (f c) = pairing_user c" "\<And>c. pairing_open c \<Longrightarrow> \<not> pairing_open (f c)"
      "\<And>c. pairing_open c \<Longrightarrow> pairing_checks c \<Longrightarrow> pairing_checks (f c)"
  shows "telemetry_ok (set_code_where cid f d)"
  unfolding set_code_where_def telemetry_ok_codes [OF assms(1)]
  by (rule codes_ok_close [OF codes_okI [OF assms(1)]]) (use assms in auto)

text \<open>The two ways a claim commits.\<close>

lemma pairing_claim_Commit:
  assumes "pairing_claim_tx sec uid h deviceName now draws d = Commit a d'"
  obtains (blocked) c where "find_code d h = Some c" "pairing_open c" "a = Claim_used"
      "d' = set_code_where (pairing_id c) (\<lambda>c. c\<lparr>invalidated_at := Some now\<rparr>) d"
  | (claimed) c dev credential where "find_code d h = Some c" "pairing_open c" "now < expires_at c"
      "owner_active d uid" "a = Claimed (pairing_id c) dev credential"
      "insert_device sec (pairing_user c) deviceName now (take 5 draws) d = Drawn (dev, credential)"
      "d' = set_code_where (pairing_id c) (\<lambda>c. c\<lparr>consumed_at := Some now\<rparr>)
              (d\<lparr>telemetry_devices := telemetry_devices d @ [dev]\<rparr>)"
  using assms
  by (auto simp: pairing_claim_tx_def owner_active_def split: option.splits if_splits attempt.splits)

lemma pairing_claim_ok:
  assumes ok: "telemetry_ok d" and commit: "pairing_claim_tx sec uid h deviceName now draws d = Commit a d'"
  shows "telemetry_ok d'"
  using commit
proof (cases rule: pairing_claim_Commit)
  case (blocked c)
  then show ?thesis using ok by (auto intro!: set_code_where_ok simp: invalidated_closed)
next
  case (claimed c dev credential)
  have "pairing_user c \<in> user_id ` set (app_users d)"
    using ok find_code_Some [OF claimed(1)] by (auto simp: telemetry_ok_def)
  with insert_device_Drawn [OF claimed(6)] ok
  have "telemetry_ok (d\<lparr>telemetry_devices := telemetry_devices d @ [dev]\<rparr>)"
    by (intro telemetry_ok_new_device) auto
  then show ?thesis unfolding claimed(7) by (auto intro!: set_code_where_ok simp: invalidated_closed)
qed

lemma cleanup_codes_ok: "telemetry_ok d \<Longrightarrow> telemetry_ok (snd (cleanupTelemetryPairingCodes now d))"
proof -
  assume ok: "telemetry_ok d"
  have "codes_ok users (delete_where P codes)" if "codes_ok users codes" for users P codes
    using that distinct_map_filter [of pairing_user "filter pairing_open codes" "\<lambda>c. \<not> P c"]
    by (auto simp: codes_ok_def delete_where_def distinct_map_filter filter_filter conj_commute)
  with ok codes_okI [OF ok] show ?thesis
    by (simp add: cleanupTelemetryPairingCodes_def Let_def telemetry_ok_codes)
qed

section \<open>Properties\<close>

text \<open>Creating a code leaves the account with exactly one open code, valid for ten minutes from the
  transaction's start; its earlier codes are closed, other accounts' codes are untouched, and the
  stored hash is the hash of what the displayed code reads back as.\<close>

theorem pairing_create_single:
  assumes "telemetry_ok d" "pairing_create_tx sec uid now draws d = Commit (Created displayed expires) d'"
  shows "telemetry_ok d' \<and> expires = now + code_lifetime \<and>
    (\<exists>row canonical. filter (\<lambda>c. pairing_user c = uid \<and> pairing_open c) (telemetry_pairing_codes d') = [row] \<and>
       normalizePairingCode (Some displayed) = Some canonical \<and>
       code_hash row = hashPairingCode (hmac sec) (pepper sec) canonical \<and> expires_at row = expires) \<and>
    filter (\<lambda>c. pairing_user c \<noteq> uid) (telemetry_pairing_codes d') =
      filter (\<lambda>c. pairing_user c \<noteq> uid) (telemetry_pairing_codes d) \<and>
    telemetry_devices d' = telemetry_devices d"
proof -
  from pairing_create_Commit [OF assms(2)] obtain formatted row where
    a: "Created displayed expires = Created formatted (expires_at row)"
    and drawn: "insert_code sec uid now (take 5 draws) (invalidate_open uid now (telemetry_pairing_codes d)) =
      Drawn (formatted, row)"
    and d': "d' = d\<lparr>telemetry_pairing_codes := invalidate_open uid now (telemetry_pairing_codes d) @ [row]\<rparr>"
    by metis
  note row = insert_code_Drawn [OF drawn]
  have "filter (\<lambda>c. pairing_user c = uid \<and> pairing_open c) (invalidate_open uid now (telemetry_pairing_codes d)) = []"
    using invalidate_open_none [of uid now "telemetry_pairing_codes d"] by (auto simp: filter_empty_conv)
  moreover have "filter (\<lambda>c. pairing_user c \<noteq> uid) (invalidate_open uid now codes) = filter (\<lambda>c. pairing_user c \<noteq> uid) codes"
    for codes unfolding invalidate_open_def by (rule filter_update_where_other) auto
  ultimately show ?thesis
    using pairing_create_ok [OF assms] a row by (auto simp: d')
qed

lemma sample_generate:
  "generatePairingCode (replicate 10 0) = Some (js ''0000-0000-0000-0000'')"
  "normalizePairingCode (Some (js ''0000-0000-0000-0000'')) = Some (replicate 16 48)"
proof -
  have "encodePairingCode (replicate 10 0) = Some (js ''0000000000000000'')"
    by (simp add: encodePairingCode_def emit_digits.simps Let_def CROCKFORD_ALPHABET_def js_def numeral_eq_Suc)
  then show "generatePairingCode (replicate 10 0) = Some (js ''0000-0000-0000-0000'')"
    by (simp add: generatePairingCode_def formatPairingCode_def canonical_code_def crockford_char_def js_def)
  show "normalizePairingCode (Some (js ''0000-0000-0000-0000'')) = Some (replicate 16 48)"
    by (simp add: normalizePairingCode_def separator_def upcase_def canonical_code_def crockford_char_def js_def
        numeral_eq_Suc)
qed

lemma sample_create:
  "\<exists>d'. pairing_create_tx (sample_secrets body) (js ''u'') 100 [(replicate 10 0, js ''c'')] sample_db =
     Commit (Created (js ''0000-0000-0000-0000'') (100 + code_lifetime)) d'"
proof -
  have "owner_active sample_db (js ''u'')" using sample_live unfolding live_device_Some by blast
  then show ?thesis
    by (simp add: pairing_create_tx_def sample_generate Let_def invalidate_open_def update_where_def)
      (simp add: sample_db_def)
qed

theorem pairing_create_single_witness:
  "\<exists>d'. pairing_create_tx (sample_secrets []) (js ''u'') 100 [(replicate 10 0, js ''c'')] sample_db =
     Commit (Created (js ''0000-0000-0000-0000'') (100 + code_lifetime)) d' \<and> telemetry_ok d'"
  using sample_create [of "[]"] pairing_create_single [OF sample_db_ok] by blast


definition sample_claim :: obj where
  "sample_claim = [(js ''schema'', jint 1), (js ''code'', jstr ''0000 0000 0000 0000'')]"


text \<open>Histories of pairing operations; the answers of the claims are collected.\<close>

datatype pairing_op =
    Op_create jsstr int "(nat list \<times> jsstr) list"
  | Op_claim jsstr jsstr jsstr int "(nat list \<times> jsstr) list"
  | Op_cleanup int

fun pairing_step :: "secrets \<Rightarrow> tx_fault \<times> pairing_op \<Rightarrow> jsstr list \<times> telemetry_db \<Rightarrow> jsstr list \<times> telemetry_db" where
  "pairing_step sec (fault, Op_create uid now draws) (claimed, d) =
     (claimed, snd (run_tx fault Create_unavailable (pairing_create_tx sec uid now draws) d))"
| "pairing_step sec (fault, Op_claim uid h deviceName now draws) (claimed, d) =
     (case pairing_claim_tx sec uid h deviceName now draws d of
        Commit (Claimed cid dev credential) d' \<Rightarrow>
          if fault = Tx_fails then (claimed, d) else (cid # claimed, d')
      | _ \<Rightarrow> (claimed, snd (run_tx fault Claim_unavailable (pairing_claim_tx sec uid h deviceName now draws) d)))"
| "pairing_step sec (fault, Op_cleanup now) (claimed, d) = (claimed, snd (cleanupTelemetryPairingCodes now d))"

fun op_ids :: "tx_fault \<times> pairing_op \<Rightarrow> jsstr set" where
  "op_ids (fault, Op_create uid now draws) = snd ` set draws"
| "op_ids _ = {}"

definition claims_once :: "jsstr set \<Rightarrow> jsstr list \<times> telemetry_db \<Rightarrow> bool" where
  "claims_once K st \<longleftrightarrow>
     (case st of (claimed, d) \<Rightarrow>
        telemetry_ok d \<and> distinct claimed \<and> set claimed \<subseteq> K \<and>
        set (map pairing_id (telemetry_pairing_codes d)) \<subseteq> K \<and>
        (\<forall>c \<in> set (telemetry_pairing_codes d). pairing_id c \<in> set claimed \<longrightarrow> \<not> pairing_open c))"

lemma set_code_where_mem:
  "c' \<in> set (telemetry_pairing_codes (set_code_where cid f d)) \<longleftrightarrow>
     (\<exists>c \<in> set (telemetry_pairing_codes d). c' = (if pairing_id c = cid \<and> pairing_open c then f c else c))"
  by (simp add: set_code_where_def update_where_mem)

lemma insert_code_id: "insert_code sec uid now draws codes = Drawn (formatted, row) \<Longrightarrow> pairing_id row \<in> snd ` set draws"
proof (induction draws)
  case (Cons draw draws)
  then show ?case by (cases draw) (auto simp: Let_def split: option.splits if_splits)
qed simp

lemma create_claims_once:
  assumes inv: "claims_once K (claimed, d)" and fresh: "K \<inter> snd ` set draws = {}"
    and commit: "pairing_create_tx sec uid now draws d = Commit a d'"
  shows "claims_once (K \<union> snd ` set draws) (claimed, d')"
proof -
  from pairing_create_Commit [OF commit] obtain formatted row where
    drawn: "insert_code sec uid now (take 5 draws) (invalidate_open uid now (telemetry_pairing_codes d)) =
      Drawn (formatted, row)"
    and d': "d' = d\<lparr>telemetry_pairing_codes := invalidate_open uid now (telemetry_pairing_codes d) @ [row]\<rparr>"
    by metis
  have new: "pairing_id row \<in> snd ` set draws"
    using insert_code_id [OF drawn] by (auto dest: in_set_takeD)
  have "telemetry_ok d'" using inv commit by (auto simp: claims_once_def intro: pairing_create_ok)
  moreover have "\<not> pairing_open c" if "c \<in> set (invalidate_open uid now (telemetry_pairing_codes d))"
      "pairing_id c \<in> set claimed" for c
    using that inv by (auto simp: claims_once_def invalidate_open_def update_where_mem pairing_open_def split: if_splits)
  moreover have "pairing_id ` set (invalidate_open uid now (telemetry_pairing_codes d)) =
      pairing_id ` set (telemetry_pairing_codes d)"
    unfolding invalidate_open_def by (simp add: map_key_update_where flip: set_map)
  ultimately show ?thesis
    using inv new fresh by (auto simp: claims_once_def d')
qed

lemma claim_claims_once:
  assumes inv: "claims_once K (claimed, d)"
    and commit: "pairing_claim_tx sec uid h deviceName now draws d = Commit a d'"
  shows "claims_once K (case a of Claimed cid dev credential \<Rightarrow> cid # claimed | _ \<Rightarrow> claimed, d')"
proof -
  have ok': "telemetry_ok d'" using inv commit by (auto simp: claims_once_def intro: pairing_claim_ok)
  have dist: "distinct (map pairing_id (telemetry_pairing_codes d))"
    using inv by (simp add: claims_once_def ok_codes)
  show ?thesis
    using commit
  proof (cases rule: pairing_claim_Commit)
    case (blocked c)
    have "pairing_id ` set (telemetry_pairing_codes d') = pairing_id ` set (telemetry_pairing_codes d)"
      unfolding blocked(4) set_code_where_def by (simp add: map_key_update_where flip: set_map)
    moreover have "\<not> pairing_open c'" if "c' \<in> set (telemetry_pairing_codes d')" "pairing_id c' \<in> set claimed" for c'
    proof -
      from that(1) obtain x where x: "x \<in> set (telemetry_pairing_codes d)"
        "c' = (if pairing_id x = pairing_id c \<and> pairing_open x then x\<lparr>invalidated_at := Some now\<rparr> else x)"
        unfolding blocked(4) set_code_where_mem by blast
      with that(2) inv show ?thesis by (cases "pairing_open x") (auto simp: claims_once_def invalidated_closed split: if_splits)
    qed
    ultimately show ?thesis using inv ok' unfolding blocked(3) by (auto simp: claims_once_def)
  next
    case (claimed c dev credential)
    have mem: "c \<in> set (telemetry_pairing_codes d)" using find_code_Some [OF claimed(1)] by simp
    have ids: "pairing_id ` set (telemetry_pairing_codes d') = pairing_id ` set (telemetry_pairing_codes d)"
      unfolding claimed(7) set_code_where_def by (simp add: map_key_update_where flip: set_map)
    have codes: "c' \<in> set (telemetry_pairing_codes d') \<longleftrightarrow> (\<exists>x \<in> set (telemetry_pairing_codes d).
        c' = (if pairing_id x = pairing_id c \<and> pairing_open x then x\<lparr>consumed_at := Some now\<rparr> else x))" for c'
      unfolding claimed(7) set_code_where_mem by simp
    have "\<not> pairing_open c'" if "c' \<in> set (telemetry_pairing_codes d')" "pairing_id c' = pairing_id c" for c'
    proof -
      from that(1) obtain x where "c' = (if pairing_id x = pairing_id c \<and> pairing_open x
          then x\<lparr>consumed_at := Some now\<rparr> else x)" unfolding codes by blast
      with that(2) show ?thesis by (cases "pairing_open x") (auto simp: invalidated_closed split: if_splits)
    qed
    moreover have "\<not> pairing_open c'" if "c' \<in> set (telemetry_pairing_codes d')" "pairing_id c' \<in> set claimed" for c'
    proof -
      from that(1) obtain x where x: "x \<in> set (telemetry_pairing_codes d)"
        "c' = (if pairing_id x = pairing_id c \<and> pairing_open x then x\<lparr>consumed_at := Some now\<rparr> else x)"
        unfolding codes by blast
      with that(2) inv show ?thesis
        by (cases "pairing_open x") (auto simp: claims_once_def invalidated_closed split: if_splits)
    qed
    moreover have "pairing_id c \<notin> set claimed"
      using inv mem claimed(2) by (auto simp: claims_once_def)
    ultimately show ?thesis
      using inv ok' ids mem unfolding claimed(5) by (auto simp: claims_once_def)
  qed
qed

lemma pairing_step_once:
  assumes inv: "claims_once K st" and fresh: "K \<inter> op_ids op = {}"
  shows "claims_once (K \<union> op_ids op) (pairing_step sec op st)"
proof -
  obtain fault body claimed d where st: "op = (fault, body)" "st = (claimed, d)" by (metis prod.exhaust)
  from inv st have keep: "claims_once (K \<union> X) (claimed, d)" for X by (auto simp: claims_once_def)
  show ?thesis
  proof (cases body)
    case (Op_create uid now draws)
    have "claims_once (K \<union> snd ` set draws) (claimed, snd (run_tx fault Create_unavailable (pairing_create_tx sec uid now draws) d))"
      by (rule run_tx_preserves [where I = "\<lambda>d. claims_once (K \<union> snd ` set draws) (claimed, d)"])
        (use create_claims_once [OF inv [unfolded st]] fresh keep st Op_create in auto)
    with st Op_create show ?thesis by simp
  next
    case (Op_claim uid h deviceName now draws)
    note once = claim_claims_once [OF inv [unfolded st], of sec uid h deviceName now draws]
    show ?thesis
    proof (cases "pairing_claim_tx sec uid h deviceName now draws d")
      case (Commit a d')
      from once [OF this] keep [of "{}"] Commit st Op_claim show ?thesis
        by (cases a) (auto simp: run_tx_def)
    qed (use keep [of "{}"] st Op_claim in \<open>simp_all add: run_tx_def\<close>)
  next
    case (Op_cleanup now)
    have "telemetry_ok (snd (cleanupTelemetryPairingCodes now d))"
      using inv st by (auto simp: claims_once_def intro: cleanup_codes_ok)
    with inv st Op_cleanup show ?thesis
      by (auto simp: claims_once_def cleanupTelemetryPairingCodes_def set_delete_where Let_def)
  qed
qed

text \<open>The ids the database draws are new: none is in \<open>K\<close> or was drawn before.\<close>

fun fresh_ops :: "jsstr set \<Rightarrow> (tx_fault \<times> pairing_op) list \<Rightarrow> bool" where
  "fresh_ops K [] \<longleftrightarrow> True"
| "fresh_ops K (op # ops) \<longleftrightarrow> K \<inter> op_ids op = {} \<and> fresh_ops (K \<union> op_ids op) ops"

lemma pairing_run_once:
  "claims_once K st \<Longrightarrow> fresh_ops K ops \<Longrightarrow> \<exists>K'. claims_once K' (fold (pairing_step sec) ops st)"
proof (induction ops arbitrary: K st)
  case (Cons op ops)
  with pairing_step_once [of K st op sec] show ?case by auto
qed auto

text \<open>C3. A pairing code is claimed at most once: in any history of creations, claims and cleanups, with any
  transaction failing or losing its acknowledgement, no code's row leads to two devices (the uuids
  the database draws being new).\<close>

theorem pairing_claimed_once:
  assumes "telemetry_ok d" "fresh_ops (pairing_id ` set (telemetry_pairing_codes d)) ops"
    and "fold (pairing_step sec) ops ([], d) = (claimed, d')"
  shows "distinct claimed \<and> telemetry_ok d'"
proof -
  have "claims_once (pairing_id ` set (telemetry_pairing_codes d)) ([], d)"
    using assms(1) by (simp add: claims_once_def)
  from pairing_run_once [OF this assms(2), of sec] assms(3) show ?thesis by (auto simp: claims_once_def)
qed

theorem pairing_claimed_once_witness:
  "distinct (fst (fold (pairing_step (sample_secrets []))
     [(Tx_ok, Op_create (js ''u'') 100 [(replicate 10 0, js ''c'')]),
      (Tx_lost_ack, Op_claim (js ''u'') (hashPairingCode (\<lambda>p x. x) [] (replicate 16 48)) (js ''rig'') 200
         [(replicate 32 1, js ''e'')]),
      (Tx_ok, Op_claim (js ''u'') (hashPairingCode (\<lambda>p x. x) [] (replicate 16 48)) (js ''rig'') 300
         [(replicate 32 2, js ''f'')])] ([], sample_db)))"
proof -
  let ?ops = "[(Tx_ok, Op_create (js ''u'') 100 [(replicate 10 0, js ''c'')]),
      (Tx_lost_ack, Op_claim (js ''u'') (hashPairingCode (\<lambda>p x. x) [] (replicate 16 48)) (js ''rig'') 200
         [(replicate 32 1, js ''e'')]),
      (Tx_ok, Op_claim (js ''u'') (hashPairingCode (\<lambda>p x. x) [] (replicate 16 48)) (js ''rig'') 300
         [(replicate 32 2, js ''f'')])]"
  obtain claimed d' where run: "fold (pairing_step (sample_secrets [])) ?ops ([], sample_db) = (claimed, d')"
    by fastforce
  have "fresh_ops (pairing_id ` set (telemetry_pairing_codes sample_db)) ?ops" by (simp add: sample_db_def)
  from pairing_claimed_once [OF sample_db_ok this run] show ?thesis unfolding run by simp
qed

text \<open>C40. The cleanup removes only codes that have been useless for thirty days, the smaller of 500 and their
  number, so \<open>n\<close> runs leave none of \<open>500 * n\<close>; every other code is kept.\<close>

theorem pairing_cleanup_progress:
  assumes "telemetry_ok d" "cleanupTelemetryPairingCodes now d = (removed, d')"
  shows "removed = min 500 (length (filter (\<lambda>c. code_cleanup_at c \<le> now - cleanup_age) (telemetry_pairing_codes d))) \<and>
    length (filter (\<lambda>c. code_cleanup_at c \<le> now - cleanup_age) (telemetry_pairing_codes d')) =
      length (filter (\<lambda>c. code_cleanup_at c \<le> now - cleanup_age) (telemetry_pairing_codes d)) - 500 \<and>
    filter (\<lambda>c. \<not> code_cleanup_at c \<le> now - cleanup_age) (telemetry_pairing_codes d') =
      filter (\<lambda>c. \<not> code_cleanup_at c \<le> now - cleanup_age) (telemetry_pairing_codes d)"
proof -
  note batch = batch_delete [OF ok_codes [OF assms(1)] cleanup_candidates_def [of now "telemetry_pairing_codes d"]]
  from assms(2) have "removed = length (cleanup_candidates now (telemetry_pairing_codes d))"
    "telemetry_pairing_codes d' = delete_where (\<lambda>c. pairing_id c \<in> pairing_id `
       set (cleanup_candidates now (telemetry_pairing_codes d))) (telemetry_pairing_codes d)"
    by (auto simp: cleanupTelemetryPairingCodes_def Let_def)
  with batch show ?thesis by simp
qed

theorem pairing_cleanup_progress_witness:
  "fst (cleanupTelemetryPairingCodes (2 * cleanup_age)
     (sample_db\<lparr>telemetry_pairing_codes := [\<lparr>pairing_id = js ''c'', pairing_user = js ''u'', code_hash = js ''h'',
        pairing_created_at = 0, expires_at = 1, consumed_at = None, invalidated_at = None\<rparr>]\<rparr>)) = 1"
proof -
  let ?c = "\<lparr>pairing_id = js ''c'', pairing_user = js ''u'', code_hash = js ''h'',
        pairing_created_at = 0, expires_at = 1, consumed_at = None, invalidated_at = None\<rparr>"
  have "telemetry_ok (sample_db\<lparr>telemetry_pairing_codes := [?c]\<rparr>)"
    unfolding telemetry_ok_codes [OF sample_db_ok]
    by (simp add: codes_ok_def pairing_checks_def pairing_open_def sample_db_def)
  from pairing_cleanup_progress [OF this prod.collapse [symmetric], of "2 * cleanup_age"]
  show ?thesis by (simp add: code_cleanup_at_def cleanup_age_def)
qed

end
