(* ===== verification/Management.thy ===== *)
theory Management
  imports Pairing "HOL-Library.List_Lexorder" "HOL-Library.Product_Lexorder"
begin

text \<open>
  The account's own view of its devices and their history (\<open>src/src/telemetry-management.js\<close>) and
  the retention job (\<open>src/src/telemetry-history-cleanup.js\<close>). Ids compare like the uuids they
  spell. The conversions between timestamps and their text, \<open>JSON.parse\<close> and \<open>Number\<close> are
  parameters. The locale \<open>paged_source\<close> is the contract of keyset pagination.
\<close>

section \<open>The contract of keyset pagination\<close>

fun pages :: "('c option \<Rightarrow> 'r list) \<Rightarrow> ('r \<Rightarrow> 'c) \<Rightarrow> nat \<Rightarrow> nat \<Rightarrow> 'c option \<Rightarrow> 'r list list" where
  "pages after cursor_of 0 n c = []"
| "pages after cursor_of (Suc fuel) n c =
     (let rows = after c; page = take n rows
      in page # (if n < length rows then pages after cursor_of fuel n (Some (cursor_of (last page))) else []))"

locale paged_source =
  fixes all_rows :: "'r list"
    and after :: "'c option \<Rightarrow> 'r list"
    and cursor_of :: "'r \<Rightarrow> 'c"
  assumes after_None: "after None = all_rows"
    and after_row: "i < length all_rows \<Longrightarrow> after (Some (cursor_of (all_rows ! i))) = drop (Suc i) all_rows"
begin

lemma pages_from:
  assumes "0 < n" "length all_rows - i < fuel" "after c = drop i all_rows"
  shows "concat (pages after cursor_of fuel n c) = drop i all_rows"
  using assms
proof (induction fuel arbitrary: i c)
  case (Suc fuel)
  let ?rows = "drop i all_rows"
  show ?case
  proof (cases "n < length ?rows")
    case True
    have len: "length (take n ?rows) = n" using True by simp
    have "last (take n ?rows) = take n ?rows ! (n - 1)"
      using Suc.prems(1) len by (subst last_conv_nth) auto
    also have "\<dots> = all_rows ! (i + n - 1)" using Suc.prems(1) True by simp
    finally have last: "last (take n ?rows) = all_rows ! (i + n - 1)" .
    have "after (Some (cursor_of (last (take n ?rows)))) = drop (i + n) all_rows"
      unfolding last using after_row [of "i + n - 1"] Suc.prems(1) True by simp
    from Suc.IH [OF Suc.prems(1) _ this] Suc.prems(1,2) True
    have "concat (pages after cursor_of fuel n (Some (cursor_of (last (take n ?rows))))) = drop (i + n) all_rows"
      by simp
    with True Suc.prems(3) show ?thesis
      using append_take_drop_id [of n ?rows] by (simp add: Let_def add.commute)
  next
    case False
    with Suc.prems(3) show ?thesis by (simp add: Let_def)
  qed
qed simp

text \<open>Following the cursors from the start yields every row once, in order, whatever the page size.\<close>

lemma pages_complete: "0 < n \<Longrightarrow> concat (pages after cursor_of (Suc (length all_rows)) n None) = all_rows"
  using pages_from [of n 0 "Suc (length all_rows)" None] by (simp add: after_None)

lemma page_length: "page \<in> set (pages after cursor_of fuel n c) \<Longrightarrow> length page \<le> n"
  by (induction fuel arbitrary: c) (auto simp: Let_def split: if_splits)

end

section \<open>accountFor\<close>

datatype account_step = Account jsstr | Refused response

text \<open>The caller's account as \<open>getCurrentAppUser\<close> gives it: its id with its status, or \<open>None\<close>.\<close>

definition accountFor ::
    "(jsstr \<times> account_status) option \<Rightarrow> limiter_config \<Rightarrow> request_limiter \<Rightarrow> int \<Rightarrow> account_step \<times> request_limiter" where
  "accountFor account cfg l now =
     (case account of
        None \<Rightarrow> (Refused login_required, l)
      | Some (uid, status) \<Rightarrow>
          if status \<noteq> Active then (Refused login_required, l)
          else let (rate, l') = limiter_consume cfg l uid now
               in if allowed rate then (Account uid, l')
                  else (Refused (telemetryError 429 ''rate_limited'' (Some (retryAfter rate))), l'))"

section \<open>Devices\<close>

definition device_online :: "int \<Rightarrow> device \<Rightarrow> bool" where
  "device_online now dev \<longleftrightarrow>
     revoked_at dev = None \<and> (case last_seen_at dev of None \<Rightarrow> False | Some t \<Rightarrow> now - 90 * 1000000 \<le> t)"

record device_view =
  view_id :: jsstr
  view_name :: jsstr
  view_created_at :: int
  view_last_seen_at :: "int option"
  view_revoked_at :: "int option"
  view_online :: bool

definition device_row :: "int \<Rightarrow> device \<Rightarrow> device_view" where
  "device_row now dev =
     \<lparr>view_id = device_id dev, view_name = device_name dev, view_created_at = device_created_at dev,
      view_last_seen_at = last_seen_at dev, view_revoked_at = revoked_at dev, view_online = device_online now dev\<rparr>"

text \<open>\<open>ORDER BY d.created_at DESC, d.id DESC\<close>.\<close>

definition list_devices :: "jsstr \<Rightarrow> int \<Rightarrow> telemetry_db \<Rightarrow> device_view list" where
  "list_devices uid now d =
     map (device_row now) (rev (sort_key (\<lambda>dev. (device_created_at dev, device_id dev))
       (filter (\<lambda>dev. app_user_id dev = uid) (telemetry_devices d))))"

definition opt_date :: "int option \<Rightarrow> json" where
  "opt_date t = (case t of None \<Rightarrow> JNull | Some i \<Rightarrow> JDate i)"

definition device_json :: "device_view \<Rightarrow> json" where
  "device_json v =
     JObj [(js ''id'', JStr (view_id v)), (js ''name'', JStr (view_name v)), (js ''created_at'', JDate (view_created_at v)),
       (js ''last_seen_at'', opt_date (view_last_seen_at v)), (js ''revoked_at'', opt_date (view_revoked_at v)),
       (js ''online'', JBool (view_online v))]"

definition listDevices ::
    "environment \<Rightarrow> (jsstr \<times> account_status) option \<Rightarrow> telemetry_state \<Rightarrow> response \<times> telemetry_state" where
  "listDevices env account s0 =
     (case accountFor account telemetryManagementListRateLimit (management_list_limiter s0) (now_ms env) of
        (Refused response, l) \<Rightarrow> (response, s0\<lparr>management_list_limiter := l\<rparr>)
      | (Account uid, l) \<Rightarrow>
          let s = interfere env 0 (s0\<lparr>management_list_limiter := l\<rparr>) in
          if db_raises env 0 then (server_unavailable, s)
          else (json_response 200 (JObj [(js ''schema'', jint 1),
                  (js ''devices'', JArr (map device_json (list_devices uid (clock env 0) (db s))))]), s))"

definition not_found :: response where
  "not_found = telemetryError 404 ''not_found'' None"

definition rename_update :: "jsstr \<Rightarrow> jsstr \<Rightarrow> jsstr \<Rightarrow> telemetry_db \<Rightarrow> telemetry_db" where
  "rename_update did uid name d =
     d\<lparr>telemetry_devices := update_where (\<lambda>dev. device_id dev = did \<and> app_user_id dev = uid)
         (\<lambda>dev. dev\<lparr>device_name := name\<rparr>) (telemetry_devices d)\<rparr>"

text \<open>The checks of a rename body: the new name or the error.\<close>

definition rename_input :: "obj \<Rightarrow> response + jsstr" where
  "rename_input body =
     (if \<not> has_own body ''schema'' then Inl (telemetryError 400 ''invalid_payload'' None)
      else if prop_of body ''schema'' \<noteq> Some (jint 1) then Inl (telemetryError 400 ''unsupported_schema'' None)
      else if \<not> keys_within body [''schema'', ''name''] \<or> \<not> has_own body ''name''
      then Inl (telemetryError 400 ''invalid_payload'' None)
      else case normalizeDeviceName (prop_of body ''name'') of
        None \<Rightarrow> Inl (telemetryError 400 ''invalid_payload'' None)
      | Some name \<Rightarrow> Inr name)"

definition rename_run :: "environment \<Rightarrow> jsstr \<Rightarrow> jsstr \<Rightarrow> jsstr \<Rightarrow> telemetry_state \<Rightarrow> response \<times> telemetry_state" where
  "rename_run env did uid name s0 =
     (let s = interfere env 1 s0 in
      if db_raises env 1 \<or> \<not> pg_text name then (server_unavailable, s)
      else case find_device (db s) did of
        None \<Rightarrow> (not_found, s)
      | Some dev \<Rightarrow>
          if app_user_id dev \<noteq> uid then (not_found, s)
          else (json_response 200 (JObj [(js ''schema'', jint 1),
                  (js ''device'', device_json (device_row (clock env 1) (dev\<lparr>device_name := name\<rparr>)))]),
                s\<lparr>db := rename_update did uid name (db s)\<rparr>))"

definition renameDevice ::
    "secrets \<Rightarrow> environment \<Rightarrow> (jsstr \<times> account_status) option \<Rightarrow> jsstr \<Rightarrow> http_request \<Rightarrow> incoming \<Rightarrow>
     telemetry_state \<Rightarrow> response \<times> telemetry_state" where
  "renameDevice sec env account deviceId request body s0 =
     (case accountFor account telemetryManagementMutationRateLimit (management_mutation_limiter s0) (now_ms env) of
        (Refused response, l) \<Rightarrow> (response, s0\<lparr>management_mutation_limiter := l\<rparr>)
      | (Account uid, l) \<Rightarrow>
          let s1 = s0\<lparr>management_mutation_limiter := l\<rparr> in
          if \<not> uuid_shape 8 deviceId then (not_found, s1)
          else let s2 = interfere env 0 s1 in
            case readTelemetryJson (json_parse sec) request body (4 * 1024) of
              Body_error status code \<Rightarrow>
                (telemetryError status (if code = ''unsupported_schema'' then code else ''invalid_payload'') None, s2)
            | Parsed ob \<Rightarrow>
                (case rename_input ob of
                   Inl response \<Rightarrow> (response, s2)
                 | Inr name \<Rightarrow> rename_run env (uuid_canonical deviceId) uid name s2))"

datatype revoke_answer = Revoke_not_found | Revoked | Revoke_unavailable

definition revoke_update :: "jsstr \<Rightarrow> jsstr \<Rightarrow> int \<Rightarrow> telemetry_db \<Rightarrow> telemetry_db" where
  "revoke_update did uid now d =
     d\<lparr>telemetry_devices := update_where (\<lambda>dev. device_id dev = did \<and> app_user_id dev = uid)
         (\<lambda>dev. dev\<lparr>revoked_at := Some (case revoked_at dev of None \<Rightarrow> now | Some t \<Rightarrow> t)\<rparr>) (telemetry_devices d),
       telemetry_presence := delete_where (\<lambda>p. presence_device p = did) (telemetry_presence d)\<rparr>"

definition revoke_tx :: "jsstr \<Rightarrow> jsstr \<Rightarrow> int \<Rightarrow> telemetry_db \<Rightarrow> (revoke_answer, telemetry_db) tx_outcome" where
  "revoke_tx did uid now d =
     (case find_device d did of
        None \<Rightarrow> Rollback Revoke_not_found
      | Some dev \<Rightarrow>
          if app_user_id dev \<noteq> uid then Rollback Revoke_not_found
          else Commit Revoked (revoke_update did uid now d))"

fun revoke_response :: "revoke_answer \<Rightarrow> response" where
  "revoke_response Revoke_not_found = not_found"
| "revoke_response Revoked = \<lparr>r_status = 204, r_headers = [], r_body = None\<rparr>"
| "revoke_response Revoke_unavailable = server_unavailable"

definition revokeDevice ::
    "environment \<Rightarrow> (jsstr \<times> account_status) option \<Rightarrow> jsstr \<Rightarrow> telemetry_state \<Rightarrow> response \<times> telemetry_state" where
  "revokeDevice env account deviceId s0 =
     (case accountFor account telemetryManagementMutationRateLimit (management_mutation_limiter s0) (now_ms env) of
        (Refused response, l) \<Rightarrow> (response, s0\<lparr>management_mutation_limiter := l\<rparr>)
      | (Account uid, l) \<Rightarrow>
          let s1 = s0\<lparr>management_mutation_limiter := l\<rparr> in
          if \<not> uuid_shape 8 deviceId then (not_found, s1)
          else let s2 = interfere env 0 s1;
                   (answer, d) = run_tx (tx_fault env) Revoke_unavailable
                     (revoke_tx (uuid_canonical deviceId) uid (clock env 0)) (db s2)
               in (revoke_response answer, s2\<lparr>db := d\<rparr>))"

end
