(* ===== verification/Telemetry_History.thy ===== *)
theory Telemetry_History
  imports Management
begin

text \<open>
  The history routes of \<open>src/src/telemetry-management.js\<close> (paging with an opaque cursor,
  deletion) and the retention job of \<open>src/src/telemetry-history-cleanup.js\<close>. The locale
  \<open>paged_source\<close> is interpreted on the query of \<open>listHistory\<close>.
\<close>

section \<open>The cursor\<close>

text \<open>The text of a timestamp and back, and \<open>JSON.parse\<close>.\<close>

record cursor_codec =
  timestamp_text :: "int \<Rightarrow> jsstr"
  timestamp_of :: "jsstr \<Rightarrow> int"
  cursor_parse :: "jsstr \<Rightarrow> json option"

definition quoted :: "jsstr \<Rightarrow> jsstr" where
  "quoted s = js [CHR 0x22] @ s @ js [CHR 0x22]"

text \<open>\<open>JSON.stringify({ received_at, id })\<close>; both texts are plain ASCII.\<close>

definition cursor_text :: "jsstr \<Rightarrow> jsstr \<Rightarrow> jsstr" where
  "cursor_text receivedAt ident =
     js ''{'' @ quoted (js ''received_at'') @ js '':'' @ quoted receivedAt @ js '','' @
     quoted (js ''id'') @ js '':'' @ quoted ident @ js ''}''"

definition encodeCursor :: "jsstr \<Rightarrow> jsstr \<Rightarrow> jsstr" where
  "encodeCursor receivedAt ident = base64url (cursor_text receivedAt ident)"

text \<open>\<open>receivedAtPattern\<close> and the round trip through \<open>Date\<close>, which only a real calendar moment passes.\<close>

definition validReceivedAt :: "jsstr \<Rightarrow> bool" where
  "validReceivedAt s \<longleftrightarrow>
     length s = 27 \<and> date_time_shape s \<and> s ! 19 = 46 \<and> (\<forall>i \<in> set [20..<26]. digit (s ! i)) \<and> s ! 26 = 90 \<and>
     (let year = number_at 0 4 s; month = number_at 5 2 s; day = number_at 8 2 s
      in 1 \<le> month \<and> month \<le> 12 \<and> 1 \<le> day \<and> day \<le> month_days year month \<and>
         number_at 11 2 s \<le> 23 \<and> number_at 14 2 s \<le> 59 \<and> number_at 17 2 s \<le> 59)"

definition decodeCursor :: "cursor_codec \<Rightarrow> jsstr \<Rightarrow> (jsstr \<times> jsstr) option" where
  "decodeCursor codec v =
     (if 512 < length v then None
      else case cursor_parse codec (base64url_decode v) of
        Some (JObj ob) \<Rightarrow>
          (case (prop_of ob ''received_at'', prop_of ob ''id'') of
             (Some (JStr receivedAt), Some (JStr ident)) \<Rightarrow>
               if validReceivedAt receivedAt \<and> uuid_shape 8 ident \<and> base64url (base64url_decode v) = v
               then Some (receivedAt, ident) else None
           | _ \<Rightarrow> None)
      | _ \<Rightarrow> None)"

section \<open>listHistory\<close>

definition retention :: int where
  "retention = 90 * 24 * 60 * 60 * 1000000"

definition entry_key :: "history_entry \<Rightarrow> int \<times> jsstr" where
  "entry_key h = (entry_received_at h, entry_id h)"

definition owned_by :: "telemetry_db \<Rightarrow> jsstr \<Rightarrow> jsstr \<Rightarrow> bool" where
  "owned_by d uid did = (case find_device d did of None \<Rightarrow> False | Some dev \<Rightarrow> app_user_id dev = uid)"

text \<open>The rows the query selects, newest first.\<close>

definition visible_history :: "jsstr \<Rightarrow> int \<Rightarrow> telemetry_db \<Rightarrow> history_entry list" where
  "visible_history uid now d =
     rev (sort_key entry_key (filter (\<lambda>h. owned_by d uid (entry_device h) \<and> now - retention \<le> entry_received_at h)
       (telemetry_presence_history d)))"

definition history_after :: "jsstr \<Rightarrow> int \<Rightarrow> telemetry_db \<Rightarrow> (int \<times> jsstr) option \<Rightarrow> history_entry list" where
  "history_after uid now d cursor =
     filter (\<lambda>h. case cursor of None \<Rightarrow> True | Some c \<Rightarrow> entry_key h < c) (visible_history uid now d)"

definition history_query ::
    "jsstr \<Rightarrow> int \<Rightarrow> telemetry_db \<Rightarrow> (int \<times> jsstr) option \<Rightarrow> nat \<Rightarrow> history_entry list" where
  "history_query uid now d cursor n = take n (history_after uid now d cursor)"

definition opt_text :: "jsstr option \<Rightarrow> json" where
  "opt_text v = (case v of None \<Rightarrow> JNull | Some s \<Rightarrow> JStr s)"

definition historyRow :: "cursor_codec \<Rightarrow> telemetry_db \<Rightarrow> history_entry \<Rightarrow> json" where
  "historyRow codec d h =
     JObj [(js ''id'', JStr (entry_id h)), (js ''device_id'', JStr (entry_device h)),
       (js ''device_name'', opt_text (map_option device_name (find_device d (entry_device h)))),
       (js ''received_at'', JStr (timestamp_text codec (entry_received_at h))),
       (js ''observed_at'', opt_text (entry_location_observed_at h)),
       (js ''time_source'', if entry_location_observed_at h \<in> {None, Some []} then jstr ''received'' else jstr ''observed''),
       (js ''location_raw'', opt_text (entry_location_raw h)),
       (js ''jurisdiction'', opt_text (entry_jurisdiction h)), (js ''ship_name'', opt_text (entry_ship_name h))]"

definition next_cursor :: "cursor_codec \<Rightarrow> nat \<Rightarrow> history_entry list \<Rightarrow> jsstr option" where
  "next_cursor codec n rows =
     (if n < length rows
      then let h = last (take n rows) in Some (encodeCursor (timestamp_text codec (entry_received_at h)) (entry_id h))
      else None)"

text \<open>\<open>limit\<close> and \<open>cursor\<close> are the query parameters, \<open>None\<close> when absent; \<open>js_number\<close> is \<open>Number\<close>.\<close>

definition history_limit :: "(jsstr \<Rightarrow> jsnum) \<Rightarrow> jsstr option \<Rightarrow> nat option" where
  "history_limit js_number requested =
     (case requested of
        None \<Rightarrow> Some 50
      | Some s \<Rightarrow>
          (case integer_of (js_number s) of
             None \<Rightarrow> None
           | Some i \<Rightarrow> if i < 1 \<or> 100 < i then None else Some (nat i)))"

definition listHistory ::
    "cursor_codec \<Rightarrow> (jsstr \<Rightarrow> jsnum) \<Rightarrow> environment \<Rightarrow> (jsstr \<times> account_status) option \<Rightarrow> jsstr option \<Rightarrow>
     jsstr option \<Rightarrow> telemetry_state \<Rightarrow> response \<times> telemetry_state" where
  "listHistory codec js_number env account requestedLimit rawCursor s0 =
     (case accountFor account telemetryHistoryRateLimit (history_limiter s0) (now_ms env) of
        (Refused response, l) \<Rightarrow> (response, s0\<lparr>history_limiter := l\<rparr>)
      | (Account uid, l) \<Rightarrow>
          let s1 = s0\<lparr>history_limiter := l\<rparr> in
          case history_limit js_number requestedLimit of
            None \<Rightarrow> (telemetryError 400 ''invalid_payload'' None, s1)
          | Some n \<Rightarrow>
              let cursor = (case rawCursor of None \<Rightarrow> None | Some c \<Rightarrow> decodeCursor codec c) in
              if rawCursor \<noteq> None \<and> cursor = None then (telemetryError 400 ''invalid_payload'' None, s1)
              else let s = interfere env 0 s1 in
                if db_raises env 0 then (server_unavailable, s)
                else let rows = history_query uid (clock env 0) (db s)
                           (map_option (\<lambda>(t, ident). (timestamp_of codec t, uuid_canonical ident)) cursor) (n + 1)
                     in (json_response 200 (JObj [(js ''schema'', jint 1),
                           (js ''entries'', JArr (map (historyRow codec (db s)) (take n rows))),
                           (js ''next_cursor'', opt_text (next_cursor codec n rows))]), s))"

section \<open>deleteHistory\<close>

datatype delete_answer = History_deleted nat | Delete_unavailable

definition delete_history_tx :: "jsstr \<Rightarrow> telemetry_db \<Rightarrow> (delete_answer, telemetry_db) tx_outcome" where
  "delete_history_tx uid d =
     Commit (History_deleted (count_where (\<lambda>h. owned_by d uid (entry_device h)) (telemetry_presence_history d)))
       (d\<lparr>telemetry_presence_history :=
          delete_where (\<lambda>h. owned_by d uid (entry_device h)) (telemetry_presence_history d)\<rparr>)"

fun delete_response :: "delete_answer \<Rightarrow> response" where
  "delete_response (History_deleted n) =
     json_response 200 (JObj [(js ''schema'', jint 1), (js ''deleted'', jint (int n))])"
| "delete_response Delete_unavailable = server_unavailable"

definition deleteHistory ::
    "environment \<Rightarrow> (jsstr \<times> account_status) option \<Rightarrow> telemetry_state \<Rightarrow> response \<times> telemetry_state" where
  "deleteHistory env account s0 =
     (case accountFor account telemetryManagementMutationRateLimit (management_mutation_limiter s0) (now_ms env) of
        (Refused response, l) \<Rightarrow> (response, s0\<lparr>management_mutation_limiter := l\<rparr>)
      | (Account uid, l) \<Rightarrow>
          let s = interfere env 0 (s0\<lparr>management_mutation_limiter := l\<rparr>);
              (answer, d) = run_tx (tx_fault env) Delete_unavailable (delete_history_tx uid) (db s)
          in (delete_response answer, s\<lparr>db := d\<rparr>))"

section \<open>The retention job\<close>

definition CLEANUP_BATCH_SIZE :: int where
  "CLEANUP_BATCH_SIZE = 500"

text \<open>Rows that another transaction has locked are skipped (\<open>FOR UPDATE SKIP LOCKED\<close>); a batch size out of
  range throws (\<open>None\<close>).\<close>

definition expired_history ::
    "int \<Rightarrow> (history_entry \<Rightarrow> bool) \<Rightarrow> nat \<Rightarrow> history_entry list \<Rightarrow> history_entry list" where
  "expired_history now locked n hs =
     take n (sort_key entry_key (filter (\<lambda>h. entry_received_at h < now - retention \<and> \<not> locked h) hs))"

definition cleanupExpiredTelemetryHistory ::
    "int \<Rightarrow> int \<Rightarrow> (history_entry \<Rightarrow> bool) \<Rightarrow> telemetry_db \<Rightarrow> (nat \<times> telemetry_db) option" where
  "cleanupExpiredTelemetryHistory batchSize now locked d =
     (if batchSize < 1 \<or> CLEANUP_BATCH_SIZE < batchSize then None
      else let expired = expired_history now locked (nat batchSize) (telemetry_presence_history d)
           in Some (length expired,
                d\<lparr>telemetry_presence_history :=
                   delete_where (\<lambda>h. entry_id h \<in> entry_id ` set expired) (telemetry_presence_history d)\<rparr>))"

datatype cleanup_status = Already_running | Cleanup_complete nat | Cleanup_failed

text \<open>The runner between its call and its end: \<open>start\<close> takes the \<open>running\<close> flag or reports that it is taken,
  \<open>finish\<close> runs the query, gives the flag back on both paths and reports.\<close>

definition cleanup_start :: "bool \<Rightarrow> cleanup_status option \<times> bool" where
  "cleanup_start running = (if running then (Some Already_running, True) else (None, True))"

definition cleanup_finish ::
    "bool \<Rightarrow> int \<Rightarrow> int \<Rightarrow> (history_entry \<Rightarrow> bool) \<Rightarrow> telemetry_db \<Rightarrow> cleanup_status \<times> bool \<times> telemetry_db" where
  "cleanup_finish raises batchSize now locked d =
     (case (if raises then None else cleanupExpiredTelemetryHistory batchSize now locked d) of
        None \<Rightarrow> (Cleanup_failed, False, d)
      | Some (removed, d') \<Rightarrow> (Cleanup_complete removed, False, d'))"

section \<open>Lemmas\<close>

lemma visible_history_set:
  "set (visible_history uid now d) =
     {h \<in> set (telemetry_presence_history d). owned_by d uid (entry_device h) \<and> now - retention \<le> entry_received_at h}"
  by (simp add: visible_history_def)

lemma visible_history_decreasing:
  assumes "telemetry_ok d"
  shows "sorted_wrt (\<lambda>h h'. entry_key h' < entry_key h) (visible_history uid now d)"
proof -
  let ?hs = "filter (\<lambda>h. owned_by d uid (entry_device h) \<and> now - retention \<le> entry_received_at h)
       (telemetry_presence_history d)"
  have "distinct (map entry_id ?hs)"
    using assms by (simp add: telemetry_ok_def distinct_map_filter)
  then have dist: "distinct ?hs \<and> inj_on entry_key (set ?hs)"
    unfolding distinct_map by (auto simp: inj_on_def entry_key_def)
  have "distinct (map entry_key (sort_key entry_key ?hs))"
    unfolding distinct_map set_sort distinct_sort using dist by blast
  then have "sorted_wrt (<) (map entry_key (sort_key entry_key ?hs))"
    using sorted_sort_key [of entry_key ?hs] by (simp add: strict_sorted_iff)
  then show ?thesis by (simp add: visible_history_def sorted_wrt_rev sorted_wrt_map)
qed

lemma filter_below_decreasing:
  fixes key :: "'r \<Rightarrow> 'k :: linorder"
  shows "sorted_wrt (\<lambda>x y. key y < key x) xs \<Longrightarrow> i < length xs \<Longrightarrow>
     filter (\<lambda>x. key x < key (xs ! i)) xs = drop (Suc i) xs"
proof (induction xs arbitrary: i)
  case (Cons a xs)
  show ?case
  proof (cases i)
    case 0
    with Cons.prems show ?thesis by (auto simp: filter_id_conv)
  next
    case (Suc j)
    with Cons.prems have "\<not> key a < key (xs ! j)" by (auto dest!: bspec [OF _ nth_mem])
    with Cons Suc show ?thesis by simp
  qed
qed simp

text \<open>The databases that satisfy the schema, as a type.\<close>

typedef valid_db = "{d. telemetry_ok d}"
  morphisms db_of Valid_db
  using sample_db_ok by blast

interpretation history_pages: paged_source "visible_history uid now (db_of v)" "history_after uid now (db_of v)" entry_key
  for uid now v
proof (unfold_locales, goal_cases)
  case 1
  show ?case by (simp add: history_after_def)
next
  case (2 i)
  have "telemetry_ok (db_of v)" using db_of [of v] by simp
  from filter_below_decreasing [OF visible_history_decreasing [OF this] 2] show ?case
    by (simp add: history_after_def)
qed

section \<open>Properties\<close>


lemma sample_history_entry:
  "telemetry_ok (sample_db\<lparr>telemetry_presence_history := [history_of (js ''h'') (js ''d'') 7 sample_projection 1000]\<rparr>)"
  using sample_db_ok payload_satisfies_schema [of "JObj sample_payload" sample_projection 7 "[]" 0]
  by (simp add: telemetry_ok_def history_of_def history_checks_def presence_checks_def projection_checks_def)
    (simp add: sample_db_def sample_device_def)


lemma is_buffer_append [simp]: "is_buffer (xs @ ys) \<longleftrightarrow> is_buffer xs \<and> is_buffer ys"
  by (auto simp: is_buffer_def)

lemma is_buffer_js [simp]: "is_buffer (js s)"
  by (auto simp: is_buffer_def js_def)

lemma is_buffer_nth: "is_buffer s \<longleftrightarrow> (\<forall>i < length s. s ! i < 256)"
  by (auto simp: is_buffer_def all_set_conv_all_nth)

lemma uuid_shape_buffer: "uuid_shape n s \<Longrightarrow> is_buffer s"
proof -
  assume shape: "uuid_shape n s"
  have "s ! i < 256" if "i < 36" for i
  proof -
    from shape that have "if i \<in> {8, 13, 18, 23} then s ! i = 45 else hex_digit (s ! i)"
      by (simp add: uuid_shape_def)
    then show ?thesis by (auto simp: hex_digit_def split: if_splits)
  qed
  with shape show ?thesis by (simp add: is_buffer_nth uuid_shape_def)
qed

lemma validReceivedAt_buffer: "validReceivedAt s \<Longrightarrow> is_buffer s"
proof -
  assume valid: "validReceivedAt s"
  have positions: "list_all (\<lambda>i. i \<in> set [0, 1, 2, 3, 5, 6, 8, 9, 11, 12, 14, 15, 17, 18] \<or> i \<in> set [20..<26] \<or>
      i \<in> set [4, 7, 10, 13, 16, 19, 26]) [0..<27]" by code_simp
  have "s ! i < 256" if "i < 27" for i
  proof -
    from positions that consider "i \<in> set [0, 1, 2, 3, 5, 6, 8, 9, 11, 12, 14, 15, 17, 18]" | "i \<in> set [20..<26]" |
      "i \<in> set [4, 7, 10, 13, 16, 19, 26]"
      unfolding list_all_iff by (metis atLeast0LessThan lessThan_iff set_upt)
    then show ?thesis
    proof cases
      case 1
      with valid have "digit (s ! i)" unfolding validReceivedAt_def date_time_shape_def by blast
      then show ?thesis by (simp add: digit_def)
    next
      case 2
      with valid have "digit (s ! i)" unfolding validReceivedAt_def by blast
      then show ?thesis by (simp add: digit_def)
    next
      case 3
      with valid show ?thesis by (auto simp: validReceivedAt_def date_time_shape_def)
    qed
  qed
  with valid show ?thesis by (simp add: is_buffer_nth validReceivedAt_def)
qed

text \<open>What the code relies on: the timestamp text has the documented shape and reads back, and \<open>JSON.parse\<close>
  reads the cursor's text.\<close>

definition codec_faithful :: "cursor_codec \<Rightarrow> history_entry \<Rightarrow> bool" where
  "codec_faithful codec h \<longleftrightarrow>
     validReceivedAt (timestamp_text codec (entry_received_at h)) \<and>
     timestamp_of codec (timestamp_text codec (entry_received_at h)) = entry_received_at h \<and>
     cursor_parse codec (cursor_text (timestamp_text codec (entry_received_at h)) (entry_id h)) =
       Some (JObj [(js ''received_at'', JStr (timestamp_text codec (entry_received_at h))), (js ''id'', JStr (entry_id h))])"

definition cursor_key :: "cursor_codec \<Rightarrow> jsstr \<Rightarrow> (int \<times> jsstr) option" where
  "cursor_key codec v = map_option (\<lambda>(t, ident). (timestamp_of codec t, uuid_canonical ident)) (decodeCursor codec v)"

lemma cursor_roundtrip:
  assumes "codec_faithful codec h" "uuid_shape 8 (entry_id h)" "uuid_canonical (entry_id h) = entry_id h"
  shows "cursor_key codec (encodeCursor (timestamp_text codec (entry_received_at h)) (entry_id h)) = Some (entry_key h)"
proof -
  let ?t = "timestamp_text codec (entry_received_at h)"
  let ?text = "cursor_text ?t (entry_id h)"
  have valid: "validReceivedAt ?t" using assms(1) by (simp add: codec_faithful_def)
  have "is_buffer ?text"
    using validReceivedAt_buffer [OF valid] uuid_shape_buffer [OF assms(2)] by (simp add: cursor_text_def quoted_def)
  note decoded = base64url_roundtrip [OF this]
  have "length ?t = 27" "length (entry_id h) = 36"
    using valid assms(2) by (simp_all add: validReceivedAt_def uuid_shape_def)
  then have "length ?text = 89" by (simp add: cursor_text_def quoted_def js_def)
  then have "length (base64url ?text) \<le> 512" by (simp add: length_base64url)
  with decoded assms valid show ?thesis
    by (simp add: cursor_key_def encodeCursor_def decodeCursor_def codec_faithful_def prop_of_def entry_key_def)
qed

text \<open>The cursor of a page continues exactly after the page's last entry: decoding what \<open>listHistory\<close>
  hands out gives that entry's key, so the next query starts with the next row.\<close>

theorem next_page_continues:
  assumes "telemetry_ok d" "1 \<le> n"
    and "next_cursor codec n (history_query uid now d cursor (n + 1)) = Some v"
    and "\<forall>h \<in> set (telemetry_presence_history d).
      codec_faithful codec h \<and> uuid_shape 8 (entry_id h) \<and> uuid_canonical (entry_id h) = entry_id h"
  shows "\<exists>h. cursor_key codec v = Some (entry_key h) \<and>
    h = last (take n (history_after uid now d cursor)) \<and> h \<in> set (visible_history uid now d) \<and>
    n < length (history_after uid now d cursor)"
proof -
  let ?rows = "history_after uid now d cursor"
  from assms(3) have more: "n < length ?rows"
    by (simp add: next_cursor_def history_query_def split: if_splits)
  let ?h = "last (take n ?rows)"
  have "take n (take (n + 1) ?rows) = take n ?rows" by (simp add: min_def)
  with assms(3) more have v: "v = encodeCursor (timestamp_text codec (entry_received_at ?h)) (entry_id ?h)"
    by (simp add: next_cursor_def history_query_def Let_def)
  have "take n ?rows \<noteq> []" using more assms(2) by auto
  then have "?h \<in> set ?rows" by (meson in_set_takeD last_in_set)
  then have mem: "?h \<in> set (visible_history uid now d)"
    by (auto simp: history_after_def)
  with assms(4) have "codec_faithful codec ?h \<and> uuid_shape 8 (entry_id ?h) \<and> uuid_canonical (entry_id ?h) = entry_id ?h"
    by (auto simp: visible_history_set)
  with v mem more show ?thesis by (auto simp: cursor_roundtrip)
qed

definition sample_text :: jsstr where
  "sample_text = js ''1970-01-01T00:00:00.001000Z''"

definition sample_id :: "string \<Rightarrow> jsstr" where
  "sample_id c = js (''00000000-0000-4000-8000-00000000000'' @ c)"

definition sample_cursor :: "string \<Rightarrow> jsstr \<times> json" where
  "sample_cursor c = (cursor_text sample_text (sample_id c),
     JObj [(js ''received_at'', JStr sample_text), (js ''id'', JStr (sample_id c))])"

definition sample_codec :: cursor_codec where
  "sample_codec =
     \<lparr>timestamp_text = (\<lambda>t. sample_text), timestamp_of = (\<lambda>s. 1000),
      cursor_parse = map_of [sample_cursor ''1'', sample_cursor ''2'']\<rparr>"

definition sample_entry :: "string \<Rightarrow> int \<Rightarrow> history_entry" where
  "sample_entry c revision = history_of (sample_id c) (js ''d'') revision sample_projection 1000"

lemma sample_entry_faithful:
  "c \<in> {''1'', ''2''} \<Longrightarrow> codec_faithful sample_codec (sample_entry c r) \<and> uuid_shape 8 (sample_id c) \<and>
     uuid_canonical (sample_id c) = sample_id c"
proof -
  assume c: "c \<in> {''1'', ''2''}"
  have "validReceivedAt sample_text"
    by (simp add: validReceivedAt_def date_time_shape_def digit_def number_at_def month_days_def js_def
        upt_conv_Cons leap_year_def sample_text_def)
  moreover have "uuid_shape 8 (sample_id c)"
    using c by (auto simp: sample_id_def uuid_shape_def hex_digit_def js_def upt_conv_Cons)
  moreover have "uuid_canonical (sample_id c) = sample_id c"
    using c by (auto simp: sample_id_def uuid_canonical_def lowcase_def js_def)
  moreover have "cursor_text sample_text (sample_id ''1'') \<noteq> cursor_text sample_text (sample_id ''2'')"
    by (simp add: cursor_text_def sample_id_def quoted_def)
  ultimately show ?thesis
    using c by (auto simp: codec_faithful_def sample_codec_def sample_entry_def history_of_def sample_cursor_def)
qed

definition sample_two :: telemetry_db where
  "sample_two = sample_db\<lparr>telemetry_presence_history := [sample_entry ''1'' 1, sample_entry ''2'' 2]\<rparr>"

lemma sample_two_ok: "telemetry_ok sample_two"
proof -
  have "sample_id ''1'' \<noteq> sample_id ''2''" by (simp add: sample_id_def)
  moreover have "history_checks (sample_entry c r)" if "1 \<le> r" "r \<le> MAX_SAFE_INTEGER" for c r
    using that payload_satisfies_schema [of "JObj sample_payload" sample_projection 7 "[]" 0]
    by (simp add: history_checks_def sample_entry_def history_of_def presence_checks_def projection_checks_def)
  ultimately show ?thesis
    using sample_db_ok
    by (simp add: telemetry_ok_def sample_two_def MAX_SAFE_INTEGER_def)
      (simp add: sample_entry_def history_of_def sample_db_def sample_device_def)
qed

theorem next_page_continues_witness:
  "\<exists>v. next_cursor sample_codec 1 (history_query (js ''u'') 2000 sample_two None 2) = Some v \<and>
     cursor_key sample_codec v = Some (1000, sample_id ''2'')"
proof -
  have "sorted [entry_key (sample_entry ''1'' 1), entry_key (sample_entry ''2'' 2)]"
    by (simp add: entry_key_def sample_entry_def history_of_def sample_id_def js_def)
  then have visible: "visible_history (js ''u'') 2000 sample_two = [sample_entry ''2'' 2, sample_entry ''1'' 1]"
    by (simp add: visible_history_def owned_by_def find_device_def sample_two_def retention_def)
      (simp add: sample_db_def sample_device_def sample_entry_def history_of_def)
  then obtain v where v: "next_cursor sample_codec 1 (history_query (js ''u'') 2000 sample_two None (1 + 1)) = Some v"
    by (simp add: next_cursor_def history_query_def history_after_def Let_def)
  have "\<forall>h \<in> set (telemetry_presence_history sample_two). codec_faithful sample_codec h \<and>
      uuid_shape 8 (entry_id h) \<and> uuid_canonical (entry_id h) = entry_id h"
    using sample_entry_faithful [of "''1''" 1] sample_entry_faithful [of "''2''" 2]
    by (simp add: sample_two_def) (simp add: sample_entry_def history_of_def)
  from next_page_continues [OF sample_two_ok order_refl v this] visible
  have "cursor_key sample_codec v = Some (entry_key (sample_entry ''2'' 2))" by (simp add: history_after_def)
  with v show ?thesis by (simp add: entry_key_def sample_entry_def history_of_def numeral_2_eq_2)
qed

text \<open>The retention job deletes only entries older than ninety days, oldest first, the smaller of the
  batch and the number of such entries that are not locked; all other entries stay.\<close>

theorem history_cleanup_progress:
  assumes "telemetry_ok d" "cleanupExpiredTelemetryHistory batchSize now locked d = Some (removed, d')"
  shows "removed = min (nat batchSize) (length (filter (\<lambda>h. entry_received_at h < now - retention \<and> \<not> locked h)
        (telemetry_presence_history d))) \<and>
    length (filter (\<lambda>h. entry_received_at h < now - retention \<and> \<not> locked h) (telemetry_presence_history d')) =
      length (filter (\<lambda>h. entry_received_at h < now - retention \<and> \<not> locked h) (telemetry_presence_history d)) -
        nat batchSize \<and>
    filter (\<lambda>h. \<not> (entry_received_at h < now - retention \<and> \<not> locked h)) (telemetry_presence_history d') =
      filter (\<lambda>h. \<not> (entry_received_at h < now - retention \<and> \<not> locked h)) (telemetry_presence_history d) \<and>
    telemetry_devices d' = telemetry_devices d \<and> telemetry_presence d' = telemetry_presence d"
proof -
  have "distinct (map entry_id (telemetry_presence_history d))" using assms(1) by (simp add: telemetry_ok_def)
  note batch = batch_delete [OF this expired_history_def [of now locked "nat batchSize" "telemetry_presence_history d"]]
  from assms(2) have "removed = length (expired_history now locked (nat batchSize) (telemetry_presence_history d))"
    "d' = d\<lparr>telemetry_presence_history := delete_where (\<lambda>h. entry_id h \<in> entry_id `
       set (expired_history now locked (nat batchSize) (telemetry_presence_history d))) (telemetry_presence_history d)\<rparr>"
    by (auto simp: cleanupExpiredTelemetryHistory_def Let_def split: if_splits)
  with batch show ?thesis by simp
qed

theorem history_cleanup_progress_witness:
  "\<exists>d'. cleanupExpiredTelemetryHistory 500 (retention + 2000) (\<lambda>h. False)
     (sample_db\<lparr>telemetry_presence_history := [history_of (js ''h'') (js ''d'') 7 sample_projection 1000]\<rparr>) = Some (1, d')"
proof -
  let ?d = "sample_db\<lparr>telemetry_presence_history := [history_of (js ''h'') (js ''d'') 7 sample_projection 1000]\<rparr>"
  obtain removed d' where run: "cleanupExpiredTelemetryHistory 500 (retention + 2000) (\<lambda>h. False) ?d = Some (removed, d')"
    by (auto simp: cleanupExpiredTelemetryHistory_def CLEANUP_BATCH_SIZE_def Let_def)
  from history_cleanup_progress [OF sample_history_entry run] have "removed = 1" by (simp add: history_of_def)
  with run show ?thesis by blast
qed

end
