(* ===== verification/Telemetry_System.thy ===== *)
theory Telemetry_System
  imports Telemetry_History
begin

text \<open>
  The telemetry routes together. \<open>telemetry_step\<close> is one committed change of the database by any of
  them (or by the administrator's status change and the background jobs); every handler, under
  any interference made of such steps, is a sequence of them. The invariants of the reachable
  databases and the permanence of revocation are proved by rule induction.
\<close>

section \<open>The administrator's changes\<close>

text \<open>The telemetry part of \<open>POST /api/admin/users/status\<close>.\<close>

definition set_status :: "jsstr \<Rightarrow> account_status \<Rightarrow> int \<Rightarrow> telemetry_db \<Rightarrow> telemetry_db" where
  "set_status uid status now d =
     (let d1 = d\<lparr>app_users := update_where (\<lambda>u. user_id u = uid) (\<lambda>u. u\<lparr>account_status := status\<rparr>) (app_users d)\<rparr>
      in if status = Active then d1
         else d1\<lparr>telemetry_pairing_codes := invalidate_open uid now (telemetry_pairing_codes d),
                 telemetry_presence :=
                   delete_where (\<lambda>p. owned_by d uid (presence_device p)) (telemetry_presence d)\<rparr>)"

definition set_status_tx ::
    "jsstr \<Rightarrow> jsstr \<Rightarrow> account_status \<Rightarrow> int \<Rightarrow> telemetry_db \<Rightarrow> (bool, telemetry_db) tx_outcome" where
  "set_status_tx admin uid status now d =
     (if find_user d uid = None \<or> uid = admin then Rollback False
      else Commit True (set_status uid status now d))"

text \<open>\<open>DELETE FROM app_users\<close> with the cascades of the telemetry tables.\<close>

definition delete_account :: "jsstr \<Rightarrow> telemetry_db \<Rightarrow> telemetry_db" where
  "delete_account uid d =
     \<lparr>app_users = delete_where (\<lambda>u. user_id u = uid) (app_users d),
      telemetry_devices = delete_where (\<lambda>dev. app_user_id dev = uid) (telemetry_devices d),
      telemetry_presence = delete_where (\<lambda>p. owned_by d uid (presence_device p)) (telemetry_presence d),
      telemetry_presence_history =
        delete_where (\<lambda>h. owned_by d uid (entry_device h)) (telemetry_presence_history d),
      telemetry_pairing_codes = delete_where (\<lambda>c. pairing_user c = uid) (telemetry_pairing_codes d)\<rparr>"

definition register_account :: "jsstr \<Rightarrow> telemetry_db \<Rightarrow> telemetry_db option" where
  "register_account fresh d =
     (if fresh \<in> set (map user_id (app_users d)) then None
      else Some (d\<lparr>app_users := app_users d @ [\<lparr>user_id = fresh, account_status = Active\<rparr>]\<rparr>))"

section \<open>The step relation\<close>

inductive telemetry_step :: "telemetry_db \<Rightarrow> telemetry_db \<Rightarrow> bool" where
  step_heartbeat: "touch_last_seen did uid now d = Some d' \<Longrightarrow> telemetry_step d d'"
| step_presence: "presence_tx did uid revision snapshot now fresh d = Commit a d' \<Longrightarrow> telemetry_step d d'"
| step_create: "pairing_create_tx sec uid now draws d = Commit b d' \<Longrightarrow> telemetry_step d d'"
| step_claim: "pairing_claim_tx sec uid h name now draws d = Commit c d' \<Longrightarrow> telemetry_step d d'"
| step_cleanup_codes: "cleanupTelemetryPairingCodes now d = (n, d') \<Longrightarrow> telemetry_step d d'"
| step_rename: "normalizeDeviceName v = Some name \<Longrightarrow> telemetry_step d (rename_update did uid name d)"
| step_revoke: "revoke_tx did uid now d = Commit r d' \<Longrightarrow> telemetry_step d d'"
| step_delete_history: "delete_history_tx uid d = Commit m d' \<Longrightarrow> telemetry_step d d'"
| step_cleanup_history:
    "cleanupExpiredTelemetryHistory batch now locked d = Some (n, d') \<Longrightarrow> telemetry_step d d'"
| step_status: "set_status_tx admin uid status now d = Commit b d' \<Longrightarrow> telemetry_step d d'"
| step_register: "register_account fresh d = Some d' \<Longrightarrow> telemetry_step d d'"

text \<open>With account deletion.\<close>

inductive account_step :: "telemetry_db \<Rightarrow> telemetry_db \<Rightarrow> bool" where
  step_telemetry: "telemetry_step d d' \<Longrightarrow> account_step d d'"
| step_delete: "account_step d (delete_account uid d)"

inductive_cases account_stepE: "account_step d d'"

definition initial_db :: telemetry_db where
  "initial_db = \<lparr>app_users = [], telemetry_devices = [], telemetry_presence = [],
     telemetry_presence_history = [], telemetry_pairing_codes = []\<rparr>"

section \<open>Invariants of single steps\<close>

text \<open>A stored presence belongs to an unrevoked device of an active account.\<close>

definition presence_live :: "telemetry_db \<Rightarrow> bool" where
  "presence_live d \<longleftrightarrow>
     (\<forall>p \<in> set (telemetry_presence d). \<exists>dev. find_device d (presence_device p) = Some dev \<and>
        revoked_at dev = None \<and> owner_active d (app_user_id dev))"

definition telemetry_invariant :: "telemetry_db \<Rightarrow> bool" where
  "telemetry_invariant d \<longleftrightarrow> telemetry_ok d \<and> presence_tracks d \<and> presence_live d"

text \<open>How a device row may change in one step: it keeps its identity and its revocation, its mark does not
  decrease.\<close>

definition device_evolves :: "device \<Rightarrow> device \<Rightarrow> bool" where
  "device_evolves dev dev' \<longleftrightarrow>
     device_id dev' = device_id dev \<and> app_user_id dev' = app_user_id dev \<and>
     credential_hash dev' = credential_hash dev \<and> device_created_at dev' = device_created_at dev \<and>
     last_presence_revision dev \<le> last_presence_revision dev' \<and>
     (\<forall>t. revoked_at dev = Some t \<longrightarrow> revoked_at dev' = Some t)"

lemma device_evolves_refl [simp]: "device_evolves dev dev"
  by (simp add: device_evolves_def)

lemma device_evolves_trans: "device_evolves a b \<Longrightarrow> device_evolves b c \<Longrightarrow> device_evolves a c"
  by (auto simp: device_evolves_def)

definition devices_evolve :: "telemetry_db \<Rightarrow> telemetry_db \<Rightarrow> bool" where
  "devices_evolve d d' \<longleftrightarrow>
     (\<forall>k dev. find_device d k = Some dev \<longrightarrow> (\<exists>dev'. find_device d' k = Some dev' \<and> device_evolves dev dev'))"

lemma devices_evolve_same: "telemetry_devices d' = telemetry_devices d \<Longrightarrow> devices_evolve d d'"
  by (simp add: devices_evolve_def find_device_def)

lemma devices_evolve_update:
  assumes "telemetry_ok d" "telemetry_devices d' = update_where P f (telemetry_devices d)"
    and "\<And>dev. dev \<in> set (telemetry_devices d) \<Longrightarrow> P dev \<Longrightarrow> device_evolves dev (f dev)" "\<And>r. device_id (f r) = device_id r"
  shows "devices_evolve d d'"
  unfolding devices_evolve_def
proof (intro allI impI)
  fix k dev assume dev: "find_device d k = Some dev"
  have "find_device d' k = map_option (\<lambda>r. if P r then f r else r) (find_device d k)"
    using find_update_where_key [OF ok_devices [OF assms(1)], of P f k] assms(2,4) by (simp add: find_device_def)
  with dev assms(3) find_device_Some [OF dev]
  show "\<exists>dev'. find_device d' k = Some dev' \<and> device_evolves dev dev'" by auto
qed

lemma devices_evolve_append:
  "telemetry_devices d' = telemetry_devices d @ ds \<Longrightarrow> devices_evolve d d'"
proof -
  assume app: "telemetry_devices d' = telemetry_devices d @ ds"
  have "find P (xs @ ys) = Some x" if "find P xs = Some x" for P and xs ys :: "device list" and x
    using that by (induction xs) (auto split: if_splits)
  with app show ?thesis unfolding devices_evolve_def find_device_def by fastforce
qed

lemma step_devices_evolve:
  assumes "telemetry_step d d'" "telemetry_ok d"
  shows "devices_evolve d d'"
  using assms(1)
proof cases
  case (step_heartbeat did uid now)
  then have "telemetry_devices d' = update_where (\<lambda>r. device_id r = did)
      (\<lambda>r. r\<lparr>last_seen_at := Some now\<rparr>) (telemetry_devices d)"
    by (auto simp: touch_last_seen_def split: option.splits)
  then show ?thesis by (rule devices_evolve_update [OF assms(2)]) (simp_all add: device_evolves_def)
next
  case (step_presence did uid revision snapshot now fresh a)
  from presence_tx_Commit [OF this] consider "d' = d" |
    "accept_presence did revision snapshot now fresh d = Some d'" by auto
  then show ?thesis
  proof cases
    case 2
    show ?thesis
      unfolding devices_evolve_def using accept_presence_lookup(2) [OF assms(2) 2]
      by (auto simp: device_evolves_def)
  qed (simp add: devices_evolve_same)
next
  case (step_create sec uid now draws b)
  then show ?thesis by (auto elim!: pairing_create_Commit intro: devices_evolve_same)
next
  case (step_claim sec uid h name now draws c)
  then show ?thesis
    by (auto elim!: pairing_claim_Commit simp: set_code_where_def intro: devices_evolve_same devices_evolve_append)
next
  case (step_rename v name did uid)
  then have "telemetry_devices d' = update_where (\<lambda>dev. device_id dev = did \<and> app_user_id dev = uid)
      (\<lambda>dev. dev\<lparr>device_name := name\<rparr>) (telemetry_devices d)"
    by (simp add: rename_update_def)
  then show ?thesis by (rule devices_evolve_update [OF assms(2)]) (simp_all add: device_evolves_def)
next
  case (step_revoke did uid now r)
  then have "telemetry_devices d' = update_where (\<lambda>dev. device_id dev = did \<and> app_user_id dev = uid)
      (\<lambda>dev. dev\<lparr>revoked_at := Some (case revoked_at dev of None \<Rightarrow> now | Some t \<Rightarrow> t)\<rparr>) (telemetry_devices d)"
    by (auto simp: revoke_tx_def revoke_update_def split: option.splits if_splits)
  then show ?thesis by (rule devices_evolve_update [OF assms(2)]) (simp_all add: device_evolves_def)
next
  case (step_status admin uid status now b)
  then show ?thesis
    by (auto simp: set_status_tx_def set_status_def Let_def intro!: devices_evolve_same split: if_splits)
next
  case (step_cleanup_history batch now locked n)
  then show ?thesis
    by (auto simp: cleanupExpiredTelemetryHistory_def Let_def intro!: devices_evolve_same split: if_splits)
next
  case (step_register fresh)
  then show ?thesis by (auto simp: register_account_def intro!: devices_evolve_same split: if_splits)
qed (auto simp: cleanupTelemetryPairingCodes_def delete_history_tx_def Let_def intro!: devices_evolve_same)

lemma telemetry_ok_less:
  assumes "telemetry_ok d"
  shows "telemetry_ok (d\<lparr>telemetry_presence := delete_where P (telemetry_presence d)\<rparr>)"
    and "telemetry_ok (d\<lparr>telemetry_presence_history := delete_where Q (telemetry_presence_history d)\<rparr>)"
  using assms by (auto simp: telemetry_ok_def delete_where_def distinct_map_filter)

lemma revoke_update_ok: "telemetry_ok d \<Longrightarrow> telemetry_ok (revoke_update did uid now d)"
proof -
  assume "telemetry_ok d"
  then have "telemetry_ok (d\<lparr>telemetry_devices := update_where (\<lambda>dev. device_id dev = did \<and> app_user_id dev = uid)
      (\<lambda>dev. dev\<lparr>revoked_at := Some (case revoked_at dev of None \<Rightarrow> now | Some t \<Rightarrow> t)\<rparr>) (telemetry_devices d)\<rparr>)"
    by (rule telemetry_ok_devices) (simp_all add: device_checks_def)
  from telemetry_ok_less(1) [OF this] show ?thesis by (simp add: revoke_update_def)
qed

lemma rename_update_ok:
  "telemetry_ok d \<Longrightarrow> normalizeDeviceName v = Some name \<Longrightarrow> telemetry_ok (rename_update did uid name d)"
  unfolding rename_update_def
  by (rule telemetry_ok_devices) (auto simp: device_checks_def dest: normalized_name_bound)

lemma update_users_ids: "map user_id (update_where P (\<lambda>u. u\<lparr>account_status := st\<rparr>) us) = map user_id us"
  by (simp add: map_key_update_where)

lemma set_status_ok: "telemetry_ok d \<Longrightarrow> telemetry_ok (set_status uid status now d)"
proof -
  assume ok: "telemetry_ok d"
  let ?us = "update_where (\<lambda>u. user_id u = uid) (\<lambda>u. u\<lparr>account_status := status\<rparr>) (app_users d)"
  let ?d1 = "d\<lparr>app_users := ?us\<rparr>"
  have ids: "user_id ` set ?us = user_id ` set (app_users d)" by (metis update_users_ids set_map)
  have "map user_id ?us = map user_id (app_users d)" by (rule update_users_ids)
  then have "distinct (map user_id ?us)" using ok_users [OF ok] by simp
  with ok ids have ok1: "telemetry_ok ?d1" by (simp add: telemetry_ok_def)
  have "telemetry_ok (?d1\<lparr>telemetry_pairing_codes := invalidate_open uid now (telemetry_pairing_codes d)\<rparr>)"
    unfolding telemetry_ok_codes [OF ok1] using invalidate_open_ok [OF codes_okI [OF ok1]] by simp
  from telemetry_ok_less(1) [OF this] ok1 show ?thesis
    by (cases "status = Active") (simp_all add: set_status_def Let_def)
qed

lemma delete_account_ok: "telemetry_ok d \<Longrightarrow> telemetry_ok (delete_account uid d)"
proof -
  assume ok: "telemetry_ok d"
  have owner: "app_user_id dev \<in> user_id ` set (delete_where (\<lambda>u. user_id u = uid) (app_users d))"
    if "dev \<in> set (telemetry_devices d)" "app_user_id dev \<noteq> uid" for dev
    using ok that by (auto simp: telemetry_ok_def set_delete_where)
  have device: "k \<in> device_id ` set (delete_where (\<lambda>dev. app_user_id dev = uid) (telemetry_devices d))"
    if "k \<in> device_id ` set (telemetry_devices d)" "\<not> owned_by d uid k" for k
  proof -
    from that(1) obtain dev where dev: "dev \<in> set (telemetry_devices d)" "device_id dev = k" by auto
    with ok_devices [OF ok] have "find_device d k = Some dev" by (simp add: find_device_def find_key_Some)
    with that(2) have "app_user_id dev \<noteq> uid" by (simp add: owned_by_def)
    with dev show ?thesis by (auto simp: set_delete_where)
  qed
  have "distinct (map pairing_user (filter pairing_open (delete_where (\<lambda>c. pairing_user c = uid) (telemetry_pairing_codes d))))"
    using distinct_map_filter [OF ok_open [OF ok], of "\<lambda>c. pairing_user c \<noteq> uid"]
    by (simp add: delete_where_def conj_commute)
  with ok owner device show ?thesis
    by (auto simp: telemetry_ok_def delete_account_def distinct_key_delete_where set_delete_where)
qed

lemma register_account_ok: "telemetry_ok d \<Longrightarrow> register_account fresh d = Some d' \<Longrightarrow> telemetry_ok d'"
  by (auto simp: register_account_def telemetry_ok_def split: if_splits)

lemma step_ok: "telemetry_step d d' \<Longrightarrow> telemetry_ok d \<Longrightarrow> telemetry_ok d'"
proof (induction rule: telemetry_step.induct)
  case (step_cleanup_codes now d n d')
  then show ?case using cleanup_codes_ok [of d now] by simp
next
  case (step_revoke did uid now d r d')
  then show ?case by (auto simp: revoke_tx_def revoke_update_ok split: option.splits if_splits)
next
  case (step_delete_history uid d m d')
  then show ?case by (auto simp: delete_history_tx_def telemetry_ok_less(2))
next
  case (step_cleanup_history batch now locked d n d')
  then show ?case
    by (auto simp: cleanupExpiredTelemetryHistory_def Let_def telemetry_ok_less(2) split: if_splits)
next
  case (step_status admin uid status now d b d')
  then show ?case by (auto simp: set_status_tx_def set_status_ok split: if_splits)
qed (auto intro: touch_last_seen_ok presence_tx_ok pairing_create_ok pairing_claim_ok rename_update_ok
    register_account_ok)

section \<open>The presence invariant\<close>

lemma find_presence_mem:
  "telemetry_ok d \<Longrightarrow> p \<in> set (telemetry_presence d) \<Longrightarrow> find_presence d (presence_device p) = Some p"
  by (simp add: find_presence_def find_key_Some ok_presence)

lemma presence_liveD:
  assumes "presence_live d" "find_presence d k = Some p"
  obtains dev where "find_device d k = Some dev" "revoked_at dev = None" "owner_active d (app_user_id dev)"
  using assms find_presence_Some [OF assms(2)] by (auto simp: presence_live_def)

text \<open>A step that adds no presence and spares the devices and owners of those it keeps.\<close>

lemma invariant_keep:
  assumes inv: "telemetry_invariant d" and ok': "telemetry_ok d'"
    and pres: "\<And>k p. find_presence d' k = Some p \<Longrightarrow> find_presence d k = Some p"
    and dev: "\<And>k p dev. find_presence d' k = Some p \<Longrightarrow> find_device d k = Some dev \<Longrightarrow> revoked_at dev = None \<Longrightarrow>
      \<exists>dev'. find_device d' k = Some dev' \<and> last_presence_revision dev' = last_presence_revision dev \<and>
        revoked_at dev' = None \<and> app_user_id dev' = app_user_id dev"
    and act: "\<And>k p dev. find_presence d' k = Some p \<Longrightarrow> find_device d k = Some dev \<Longrightarrow>
      owner_active d (app_user_id dev) \<Longrightarrow> owner_active d' (app_user_id dev)"
  shows "telemetry_invariant d'"
proof -
  have live: "presence_live d" and tracks: "presence_tracks d" using inv by (simp_all add: telemetry_invariant_def)
  have "presence_tracks d'"
  proof (rule presence_tracksI [OF ok'])
    fix k dev' p assume dev': "find_device d' k = Some dev'" and p: "find_presence d' k = Some p"
    from presence_liveD [OF live pres [OF p]] obtain dv where dv: "find_device d k = Some dv" "revoked_at dv = None" .
    from dev [OF p dv] dev' presence_tracksD [OF tracks dv(1) pres [OF p]]
    show "presence_revision p = last_presence_revision dev'" by auto
  qed
  moreover have "presence_live d'"
    unfolding presence_live_def
  proof
    fix p assume "p \<in> set (telemetry_presence d')"
    from find_presence_mem [OF ok' this] have p: "find_presence d' (presence_device p) = Some p" .
    from presence_liveD [OF live pres [OF p]] obtain dv where dv: "find_device d (presence_device p) = Some dv"
      "revoked_at dv = None" "owner_active d (app_user_id dv)" .
    from dev [OF p dv(1,2)] act [OF p dv(1,3)]
    show "\<exists>dev. find_device d' (presence_device p) = Some dev \<and> revoked_at dev = None \<and> owner_active d' (app_user_id dev)"
      by auto
  qed
  ultimately show ?thesis using ok' by (simp add: telemetry_invariant_def)
qed

lemma find_presence_delete:
  assumes "telemetry_ok d"
  shows "find (\<lambda>p. presence_device p = k) (delete_where P (telemetry_presence d)) =
    (case find_presence d k of None \<Rightarrow> None | Some p \<Rightarrow> if P p then None else Some p)"
  unfolding find_presence_def by (rule find_delete_where_key [OF ok_presence [OF assms]])

lemma find_presence_less:
  assumes "telemetry_ok d" "telemetry_presence d' = delete_where P (telemetry_presence d)"
  shows "find_presence d' k = (case find_presence d k of None \<Rightarrow> None | Some p \<Rightarrow> if P p then None else Some p)"
  using find_presence_delete [OF assms(1), of k P] assms(2) by (simp add: find_presence_def [of d'])

lemma owner_active_set_status:
  assumes "telemetry_ok d"
  shows "owner_active (set_status uid status now d) k =
    (if k = uid then status = Active \<and> find_user d uid \<noteq> None else owner_active d k)"
proof -
  have "find_user (set_status uid status now d) k =
      map_option (\<lambda>u. if user_id u = uid then u\<lparr>account_status := status\<rparr> else u) (find_user d k)"
    using find_update_where_key [OF ok_users [OF assms], of "\<lambda>u. user_id u = uid" "\<lambda>u. u\<lparr>account_status := status\<rparr>" k]
    by (cases "status = Active") (simp_all add: find_user_def set_status_def Let_def)
  note status = this
  show ?thesis
  proof (cases "find_user d k")
    case None
    with status show ?thesis by (auto simp: owner_active_def)
  next
    case (Some u)
    with find_user_Some [OF Some] status show ?thesis by (auto simp: owner_active_def)
  qed
qed

text \<open>Every step keeps the invariant.\<close>

lemma find_device_trackless:
  assumes "telemetry_ok d" "telemetry_devices d' = update_where P f (telemetry_devices d)"
    and "\<And>r. device_id (f r) = device_id r"
  shows "find_device d' k = map_option (\<lambda>r. if P r then f r else r) (find_device d k)"
  using find_update_where_key [OF ok_devices [OF assms(1)], of P f k] assms(2,3) by (simp add: find_device_def)

lemma invariant_devices:
  assumes inv: "telemetry_invariant d" and ok': "telemetry_ok d'"
    and "telemetry_devices d' = update_where P f (telemetry_devices d)" "app_users d' = app_users d"
    and pres: "\<And>k p. find_presence d' k = Some p \<Longrightarrow> find_presence d k = Some p"
    and f: "\<And>r. device_id (f r) = device_id r" "\<And>r. app_user_id (f r) = app_user_id r"
      "\<And>r. last_presence_revision (f r) = last_presence_revision r"
    and keeps: "\<And>k p dev. find_presence d' k = Some p \<Longrightarrow> find_device d k = Some dev \<Longrightarrow> P dev \<Longrightarrow>
      revoked_at (f dev) = revoked_at dev"
  shows "telemetry_invariant d'"
proof (rule invariant_keep [OF inv ok' pres])
  have ok: "telemetry_ok d" using inv by (simp add: telemetry_invariant_def)
  fix k p dev
  assume "find_presence d' k = Some p" "find_device d k = Some dev" "revoked_at dev = None"
  then show "\<exists>dev'. find_device d' k = Some dev' \<and> last_presence_revision dev' = last_presence_revision dev \<and>
        revoked_at dev' = None \<and> app_user_id dev' = app_user_id dev"
    using find_device_trackless [OF ok assms(3) f(1), of k] keeps [of k p dev] f by auto
qed (use assms(4) in \<open>auto simp: owner_active_def find_user_def\<close>)

lemma invariant_same_devices:
  assumes "telemetry_invariant d" "telemetry_ok d'" "telemetry_devices d' = telemetry_devices d"
    "app_users d' = app_users d" "telemetry_presence d' = telemetry_presence d"
  shows "telemetry_invariant d'"
  by (rule invariant_devices [OF assms(1,2), of "\<lambda>r. False" id])
    (use assms(3-5) in \<open>simp_all add: update_where_none find_presence_def\<close>)

lemma find_presence_None_unknown:
  "telemetry_ok d \<Longrightarrow> k \<notin> device_id ` set (telemetry_devices d) \<Longrightarrow> find_presence d k = None"
proof (rule ccontr)
  assume ok: "telemetry_ok d" and k: "k \<notin> device_id ` set (telemetry_devices d)" and "find_presence d k \<noteq> None"
  then obtain p where "find_presence d k = Some p" by blast
  from find_presence_Some [OF this] ok k show False by (auto simp: telemetry_ok_def)
qed

lemma claim_invariant:
  assumes inv: "telemetry_invariant d" and commit: "pairing_claim_tx sec uid h name now draws d = Commit c d'"
  shows "telemetry_invariant d'"
proof -
  have ok: "telemetry_ok d" using inv by (simp add: telemetry_invariant_def)
  note ok' = pairing_claim_ok [OF ok commit]
  from commit show ?thesis
  proof (cases rule: pairing_claim_Commit)
    case (blocked c)
    then show ?thesis using invariant_same_devices [OF inv ok'] by (simp add: set_code_where_def)
  next
    case (claimed c dev credential)
    have devices: "telemetry_devices d' = telemetry_devices d @ [dev]" and users: "app_users d' = app_users d"
      and presences: "telemetry_presence d' = telemetry_presence d"
      by (simp_all add: claimed(7) set_code_where_def)
    have "find_device d' k = Some dv" if "find_device d k = Some dv" for k dv
      using that devices by (simp add: find_device_def find_snoc)
    then show ?thesis
      by (intro invariant_keep [OF inv ok']) (simp_all add: find_presence_def presences owner_active_def find_user_def users)
  qed
qed

lemma status_invariant:
  assumes inv: "telemetry_invariant d"
  shows "telemetry_invariant (set_status uid status now d)"
proof (rule invariant_keep [OF inv])
  have ok: "telemetry_ok d" using inv by (simp add: telemetry_invariant_def)
  show "telemetry_ok (set_status uid status now d)" by (rule set_status_ok [OF ok])
  have devices: "find_device (set_status uid status now d) k = find_device d k" for k
    by (simp add: set_status_def Let_def find_device_def)
  have kept: "find_presence d k = Some p \<and> (status = Active \<or> \<not> owned_by d uid k)"
    if "find_presence (set_status uid status now d) k = Some p" for k p
  proof (cases "status = Active")
    case True
    with that show ?thesis by (simp add: set_status_def Let_def find_presence_def)
  next
    case False
    with that find_presence_delete [OF ok, of k "\<lambda>p. owned_by d uid (presence_device p)"]
    have "find_presence d k = Some p \<and> \<not> owned_by d uid (presence_device p)"
      by (simp add: set_status_def Let_def find_presence_def [of "d\<lparr>app_users := _, telemetry_pairing_codes := _, telemetry_presence := _\<rparr>"]
          split: option.splits if_splits)
    with find_presence_Some [of d k p] show ?thesis by simp
  qed
  fix k p assume p: "find_presence (set_status uid status now d) k = Some p"
  show "find_presence d k = Some p" using kept [OF p] by simp
  fix dev assume dev: "find_device d k = Some dev"
  { assume "revoked_at dev = None"
    with dev show "\<exists>dev'. find_device (set_status uid status now d) k = Some dev' \<and>
        last_presence_revision dev' = last_presence_revision dev \<and>
        revoked_at dev' = None \<and> app_user_id dev' = app_user_id dev" by (simp add: devices) }
  assume active: "owner_active d (app_user_id dev)"
  show "owner_active (set_status uid status now d) (app_user_id dev)"
  proof (cases "app_user_id dev = uid")
    case True
    with dev have "owned_by d uid k" by (simp add: owned_by_def)
    from active True have "find_user d uid \<noteq> None"
      by (cases "find_user d uid") (auto simp: owner_active_def)
    with kept [OF p] \<open>owned_by d uid k\<close> True show ?thesis by (simp add: owner_active_set_status [OF ok])
  qed (use active in \<open>simp add: owner_active_set_status [OF ok]\<close>)
qed

lemma accept_invariant:
  assumes inv: "telemetry_invariant d" and dev: "live_device d did uid = Some dev" "last_presence_revision dev < revision"
    and acc: "accept_presence did revision snapshot now fresh d = Some d'"
  shows "telemetry_invariant d'"
proof -
  have ok: "telemetry_ok d" and tracks: "presence_tracks d" and live: "presence_live d"
    using inv by (simp_all add: telemetry_invariant_def)
  have found: "find_device d did = Some dev" "revoked_at dev = None" "app_user_id dev = uid" "owner_active d uid"
    using dev(1) by (simp_all add: live_device_Some)
  have ok': "telemetry_ok d'" by (rule accept_presence_ok [OF ok _ acc]) (simp add: found)
  have active: "owner_active d' k = owner_active d k" for k
    by (simp add: owner_active_def find_user_def accept_presence_lookup(3) [OF ok acc])
  have device: "\<exists>dev'. find_device d' k = Some dev' \<and> revoked_at dev' = revoked_at dv \<and> app_user_id dev' = app_user_id dv"
    if "find_device d k = Some dv" for k dv
    using that by (simp add: accept_presence_lookup(2) [OF ok acc])
  have "presence_live d'"
    unfolding presence_live_def
  proof
    fix p assume "p \<in> set (telemetry_presence d')"
    from find_presence_mem [OF ok' this] have p: "find_presence d' (presence_device p) = Some p" .
    obtain dv where dv: "find_device d (presence_device p) = Some dv" "revoked_at dv = None" "owner_active d (app_user_id dv)"
    proof (cases "presence_device p = did")
      case True
      with found that show ?thesis by simp
    next
      case False
      with p have "find_presence d (presence_device p) = Some p" by (simp add: accept_presence_lookup(1) [OF ok acc])
      from presence_liveD [OF live this] that show ?thesis by blast
    qed
    with device [OF dv(1)] active
    show "\<exists>dev. find_device d' (presence_device p) = Some dev \<and> revoked_at dev = None \<and> owner_active d' (app_user_id dev)"
      by auto
  qed
  with ok' accept_presence_tracks [OF ok tracks found(1) dev(2) acc] show ?thesis by (simp add: telemetry_invariant_def)
qed

lemma revoke_invariant:
  assumes inv: "telemetry_invariant d"
  shows "telemetry_invariant (revoke_update did uid now d)"
proof -
  have ok: "telemetry_ok d" using inv by (simp add: telemetry_invariant_def)
  have kept: "find_presence d k = Some p \<and> k \<noteq> did"
    if "find_presence (revoke_update did uid now d) k = Some p" for k p
    using that find_presence_delete [OF ok, of k "\<lambda>p. presence_device p = did"] find_presence_Some [of d k]
    by (auto simp: revoke_update_def find_presence_def [of "d\<lparr>telemetry_devices := _, telemetry_presence := _\<rparr>"]
        split: option.splits if_splits)
  show ?thesis
  proof (rule invariant_devices [OF inv revoke_update_ok [OF ok], of did uid now
          "\<lambda>dev. device_id dev = did \<and> app_user_id dev = uid"
          "\<lambda>dev. dev\<lparr>revoked_at := Some (case revoked_at dev of None \<Rightarrow> now | Some t \<Rightarrow> t)\<rparr>"])
    show "find_presence d k = Some p" if "find_presence (revoke_update did uid now d) k = Some p" for k p
      using kept [OF that] by simp
    fix k p dev
    assume p: "find_presence (revoke_update did uid now d) k = Some p" and dev: "find_device d k = Some dev"
      and "device_id dev = did \<and> app_user_id dev = uid"
    with kept [OF p] find_device_Some [OF dev]
    show "revoked_at (dev\<lparr>revoked_at := Some (case revoked_at dev of None \<Rightarrow> now | Some t \<Rightarrow> t)\<rparr>) = revoked_at dev"
      by simp
  qed (simp_all add: revoke_update_def)
qed

lemma step_invariant: "telemetry_step d d' \<Longrightarrow> telemetry_invariant d \<Longrightarrow> telemetry_invariant d'"
proof -
  assume step: "telemetry_step d d'" and inv: "telemetry_invariant d"
  have ok: "telemetry_ok d" using inv by (simp add: telemetry_invariant_def)
  have ok': "telemetry_ok d'" by (rule step_ok [OF step ok])
  note same = invariant_same_devices [OF inv ok']
  from step show ?thesis
  proof cases
    case (step_heartbeat did uid now)
    then have d': "d' = d\<lparr>telemetry_devices := update_where (\<lambda>r. device_id r = did)
        (\<lambda>r. r\<lparr>last_seen_at := Some now\<rparr>) (telemetry_devices d)\<rparr>"
      by (auto simp: touch_last_seen_def split: option.splits)
    then show ?thesis
      by (intro invariant_devices [OF inv ok', of "\<lambda>r. device_id r = did" "\<lambda>r. r\<lparr>last_seen_at := Some now\<rparr>"])
        (simp_all add: find_presence_def)
  next
    case (step_presence did uid revision snapshot now fresh a)
    from presence_tx_Commit [OF this] inv show ?thesis by (auto intro: accept_invariant)
  next
    case (step_create sec uid now draws b)
    then show ?thesis by (elim pairing_create_Commit, intro same) simp_all
  next
    case (step_claim sec uid h name now draws c)
    then show ?thesis by (rule claim_invariant [OF inv])
  next
    case (step_cleanup_codes now n)
    then show ?thesis by (intro same) (auto simp: cleanupTelemetryPairingCodes_def Let_def)
  next
    case (step_rename v name did uid)
    then show ?thesis
      by (intro invariant_devices [OF inv ok', of "\<lambda>dev. device_id dev = did \<and> app_user_id dev = uid"
            "\<lambda>dev. dev\<lparr>device_name := name\<rparr>"]) (simp_all add: rename_update_def find_presence_def)
  next
    case (step_revoke did uid now r)
    then show ?thesis by (auto simp: revoke_tx_def revoke_invariant [OF inv] split: option.splits if_splits)
  next
    case (step_delete_history uid m)
    then show ?thesis by (intro same) (auto simp: delete_history_tx_def)
  next
    case (step_cleanup_history batch now locked n)
    then show ?thesis by (intro same) (auto simp: cleanupExpiredTelemetryHistory_def Let_def split: if_splits)
  next
    case (step_status admin uid status now b)
    then show ?thesis by (auto simp: set_status_tx_def status_invariant [OF inv] split: if_splits)
  next
    case (step_register fresh)
    then have "app_users d' = app_users d @ [\<lparr>user_id = fresh, account_status = Active\<rparr>]"
      "telemetry_devices d' = telemetry_devices d" "telemetry_presence d' = telemetry_presence d"
      by (auto simp: register_account_def split: if_splits)
    then show ?thesis
      by (intro invariant_keep [OF inv ok'])
        (simp_all add: find_presence_def find_device_def owner_active_def find_user_def find_snoc split: option.splits)
  qed
qed

lemma delete_account_presence:
  assumes "telemetry_ok d"
  shows "find_presence (delete_account uid d) k = (if owned_by d uid k then None else find_presence d k)"
proof -
  have "find_presence (delete_account uid d) k = (case find_presence d k of None \<Rightarrow> None
      | Some p \<Rightarrow> if owned_by d uid (presence_device p) then None else Some p)"
    by (rule find_presence_less [OF assms]) (simp add: delete_account_def)
  then show ?thesis using find_presence_Some [of d k] by (cases "find_presence d k") auto
qed

lemma delete_account_lookup:
  assumes ok: "telemetry_ok d" and dev: "find_device d k = Some dev" "app_user_id dev \<noteq> uid"
  shows "find_device (delete_account uid d) k = Some dev"
    and "find_presence (delete_account uid d) k = find_presence d k"
    and "owner_active (delete_account uid d) (app_user_id dev) = owner_active d (app_user_id dev)"
proof -
  show "find_device (delete_account uid d) k = Some dev"
    using dev find_delete_where_key [OF ok_devices [OF ok], of k "\<lambda>dev. app_user_id dev = uid"]
    by (simp add: delete_account_def find_device_def)
  show "find_presence (delete_account uid d) k = find_presence d k"
    using dev by (simp add: delete_account_presence [OF ok] owned_by_def)
  have "find_user (delete_account uid d) (app_user_id dev) = (case find_user d (app_user_id dev) of
      None \<Rightarrow> None | Some u \<Rightarrow> if user_id u = uid then None else Some u)"
    unfolding find_user_def delete_account_def app_user.simps telemetry_db.simps
    by (rule find_delete_where_key [OF ok_users [OF ok]])
  then have "find_user (delete_account uid d) (app_user_id dev) = find_user d (app_user_id dev)"
    using find_user_Some [of d "app_user_id dev"] dev(2) by (cases "find_user d (app_user_id dev)") auto
  then show "owner_active (delete_account uid d) (app_user_id dev) = owner_active d (app_user_id dev)"
    by (simp add: owner_active_def)
qed

lemma delete_invariant: "telemetry_invariant d \<Longrightarrow> telemetry_invariant (delete_account uid d)"
proof -
  assume inv: "telemetry_invariant d"
  then have ok: "telemetry_ok d" by (simp add: telemetry_invariant_def)
  have kept: "find_presence d k = Some p \<and> \<not> owned_by d uid k"
    if "find_presence (delete_account uid d) k = Some p" for k p
    using that by (simp add: delete_account_presence [OF ok] split: if_splits)
  show ?thesis
  proof (rule invariant_keep [OF inv delete_account_ok [OF ok]])
    show "find_presence d k = Some p" if "find_presence (delete_account uid d) k = Some p" for k p
      using kept [OF that] by simp
    fix k p dev assume p: "find_presence (delete_account uid d) k = Some p" and dev: "find_device d k = Some dev"
    with kept [OF p] have other: "app_user_id dev \<noteq> uid" by (simp add: owned_by_def)
    note look = delete_account_lookup [OF ok dev other]
    { assume "revoked_at dev = None"
      with look(1) show "\<exists>dev'. find_device (delete_account uid d) k = Some dev' \<and>
        last_presence_revision dev' = last_presence_revision dev \<and>
        revoked_at dev' = None \<and> app_user_id dev' = app_user_id dev" by simp }
    assume "owner_active d (app_user_id dev)"
    with look(3) show "owner_active (delete_account uid d) (app_user_id dev)" by simp
  qed
qed

section \<open>Runs\<close>

lemma initial_invariant: "telemetry_invariant initial_db"
  by (simp add: telemetry_invariant_def telemetry_ok_def presence_tracks_def presence_live_def initial_db_def)

lemma account_step_invariant: "account_step d d' \<Longrightarrow> telemetry_invariant d \<Longrightarrow> telemetry_invariant d'"
  by (elim account_stepE) (auto intro: step_invariant delete_invariant)

lemma account_steps_invariant: "account_step\<^sup>*\<^sup>* d d' \<Longrightarrow> telemetry_invariant d \<Longrightarrow> telemetry_invariant d'"
  by (induction rule: rtranclp_induct) (auto intro: account_step_invariant)

lemma devices_evolve_trans: "devices_evolve a b \<Longrightarrow> devices_evolve b c \<Longrightarrow> devices_evolve a c"
  unfolding devices_evolve_def by (meson device_evolves_trans)

lemma steps_evolve:
  "telemetry_step\<^sup>*\<^sup>* d d' \<Longrightarrow> telemetry_ok d \<Longrightarrow> telemetry_ok d' \<and> devices_evolve d d'"
proof (induction rule: rtranclp_induct)
  case base
  then show ?case by (simp add: devices_evolve_same)
next
  case (step y z)
  then show ?case
    using step_devices_evolve [of y z] step_ok [of y z] devices_evolve_trans [of d y z] by blast
qed

lemma revoked_not_live: "find_device d k = Some dev \<Longrightarrow> revoked_at dev \<noteq> None \<Longrightarrow> live_device d k uid = None"
  by (simp add: live_device_def)

lemma telemetry_steps_account: "telemetry_step\<^sup>*\<^sup>* d d' \<Longrightarrow> account_step\<^sup>*\<^sup>* d d'"
  by (induction rule: rtranclp_induct) (auto intro: rtranclp.rtrancl_into_rtrancl step_telemetry)

section \<open>Properties\<close>

text \<open>C1. From the empty database, through any sequence of registrations, heartbeats, presence submissions,
  pairings, renames, revocations, history deletions, background jobs, status changes and account
  deletions, every constraint of the schema holds, every stored presence carries its device's
  high-water mark, and a presence is stored only for an unrevoked device of an active account.\<close>

theorem telemetry_system_invariant:
  assumes "account_step\<^sup>*\<^sup>* initial_db d"
  shows "telemetry_ok d \<and> presence_tracks d \<and> presence_live d"
  using account_steps_invariant [OF assms initial_invariant] by (simp add: telemetry_invariant_def)

theorem telemetry_system_invariant_witness:
  "presence_live (initial_db\<lparr>app_users := [\<lparr>user_id = js ''u'', account_status = Active\<rparr>]\<rparr>)"
proof -
  have "telemetry_step initial_db (initial_db\<lparr>app_users := [\<lparr>user_id = js ''u'', account_status = Active\<rparr>]\<rparr>)"
    by (rule step_register [of "js ''u''"]) (simp add: register_account_def initial_db_def)
  then have "account_step\<^sup>*\<^sup>* initial_db (initial_db\<lparr>app_users := [\<lparr>user_id = js ''u'', account_status = Active\<rparr>]\<rparr>)"
    by (intro r_into_rtranclp step_telemetry)
  from telemetry_system_invariant [OF this] show ?thesis by simp
qed

text \<open>C2. Revocation is permanent and marks never fall back: once a device is revoked, after any further
  activity its row still says so with the original time, its presence mark has not decreased, and no
  request authenticates as it.\<close>

theorem revocation_permanent:
  assumes "telemetry_step\<^sup>*\<^sup>* d d'" "telemetry_ok d" "find_device d k = Some dev" "revoked_at dev = Some t"
  shows "\<exists>dev'. find_device d' k = Some dev' \<and> revoked_at dev' = Some t \<and>
    last_presence_revision dev \<le> last_presence_revision dev' \<and>
    (\<forall>uid. live_device d' k uid = None) \<and>
    (\<forall>h p request uid. authenticateTelemetryDevice h p request d' \<noteq> Authenticated k uid)"
proof -
  from steps_evolve [OF assms(1,2)] assms(3) obtain dev' where ok': "telemetry_ok d'"
    and dev': "find_device d' k = Some dev'" and evolves: "device_evolves dev dev'"
    unfolding devices_evolve_def by blast
  with assms(4) have gone: "live_device d' k uid = None" for uid
    by (simp add: revoked_not_live device_evolves_def)
  have "authenticateTelemetryDevice h p request d' \<noteq> Authenticated k uid" for h p request uid
    using authenticated_live [OF ok', of h p request k uid] gone by auto
  with dev' evolves gone assms(4) show ?thesis by (auto simp: device_evolves_def)
qed

theorem revocation_permanent_witness:
  "authenticateTelemetryDevice (\<lambda>p x. x) [] sample_request (revoke_update (js ''d'') (js ''u'') 5 sample_db) \<noteq>
     Authenticated (js ''d'') (js ''u'')"
proof -
  let ?d = "revoke_update (js ''d'') (js ''u'') 5 sample_db"
  have found: "find_device ?d (js ''d'') = Some (sample_device\<lparr>revoked_at := Some 5\<rparr>)"
    by (simp add: revoke_update_def find_device_def update_where_def sample_db_def) (simp add: sample_device_def)
  from revocation_permanent [OF rtranclp.rtrancl_refl revoke_update_ok [OF sample_db_ok] found, of 5] show ?thesis by auto
qed

lemma step_env_reach:
  assumes "env_reach env x y" "\<And>i z. telemetry_step\<^sup>*\<^sup>* (db z) (db (interfere env i z))"
  shows "telemetry_step\<^sup>*\<^sup>* (db x) (db y)"
  using assms by (induction rule: env_reach.induct) (auto intro: rtranclp_trans)

lemma run_tx_steps:
  assumes "run_tx fault e body d = (answer, d')" "\<And>a d'. body d = Commit a d' \<Longrightarrow> telemetry_step d d'"
  shows "telemetry_step\<^sup>*\<^sup>* d d'"
  using run_tx_db [of fault e body d] assms by auto

lemma interfere_then:
  assumes "\<And>i z. telemetry_step\<^sup>*\<^sup>* (db z) (db (interfere env i z))" "db y = db x"
  shows "telemetry_step\<^sup>*\<^sup>* (db x) (db (interfere env i y))"
  using assms(1) [of y i] assms(2) by simp

lemma heartbeat_steps:
  assumes others: "\<And>i z. telemetry_step\<^sup>*\<^sup>* (db z) (db (interfere env i z))"
    and run: "handleTelemetryHeartbeat sec env request peer body s0 = (response, s)"
  shows "telemetry_step\<^sup>*\<^sup>* (db s0) (db s)"
  using heartbeat_result [OF run]
proof (elim disjE exE conjE)
  fix x did uid
  assume x: "env_reach env s0 x"
    and touch: "touch_last_seen did uid (clock env 2) (db (interfere env 2 x)) = Some (db s)"
  from step_env_reach [OF x others] others [of x 2]
  have "telemetry_step\<^sup>*\<^sup>* (db s0) (db (interfere env 2 x))" by (rule rtranclp_trans)
  from this step_heartbeat [OF touch] show ?thesis by (rule rtranclp.rtrancl_into_rtrancl)
qed (rule step_env_reach [OF _ others])

lemma presence_steps:
  assumes others: "\<And>i z. telemetry_step\<^sup>*\<^sup>* (db z) (db (interfere env i z))"
    and ok: "telemetry_ok (db s0)"
    and run: "handleTelemetryPresence sec env request peer body fresh s0 = (response, s)"
  shows "telemetry_step\<^sup>*\<^sup>* (db s0) (db s)"
  using presence_handler_result [OF run]
proof (elim disjE exE conjE)
  fix x did uid revision snapshot dev
  let ?d = "db (interfere env 2 x)"
  assume x: "env_reach env s0 x" and dev: "live_device ?d did uid = Some dev" "last_presence_revision dev < revision"
    and acc: "accept_presence did revision snapshot (clock env 2) fresh ?d = Some (db s)"
  from step_env_reach [OF x others] others [of x 2] have reach: "telemetry_step\<^sup>*\<^sup>* (db s0) ?d" by (rule rtranclp_trans)
  have "0 \<le> last_presence_revision dev \<and> last_presence_revision dev \<le> MAX_SAFE_INTEGER"
    using steps_evolve [OF reach ok] dev(1) find_device_Some [of ?d did dev]
    by (auto simp: live_device_Some telemetry_ok_def device_checks_def)
  with dev acc have "presence_tx did uid revision snapshot (clock env 2) fresh ?d =
      Commit (Accepted revision (clock env 2)) (db s)" by (simp add: presence_tx_def Let_def)
  from reach step_presence [OF this] show ?thesis by (rule rtranclp.rtrancl_into_rtrancl)
qed (rule step_env_reach [OF _ others])

text \<open>The handlers whose only change is one transaction after the environment's steps.\<close>

lemma tx_handler_steps:
  assumes "telemetry_step\<^sup>*\<^sup>* d0 d1" "run_tx fault e body d1 = (answer, d)"
    and "\<And>a d'. body d1 = Commit a d' \<Longrightarrow> telemetry_step d1 d'"
  shows "telemetry_step\<^sup>*\<^sup>* d0 d"
  using assms(1) run_tx_steps [OF assms(2,3)] by (rule rtranclp_trans)

lemma create_steps:
  assumes others: "\<And>i z. telemetry_step\<^sup>*\<^sup>* (db z) (db (interfere env i z))"
    and run: "handleTelemetryPairingCreate sec env same account request body draws s0 = (response, s)"
  shows "telemetry_step\<^sup>*\<^sup>* (db s0) (db s)"
proof (cases "\<exists>uid. same \<and> account = Active_account uid")
  case True
  then obtain uid where acc: "same" "account = Active_account uid" by blast
  obtain rate l where rate: "limiter_consume telemetryPairingCreateRateLimit (pairing_create_limiter s0) uid (now_ms env) =
      (rate, l)" by fastforce
  let ?s1 = "s0\<lparr>pairing_create_limiter := l\<rparr>"
  let ?s2 = "interfere env 0 ?s1"
  let ?s3 = "interfere env 1 ?s2"
  have s2: "telemetry_step\<^sup>*\<^sup>* (db s0) (db ?s2)" by (rule interfere_then [OF others]) simp
  note s3 = rtranclp_trans [OF s2 others [of ?s2 1]]
  obtain answer d where tx: "run_tx (tx_fault env) Create_unavailable (pairing_create_tx sec uid (clock env 1) draws) (db ?s3) =
      (answer, d)" by fastforce
  have d: "telemetry_step\<^sup>*\<^sup>* (db s0) d" by (rule tx_handler_steps [OF s3 tx]) (rule step_create)
  note run = run [unfolded handleTelemetryPairingCreate_def acc(2) browser_account.case Let_def rate prod.case tx]
  show ?thesis
    using run acc(1) s2 d by (auto split: if_splits parsed_body.splits option.splits)
next
  case False
  with run have "s = s0"
    by (auto simp: handleTelemetryPairingCreate_def split: if_splits browser_account.splits)
  then show ?thesis by simp
qed

lemma claim_steps:
  assumes others: "\<And>i z. telemetry_step\<^sup>*\<^sup>* (db z) (db (interfere env i z))"
    and run: "handleTelemetryPairClaim sec env request peer body draws s0 = (response, s)"
  shows "telemetry_step\<^sup>*\<^sup>* (db s0) (db s)"
proof -
  obtain rate l where rate: "limiter_consume telemetryPairingClaimRateLimit (pairing_claim_limiter s0) peer (now_ms env) =
      (rate, l)" by fastforce
  let ?s1 = "s0\<lparr>pairing_claim_limiter := l\<rparr>"
  let ?s2 = "interfere env 0 ?s1"
  let ?s3 = "interfere env 1 ?s2"
  let ?s4 = "interfere env 2 ?s3"
  have s2: "telemetry_step\<^sup>*\<^sup>* (db s0) (db ?s2)" by (rule interfere_then [OF others]) simp
  note s3 = rtranclp_trans [OF s2 others [of ?s2 1]]
  note s4 = rtranclp_trans [OF s3 others [of ?s3 2]]
  have tx: "telemetry_step\<^sup>*\<^sup>* (db s0) (snd (run_tx (tx_fault env) Claim_unavailable
      (pairing_claim_tx sec uid h name (clock env 2) draws) (db ?s4)))" for uid h name
    by (rule tx_handler_steps [OF s4 surjective_pairing]) (rule step_claim)
  note run = run [unfolded handleTelemetryPairClaim_def Let_def rate prod.case]
  show ?thesis
  proof (cases "allowed rate")
    case True
    show ?thesis
    proof (cases "readTelemetryJson (json_parse sec) request body (4 * 1024)")
      case (Parsed ob)
      with run True s2 s3 tx show ?thesis
        by (cases "claim_input sec ob") (auto simp: case_prod_beta split: if_splits option.splits)
    qed (use run True s2 in auto)
  qed (use run in auto)
qed

lemma rename_input_normal: "rename_input ob = Inr name \<Longrightarrow> \<exists>v. normalizeDeviceName v = Some name"
  by (auto simp: rename_input_def split: if_splits option.splits)

lemma rename_steps:
  assumes others: "\<And>i z. telemetry_step\<^sup>*\<^sup>* (db z) (db (interfere env i z))"
    and run: "renameDevice sec env account deviceId request body s0 = (response, s)"
  shows "telemetry_step\<^sup>*\<^sup>* (db s0) (db s)"
proof -
  obtain step l where acc: "accountFor account telemetryManagementMutationRateLimit (management_mutation_limiter s0)
      (now_ms env) = (step, l)" by fastforce
  let ?s1 = "s0\<lparr>management_mutation_limiter := l\<rparr>"
  let ?s2 = "interfere env 0 ?s1"
  have s2: "telemetry_step\<^sup>*\<^sup>* (db s0) (db ?s2)" by (rule interfere_then [OF others]) simp
  have renamed: "telemetry_step\<^sup>*\<^sup>* (db s0) (db (snd (rename_run env did uid name ?s2)))"
    if "rename_input ob = Inr name" for ob did uid name
  proof -
    note s3 = rtranclp_trans [OF s2 others [of ?s2 1]]
    from rename_input_normal [OF that] obtain v where v: "normalizeDeviceName v = Some name" by blast
    note step = rtranclp.rtrancl_into_rtrancl [OF s3 step_rename [OF v]]
    show ?thesis by (auto simp: rename_run_def Let_def s3 step simp del: One_nat_def split: option.splits)
  qed
  note run = run [unfolded renameDevice_def Let_def acc prod.case]
  show ?thesis
  proof (cases step)
    case (Account uid)
    show ?thesis
    proof (cases "readTelemetryJson (json_parse sec) request body (4 * 1024)")
      case (Parsed ob)
      with run Account s2 show ?thesis
        by (cases "rename_input ob") (auto split: if_splits dest: renamed [of _ _ "uuid_canonical deviceId" uid])
    qed (use run Account s2 in \<open>auto split: if_splits\<close>)
  qed (use run in auto)
qed

lemma revoke_steps:
  assumes others: "\<And>i z. telemetry_step\<^sup>*\<^sup>* (db z) (db (interfere env i z))"
    and run: "revokeDevice env account deviceId s0 = (response, s)"
  shows "telemetry_step\<^sup>*\<^sup>* (db s0) (db s)"
proof -
  obtain step l where acc: "accountFor account telemetryManagementMutationRateLimit (management_mutation_limiter s0)
      (now_ms env) = (step, l)" by fastforce
  let ?s2 = "interfere env 0 (s0\<lparr>management_mutation_limiter := l\<rparr>)"
  have s2: "telemetry_step\<^sup>*\<^sup>* (db s0) (db ?s2)" by (rule interfere_then [OF others]) simp
  have tx: "telemetry_step\<^sup>*\<^sup>* (db s0) (snd (run_tx (tx_fault env) Revoke_unavailable
      (revoke_tx did uid (clock env 0)) (db ?s2)))" for did uid
    by (rule tx_handler_steps [OF s2 surjective_pairing]) (rule step_revoke)
  note run = run [unfolded revokeDevice_def Let_def acc prod.case]
  show ?thesis
  proof (cases step)
    case (Account uid)
    with run tx [of "uuid_canonical deviceId" uid] show ?thesis by (auto simp: case_prod_beta split: if_splits)
  qed (use run in auto)
qed

lemma delete_history_steps:
  assumes others: "\<And>i z. telemetry_step\<^sup>*\<^sup>* (db z) (db (interfere env i z))"
    and run: "deleteHistory env account s0 = (response, s)"
  shows "telemetry_step\<^sup>*\<^sup>* (db s0) (db s)"
proof -
  obtain step l where acc: "accountFor account telemetryManagementMutationRateLimit (management_mutation_limiter s0)
      (now_ms env) = (step, l)" by fastforce
  let ?s2 = "interfere env 0 (s0\<lparr>management_mutation_limiter := l\<rparr>)"
  have s2: "telemetry_step\<^sup>*\<^sup>* (db s0) (db ?s2)" by (rule interfere_then [OF others]) simp
  have tx: "telemetry_step\<^sup>*\<^sup>* (db s0) (snd (run_tx (tx_fault env) Delete_unavailable
      (delete_history_tx uid) (db ?s2)))" for uid
    by (rule tx_handler_steps [OF s2 surjective_pairing]) (rule step_delete_history)
  note run = run [unfolded deleteHistory_def Let_def acc prod.case]
  show ?thesis
  proof (cases step)
    case (Account uid)
    with run tx [of uid] show ?thesis by (auto simp: case_prod_beta)
  qed (use run in auto)
qed

text \<open>C14. The handlers refine the step relation: under any interference that is itself made of steps, with
  any faults, whatever a telemetry route does to the database is a sequence of the committed steps, so
  the invariants of the step relation are invariants of the server.\<close>

theorem telemetry_handlers_refine:
  assumes "\<And>i z. telemetry_step\<^sup>*\<^sup>* (db z) (db (interfere env i z))" "telemetry_ok (db s)"
  shows "telemetry_step\<^sup>*\<^sup>* (db s) (db (snd (handleTelemetryHeartbeat sec env request peer body s))) \<and>
    telemetry_step\<^sup>*\<^sup>* (db s) (db (snd (handleTelemetryPresence sec env request peer body fresh s))) \<and>
    telemetry_step\<^sup>*\<^sup>* (db s) (db (snd (handleTelemetryPairingCreate sec env same account request body draws s))) \<and>
    telemetry_step\<^sup>*\<^sup>* (db s) (db (snd (handleTelemetryPairClaim sec env request peer body draws s))) \<and>
    telemetry_step\<^sup>*\<^sup>* (db s) (db (snd (renameDevice sec env who deviceId request body s))) \<and>
    telemetry_step\<^sup>*\<^sup>* (db s) (db (snd (revokeDevice env who deviceId s))) \<and>
    telemetry_step\<^sup>*\<^sup>* (db s) (db (snd (deleteHistory env who s)))"
  by (intro conjI heartbeat_steps [OF assms(1) surjective_pairing] presence_steps [OF assms surjective_pairing]
    create_steps [OF assms(1) surjective_pairing] claim_steps [OF assms(1) surjective_pairing]
    rename_steps [OF assms(1) surjective_pairing] revoke_steps [OF assms(1) surjective_pairing]
    delete_history_steps [OF assms(1) surjective_pairing])

theorem telemetry_handlers_refine_witness:
  "telemetry_step\<^sup>*\<^sup>* sample_db (db (snd (handleTelemetryHeartbeat (sample_secrets [(js ''schema'', jint 1)]) alone
     sample_request (js ''peer'') (Body_text [] 10) sample_state)))"
  using telemetry_handlers_refine [of alone sample_state] by simp

text \<open>One account's management never touches another's data: revoking, renaming and deleting history
  leave every device of another account, its presence and its history entries exactly as they were.\<close>

theorem management_isolated:
  assumes "telemetry_ok d" "find_device d k = Some dev" "app_user_id dev \<noteq> uid"
    and "revoke_tx did uid now d = Commit r d' \<or> d' = rename_update did uid name d \<or>
      delete_history_tx uid d = Commit m d'"
  shows "find_device d' k = Some dev \<and> find_presence d' k = find_presence d k \<and>
    filter (\<lambda>h. entry_device h = k) (telemetry_presence_history d') =
      filter (\<lambda>h. entry_device h = k) (telemetry_presence_history d)"
  using assms(4)
proof (elim disjE)
  assume "revoke_tx did uid now d = Commit r d'"
  then have d': "d' = revoke_update did uid now d" and own: "owned_by d uid did"
    by (auto simp: revoke_tx_def owned_by_def split: option.splits if_splits)
  with assms(2,3) have "k \<noteq> did" by (auto simp: owned_by_def)
  then have "find_presence d' k = find_presence d k"
    using find_presence_less [OF assms(1), of d' "\<lambda>p. presence_device p = did" k] find_presence_Some [of d k]
    by (cases "find_presence d k") (auto simp: d' revoke_update_def)
  moreover have "find_device d' k = Some dev"
    using find_device_trackless [OF assms(1), of d' "\<lambda>dev. device_id dev = did \<and> app_user_id dev = uid"
        "\<lambda>dev. dev\<lparr>revoked_at := Some (case revoked_at dev of None \<Rightarrow> now | Some t \<Rightarrow> t)\<rparr>" k] assms(2,3)
    by (simp add: d' revoke_update_def)
  ultimately show ?thesis by (simp add: d' revoke_update_def)
next
  assume d': "d' = rename_update did uid name d"
  have "find_device d' k = Some dev"
    using find_device_trackless [OF assms(1), of d' "\<lambda>dev. device_id dev = did \<and> app_user_id dev = uid"
        "\<lambda>dev. dev\<lparr>device_name := name\<rparr>" k] assms(2,3)
    by (simp add: d' rename_update_def)
  then show ?thesis by (simp add: d' rename_update_def find_presence_def)
next
  assume "delete_history_tx uid d = Commit m d'"
  then have d': "d' = d\<lparr>telemetry_presence_history :=
      delete_where (\<lambda>h. owned_by d uid (entry_device h)) (telemetry_presence_history d)\<rparr>"
    by (auto simp: delete_history_tx_def)
  have "\<not> owned_by d uid k" using assms(2,3) by (simp add: owned_by_def)
  then have "filter (\<lambda>h. entry_device h = k) (telemetry_presence_history d') =
      filter (\<lambda>h. entry_device h = k) (telemetry_presence_history d)"
    by (simp add: d' delete_where_def) (metis (mono_tags, lifting))
  with assms(2) show ?thesis by (simp add: d' find_device_def find_presence_def)
qed

theorem management_isolated_witness:
  "find_device (rename_update (js ''d'') (js ''other'') (js ''x'') sample_db) (js ''d'') = Some sample_device"
proof -
  have "find_device sample_db (js ''d'') = Some sample_device" using sample_live unfolding live_device_Some by blast
  moreover have "app_user_id sample_device \<noteq> js ''other''" by (simp add: sample_device_def)
  ultimately show ?thesis using management_isolated [OF sample_db_ok, of "js ''d''" sample_device "js ''other''"] by blast
qed

end
