(* ===== verification/Js_Values.thy ===== *)
theory Js_Values
  imports Session
begin

text \<open>
  The conversions of the language that the group routes (missions, orders, materials) use on request
  bodies: \<open>Number\<close> on strings and on parsed JSON, \<open>trim\<close>, template strings, and the small validators
  at the top of \<open>src/src/server.js\<close>. \<open>None\<close> stands for \<open>undefined\<close> (an absent property).
\<close>

section \<open>Number\<close>

definition dec_digit :: "nat \<Rightarrow> bool" where
  "dec_digit c \<longleftrightarrow> 48 \<le> c \<and> c \<le> 57"

definition digit_value :: "nat \<Rightarrow> nat" where
  "digit_value c = (if c \<le> 57 then c - 48 else if c \<le> 90 then c - 55 else c - 87)"

definition base_value :: "nat \<Rightarrow> jsstr \<Rightarrow> nat" where
  "base_value b s = foldl (\<lambda>n c. n * b + digit_value c) 0 s"

definition split_sign :: "jsstr \<Rightarrow> bool \<times> jsstr" where
  "split_sign s = (if take 1 s = [45] then (True, tl s) else if take 1 s = [43] then (False, tl s) else (False, s))"

definition signed_digits :: "jsstr \<Rightarrow> int option" where
  "signed_digits s =
     (let (negative, ds) = split_sign s
      in if ds = [] \<or> \<not> list_all dec_digit ds then None
         else Some (if negative then - int (base_value 10 ds) else int (base_value 10 ds)))"

definition exponent_part :: "jsstr \<Rightarrow> int option" where
  "exponent_part e = (case e of [] \<Rightarrow> Some 0 | _ # r \<Rightarrow> signed_digits r)"

text \<open>\<open>StrUnsignedDecimalLiteral\<close>: digits, an optional fraction, an optional exponent.\<close>

definition unsigned_decimal :: "jsstr \<Rightarrow> rat option" where
  "unsigned_decimal s =
     (let m = takeWhile (\<lambda>c. c \<noteq> 101 \<and> c \<noteq> 69) s; e = drop (length m) s;
          i = takeWhile (\<lambda>c. c \<noteq> 46) m; f = drop 1 (drop (length i) m)
      in if \<not> list_all dec_digit i \<or> \<not> list_all dec_digit f \<or> i @ f = [] then None
         else map_option (\<lambda>x. of_nat (base_value 10 (i @ f)) * 10 powi (x - int (length f))) (exponent_part e))"

text \<open>A magnitude past the largest double is an infinity; rounding below it is not modelled.\<close>

definition to_double :: "rat \<Rightarrow> jsnum" where
  "to_double r =
     (if 2 ^ 1024 - 2 ^ 970 \<le> r then PosInf else if r \<le> - (2 ^ 1024 - 2 ^ 970) then NegInf else Fin r)"

definition radix_digits :: "nat \<Rightarrow> nat \<Rightarrow> bool" where
  "radix_digits b c \<longleftrightarrow> (dec_digit c \<or> (65 \<le> c \<and> c \<le> 70) \<or> (97 \<le> c \<and> c \<le> 102)) \<and> digit_value c < b"

definition radix_literal :: "nat \<Rightarrow> jsstr \<Rightarrow> jsnum" where
  "radix_literal b ds =
     (if ds = [] \<or> \<not> list_all (radix_digits b) ds then NaN else to_double (of_nat (base_value b ds)))"

definition radix_of :: "jsstr \<Rightarrow> nat option" where
  "radix_of t =
     (if take 2 t \<in> {js ''0x'', js ''0X''} then Some 16
      else if take 2 t \<in> {js ''0o'', js ''0O''} then Some 8
      else if take 2 t \<in> {js ''0b'', js ''0B''} then Some 2 else None)"

definition number_of_string :: "jsstr \<Rightarrow> jsnum" where
  "number_of_string s =
     (let t = js_trim s in
      if t = [] then Fin 0
      else case radix_of t of
        Some b \<Rightarrow> radix_literal b (drop 2 t)
      | None \<Rightarrow>
          (let (negative, u) = split_sign t
           in if u = js ''Infinity'' then (if negative then NegInf else PosInf)
              else case unsigned_decimal u of
                None \<Rightarrow> NaN
              | Some r \<Rightarrow> to_double (if negative then - r else r)))"

text \<open>An array converts through its text: empty is 0, one element is that element's text, more have a
  comma.\<close>

fun json_number :: "json \<Rightarrow> jsnum" where
  "json_number JNull = Fin 0"
| "json_number (JBool b) = Fin (if b then 1 else 0)"
| "json_number (JNum n) = n"
| "json_number (JStr s) = number_of_string s"
| "json_number (JArr []) = Fin 0"
| "json_number (JArr [JBool b]) = NaN"
| "json_number (JArr [x]) = json_number x"
| "json_number (JArr (x # y # zs)) = NaN"
| "json_number (JObj ob) = NaN"
| "json_number (JDate t) = Fin (of_int t / 1000)"

definition js_number :: "json option \<Rightarrow> jsnum" where
  "js_number v = (case v of None \<Rightarrow> NaN | Some x \<Rightarrow> json_number x)"

text \<open>A query or form parameter: \<open>null\<close> when absent.\<close>

definition param_number :: "jsstr option \<Rightarrow> jsnum" where
  "param_number v = (case v of None \<Rightarrow> Fin 0 | Some s \<Rightarrow> number_of_string s)"

fun finite_number :: "jsnum \<Rightarrow> rat option" where
  "finite_number (Fin r) = Some r"
| "finite_number n = None"

lemma finite_number_Some [simp]: "finite_number n = Some r \<longleftrightarrow> n = Fin r"
  by (cases n) auto

section \<open>Validators\<close>

definition validText :: "nat \<Rightarrow> json option \<Rightarrow> bool" where
  "validText hi v = (case v of Some (JStr s) \<Rightarrow> s \<noteq> [] \<and> length s \<le> hi | _ \<Rightarrow> False)"

lemma validText_JStr [simp]: "validText hi (Some (JStr s)) \<longleftrightarrow> s \<noteq> [] \<and> length s \<le> hi"
  by (simp add: validText_def)

lemma validText_Some: "validText hi v \<Longrightarrow> \<exists>s. v = Some (JStr s) \<and> s \<noteq> [] \<and> length s \<le> hi"
  by (auto simp: validText_def split: option.splits json.splits)

text \<open>\<open>typeof v === "string" ? v.trim() : ""\<close>.\<close>

definition trimmed_text :: "json option \<Rightarrow> jsstr" where
  "trimmed_text v = (case v of Some (JStr s) \<Rightarrow> js_trim s | _ \<Rightarrow> [])"

text \<open>\<open>uuidPattern\<close> of the server takes versions 1 to 5.\<close>

abbreviation server_uuid :: "jsstr \<Rightarrow> bool" where
  "server_uuid \<equiv> uuid_shape 5"

definition middle_dot :: jsstr where
  "middle_dot = [32, 183, 32]"

lemma js_trim_ends:
  assumes "js_trim s \<noteq> []"
  shows "\<not> trim_space (hd (js_trim s))" "\<not> trim_space (last (js_trim s))"
proof -
  let ?u = "dropWhile trim_space s"
  let ?v = "dropWhile trim_space (rev ?u)"
  from assms have v: "?v \<noteq> []" by (simp add: js_trim_def)
  have "\<not> trim_space (hd ?v)" using v by (rule hd_dropWhile)
  then show "\<not> trim_space (last (js_trim s))" using v by (simp add: js_trim_def last_rev)
  obtain p where p: "rev ?u = p @ ?v" by (metis takeWhile_dropWhile_id)
  then have "?u = rev ?v @ rev p" by (metis rev_append rev_rev_ident)
  moreover have "?u \<noteq> []" using v by (metis dropWhile.simps(1) rev.simps(1))
  ultimately have "hd (rev ?v) = hd ?u" using v by (metis hd_append rev_is_Nil_conv)
  moreover have "\<not> trim_space (hd ?u)" using \<open>?u \<noteq> []\<close> by (rule hd_dropWhile)
  ultimately show "\<not> trim_space (hd (js_trim s))" by (simp add: js_trim_def)
qed

section \<open>Text of a value\<close>

definition falsy :: "json option \<Rightarrow> bool" where
  "falsy v \<longleftrightarrow> v \<in> {None, Some JNull, Some (JBool False), Some (JNum (Fin 0)), Some (JNum NaN), Some (JStr [])}"

text \<open>\<open>String(v)\<close>; \<open>nt\<close> is the text of a number. An object with a \<open>toString\<close> of its own raises (\<open>None\<close>).\<close>

fun json_text :: "(jsnum \<Rightarrow> jsstr) \<Rightarrow> json \<Rightarrow> jsstr option"
and array_text :: "(jsnum \<Rightarrow> jsstr) \<Rightarrow> json list \<Rightarrow> jsstr option" where
  "json_text nt JNull = Some (js ''null'')"
| "json_text nt (JBool b) = Some (if b then js ''true'' else js ''false'')"
| "json_text nt (JNum n) = Some (nt n)"
| "json_text nt (JStr s) = Some s"
| "json_text nt (JArr xs) = array_text nt xs"
| "json_text nt (JObj ob) = (if has_own ob ''toString'' then None else Some (js ''[object Object]''))"
| "json_text nt (JDate t) = None"
| "array_text nt [] = Some []"
| "array_text nt (x # xs) =
     (case (if x = JNull then Some [] else json_text nt x, array_text nt xs) of
        (Some s, Some r) \<Rightarrow> Some (if xs = [] then s else s @ 44 # r)
      | _ \<Rightarrow> None)"

text \<open>\<open>String(v || fallback)\<close>.\<close>

definition text_or :: "(jsnum \<Rightarrow> jsstr) \<Rightarrow> json option \<Rightarrow> jsstr \<Rightarrow> jsstr option" where
  "text_or nt v fallback = (if falsy v then Some fallback else case v of Some x \<Rightarrow> json_text nt x | None \<Rightarrow> Some fallback)"

text \<open>The properties a JSON value has: an array, a string or a number has none of the names the sink reads.\<close>

fun props_of :: "json \<Rightarrow> obj" where
  "props_of (JObj ob) = ob"
| "props_of v = []"

definition valid_text :: "nat \<Rightarrow> json option \<Rightarrow> jsstr option" where
  "valid_text hi v = (if validText hi v then (case v of Some (JStr s) \<Rightarrow> Some s | _ \<Rightarrow> None) else None)"

lemma valid_text_Some: "valid_text hi v = Some s \<Longrightarrow> v = Some (JStr s) \<and> s \<noteq> [] \<and> length s \<le> hi"
  by (auto simp: valid_text_def dest!: validText_Some split: if_splits option.splits json.splits)

end
