(* ===== verification/Group_Db.thy ===== *)
theory Group_Db
  imports Js_Values "HOL-Library.List_Lexorder" "HOL-Library.Product_Lexorder"
begin

text \<open>
  What the group routes share: accounts, groups and memberships (tables \<open>app_users\<close>,
  \<open>blueprint_groups\<close>, \<open>group_members\<close> of \<open>schemaSql\<close> in \<open>src/src/server.js\<close>), the caller as
  \<open>getCurrentAppUser\<close> gives it, and the environment a route runs in. The databases of the
  routes extend the record \<open>group_db\<close> with their own tables.
\<close>

section \<open>Tables\<close>

datatype member_role = Owner | Member

record account =
  account_id :: jsstr
  account_state :: account_status
  account_display_name :: jsstr
  account_verselink_name :: "jsstr option"

record group_row =
  group_id :: jsstr
  group_name :: jsstr
  group_creator :: "jsstr option"

record member_row =
  member_group :: jsstr
  member_user :: jsstr
  member_role :: member_role

record group_db =
  accounts :: "account list"
  group_rows :: "group_row list"
  members :: "member_row list"

definition group_ok :: "'a group_db_scheme \<Rightarrow> bool" where
  "group_ok d \<longleftrightarrow>
     distinct (map account_id (accounts d)) \<and> distinct (map group_id (group_rows d)) \<and>
     distinct (map (\<lambda>m. (member_group m, member_user m)) (members d)) \<and>
     (\<forall>g \<in> set (group_rows d). \<forall>u. group_creator g = Some u \<longrightarrow> u \<in> account_id ` set (accounts d)) \<and>
     (\<forall>m \<in> set (members d). member_group m \<in> group_id ` set (group_rows d) \<and>
        member_user m \<in> account_id ` set (accounts d))"

section \<open>Queries\<close>

definition find_account :: "'a group_db_scheme \<Rightarrow> jsstr \<Rightarrow> account option" where
  "find_account d uid = find (\<lambda>a. account_id a = uid) (accounts d)"

definition account_live :: "'a group_db_scheme \<Rightarrow> jsstr \<Rightarrow> bool" where
  "account_live d uid = (case find_account d uid of Some a \<Rightarrow> account_state a = Active | None \<Rightarrow> False)"

definition group_exists :: "'a group_db_scheme \<Rightarrow> jsstr \<Rightarrow> bool" where
  "group_exists d gid \<longleftrightarrow> gid \<in> set (map group_id (group_rows d))"

text \<open>The role a user has in a group: the row of \<open>LEFT JOIN group_members\<close>.\<close>

definition role_of :: "'a group_db_scheme \<Rightarrow> jsstr \<Rightarrow> jsstr \<Rightarrow> member_role option" where
  "role_of d gid uid =
     map_option member_role (find (\<lambda>m. member_group m = gid \<and> member_user m = uid) (members d))"

definition shown_name :: "account \<Rightarrow> jsstr" where
  "shown_name a = (case account_verselink_name a of Some n \<Rightarrow> n | None \<Rightarrow> account_display_name a)"

section \<open>The caller\<close>

record caller =
  caller_id :: jsstr
  caller_admin :: bool
  caller_verselink_name :: "jsstr option"
  caller_display_name :: jsstr

text \<open>\<open>missionActorName\<close>: the first name that is not empty.\<close>

definition missionActorName :: "caller \<Rightarrow> jsstr" where
  "missionActorName c =
     (case caller_verselink_name c of
        Some n \<Rightarrow> if n \<noteq> [] then n else if caller_display_name c \<noteq> [] then caller_display_name c else js ''A member''
      | None \<Rightarrow> if caller_display_name c \<noteq> [] then caller_display_name c else js ''A member'')"

section \<open>The environment of a request\<close>

text \<open>\<open>others env i\<close> is what other requests commit while this one waits at its \<open>i\<close>-th \<open>await\<close>; \<open>query_fails\<close>
  and \<open>tx_ends\<close> are faults of the database; \<open>moment env\<close> its clock (\<open>now()\<close> of the transaction) and
  \<open>new_id env i\<close> the uuids it generates.\<close>

record 'd route_env =
  others :: "nat \<Rightarrow> 'd \<Rightarrow> 'd"
  query_fails :: "nat \<Rightarrow> bool"
  tx_ends :: tx_fault
  moment :: int
  new_id :: "nat \<Rightarrow> jsstr"

text \<open>States met between writes: everything the others make of the start.\<close>

inductive met :: "'d route_env \<Rightarrow> 'd \<Rightarrow> 'd \<Rightarrow> bool" for env where
  met_start: "met env d d"
| met_step: "met env d y \<Longrightarrow> met env d (others env i y)"

lemma met_invariant:
  assumes "met env x y" "P x" "\<And>i z. P z \<Longrightarrow> P (others env i z)"
  shows "P y"
  using assms by (induction rule: met.induct) auto

lemma met_trans: "met env y z \<Longrightarrow> met env x y \<Longrightarrow> met env x z"
  by (induction rule: met.induct) (auto intro: met.intros)

lemma met_once: "met env d (others env i d)"
  by (rule met_step [OF met_start])

text \<open>What a request with one transaction may do: nothing of its own, or one committed step on a state it met.\<close>

definition one_step :: "('d \<Rightarrow> 'd \<Rightarrow> bool) \<Rightarrow> 'd route_env \<Rightarrow> 'd \<Rightarrow> 'd \<Rightarrow> bool" where
  "one_step step env d0 d' \<longleftrightarrow> met env d0 d' \<or> (\<exists>d. met env d0 d \<and> step d d')"

text \<open>The contract between the tables of a subsystem and its routes: every committed step keeps the
  constraints. Then so does every request, whatever is committed between its queries.\<close>

text \<open>What a request makes of the tables: at most one committed step, and none when it answers with an error,
  unless the database lost the acknowledgement of a commit.\<close>

definition routed :: "('d \<Rightarrow> 'd \<Rightarrow> bool) \<Rightarrow> 'd route_env \<Rightarrow> 'd \<Rightarrow> bool \<Rightarrow> 'd \<Rightarrow> bool" where
  "routed step env d0 failed d' \<longleftrightarrow>
     one_step step env d0 d' \<and> (failed \<and> tx_ends env \<noteq> Tx_lost_ack \<longrightarrow> met env d0 d')"

lemma routed_met [intro]: "met env d0 d' \<Longrightarrow> routed step env d0 failed d'"
  by (simp add: routed_def one_step_def)

lemma routed_step: "met env d0 d \<Longrightarrow> step d d' \<Longrightarrow> routed step env d0 False d'"
  by (auto simp: routed_def one_step_def)

lemma routed_tx:
  assumes met: "met env d0 d" and step: "\<And>a d'. body d = Commit a d' \<Longrightarrow> step d d' \<and> \<not> bad a"
  shows "routed step env d0 (bad (fst (run_tx (tx_ends env) e body d))) (snd (run_tx (tx_ends env) e body d))"
proof (cases "body d")
  case (Commit a d')
  with step [OF Commit] met show ?thesis by (auto simp: run_tx_def routed_def one_step_def)
qed (use met in \<open>auto simp: run_tx_def\<close>)

text \<open>The result of a route, read along its control flow: \<open>failed\<close> says which answers are errors.\<close>

definition routed_result ::
    "('d \<Rightarrow> 'd \<Rightarrow> bool) \<Rightarrow> 'd route_env \<Rightarrow> 'd \<Rightarrow> ('a \<Rightarrow> bool) \<Rightarrow> 'a \<times> 'd \<Rightarrow> bool" where
  "routed_result step env d0 failed r \<longleftrightarrow> routed step env d0 (failed (fst r)) (snd r)"

lemma routed_results:
  "met env d0 d' \<Longrightarrow> routed_result step env d0 failed (a, d')"
  "routed_result step env d0 failed x \<Longrightarrow> routed_result step env d0 failed y \<Longrightarrow> routed_result step env d0 failed (if c then x else y)"
  "routed_result step env d0 failed x \<Longrightarrow> (\<And>z. routed_result step env d0 failed (f z)) \<Longrightarrow>
     routed_result step env d0 failed (case v of None \<Rightarrow> x | Some z \<Rightarrow> f z)"
  "met env d0 d0" "met env d0 d \<Longrightarrow> met env d0 (others env i d)"
  by (auto simp: routed_result_def split: option.splits intro: met_start met_step)

lemma routed_result_step: "met env d0 d \<Longrightarrow> step d d' \<Longrightarrow> \<not> failed a \<Longrightarrow> routed_result step env d0 failed (a, d')"
  by (auto simp: routed_result_def intro: routed_step)

lemma routed_result_tx:
  "met env d0 d \<Longrightarrow> (\<And>a d'. body d = Commit a d' \<Longrightarrow> step d d' \<and> \<not> failed a) \<Longrightarrow>
     routed_result step env d0 failed (run_tx (tx_ends env) e body d)"
  unfolding routed_result_def by (rule routed_tx)

locale stepwise =
  fixes step :: "'d \<Rightarrow> 'd \<Rightarrow> bool" and ok :: "'d \<Rightarrow> bool"
  assumes keeps: "step d d' \<Longrightarrow> ok d \<Longrightarrow> ok d'"
begin

lemma steps_keep: "step\<^sup>*\<^sup>* d d' \<Longrightarrow> ok d \<Longrightarrow> ok d'"
  by (induction rule: rtranclp_induct) (auto intro: keeps)

lemma met_steps:
  assumes others: "\<And>i z. step\<^sup>*\<^sup>* z (others env i z)" and met: "met env d d'"
  shows "step\<^sup>*\<^sup>* d d'"
  using met
proof (induction rule: met.induct)
  case (met_step d y i)
  note both = rtranclp_trans [OF met_step(2) others [of y i]]
  then show ?case .
qed simp

lemma request_steps:
  assumes others: "\<And>i z. step\<^sup>*\<^sup>* z (others env i z)" and one: "one_step step env d0 d'"
  shows "step\<^sup>*\<^sup>* d0 d' \<and> (ok d0 \<longrightarrow> ok d')"
proof -
  from one consider "met env d0 d'" | d where "met env d0 d" "step d d'" by (auto simp: one_step_def)
  then have "step\<^sup>*\<^sup>* d0 d'"
  proof cases
    case 1
    from met_steps [OF others this] show ?thesis .
  next
    case (2 d)
    from rtranclp.rtrancl_into_rtrancl [OF met_steps [OF others 2(1)] 2(2)] show ?thesis .
  qed
  with steps_keep [OF this] show ?thesis by blast
qed

lemma routed_requests:
  assumes others: "\<And>i z. step\<^sup>*\<^sup>* z (others env i z)" and routed: "routed step env d0 failed d'"
  shows "step\<^sup>*\<^sup>* d0 d' \<and> (ok d0 \<longrightarrow> ok d') \<and> (failed \<and> tx_ends env \<noteq> Tx_lost_ack \<longrightarrow> met env d0 d')"
  using request_steps [OF others, of d0 d'] routed by (auto simp: routed_def)

end

definition undisturbed :: "'d route_env" where
  "undisturbed = \<lparr>others = (\<lambda>i d. d), query_fails = (\<lambda>i. False), tx_ends = Tx_ok, moment = 1000,
     new_id = (\<lambda>i. replicate (Suc i) 110)\<rparr>"

lemma undisturbed_simps [simp]:
  "others undisturbed i d = d" "query_fails undisturbed i = False" "tx_ends undisturbed = Tx_ok"
  "moment undisturbed = 1000" "new_id undisturbed i = replicate (Suc i) 110"
  by (simp_all add: undisturbed_def)

section \<open>Lemmas\<close>

lemma role_of_Some:
  "role_of d gid uid = Some r \<Longrightarrow> \<exists>m \<in> set (members d). member_group m = gid \<and> member_user m = uid \<and> member_role m = r"
  unfolding role_of_def by (auto dest: find_Some_mem)

lemma role_of_exists: "group_ok d \<Longrightarrow> role_of d gid uid \<noteq> None \<Longrightarrow>
    gid \<in> group_id ` set (group_rows d) \<and> uid \<in> account_id ` set (accounts d)"
  by (auto dest!: role_of_Some simp: group_ok_def)

lemma find_account_Some: "find_account d uid = Some a \<Longrightarrow> a \<in> set (accounts d) \<and> account_id a = uid"
  unfolding find_account_def by (rule find_Some_mem)

lemma find_account_mem: "find_account d uid \<noteq> None \<Longrightarrow> uid \<in> account_id ` set (accounts d)"
  using find_account_Some [of d uid] by (cases "find_account d uid") auto

lemma account_live_mem: "account_live d uid \<Longrightarrow> uid \<in> account_id ` set (accounts d)"
  by (auto simp: account_live_def dest!: find_account_Some split: option.splits)

end
