(* ===== verification/Mission_Db.thy ===== *)
theory Mission_Db
  imports Group_Db
begin

text \<open>
  The mission tables (\<open>missions\<close>, \<open>mission_tasks\<close>, \<open>mission_task_contributions\<close>,
  \<open>app_notifications\<close>), their constraints, and the queries of the mission routes in
  \<open>src/src/server.js\<close>: progress, the recalculation of a mission's status and the notifications.
  PostgreSQL's \<open>numeric\<close> division is a parameter (its quotient is rounded), and so is the text of a
  number in a message.
\<close>

section \<open>Tables\<close>

datatype work_status = Work_open | In_progress | Completed | Cancelled

datatype task_type = Checklist | Item

record mission =
  mission_id :: jsstr
  mission_group :: jsstr
  mission_created_by :: "jsstr option"
  mission_title :: jsstr
  mission_description :: "jsstr option"
  mission_status :: work_status
  mission_created_at :: int
  mission_updated_at :: int
  mission_completed_at :: "int option"

record task =
  task_id :: jsstr
  task_mission :: jsstr
  task_type :: task_type
  task_title :: jsstr
  task_description :: "jsstr option"
  assigned_to :: "jsstr option"
  target_quantity :: "rat option"
  task_unit :: "jsstr option"
  task_status :: work_status
  sort_order :: int
  task_created_at :: int
  task_updated_at :: int
  task_completed_at :: "int option"

record contribution =
  contribution_id :: jsstr
  contribution_task :: jsstr
  contribution_user :: "jsstr option"
  contribution_quantity :: rat
  contribution_created_at :: int

record notification =
  note_user :: jsstr
  note_kind :: jsstr
  note_title :: jsstr
  note_message :: jsstr
  note_mission :: "jsstr option"
  note_task :: "jsstr option"

record mission_db = group_db +
  missions :: "mission list"
  tasks :: "task list"
  contributions :: "contribution list"
  notifications :: "notification list"

text \<open>\<open>btrim(title) <> ''\<close>.\<close>

definition has_text :: "jsstr \<Rightarrow> bool" where
  "has_text s \<longleftrightarrow> (\<exists>c \<in> set s. c \<noteq> 32)"

definition task_checks :: "task \<Rightarrow> bool" where
  "task_checks t \<longleftrightarrow>
     has_text (task_title t) \<and>
     (case task_type t of
        Checklist \<Rightarrow> target_quantity t = None
      | Item \<Rightarrow> (case target_quantity t of Some q \<Rightarrow> 0 < q | None \<Rightarrow> False))"

definition references :: "jsstr option \<Rightarrow> jsstr set \<Rightarrow> bool" where
  "references v ids \<longleftrightarrow> (case v of None \<Rightarrow> True | Some i \<Rightarrow> i \<in> ids)"

definition mission_tables_ok :: "mission_db \<Rightarrow> bool" where
  "mission_tables_ok d \<longleftrightarrow>
     group_ok d \<and>
     distinct (map mission_id (missions d)) \<and> distinct (map task_id (tasks d)) \<and>
     distinct (map contribution_id (contributions d)) \<and>
     (\<forall>m \<in> set (missions d). has_text (mission_title m) \<and> mission_group m \<in> group_id ` set (group_rows d) \<and>
        references (mission_created_by m) (account_id ` set (accounts d))) \<and>
     (\<forall>t \<in> set (tasks d). task_checks t \<and> task_mission t \<in> mission_id ` set (missions d) \<and>
        references (assigned_to t) (account_id ` set (accounts d))) \<and>
     (\<forall>c \<in> set (contributions d). 0 < contribution_quantity c \<and> contribution_task c \<in> task_id ` set (tasks d) \<and>
        references (contribution_user c) (account_id ` set (accounts d))) \<and>
     (\<forall>n \<in> set (notifications d). note_user n \<in> account_id ` set (accounts d) \<and>
        references (note_mission n) (mission_id ` set (missions d)) \<and>
        references (note_task n) (task_id ` set (tasks d)) \<and> (note_task n = None \<or> note_mission n \<noteq> None))"

section \<open>Lookups and sums\<close>

definition find_mission :: "mission_db \<Rightarrow> jsstr \<Rightarrow> mission option" where
  "find_mission d mid = find (\<lambda>m. mission_id m = mid) (missions d)"

definition find_task :: "mission_db \<Rightarrow> jsstr \<Rightarrow> jsstr \<Rightarrow> task option" where
  "find_task d tid mid = find (\<lambda>t. task_id t = tid \<and> task_mission t = mid) (tasks d)"

text \<open>\<open>COALESCE(SUM(quantity),0)\<close> of a task's contributions.\<close>

definition contributed :: "mission_db \<Rightarrow> jsstr \<Rightarrow> rat" where
  "contributed d tid =
     sum_list (map contribution_quantity (filter (\<lambda>c. contribution_task c = tid) (contributions d)))"

section \<open>Progress\<close>

record numerics =
  numeric_div :: "rat \<Rightarrow> rat \<Rightarrow> rat"
  number_text :: "rat \<Rightarrow> jsstr"

definition round2 :: "rat \<Rightarrow> rat" where
  "round2 r = of_int \<lfloor>r * 100 + 1 / 2\<rfloor> / 100"

text \<open>The percentage of one task; \<open>LEAST\<close> ignores the \<open>NULL\<close> an absent target would give.\<close>

definition task_percent :: "numerics \<Rightarrow> mission_db \<Rightarrow> task \<Rightarrow> rat" where
  "task_percent nm d t =
     (case task_type t of
        Checklist \<Rightarrow> if task_status t = Completed then 100 else 0
      | Item \<Rightarrow> (case target_quantity t of
                   None \<Rightarrow> 100
                 | Some q \<Rightarrow> min (numeric_div nm (contributed d (task_id t)) q * 100) 100))"

definition active_tasks :: "mission_db \<Rightarrow> jsstr \<Rightarrow> task list" where
  "active_tasks d mid = filter (\<lambda>t. task_mission t = mid \<and> task_status t \<noteq> Cancelled) (tasks d)"

record task_view =
  tv_task :: task
  tv_current :: "rat option"
  tv_remaining :: "rat option"
  tv_progress :: rat

definition view_task :: "numerics \<Rightarrow> mission_db \<Rightarrow> task \<Rightarrow> task_view" where
  "view_task nm d t =
     \<lparr>tv_task = t,
      tv_current = (if task_type t = Item then Some (contributed d (task_id t)) else None),
      tv_remaining = (if task_type t = Item
        then Some (max ((case target_quantity t of None \<Rightarrow> 0 | Some q \<Rightarrow> q - contributed d (task_id t))) 0) else None),
      tv_progress = round2 (task_percent nm d t)\<rparr>"

definition loadTaskProgress :: "numerics \<Rightarrow> mission_db \<Rightarrow> jsstr \<Rightarrow> jsstr option \<Rightarrow> task_view list" where
  "loadTaskProgress nm d mid tid =
     map (view_task nm d)
       (sort_key (\<lambda>t. (sort_order t, task_created_at t, task_id t))
         (filter (\<lambda>t. task_mission t = mid \<and> (case tid of None \<Rightarrow> True | Some i \<Rightarrow> task_id t = i)) (tasks d)))"

record mission_view =
  mv_mission :: mission
  mv_active :: nat
  mv_progress :: rat

definition view_mission :: "numerics \<Rightarrow> mission_db \<Rightarrow> mission \<Rightarrow> mission_view" where
  "view_mission nm d m =
     (let ts = active_tasks d (mission_id m) in
      \<lparr>mv_mission = m, mv_active = length ts,
       mv_progress = (if ts = [] then 0
         else round2 (numeric_div nm (sum_list (map (task_percent nm d) ts)) (of_nat (length ts))))\<rparr>)"

definition loadMissionProgress :: "numerics \<Rightarrow> mission_db \<Rightarrow> jsstr \<Rightarrow> mission_view option" where
  "loadMissionProgress nm d mid = map_option (view_mission nm d) (find_mission d mid)"

section \<open>The mission's status\<close>

definition summary_status :: "numerics \<Rightarrow> mission_db \<Rightarrow> jsstr \<Rightarrow> work_status" where
  "summary_status nm d mid =
     (let ts = active_tasks d mid in
      if ts = [] then Work_open
      else if length (filter (\<lambda>t. task_percent nm d t = 100) ts) = length ts then Completed
      else if 0 < length (filter (\<lambda>t. 0 < task_percent nm d t) ts) then In_progress
      else Work_open)"

definition coalesce :: "'a option \<Rightarrow> 'a \<Rightarrow> 'a" where
  "coalesce v y = (case v of Some x \<Rightarrow> x | None \<Rightarrow> y)"

definition with_status :: "int \<Rightarrow> work_status \<Rightarrow> mission \<Rightarrow> mission" where
  "with_status now st m =
     (if mission_status m = Cancelled then m
      else m\<lparr>mission_status := st,
             mission_completed_at := (if st = Completed then Some (coalesce (mission_completed_at m) now) else None),
             mission_updated_at := now\<rparr>)"

definition recalculate :: "numerics \<Rightarrow> int \<Rightarrow> jsstr \<Rightarrow> mission_db \<Rightarrow> mission_db" where
  "recalculate nm now mid d =
     d\<lparr>missions := update_where (\<lambda>m. mission_id m = mid) (with_status now (summary_status nm d mid)) (missions d)\<rparr>"

record recalculation =
  rc_mission :: "mission_view option"
  rc_previous :: "work_status option"
  rc_completed_now :: bool

definition recalculateMissionStatus :: "numerics \<Rightarrow> int \<Rightarrow> jsstr \<Rightarrow> mission_db \<Rightarrow> recalculation \<times> mission_db" where
  "recalculateMissionStatus nm now mid d =
     (let previous = map_option mission_status (find_mission d mid);
          d' = recalculate nm now mid d;
          view = loadMissionProgress nm d' mid
      in (\<lparr>rc_mission = view, rc_previous = previous,
           rc_completed_now = (previous \<noteq> Some Completed \<and>
             map_option (\<lambda>v. mission_status (mv_mission v)) view = Some Completed)\<rparr>, d'))"

section \<open>Notifications\<close>

definition notify :: "notification list \<Rightarrow> mission_db \<Rightarrow> mission_db" where
  "notify ns d = d\<lparr>notifications := notifications d @ ns\<rparr>"

text \<open>The caller compares the raw text, the query the uuid it spells; the recipient must be an active member
  of the group and not the actor.\<close>

definition insertMissionNotification ::
    "jsstr option \<Rightarrow> jsstr \<Rightarrow> jsstr \<Rightarrow> string \<Rightarrow> string \<Rightarrow> jsstr \<Rightarrow> jsstr \<Rightarrow> jsstr option \<Rightarrow> mission_db \<Rightarrow> mission_db" where
  "insertMissionNotification recipient actor gid kind ntitle message mid tid d =
     (case recipient of
        None \<Rightarrow> d
      | Some r \<Rightarrow>
          if r = [] \<or> r = actor then d
          else let uid = uuid_canonical r in
            if account_live d uid \<and> role_of d gid uid \<noteq> None \<and> uid \<noteq> actor
            then notify [\<lparr>note_user = uid, note_kind = js kind, note_title = js ntitle, note_message = message,
                          note_mission = Some mid, note_task = tid\<rparr>] d
            else d)"

definition the_ids :: "jsstr option list \<Rightarrow> jsstr list" where
  "the_ids xs = concat (map (case_option [] (\<lambda>x. [x])) xs)"

text \<open>Creator, assignees of tasks that are not cancelled, owners of the group; active members but the actor.\<close>

definition completion_recipients :: "mission_db \<Rightarrow> mission \<Rightarrow> jsstr \<Rightarrow> jsstr list" where
  "completion_recipients d m actor =
     filter (\<lambda>u. u \<noteq> actor \<and> role_of d (mission_group m) u \<noteq> None \<and> account_live d u)
       (remdups (the_ids (map mission_created_by (filter (\<lambda>m'. mission_id m' = mission_id m) (missions d))) @
                 the_ids (map assigned_to (active_tasks d (mission_id m))) @
                 map member_user (filter (\<lambda>r. member_group r = mission_group m \<and> member_role r = Owner) (members d))))"

definition insertMissionCompletionNotifications :: "mission \<Rightarrow> caller \<Rightarrow> mission_db \<Rightarrow> mission_db" where
  "insertMissionCompletionNotifications m c d =
     notify (map (\<lambda>u. \<lparr>note_user = u, note_kind = js ''mission_completed'', note_title = js ''MISSION COMPLETED'',
          note_message = mission_title m @ middle_dot @ missionActorName c @ js '' completed the mission'',
          note_mission = Some (mission_id m), note_task = None\<rparr>) (completion_recipients d m (caller_id c))) d"

definition insertMissionCreatedNotifications :: "mission \<Rightarrow> caller \<Rightarrow> mission_db \<Rightarrow> mission_db" where
  "insertMissionCreatedNotifications m c d =
     notify (map (\<lambda>u. \<lparr>note_user = u, note_kind = js ''mission_created'', note_title = js ''NEW MISSION'',
          note_message = mission_title m @ middle_dot @ missionActorName c @ js '' created a new mission'',
          note_mission = Some (mission_id m), note_task = None\<rparr>)
       (filter (\<lambda>u. account_live d u \<and> u \<noteq> caller_id c)
         (remdups (map member_user (filter (\<lambda>r. member_group r = mission_group m) (members d)))))) d"

definition notifyMissionCompletion :: "recalculation \<Rightarrow> caller \<Rightarrow> mission_db \<Rightarrow> mission_db" where
  "notifyMissionCompletion rc c d =
     (case rc_mission rc of
        Some v \<Rightarrow> if rc_completed_now rc then insertMissionCompletionNotifications (mv_mission v) c d else d
      | None \<Rightarrow> d)"

section \<open>Access\<close>

definition loadMissionAccess :: "mission_db \<Rightarrow> jsstr \<Rightarrow> jsstr \<Rightarrow> (mission \<times> member_role option) option" where
  "loadMissionAccess d mid uid = map_option (\<lambda>m. (m, role_of d (mission_group m) uid)) (find_mission d mid)"

definition canManageMission :: "mission \<Rightarrow> member_role option \<Rightarrow> caller \<Rightarrow> bool" where
  "canManageMission m role c \<longleftrightarrow>
     caller_admin c \<or> mission_created_by m = Some (caller_id c) \<or> role = Some Owner"

section \<open>Losing members\<close>

definition unassign :: "(task \<Rightarrow> bool) \<Rightarrow> jsstr \<Rightarrow> int \<Rightarrow> mission_db \<Rightarrow> mission_db" where
  "unassign P uid now d =
     d\<lparr>tasks := update_where (\<lambda>t. P t \<and> assigned_to t = Some uid \<and> task_status t \<in> {Work_open, In_progress})
         (\<lambda>t. t\<lparr>assigned_to := None, task_updated_at := now\<rparr>) (tasks d)\<rparr>"

definition unassignOpenMissionTasksForFormerMember :: "jsstr \<Rightarrow> jsstr \<Rightarrow> int \<Rightarrow> mission_db \<Rightarrow> mission_db" where
  "unassignOpenMissionTasksForFormerMember gid uid now d =
     unassign (\<lambda>t. \<exists>m \<in> set (missions d). mission_id m = task_mission t \<and> mission_group m = gid) uid now d"

definition unassignOpenMissionTasksForInactiveUser :: "jsstr \<Rightarrow> int \<Rightarrow> mission_db \<Rightarrow> mission_db" where
  "unassignOpenMissionTasksForInactiveUser uid now d = unassign (\<lambda>t. True) uid now d"

end
