(* ===== verification/Missions.thy ===== *)
theory Missions
  imports Mission_Db
begin

text \<open>
  The mission routes of \<open>src/src/server.js\<close> (\<open>/api/missions\<close> and below): listing, creation,
  details, changes, tasks and contributions. A route is a function of the caller, the parsed
  request and the database it meets, with the other requests' commits in between
  (\<open>others env i\<close>); a transaction is a function of the database it locks. \<open>uuid\<close> columns hold the
  canonical text.
\<close>

section \<open>Answers\<close>

datatype mission_answer =
    Mission_error nat string
  | Mission_list "mission_view list"
  | Mission_detail "mission_view option" "(task_view \<times> (contribution \<times> jsstr option) list) list"
  | Mission_saved nat "mission option"
  | Task_saved nat "task_view option" "mission_view option"

definition service_unavailable :: mission_answer where
  "service_unavailable = Mission_error 503 ''service unavailable''"

section \<open>Reading a body\<close>

text \<open>\<open>String(v || "")\<close> as far as a uuid can come of it: a string, or an array around one.\<close>

fun id_text :: "json \<Rightarrow> jsstr" where
  "id_text (JStr s) = s"
| "id_text (JArr [x]) = id_text x"
| "id_text v = []"

definition id_field :: "obj \<Rightarrow> string \<Rightarrow> jsstr" where
  "id_field ob k = (case prop_of ob k of None \<Rightarrow> [] | Some v \<Rightarrow> id_text v)"

text \<open>\<open>description === undefined ? null : description\<close>, then \<open>validateDescription\<close>.\<close>

definition description_value :: "json option \<Rightarrow> jsstr option option" where
  "description_value v =
     (case v of
        None \<Rightarrow> Some None
      | Some JNull \<Rightarrow> Some None
      | Some (JStr s) \<Rightarrow> if length s \<le> 500 then Some (Some s) else None
      | _ \<Rightarrow> None)"

definition normalizeUnit :: "json option \<Rightarrow> jsstr option option" where
  "normalizeUnit v =
     (case v of
        None \<Rightarrow> None
      | Some JNull \<Rightarrow> Some None
      | Some (JStr s) \<Rightarrow> if js_trim s \<noteq> [] \<and> length s \<le> 50 then Some (Some (js_trim s)) else None
      | _ \<Rightarrow> None)"

definition short_text :: "jsstr \<Rightarrow> bool" where
  "short_text s \<longleftrightarrow> s \<noteq> [] \<and> length s \<le> 500"

definition key_count :: "obj \<Rightarrow> nat" where
  "key_count ob = length (remdups (map fst ob))"

text \<open>The columns a value must fit: no NUL in text, four bytes for \<open>integer\<close>.\<close>

definition int4 :: "int \<Rightarrow> bool" where
  "int4 i \<longleftrightarrow> - (2 ^ 31) \<le> i \<and> i < 2 ^ 31"

section \<open>Missions\<close>

definition listMissions :: "numerics \<Rightarrow> mission_db route_env \<Rightarrow> caller option \<Rightarrow> jsstr \<Rightarrow> mission_db \<Rightarrow> mission_answer \<times> mission_db" where
  "listMissions nm env current groupId d0 =
     (case current of
        None \<Rightarrow> (Mission_error 401 ''login required'', d0)
      | Some c \<Rightarrow>
          if groupId = [] then (Mission_error 400 ''group_id required'', d0)
          else if \<not> server_uuid groupId then (Mission_error 400 ''invalid group'', d0)
          else let gid = uuid_canonical groupId; d1 = others env 0 d0 in
            if query_fails env 0 then (service_unavailable, d1)
            else if \<not> group_exists d1 gid then (Mission_error 404 ''group not found'', d1)
            else let d2 = others env 1 d1 in
              if query_fails env 1 then (service_unavailable, d2)
              else if role_of d2 gid (caller_id c) = None then (Mission_error 403 ''group member required'', d2)
              else let d3 = others env 2 d2 in
                if query_fails env 2 then (service_unavailable, d3)
                else (Mission_list (map (view_mission nm d3)
                       (rev (sort_key (\<lambda>m. (mission_created_at m, mission_id m))
                         (filter (\<lambda>m. mission_group m = gid) (missions d3))))), d3))"

definition create_mission_tx ::
    "int \<Rightarrow> jsstr \<Rightarrow> caller \<Rightarrow> jsstr \<Rightarrow> jsstr \<Rightarrow> jsstr option \<Rightarrow> mission_db \<Rightarrow> (mission_answer, mission_db) tx_outcome" where
  "create_mission_tx now fresh c gid title description d =
     (if \<not> group_exists d gid \<or> find_account d (caller_id c) = None \<or> \<not> has_text title \<or> \<not> pg_text title \<or>
         \<not> pg_text_option description \<or> fresh \<in> set (map mission_id (missions d)) then Throw
      else let m = \<lparr>mission_id = fresh, mission_group = gid, mission_created_by = Some (caller_id c),
                     mission_title = title, mission_description = description, mission_status = Work_open,
                     mission_created_at = now, mission_updated_at = now, mission_completed_at = None\<rparr>
           in Commit (Mission_saved 201 (Some m))
                (insertMissionCreatedNotifications m c (d\<lparr>missions := missions d @ [m]\<rparr>)))"

definition createMission ::
    "mission_db route_env \<Rightarrow> caller option \<Rightarrow> json option \<Rightarrow> mission_db \<Rightarrow> mission_answer \<times> mission_db" where
  "createMission env current body d0 =
     (case current of
        None \<Rightarrow> (Mission_error 401 ''login required'', d0)
      | Some c \<Rightarrow>
          let d1 = others env 0 d0 in
          case body of
            None \<Rightarrow> (Mission_error 400 ''invalid JSON'', d1)
          | Some (JObj ob) \<Rightarrow>
              let groupId = id_field ob ''group_id''; title = trimmed_text (prop_of ob ''title'') in
              (case description_value (prop_of ob ''description'') of
                 None \<Rightarrow> (Mission_error 400 ''invalid mission'', d1)
               | Some description \<Rightarrow>
                   if \<not> server_uuid groupId \<or> \<not> short_text title then (Mission_error 400 ''invalid mission'', d1)
                   else let gid = uuid_canonical groupId; d2 = others env 1 d1 in
                     if query_fails env 1 then (service_unavailable, d2)
                     else if role_of d2 gid (caller_id c) = None then (Mission_error 403 ''group member required'', d2)
                     else run_tx (tx_ends env) service_unavailable
                       (create_mission_tx (moment env) (new_id env 0) c gid title description) (others env 2 d2))
          | Some v \<Rightarrow> (Mission_error 400 ''invalid mission'', d1))"

text \<open>The contributions of a mission grouped by task, as the loop over \<open>contributionsByTask\<close> builds them.\<close>

definition push_contribution ::
    "(jsstr \<times> (contribution \<times> jsstr option) list) list \<Rightarrow> contribution \<times> jsstr option \<Rightarrow>
     (jsstr \<times> (contribution \<times> jsstr option) list) list" where
  "push_contribution acc x =
     (let key = contribution_task (fst x); history = coalesce (map_of acc key) [] in
      if key \<in> fst ` set acc
      then map (\<lambda>(k, h). if k = key then (k, history @ [x]) else (k, h)) acc
      else acc @ [(key, [x])])"

definition contributionsByTask ::
    "(contribution \<times> jsstr option) list \<Rightarrow> (jsstr \<times> (contribution \<times> jsstr option) list) list" where
  "contributionsByTask xs = foldl push_contribution [] xs"

definition mission_contributions :: "mission_db \<Rightarrow> jsstr \<Rightarrow> (contribution \<times> jsstr option) list" where
  "mission_contributions d mid =
     map (\<lambda>c. (c, case contribution_user c of None \<Rightarrow> None | Some u \<Rightarrow> map_option shown_name (find_account d u)))
       (sort_key (\<lambda>c. (contribution_created_at c, contribution_id c))
         (filter (\<lambda>c. contribution_task c \<in> set (map task_id (filter (\<lambda>t. task_mission t = mid) (tasks d))))
           (contributions d)))"

definition mission_details :: "numerics \<Rightarrow> mission_db route_env \<Rightarrow> jsstr \<Rightarrow> mission_db \<Rightarrow> mission_answer \<times> mission_db" where
  "mission_details nm env mid d1 =
     (let d2 = others env 1 d1; d3 = others env 2 d2; d4 = others env 3 d3 in
      if query_fails env 1 \<or> query_fails env 2 \<or> query_fails env 3 then (service_unavailable, d4)
      else let history = contributionsByTask (mission_contributions d4 mid)
           in (Mission_detail (loadMissionProgress nm d2 mid)
                (map (\<lambda>tv. (tv, coalesce (map_of history (task_id (tv_task tv))) [])) (loadTaskProgress nm d3 mid None)), d4))"

definition getMission ::
    "numerics \<Rightarrow> mission_db route_env \<Rightarrow> caller option \<Rightarrow> jsstr \<Rightarrow> mission_db \<Rightarrow> mission_answer \<times> mission_db" where
  "getMission nm env current missionId d0 =
     (case current of
        None \<Rightarrow> (Mission_error 401 ''login required'', d0)
      | Some c \<Rightarrow>
          if \<not> server_uuid missionId then (Mission_error 400 ''invalid mission'', d0)
          else let mid = uuid_canonical missionId; d1 = others env 0 d0 in
            if query_fails env 0 then (service_unavailable, d1)
            else case loadMissionAccess d1 mid (caller_id c) of
              Some (m, Some role) \<Rightarrow> mission_details nm env mid d1
            | _ \<Rightarrow> (Mission_error 404 ''mission not found'', d1))"

text \<open>The fields of a change: the new title and description where they are given, or the error.\<close>

definition mission_changes :: "obj \<Rightarrow> mission_answer + (jsstr option \<times> jsstr option option)" where
  "mission_changes ob =
     (if ob = [] \<or> \<not> keys_within ob [''title'', ''description'']
      then Inl (Mission_error 400 ''only title and description can be changed'')
      else let title = trimmed_text (prop_of ob ''title'') in
        if has_own ob ''title'' \<and> \<not> short_text title then Inl (Mission_error 400 ''invalid mission title'')
        else case description_value (prop_of ob ''description'') of
          None \<Rightarrow> Inl (Mission_error 400 ''invalid mission description'')
        | Some description \<Rightarrow>
            Inr (if has_own ob ''title'' then Some title else None,
                 if has_own ob ''description'' then Some description else None))"

definition change_mission :: "int \<Rightarrow> jsstr \<Rightarrow> jsstr option \<times> jsstr option option \<Rightarrow> mission_db \<Rightarrow> mission_db" where
  "change_mission now mid changes d =
     d\<lparr>missions := update_where (\<lambda>m. mission_id m = mid)
         (\<lambda>m. m\<lparr>mission_title := coalesce (fst changes) (mission_title m),
                 mission_description := coalesce (snd changes) (mission_description m), mission_updated_at := now\<rparr>)
         (missions d)\<rparr>"

definition changes_storable :: "jsstr option \<times> jsstr option option \<Rightarrow> bool" where
  "changes_storable changes \<longleftrightarrow>
     (case fst changes of None \<Rightarrow> True | Some t \<Rightarrow> has_text t \<and> pg_text t) \<and>
     (case snd changes of None \<Rightarrow> True | Some v \<Rightarrow> pg_text_option v)"

definition patchMission ::
    "mission_db route_env \<Rightarrow> caller option \<Rightarrow> jsstr \<Rightarrow> json option \<Rightarrow> mission_db \<Rightarrow> mission_answer \<times> mission_db" where
  "patchMission env current missionId body d0 =
     (case current of
        None \<Rightarrow> (Mission_error 401 ''login required'', d0)
      | Some c \<Rightarrow>
          if \<not> server_uuid missionId then (Mission_error 400 ''invalid mission'', d0)
          else let mid = uuid_canonical missionId; d1 = others env 0 d0 in
            if query_fails env 0 then (service_unavailable, d1)
            else case loadMissionAccess d1 mid (caller_id c) of
              None \<Rightarrow> (Mission_error 404 ''mission not found'', d1)
            | Some (m, role) \<Rightarrow>
                if role = None \<and> \<not> caller_admin c then (Mission_error 404 ''mission not found'', d1)
                else if \<not> canManageMission m role c
                then (Mission_error 403 ''mission creator, group owner, or app admin required'', d1)
                else let d2 = others env 1 d1 in
                  (case body of
                     None \<Rightarrow> (Mission_error 400 ''invalid JSON'', d2)
                   | Some (JObj ob) \<Rightarrow>
                       (case mission_changes ob of
                          Inl answer \<Rightarrow> (answer, d2)
                        | Inr changes \<Rightarrow>
                            let d3 = others env 2 d2 in
                            if query_fails env 2 \<or> \<not> changes_storable changes then (service_unavailable, d3)
                            else let d4 = change_mission (moment env) mid changes d3
                                 in (Mission_saved 200 (find_mission d4 mid), d4))
                   | Some v \<Rightarrow> (Mission_error 400 ''invalid mission'', d2)))"

end
