(* ===== verification/Mission_Tasks.thy ===== *)
theory Mission_Tasks
  imports Missions
begin

text \<open>
  The task and contribution routes of the missions (\<open>POST /api/missions/:id/tasks\<close>,
  \<open>PATCH .../tasks/:id\<close>, \<open>POST .../contributions\<close> in \<open>src/src/server.js\<close>). The row locks the
  transactions take (task, then mission) make each one a step on the database it sees; the
  assignee is looked up outside the transaction, on \<open>view\<close>.
\<close>

section \<open>Common checks\<close>

definition server_error :: "nat \<Rightarrow> string \<Rightarrow> (mission_answer, mission_db) tx_outcome" where
  "server_error status e = Rollback (Mission_error status e)"

text \<open>\<open>validateAssignee\<close> on an assigned value: \<open>null\<close>, or an active member of the mission's group.\<close>

definition assignee_text :: "json option \<Rightarrow> jsstr option option" where
  "assignee_text v =
     (case v of
        None \<Rightarrow> Some None
      | Some JNull \<Rightarrow> Some None
      | Some (JStr s) \<Rightarrow> if server_uuid s then Some (Some s) else None
      | _ \<Rightarrow> None)"

definition validateAssignee :: "mission_db \<Rightarrow> jsstr \<Rightarrow> jsstr option \<Rightarrow> bool" where
  "validateAssignee view gid assignee =
     (case assignee of
        None \<Rightarrow> True
      | Some s \<Rightarrow> account_live view (uuid_canonical s) \<and> role_of view gid (uuid_canonical s) \<noteq> None)"

definition row_storable :: "mission_db \<Rightarrow> task \<Rightarrow> bool" where
  "row_storable d t \<longleftrightarrow>
     task_checks t \<and> pg_text (task_title t) \<and> pg_text_option (task_description t) \<and> pg_text_option (task_unit t) \<and>
     int4 (sort_order t) \<and> references (assigned_to t) (account_id ` set (accounts d))"

text \<open>The end of every task transaction: recalculate, notify, answer.\<close>

definition finish_task ::
    "numerics \<Rightarrow> int \<Rightarrow> nat \<Rightarrow> caller \<Rightarrow> jsstr \<Rightarrow> jsstr \<Rightarrow> mission_db \<Rightarrow> (mission_answer, mission_db) tx_outcome" where
  "finish_task nm now status c mid tid d =
     (let (rc, d1) = recalculateMissionStatus nm now mid d;
          d2 = notifyMissionCompletion rc c d1
      in Commit (Task_saved status (case loadTaskProgress nm d2 mid (Some tid) of [] \<Rightarrow> None | tv # _ \<Rightarrow> Some tv) (rc_mission rc)) d2)"

section \<open>Creating a task\<close>

record task_input =
  in_type :: task_type
  in_title :: jsstr
  in_description :: "jsstr option"
  in_assigned :: "jsstr option"
  in_target :: "rat option"
  in_unit :: "jsstr option"
  in_sort :: int

definition read_type :: "json option \<Rightarrow> task_type option" where
  "read_type v =
     (if v = Some (jstr ''checklist'') then Some Checklist else if v = Some (jstr ''item'') then Some Item else None)"

definition sort_value :: "json option \<Rightarrow> int option" where
  "sort_value v = (case v of None \<Rightarrow> Some 0 | Some (JNum n) \<Rightarrow> integer_of n | _ \<Rightarrow> None)"

definition positive_target :: "json option \<Rightarrow> rat option" where
  "positive_target v =
     (case js_number v of Fin r \<Rightarrow> if 0 < r then Some r else None | _ \<Rightarrow> None)"

definition given :: "json option \<Rightarrow> bool" where
  "given v \<longleftrightarrow> v \<noteq> None \<and> v \<noteq> Some JNull"

definition read_task :: "obj \<Rightarrow> mission_answer + task_input" where
  "read_task ob =
     (if \<not> keys_within ob [''type'', ''title'', ''description'', ''assigned_to'', ''target_quantity'', ''unit'', ''sort_order'']
      then Inl (Mission_error 400 ''invalid task fields'')
      else let title = trimmed_text (prop_of ob ''title'') in
        case (read_type (prop_of ob ''type''), description_value (prop_of ob ''description''), sort_value (prop_of ob ''sort_order'')) of
          (Some ty, Some description, Some rank) \<Rightarrow>
            if \<not> short_text title then Inl (Mission_error 400 ''invalid task'')
            else (case (if has_own ob ''unit'' then normalizeUnit (prop_of ob ''unit'') else Some None) of
                    None \<Rightarrow> Inl (Mission_error 400 ''invalid task unit'')
                  | Some unit \<Rightarrow>
                      if ty = Checklist \<and> (given (prop_of ob ''target_quantity'') \<or> unit \<noteq> None)
                      then Inl (Mission_error 400 ''checklist tasks cannot have quantity or unit'')
                      else if ty = Item \<and> positive_target (prop_of ob ''target_quantity'') = None
                      then Inl (Mission_error 400 ''item tasks require a positive target quantity'')
                      else (case assignee_text (prop_of ob ''assigned_to'') of
                              None \<Rightarrow> Inl (Mission_error 400 ''assignee must be an active group member'')
                            | Some assigned \<Rightarrow>
                                Inr \<lparr>in_type = ty, in_title = title, in_description = description, in_assigned = assigned,
                                  in_target = (if ty = Item then positive_target (prop_of ob ''target_quantity'') else None),
                                  in_unit = unit, in_sort = rank\<rparr>))
        | _ \<Rightarrow> Inl (Mission_error 400 ''invalid task''))"

definition new_task :: "int \<Rightarrow> jsstr \<Rightarrow> jsstr \<Rightarrow> task_input \<Rightarrow> task" where
  "new_task now fresh mid x =
     \<lparr>task_id = fresh, task_mission = mid, task_type = in_type x, task_title = in_title x,
      task_description = in_description x, assigned_to = map_option uuid_canonical (in_assigned x),
      target_quantity = in_target x, task_unit = in_unit x, task_status = Work_open, sort_order = in_sort x,
      task_created_at = now, task_updated_at = now, task_completed_at = None\<rparr>"

definition create_task_tx ::
    "numerics \<Rightarrow> int \<Rightarrow> jsstr \<Rightarrow> caller \<Rightarrow> mission \<Rightarrow> task_input \<Rightarrow> mission_db \<Rightarrow> (mission_answer, mission_db) tx_outcome" where
  "create_task_tx nm now fresh c m x d =
     (let mid = mission_id m; t = new_task now fresh mid x in
      if find_mission d mid = None \<or> \<not> row_storable d t \<or> fresh \<in> set (map task_id (tasks d)) then Throw
      else finish_task nm now 201 c mid fresh
        (insertMissionNotification (in_assigned x) (caller_id c) (mission_group m) ''mission_task_assigned'' ''MISSION TASK ASSIGNED''
           (mission_title m @ middle_dot @ in_title x @ middle_dot @ missionActorName c @ js '' assigned you'') mid (Some fresh)
           (d\<lparr>tasks := tasks d @ [t]\<rparr>)))"

section \<open>Changing a task\<close>

definition with_task_status :: "int \<Rightarrow> work_status \<Rightarrow> task \<Rightarrow> task" where
  "with_task_status now st t =
     t\<lparr>task_status := st, task_completed_at := (if st = Completed then Some (coalesce (task_completed_at t) now) else None),
       task_updated_at := now\<rparr>"

text \<open>The status a quantity gives an item.\<close>

definition item_status :: "rat \<Rightarrow> rat \<Rightarrow> work_status" where
  "item_status total_q q = (if total_q = 0 then Work_open else if q \<le> total_q then Completed else In_progress)"

definition update_task :: "jsstr \<Rightarrow> jsstr \<Rightarrow> (task \<Rightarrow> task) \<Rightarrow> mission_db \<Rightarrow> mission_db" where
  "update_task tid mid f d = d\<lparr>tasks := update_where (\<lambda>t. task_id t = tid \<and> task_mission t = mid) f (tasks d)\<rparr>"

definition checklist_status :: "json option \<Rightarrow> work_status option" where
  "checklist_status v =
     (if v = Some (jstr ''open'') then Some Work_open
      else if v = Some (jstr ''completed'') then Some Completed else None)"

definition checklist_message :: "caller \<Rightarrow> mission \<Rightarrow> task \<Rightarrow> work_status \<Rightarrow> jsstr" where
  "checklist_message c m existing st =
     mission_title m @ middle_dot @ task_title existing @ middle_dot @ missionActorName c @
     (if st = Completed then js '' completed'' else js '' reopened'') @ js '' the task''"

definition patch_status_tx ::
    "numerics \<Rightarrow> int \<Rightarrow> caller \<Rightarrow> mission \<Rightarrow> member_role option \<Rightarrow> obj \<Rightarrow> task \<Rightarrow> mission_db \<Rightarrow> (mission_answer, mission_db) tx_outcome" where
  "patch_status_tx nm now c m role ob existing d =
     (if key_count ob \<noteq> 1 then server_error 400 ''status changes must be status-only''
      else if task_type existing \<noteq> Checklist then server_error 400 ''item status is server-managed''
      else if task_status existing = Cancelled then server_error 409 ''cancelled checklist cannot be changed''
      else case checklist_status (prop_of ob ''status'') of
        None \<Rightarrow> server_error 400 ''invalid checklist status''
      | Some st \<Rightarrow>
          if \<not> canManageMission m role c \<and> assigned_to existing \<noteq> Some (caller_id c)
          then server_error 403 ''task assignee or mission manager required''
          else let tid = task_id existing; mid = mission_id m;
                   d1 = update_task tid mid (with_task_status now st) d;
                   d2 = (if task_status existing \<noteq> st \<and> assigned_to existing \<noteq> None
                         then insertMissionNotification (assigned_to existing) (caller_id c) (mission_group m)
                                (if st = Completed then ''mission_task_completed'' else ''mission_task_reopened'')
                                (if st = Completed then ''MISSION TASK COMPLETED'' else ''MISSION TASK REOPENED'')
                                (checklist_message c m existing st) mid (Some tid) d1
                         else d1)
               in finish_task nm now 200 c mid tid d2)"

text \<open>The fields of a metadata change over the existing task, \<open>in_assigned\<close> as the client wrote it.\<close>

definition read_patch :: "obj \<Rightarrow> task \<Rightarrow> mission_answer + task_input" where
  "read_patch ob existing =
     (if ob = [] \<or> \<not> keys_within ob [''title'', ''description'', ''assigned_to'', ''target_quantity'', ''unit'', ''sort_order'']
      then Inl (Mission_error 400 ''only task metadata can be changed'')
      else let title = (if has_own ob ''title'' then trimmed_text (prop_of ob ''title'') else task_title existing);
               description = (if has_own ob ''description'' then description_value (prop_of ob ''description'')
                 else if (case task_description existing of None \<Rightarrow> True | Some s \<Rightarrow> length s \<le> 500)
                 then Some (task_description existing) else None);
               unit = (if has_own ob ''unit'' then normalizeUnit (prop_of ob ''unit'') else Some (task_unit existing));
               rank = (if has_own ob ''sort_order'' then sort_value (prop_of ob ''sort_order'') else Some (sort_order existing));
               target = (if has_own ob ''target_quantity'' then positive_target (prop_of ob ''target_quantity'')
                 else target_quantity existing)
           in case (description, unit, rank) of
                (Some description, Some unit, Some rank) \<Rightarrow>
                  if \<not> short_text title then Inl (Mission_error 400 ''invalid task'')
                  else if task_type existing = Checklist \<and>
                    (has_own ob ''target_quantity'' \<or> target_quantity existing \<noteq> None \<or> unit \<noteq> None)
                  then Inl (Mission_error 400 ''checklist tasks cannot have quantity or unit'')
                  else if task_type existing = Item \<and> (case target of Some q \<Rightarrow> q \<le> 0 | None \<Rightarrow> True)
                  then Inl (Mission_error 400 ''item tasks require a positive target quantity'')
                  else (case (if has_own ob ''assigned_to'' then assignee_text (prop_of ob ''assigned_to'')
                              else Some (assigned_to existing)) of
                          None \<Rightarrow> Inl (Mission_error 400 ''assignee must be an active group member'')
                        | Some assigned \<Rightarrow>
                            Inr \<lparr>in_type = task_type existing, in_title = title, in_description = description,
                              in_assigned = assigned, in_target = (if task_type existing = Item then target else None),
                              in_unit = unit, in_sort = rank\<rparr>)
              | _ \<Rightarrow> Inl (Mission_error 400 ''invalid task''))"

definition apply_patch :: "int \<Rightarrow> rat \<Rightarrow> task_input \<Rightarrow> task \<Rightarrow> task" where
  "apply_patch now total_q x t =
     (let st = (if task_status t = Cancelled \<or> task_type t = Checklist then task_status t
                else item_status total_q (coalesce (in_target x) 0));
          finished = (if task_status t = Cancelled \<or> task_type t = Checklist then task_completed_at t
                  else if coalesce (in_target x) 0 \<le> total_q then Some (coalesce (task_completed_at t) now) else None)
      in t\<lparr>task_title := in_title x, task_description := in_description x,
           assigned_to := map_option uuid_canonical (in_assigned x), target_quantity := in_target x,
           task_unit := in_unit x, sort_order := in_sort x, task_status := st, task_completed_at := finished,
           task_updated_at := now\<rparr>)"

definition assignment_notes :: "caller \<Rightarrow> mission \<Rightarrow> task \<Rightarrow> jsstr option \<Rightarrow> jsstr \<Rightarrow> mission_db \<Rightarrow> mission_db" where
  "assignment_notes c m existing assigned title d =
     (let mid = mission_id m; tid = Some (task_id existing); note = insertMissionNotification;
          text_of = (\<lambda>what. mission_title m @ middle_dot @ title @ middle_dot @ missionActorName c @ js what);
          d1 = (if assigned \<noteq> None
                then note assigned (caller_id c) (mission_group m)
                       (if assigned_to existing \<noteq> None then ''mission_task_reassigned'' else ''mission_task_assigned'')
                       (if assigned_to existing \<noteq> None then ''MISSION TASK REASSIGNED'' else ''MISSION TASK ASSIGNED'')
                       (text_of '' assigned you'') mid tid d
                else d)
      in if assigned_to existing \<noteq> None
         then note (assigned_to existing) (caller_id c) (mission_group m) ''mission_task_unassigned'' ''MISSION TASK UNASSIGNED''
                (text_of '' removed your assignment'') mid tid d1
         else d1)"

definition patch_metadata_tx ::
    "numerics \<Rightarrow> int \<Rightarrow> (mission_db \<times> bool) \<Rightarrow> caller \<Rightarrow> mission \<Rightarrow> member_role option \<Rightarrow> obj \<Rightarrow> task \<Rightarrow> mission_db \<Rightarrow>
     (mission_answer, mission_db) tx_outcome" where
  "patch_metadata_tx nm now view c m role ob existing d =
     (if \<not> canManageMission m role c then server_error 403 ''mission creator, group owner, or app admin required''
      else case read_patch ob existing of
        Inl answer \<Rightarrow> Rollback answer
      | Inr x \<Rightarrow>
          if has_own ob ''assigned_to'' \<and> in_assigned x \<noteq> None \<and> snd view then Throw
          else if has_own ob ''assigned_to'' \<and> \<not> validateAssignee (fst view) (mission_group m) (in_assigned x)
          then server_error 400 ''assignee must be an active group member''
          else let tid = task_id existing; mid = mission_id m; total_q = contributed d tid in
            if task_type existing = Item \<and> \<not> total_q \<le> coalesce (in_target x) 0
            then server_error 409 ''target quantity cannot be below current quantity''
            else if \<not> row_storable d (apply_patch now total_q x existing) then Throw
            else let d1 = update_task tid mid (apply_patch now total_q x) d;
                     d2 = (if has_own ob ''assigned_to'' \<and> assigned_to existing \<noteq> in_assigned x
                           then assignment_notes c m existing (in_assigned x) (in_title x) d1 else d1)
                 in finish_task nm now 200 c mid tid d2)"

definition patch_task_tx ::
    "numerics \<Rightarrow> int \<Rightarrow> (mission_db \<times> bool) \<Rightarrow> caller \<Rightarrow> mission \<Rightarrow> member_role option \<Rightarrow> jsstr \<Rightarrow> obj \<Rightarrow> mission_db \<Rightarrow>
     (mission_answer, mission_db) tx_outcome" where
  "patch_task_tx nm now view c m role tid ob d =
     (case find_task d tid (mission_id m) of
        None \<Rightarrow> server_error 404 ''task not found''
      | Some existing \<Rightarrow>
          if has_own ob ''status'' then patch_status_tx nm now c m role ob existing d
          else patch_metadata_tx nm now view c m role ob existing d)"

section \<open>Contributing\<close>

definition contribution_amount :: "json \<Rightarrow> rat option" where
  "contribution_amount body =
     (case body of
        JObj ob \<Rightarrow>
          if key_count ob \<noteq> 1 then None
          else (case prop_of ob ''quantity'' of Some (JNum (Fin r)) \<Rightarrow> if 0 < r then Some r else None | _ \<Rightarrow> None)
      | _ \<Rightarrow> None)"

definition contribution_message :: "numerics \<Rightarrow> caller \<Rightarrow> mission \<Rightarrow> task \<Rightarrow> rat \<Rightarrow> jsstr" where
  "contribution_message nm c m existing q =
     mission_title m @ middle_dot @ task_title existing @ middle_dot @ missionActorName c @ js '' added '' @
     number_text nm q @ (case task_unit existing of Some u \<Rightarrow> if u = [] then [] else 32 # u | None \<Rightarrow> [])"

definition contribute_tx ::
    "numerics \<Rightarrow> int \<Rightarrow> jsstr \<Rightarrow> caller \<Rightarrow> mission \<Rightarrow> member_role option \<Rightarrow> jsstr \<Rightarrow> rat \<Rightarrow> mission_db \<Rightarrow>
     (mission_answer, mission_db) tx_outcome" where
  "contribute_tx nm now fresh c m role tid q d =
     (case find_task d tid (mission_id m) of
        None \<Rightarrow> server_error 404 ''task not found''
      | Some existing \<Rightarrow>
          if task_type existing \<noteq> Item then server_error 400 ''contributions require an item task''
          else if task_status existing = Cancelled then server_error 409 ''cancelled item cannot receive contributions''
          else if \<not> canManageMission m role c \<and> assigned_to existing \<noteq> Some (caller_id c)
          then server_error 403 ''task assignee or mission manager required''
          else if (case target_quantity existing of Some target \<Rightarrow> target < contributed d tid + q | None \<Rightarrow> True)
          then server_error 409 ''contribution exceeds target quantity''
          else if find_account d (caller_id c) = None \<or> fresh \<in> set (map contribution_id (contributions d)) then Throw
          else let mid = mission_id m;
                   d1 = d\<lparr>contributions := contributions d @
                     [\<lparr>contribution_id = fresh, contribution_task = tid, contribution_user = Some (caller_id c),
                       contribution_quantity = q, contribution_created_at = now\<rparr>]\<rparr>;
                   total_q = contributed d1 tid;
                   d2 = update_task tid mid (\<lambda>t. with_task_status now (item_status total_q (coalesce (target_quantity t) 0)) t) d1;
                   d3 = (if assigned_to existing \<noteq> None
                         then insertMissionNotification (assigned_to existing) (caller_id c) (mission_group m)
                                ''mission_item_contribution'' ''MISSION ITEM CONTRIBUTION''
                                (contribution_message nm c m existing q) mid (Some tid) d2
                         else d2)
               in finish_task nm now 201 c mid tid d3)"

section \<open>The routes\<close>

text \<open>What the three routes do first: the caller, the uuid, access to the mission, the body.\<close>

definition with_mission ::
    "mission_db route_env \<Rightarrow> caller option \<Rightarrow> jsstr \<Rightarrow> (caller \<Rightarrow> mission \<Rightarrow> member_role option \<Rightarrow> mission_db \<Rightarrow> mission_answer \<times> mission_db) \<Rightarrow>
     mission_db \<Rightarrow> mission_answer \<times> mission_db" where
  "with_mission env current missionId continue d0 =
     (case current of
        None \<Rightarrow> (Mission_error 401 ''login required'', d0)
      | Some c \<Rightarrow>
          if \<not> server_uuid missionId then (Mission_error 400 ''invalid mission'', d0)
          else let d1 = others env 0 d0 in
            if query_fails env 0 then (service_unavailable, d1)
            else case loadMissionAccess d1 (uuid_canonical missionId) (caller_id c) of
              None \<Rightarrow> (Mission_error 404 ''mission not found'', d1)
            | Some (m, role) \<Rightarrow>
                if role = None \<and> \<not> caller_admin c then (Mission_error 404 ''mission not found'', d1)
                else continue c m role (others env 1 d1))"

definition createTask ::
    "numerics \<Rightarrow> mission_db route_env \<Rightarrow> caller option \<Rightarrow> jsstr \<Rightarrow> json option \<Rightarrow> mission_db \<Rightarrow> mission_answer \<times> mission_db" where
  "createTask nm env current missionId body d0 =
     with_mission env current missionId
       (\<lambda>c m role d2.
          case body of
            None \<Rightarrow> (Mission_error 400 ''invalid JSON'', d2)
          | Some (JObj ob) \<Rightarrow>
              if \<not> canManageMission m role c
              then (Mission_error 403 ''mission creator, group owner, or app admin required'', d2)
              else (case read_task ob of
                      Inl answer \<Rightarrow> (answer, d2)
                    | Inr x \<Rightarrow>
                        let d3 = others env 2 d2 in
                        if in_assigned x \<noteq> None \<and> query_fails env 2 then (service_unavailable, d3)
                        else if \<not> validateAssignee d3 (mission_group m) (in_assigned x)
                        then (Mission_error 400 ''assignee must be an active group member'', d3)
                        else run_tx (tx_ends env) service_unavailable
                          (create_task_tx nm (moment env) (new_id env 0) c m x) (others env 3 d3))
          | Some v \<Rightarrow> (Mission_error 400 ''invalid task'', d2)) d0"

definition patchTask ::
    "numerics \<Rightarrow> mission_db route_env \<Rightarrow> caller option \<Rightarrow> jsstr \<Rightarrow> jsstr \<Rightarrow> json option \<Rightarrow> mission_db \<Rightarrow> mission_answer \<times> mission_db" where
  "patchTask nm env current missionId taskId body d0 =
     with_mission env current missionId
       (\<lambda>c m role d2.
          case body of
            None \<Rightarrow> (Mission_error 400 ''invalid JSON'', d2)
          | Some (JObj ob) \<Rightarrow>
              if \<not> server_uuid taskId then (Mission_error 400 ''invalid task'', d2)
              else let d3 = others env 2 d2 in
                run_tx (tx_ends env) service_unavailable
                  (patch_task_tx nm (moment env) (d3, query_fails env 2) c m role (uuid_canonical taskId) ob) d3
          | Some v \<Rightarrow> (Mission_error 400 ''invalid task'', d2)) d0"

definition contributeTask ::
    "numerics \<Rightarrow> mission_db route_env \<Rightarrow> caller option \<Rightarrow> jsstr \<Rightarrow> jsstr \<Rightarrow> json option \<Rightarrow> mission_db \<Rightarrow> mission_answer \<times> mission_db" where
  "contributeTask nm env current missionId taskId body d0 =
     (if current \<noteq> None \<and> server_uuid missionId \<and> \<not> server_uuid taskId then (Mission_error 400 ''invalid task'', d0)
      else with_mission env current missionId
       (\<lambda>c m role d2.
          case body of
            None \<Rightarrow> (Mission_error 400 ''invalid JSON'', d2)
          | Some v \<Rightarrow>
              (case contribution_amount v of
                 None \<Rightarrow> (Mission_error 400 ''invalid contribution'', d2)
               | Some q \<Rightarrow>
                   run_tx (tx_ends env) service_unavailable
                     (contribute_tx nm (moment env) (new_id env 0) c m role (uuid_canonical taskId) q) (others env 2 d2))) d0)"

end
