(* ===== verification/Mission_Invariants.thy ===== *)
theory Mission_Invariants
  imports Mission_Tasks
begin

text \<open>
  What the mission routes keep: the constraints of the tables, the quota of every item task, the
  status its quantity gives it, and the status its tasks give a mission. \<open>mission_step\<close> is one
  committed change by any route; the invariant is carried along every sequence of them.
\<close>

section \<open>The invariant\<close>

definition task_settled :: "mission_db \<Rightarrow> task \<Rightarrow> bool" where
  "task_settled d t \<longleftrightarrow>
     (case task_type t of
        Item \<Rightarrow> contributed d (task_id t) \<le> coalesce (target_quantity t) 0 \<and>
          (task_status t \<noteq> Cancelled \<longrightarrow>
             task_status t = item_status (contributed d (task_id t)) (coalesce (target_quantity t) 0))
      | Checklist \<Rightarrow> task_status t \<noteq> In_progress) \<and>
     (task_status t \<noteq> Cancelled \<longrightarrow> (task_completed_at t \<noteq> None) = (task_status t = Completed))"

definition mission_derived :: "numerics \<Rightarrow> mission_db \<Rightarrow> mission \<Rightarrow> bool" where
  "mission_derived nm d m \<longleftrightarrow>
     mission_status m = Cancelled \<or>
     (mission_status m = summary_status nm d (mission_id m) \<and>
      (mission_completed_at m \<noteq> None) = (mission_status m = Completed))"

definition missions_derived_except :: "jsstr set \<Rightarrow> numerics \<Rightarrow> mission_db \<Rightarrow> bool" where
  "missions_derived_except skip nm d \<longleftrightarrow> (\<forall>m \<in> set (missions d). mission_id m \<in> skip \<or> mission_derived nm d m)"

text \<open>The invariant, up to the missions that a transaction under way has still to recalculate.\<close>

definition invariant_but :: "jsstr set \<Rightarrow> numerics \<Rightarrow> mission_db \<Rightarrow> bool" where
  "invariant_but skip nm d \<longleftrightarrow>
     mission_tables_ok d \<and> (\<forall>t \<in> set (tasks d). task_settled d t) \<and> missions_derived_except skip nm d"

definition mission_invariant :: "numerics \<Rightarrow> mission_db \<Rightarrow> bool" where
  "mission_invariant nm d \<longleftrightarrow> invariant_but {} nm d"

lemma invariant_but: "mission_invariant nm d \<Longrightarrow> invariant_but skip nm d"
  by (auto simp: mission_invariant_def invariant_but_def missions_derived_except_def)

section \<open>What notifications and recalculation leave alone\<close>

lemma notify_simps [simp]:
  "missions (notify ns d) = missions d" "tasks (notify ns d) = tasks d" "contributions (notify ns d) = contributions d"
  "accounts (notify ns d) = accounts d" "members (notify ns d) = members d" "group_rows (notify ns d) = group_rows d"
  "notifications (notify ns d) = notifications d @ ns"
  by (simp_all add: notify_def)

lemma recalculate_simps [simp]:
  "tasks (recalculate nm now mid d) = tasks d" "contributions (recalculate nm now mid d) = contributions d"
  "accounts (recalculate nm now mid d) = accounts d" "members (recalculate nm now mid d) = members d"
  "group_rows (recalculate nm now mid d) = group_rows d" "notifications (recalculate nm now mid d) = notifications d"
  by (simp_all add: recalculate_def)

lemma contributed_cong: "contributions d' = contributions d \<Longrightarrow> contributed d' = contributed d"
  by (rule ext) (simp add: contributed_def)

lemma task_percent_cong:
  assumes "contributions d' = contributions d"
  shows "task_percent nm d' = task_percent nm d"
  by (rule ext) (simp only: task_percent_def contributed_cong [OF assms])

lemma summary_cong:
  assumes "tasks d' = tasks d" "contributions d' = contributions d"
  shows "summary_status nm d' mid = summary_status nm d mid"
  by (simp only: summary_status_def active_tasks_def task_percent_cong [OF assms(2)] assms(1))

lemma task_settled_cong:
  assumes "contributions d' = contributions d"
  shows "task_settled d' t = task_settled d t"
  by (simp only: task_settled_def contributed_cong [OF assms])

lemma group_ok_cong:
  "accounts d' = accounts d \<Longrightarrow> group_rows d' = group_rows d \<Longrightarrow> members d' = members d \<Longrightarrow> group_ok d' = group_ok d"
  by (simp add: group_ok_def)

lemma notify_ok:
  assumes "mission_tables_ok d"
    and "\<And>n. n \<in> set ns \<Longrightarrow> note_user n \<in> account_id ` set (accounts d) \<and>
      references (note_mission n) (mission_id ` set (missions d)) \<and> references (note_task n) (task_id ` set (tasks d)) \<and>
      (note_task n = None \<or> note_mission n \<noteq> None)"
  shows "mission_tables_ok (notify ns d)"
proof -
  have "group_ok (notify ns d) = group_ok d" by (rule group_ok_cong) simp_all
  with assms show ?thesis by (auto simp: mission_tables_ok_def)
qed

lemma notify_invariant_but:
  assumes "invariant_but skip nm d"
    and "\<And>n. n \<in> set ns \<Longrightarrow> note_user n \<in> account_id ` set (accounts d) \<and>
      references (note_mission n) (mission_id ` set (missions d)) \<and> references (note_task n) (task_id ` set (tasks d)) \<and>
      (note_task n = None \<or> note_mission n \<noteq> None)"
  shows "invariant_but skip nm (notify ns d)"
proof -
  have "task_settled (notify ns d) t = task_settled d t" for t by (rule task_settled_cong) simp
  moreover have "summary_status nm (notify ns d) m = summary_status nm d m" for m by (rule summary_cong) simp_all
  moreover have "mission_tables_ok (notify ns d)"
    by (rule notify_ok) (use assms in \<open>auto simp: invariant_but_def\<close>)
  ultimately show ?thesis using assms(1)
    by (simp add: invariant_but_def missions_derived_except_def mission_derived_def)
qed

lemma insertMissionNotification_cases:
  obtains "insertMissionNotification r actor gid kind ti msg mid tid d = d"
  | n where "insertMissionNotification r actor gid kind ti msg mid tid d = notify [n] d"
      "note_user n \<in> account_id ` set (accounts d)" "note_mission n = Some mid" "note_task n = tid"
      "role_of d gid (note_user n) \<noteq> None" "account_live d (note_user n)" "note_user n \<noteq> actor"
proof (cases "\<exists>x. r = Some x \<and> x \<noteq> [] \<and> x \<noteq> actor \<and> account_live d (uuid_canonical x) \<and>
    role_of d gid (uuid_canonical x) \<noteq> None \<and> uuid_canonical x \<noteq> actor")
  case True
  then obtain x where x: "r = Some x" "x \<noteq> []" "x \<noteq> actor" "account_live d (uuid_canonical x)"
    "role_of d gid (uuid_canonical x) \<noteq> None" "uuid_canonical x \<noteq> actor" by blast
  show thesis
    by (rule that(2) [of "\<lparr>note_user = uuid_canonical x, note_kind = js kind, note_title = js ti, note_message = msg,
        note_mission = Some mid, note_task = tid\<rparr>"]) (use x account_live_mem [OF x(4)] in \<open>simp_all add: insertMissionNotification_def Let_def\<close>)
next
  case False
  then show thesis
    by (intro that(1)) (auto simp: insertMissionNotification_def Let_def split: option.splits)
qed

lemma insertMissionNotification_invariant_but:
  assumes "invariant_but skip nm d" "mid \<in> mission_id ` set (missions d)" "references tid (task_id ` set (tasks d))"
  shows "invariant_but skip nm (insertMissionNotification r actor gid kind ti msg mid tid d)"
proof (cases rule: insertMissionNotification_cases [of r actor gid kind ti msg mid tid d])
  case (2 n)
  then show ?thesis using assms by (auto intro!: notify_invariant_but simp: references_def)
qed (use assms in simp)

lemma completion_recipients_mem:
  "u \<in> set (completion_recipients d m actor) \<Longrightarrow>
     u \<noteq> actor \<and> role_of d (mission_group m) u \<noteq> None \<and> account_live d u"
  by (auto simp: completion_recipients_def)

lemma notifyMissionCompletion_cases:
  obtains ns where "notifyMissionCompletion rc c d = notify ns d"
    "\<And>n. n \<in> set ns \<Longrightarrow> note_user n \<in> account_id ` set (accounts d) \<and> note_task n = None \<and>
       (\<exists>v. rc_mission rc = Some v \<and> note_mission n = Some (mission_id (mv_mission v)))"
proof (cases "rc_mission rc")
  case None
  then show thesis by (intro that [of "[]"]) (simp_all add: notifyMissionCompletion_def notify_def)
next
  case (Some v)
  show thesis
  proof (cases "rc_completed_now rc")
    case True
    show thesis
      by (rule that)
        (use True Some in \<open>auto simp: notifyMissionCompletion_def insertMissionCompletionNotifications_def
           dest!: completion_recipients_mem account_live_mem\<close>)
  next
    case False
    with Some show thesis by (intro that [of "[]"]) (simp_all add: notifyMissionCompletion_def notify_def)
  qed
qed

lemma recalculate_invariant:
  assumes inv: "invariant_but {mid} nm d"
  shows "mission_invariant nm (recalculate nm now mid d)"
proof -
  let ?d = "recalculate nm now mid d"
  have ms: "missions ?d = update_where (\<lambda>m. mission_id m = mid) (with_status now (summary_status nm d mid)) (missions d)"
    by (simp add: recalculate_def)
  have keeps: "mission_id (with_status now st m) = mission_id m" "mission_group (with_status now st m) = mission_group m"
    "mission_created_by (with_status now st m) = mission_created_by m" "mission_title (with_status now st m) = mission_title m"
    for st m by (simp_all add: with_status_def)
  have ids: "map mission_id (missions ?d) = map mission_id (missions d)"
    unfolding ms by (rule map_key_update_where) (simp add: keeps)
  then have idset: "mission_id ` set (missions ?d) = mission_id ` set (missions d)" by (metis set_map)
  have summary: "summary_status nm ?d m = summary_status nm d m" for m by (rule summary_cong) simp_all
  have "group_ok ?d = group_ok d" by (rule group_ok_cong) simp_all
  moreover have "\<forall>m \<in> set (missions ?d). has_text (mission_title m) \<and> mission_group m \<in> group_id ` set (group_rows d) \<and>
        references (mission_created_by m) (account_id ` set (accounts d))"
    using inv by (auto simp: ms update_where_mem keeps invariant_but_def mission_tables_ok_def)
  ultimately have "mission_tables_ok ?d"
    using inv ids idset by (simp add: invariant_but_def mission_tables_ok_def)
  moreover have "task_settled ?d t = task_settled d t" for t by (rule task_settled_cong) simp
  moreover have "missions_derived_except {} nm ?d"
    unfolding missions_derived_except_def
  proof
    fix m assume "m \<in> set (missions ?d)"
    then obtain m0 where m0: "m0 \<in> set (missions d)"
      "m = (if mission_id m0 = mid then with_status now (summary_status nm d mid) m0 else m0)"
      by (auto simp: ms update_where_mem)
    show "mission_id m \<in> {} \<or> mission_derived nm ?d m"
    proof (cases "mission_id m0 = mid")
      case True
      with m0 show ?thesis by (simp add: mission_derived_def summary with_status_def)
    next
      case False
      with m0 inv have "mission_derived nm d m0" by (auto simp: invariant_but_def missions_derived_except_def)
      with m0(2) False show ?thesis by (simp add: mission_derived_def summary)
    qed
  qed
  ultimately show ?thesis using inv by (simp add: mission_invariant_def invariant_but_def)
qed

lemma find_mission_Some: "find_mission d mid = Some m \<Longrightarrow> m \<in> set (missions d) \<and> mission_id m = mid"
  unfolding find_mission_def by (rule find_Some_mem)

lemma find_task_Some: "find_task d tid mid = Some t \<Longrightarrow> t \<in> set (tasks d) \<and> task_id t = tid \<and> task_mission t = mid"
  unfolding find_task_def by (drule find_Some_mem) simp

lemma finish_task_Commit:
  assumes "finish_task nm now status c mid tid d = Commit a d'"
  obtains ns where "d' = notify ns (recalculate nm now mid d)"
    "\<And>n. n \<in> set ns \<Longrightarrow> note_user n \<in> account_id ` set (accounts d) \<and> note_task n = None \<and>
       (\<exists>i \<in> mission_id ` set (missions (recalculate nm now mid d)). note_mission n = Some i)"
    "a = Task_saved status (case loadTaskProgress nm d' mid (Some tid) of [] \<Rightarrow> None | tv # r \<Rightarrow> Some tv)
       (loadMissionProgress nm (recalculate nm now mid d) mid)"
proof -
  let ?d1 = "recalculate nm now mid d"
  obtain rc where rc: "recalculateMissionStatus nm now mid d = (rc, ?d1)" "rc_mission rc = loadMissionProgress nm ?d1 mid"
    by (simp add: recalculateMissionStatus_def Let_def)
  obtain ns where ns: "notifyMissionCompletion rc c ?d1 = notify ns ?d1"
    "\<And>n. n \<in> set ns \<Longrightarrow> note_user n \<in> account_id ` set (accounts ?d1) \<and> note_task n = None \<and>
       (\<exists>v. rc_mission rc = Some v \<and> note_mission n = Some (mission_id (mv_mission v)))"
    by (rule notifyMissionCompletion_cases [of rc c ?d1]) (rule that)
  have known: "mission_id (mv_mission v) \<in> mission_id ` set (missions ?d1)" if "rc_mission rc = Some v" for v
    using that rc(2) find_mission_Some [of ?d1 mid]
    by (cases "find_mission ?d1 mid") (auto simp: loadMissionProgress_def view_mission_def Let_def)
  show thesis
  proof (rule that [of ns])
    show "d' = notify ns ?d1" "a = Task_saved status (case loadTaskProgress nm d' mid (Some tid) of [] \<Rightarrow> None | tv # r \<Rightarrow> Some tv)
       (loadMissionProgress nm ?d1 mid)"
      using assms rc ns(1) by (auto simp: finish_task_def Let_def)
    fix n assume "n \<in> set ns"
    from ns(2) [OF this] obtain v where "note_user n \<in> account_id ` set (accounts d)" "note_task n = None"
      "rc_mission rc = Some v" "note_mission n = Some (mission_id (mv_mission v))" by auto
    with known [of v] show "note_user n \<in> account_id ` set (accounts d) \<and> note_task n = None \<and>
       (\<exists>i \<in> mission_id ` set (missions ?d1). note_mission n = Some i)" by blast
  qed
qed

lemma finish_task_invariant:
  assumes "invariant_but {mid} nm d" "finish_task nm now status c mid tid d = Commit a d'"
  shows "mission_invariant nm d'"
  using assms(2)
proof (rule finish_task_Commit)
  fix ns assume d': "d' = notify ns (recalculate nm now mid d)"
    and ns: "\<And>n. n \<in> set ns \<Longrightarrow> note_user n \<in> account_id ` set (accounts d) \<and> note_task n = None \<and>
       (\<exists>i \<in> mission_id ` set (missions (recalculate nm now mid d)). note_mission n = Some i)"
  have "invariant_but {} nm (recalculate nm now mid d)"
    using recalculate_invariant [OF assms(1)] by (simp add: mission_invariant_def)
  then show ?thesis
    unfolding d' mission_invariant_def by (rule notify_invariant_but) (use ns in \<open>fastforce simp: references_def\<close>)
qed

section \<open>Changing tasks\<close>

lemma summary_local:
  assumes "active_tasks d' mid = active_tasks d mid"
    and "\<And>t. t \<in> set (active_tasks d mid) \<Longrightarrow> contributed d' (task_id t) = contributed d (task_id t)"
  shows "summary_status nm d' mid = summary_status nm d mid"
proof -
  have percent: "task_percent nm d' t = task_percent nm d t" if "t \<in> set (active_tasks d mid)" for t
    by (simp only: task_percent_def assms(2) [OF that])
  have "filter (\<lambda>t. task_percent nm d' t = 100) (active_tasks d mid) = filter (\<lambda>t. task_percent nm d t = 100) (active_tasks d mid)"
    "filter (\<lambda>t. 0 < task_percent nm d' t) (active_tasks d mid) = filter (\<lambda>t. 0 < task_percent nm d t) (active_tasks d mid)"
    using percent by (auto intro: filter_cong)
  then show ?thesis unfolding summary_status_def Let_def assms(1) by simp
qed

lemma task_change_invariant:
  assumes inv: "mission_invariant nm d" and found: "find_task d tid mid = Some t0"
    and ts: "tasks d' = update_where (\<lambda>t. task_id t = tid \<and> task_mission t = mid) f (tasks d)"
    and cs: "contributions d' = contributions d @ new" "\<And>c. c \<in> set new \<Longrightarrow> contribution_task c = tid"
    and same: "missions d' = missions d" "accounts d' = accounts d" "members d' = members d" "group_rows d' = group_rows d"
      "notifications d' = notifications d"
    and f: "\<And>t. task_id (f t) = task_id t" "\<And>t. task_mission (f t) = task_mission t" "task_checks (f t0)"
      "references (assigned_to (f t0)) (account_id ` set (accounts d))" "task_settled d' (f t0)"
    and new: "distinct (map contribution_id (contributions d @ new))"
      "\<And>c. c \<in> set new \<Longrightarrow> 0 < contribution_quantity c \<and> references (contribution_user c) (account_id ` set (accounts d))"
  shows "invariant_but {mid} nm d'"
proof -
  have ok: "mission_tables_ok d" and settled: "\<forall>t \<in> set (tasks d). task_settled d t"
    using inv by (simp_all add: mission_invariant_def invariant_but_def)
  have dist: "distinct (map task_id (tasks d))" using ok by (simp add: mission_tables_ok_def)
  from find_task_Some [OF found] have t0: "t0 \<in> set (tasks d)" "task_id t0 = tid" "task_mission t0 = mid" by simp_all
  have only: "t = t0" if "t \<in> set (tasks d)" "task_id t = tid" for t
    using key_unique [OF dist that(1) t0(1)] that(2) t0(2) by simp
  have other: "contributed d' k = contributed d k" if "k \<noteq> tid" for k
  proof -
    have "filter (\<lambda>c. contribution_task c = k) new = []" using that cs(2) by (auto simp: filter_empty_conv)
    then show ?thesis by (simp add: contributed_def cs(1))
  qed
  have ids: "map task_id (tasks d') = map task_id (tasks d)"
    unfolding ts by (rule map_key_update_where) (simp add: f(1))
  then have idset: "task_id ` set (tasks d') = task_id ` set (tasks d)" by (metis set_map)
  have rows: "t' = f t0 \<or> (t' \<in> set (tasks d) \<and> task_id t' \<noteq> tid)" if "t' \<in> set (tasks d')" for t'
    using that only t0(2,3) by (auto simp: ts update_where_mem split: if_splits)
  have row_ok: "task_checks t \<and> task_mission t \<in> mission_id ` set (missions d) \<and>
        references (assigned_to t) (account_id ` set (accounts d))" if "t \<in> set (tasks d)" for t
    using that ok by (simp add: mission_tables_ok_def)
  have "\<forall>t \<in> set (tasks d'). task_checks t \<and> task_mission t \<in> mission_id ` set (missions d) \<and>
        references (assigned_to t) (account_id ` set (accounts d))"
  proof
    fix t assume "t \<in> set (tasks d')"
    from rows [OF this] row_ok [of t] row_ok [OF t0(1)] f(2-4)
    show "task_checks t \<and> task_mission t \<in> mission_id ` set (missions d) \<and>
        references (assigned_to t) (account_id ` set (accounts d))" by auto
  qed
  moreover have "group_ok d' = group_ok d" by (rule group_ok_cong) (simp_all add: same)
  moreover have "\<forall>c \<in> set (contributions d'). 0 < contribution_quantity c \<and> contribution_task c \<in> task_id ` set (tasks d) \<and>
        references (contribution_user c) (account_id ` set (accounts d))"
    using ok new(2) cs t0(1,2) by (auto simp: mission_tables_ok_def)
  ultimately have "mission_tables_ok d'"
    using ok ids idset new(1) by (simp add: mission_tables_ok_def same cs(1))
  moreover have "task_settled d' t'" if "t' \<in> set (tasks d')" for t'
    using rows [OF that]
  proof
    assume t': "t' \<in> set (tasks d) \<and> task_id t' \<noteq> tid"
    then have "contributed d' (task_id t') = contributed d (task_id t')" by (intro other) simp
    then have "task_settled d' t' = task_settled d t'" by (simp only: task_settled_def)
    with t' settled show ?thesis by simp
  qed (use f(5) in simp)
  moreover have "missions_derived_except {mid} nm d'"
    unfolding missions_derived_except_def same
  proof
    fix m assume "m \<in> set (missions d)"
    with inv have derived: "mission_derived nm d m"
      by (auto simp: mission_invariant_def invariant_but_def missions_derived_except_def)
    show "mission_id m \<in> {mid} \<or> mission_derived nm d' m"
    proof (cases "mission_id m = mid")
      case False
      have "active_tasks d' (mission_id m) = active_tasks d (mission_id m)"
        unfolding active_tasks_def ts by (rule filter_update_where_other) (use False f(2) in auto)
      moreover have "contributed d' (task_id t) = contributed d (task_id t)" if "t \<in> set (active_tasks d (mission_id m))" for t
        using that only [of t] t0(3) False by (intro other) (auto simp: active_tasks_def)
      ultimately have "summary_status nm d' (mission_id m) = summary_status nm d (mission_id m)" by (rule summary_local)
      with derived show ?thesis by (simp add: mission_derived_def)
    qed simp
  qed
  ultimately show ?thesis by (simp add: invariant_but_def)
qed

lemma new_task_invariant:
  assumes inv: "mission_invariant nm d" and mid: "find_mission d (task_mission t) \<noteq> None"
    and t: "task_checks t" "references (assigned_to t) (account_id ` set (accounts d))" "task_id t \<notin> set (map task_id (tasks d))"
      "task_status t = Work_open" "task_completed_at t = None"
  shows "invariant_but {task_mission t} nm (d\<lparr>tasks := tasks d @ [t]\<rparr>)"
proof -
  let ?d = "d\<lparr>tasks := tasks d @ [t]\<rparr>"
  have ok: "mission_tables_ok d" and settled: "\<forall>t \<in> set (tasks d). task_settled d t"
    using inv by (simp_all add: mission_invariant_def invariant_but_def)
  obtain m where "find_mission d (task_mission t) = Some m" using mid by blast
  from find_mission_Some [OF this] have "task_mission t \<in> mission_id ` set (missions d)" by (metis imageI)
  moreover have "group_ok ?d = group_ok d" by (rule group_ok_cong) simp_all
  moreover have "references (note_task n) (task_id ` set (tasks ?d))" if "n \<in> set (notifications d)" for n
    using ok that by (auto simp: mission_tables_ok_def references_def split: option.splits)
  ultimately have "mission_tables_ok ?d"
    using ok t(1-3) by (auto simp: mission_tables_ok_def)
  moreover have "contribution_task c \<noteq> task_id t" if "c \<in> set (contributions d)" for c
  proof
    assume "contribution_task c = task_id t"
    with ok that have "task_id t \<in> task_id ` set (tasks d)" by (metis mission_tables_ok_def)
    with t(3) show False by simp
  qed
  then have "filter (\<lambda>c. contribution_task c = task_id t) (contributions d) = []" by (simp add: filter_empty_conv)
  then have "contributed ?d (task_id t) = 0" by (simp add: contributed_def)
  then have "task_settled ?d t"
    using t(1,4,5) by (auto simp: task_settled_def item_status_def task_checks_def coalesce_def split: task_type.splits option.splits)
  moreover have "task_settled ?d t' = task_settled d t'" for t' by (rule task_settled_cong) simp
  moreover have "missions_derived_except {task_mission t} nm ?d"
    unfolding missions_derived_except_def
  proof
    fix m assume "m \<in> set (missions ?d)"
    with inv have derived: "mission_derived nm d m"
      by (auto simp: mission_invariant_def invariant_but_def missions_derived_except_def)
    show "mission_id m \<in> {task_mission t} \<or> mission_derived nm ?d m"
    proof (cases "mission_id m = task_mission t")
      case False
      then have "active_tasks ?d (mission_id m) = active_tasks d (mission_id m)" by (auto simp: active_tasks_def)
      then have "summary_status nm ?d (mission_id m) = summary_status nm d (mission_id m)"
        by (rule summary_local) (simp add: contributed_def)
      with derived show ?thesis by (simp add: mission_derived_def)
    qed simp
  qed
  ultimately show ?thesis using settled by (simp add: invariant_but_def)
qed

end
