(* ===== verification/Mission_Properties.thy ===== *)
theory Mission_Properties
  imports Mission_Invariants
begin

text \<open>
  Every transaction of the mission routes keeps the invariant; the properties of the routes.
\<close>

section \<open>The transactions keep the invariant\<close>

lemma insertMissionCreatedNotifications_cases:
  obtains ns where "insertMissionCreatedNotifications m c d = notify ns d"
    "\<And>n. n \<in> set ns \<Longrightarrow> note_user n \<in> account_id ` set (accounts d) \<and> note_mission n = Some (mission_id m) \<and>
       note_task n = None"
proof
  show "insertMissionCreatedNotifications m c d = notify (map (\<lambda>u. \<lparr>note_user = u, note_kind = js ''mission_created'', note_title = js ''NEW MISSION'',
          note_message = mission_title m @ middle_dot @ missionActorName c @ js '' created a new mission'',
          note_mission = Some (mission_id m), note_task = None\<rparr>)
       (filter (\<lambda>u. account_live d u \<and> u \<noteq> caller_id c)
         (remdups (map member_user (filter (\<lambda>r. member_group r = mission_group m) (members d)))))) d"
    by (simp add: insertMissionCreatedNotifications_def)
qed (auto dest!: account_live_mem)

lemma create_mission_Commit:
  assumes "create_mission_tx now fresh c gid title description d = Commit a d'"
  obtains m ns where "m = \<lparr>mission_id = fresh, mission_group = gid, mission_created_by = Some (caller_id c),
       mission_title = title, mission_description = description, mission_status = Work_open,
       mission_created_at = now, mission_updated_at = now, mission_completed_at = None\<rparr>"
    "a = Mission_saved 201 (Some m)" "d' = notify ns (d\<lparr>missions := missions d @ [m]\<rparr>)"
    "group_exists d gid" "find_account d (caller_id c) \<noteq> None" "has_text title" "fresh \<notin> set (map mission_id (missions d))"
    "\<And>n. n \<in> set ns \<Longrightarrow> note_user n \<in> account_id ` set (accounts d) \<and> note_mission n = Some fresh \<and> note_task n = None"
proof -
  let ?m = "\<lparr>mission_id = fresh, mission_group = gid, mission_created_by = Some (caller_id c),
       mission_title = title, mission_description = description, mission_status = Work_open,
       mission_created_at = now, mission_updated_at = now, mission_completed_at = None\<rparr>"
  let ?d = "d\<lparr>missions := missions d @ [?m]\<rparr>"
  obtain ns where ns: "insertMissionCreatedNotifications ?m c ?d = notify ns ?d"
    "\<And>n. n \<in> set ns \<Longrightarrow> note_user n \<in> account_id ` set (accounts ?d) \<and> note_mission n = Some (mission_id ?m) \<and>
       note_task n = None"
    by (rule insertMissionCreatedNotifications_cases [of ?m c ?d]) (rule that)
  from assms have conds: "group_exists d gid" "find_account d (caller_id c) \<noteq> None" "has_text title"
      "fresh \<notin> set (map mission_id (missions d))"
    and res: "a = Mission_saved 201 (Some ?m)" "d' = insertMissionCreatedNotifications ?m c ?d"
    by (simp_all add: create_mission_tx_def Let_def split: if_splits)
  show thesis by (rule that [OF refl res(1) _ conds, of ns]) (use res(2) ns in simp_all)
qed

lemma create_mission_invariant:
  assumes inv: "mission_invariant nm d" and commit: "create_mission_tx now fresh c gid title description d = Commit a d'"
  shows "mission_invariant nm d'"
  using commit
proof (rule create_mission_Commit)
  fix m ns
  assume m: "m = \<lparr>mission_id = fresh, mission_group = gid, mission_created_by = Some (caller_id c),
       mission_title = title, mission_description = description, mission_status = Work_open,
       mission_created_at = now, mission_updated_at = now, mission_completed_at = None\<rparr>"
    and d': "d' = notify ns (d\<lparr>missions := missions d @ [m]\<rparr>)"
    and gid: "group_exists d gid" and c: "find_account d (caller_id c) \<noteq> None" and title: "has_text title"
    and fresh: "fresh \<notin> set (map mission_id (missions d))"
    and ns: "\<And>n. n \<in> set ns \<Longrightarrow> note_user n \<in> account_id ` set (accounts d) \<and> note_mission n = Some fresh \<and> note_task n = None"
  let ?d = "d\<lparr>missions := missions d @ [m]\<rparr>"
  have ok: "mission_tables_ok d" and settled: "\<forall>t \<in> set (tasks d). task_settled d t"
    using inv by (simp_all add: mission_invariant_def invariant_but_def)
  have "caller_id c \<in> account_id ` set (accounts d)" by (rule find_account_mem [OF c])
  moreover have "group_ok ?d = group_ok d" by (rule group_ok_cong) simp_all
  moreover have "references (note_mission n) (mission_id ` set (missions ?d))" if "n \<in> set (notifications d)" for n
    using ok that by (auto simp: mission_tables_ok_def references_def split: option.splits)
  ultimately have ok': "mission_tables_ok ?d"
    using ok gid title fresh by (auto simp: mission_tables_ok_def m references_def group_exists_def)
  have "task_mission t \<noteq> fresh" if "t \<in> set (tasks d)" for t
    using ok fresh that by (metis list.set_map mission_tables_ok_def)
  then have "active_tasks ?d fresh = []" by (simp add: active_tasks_def filter_empty_conv)
  then have new: "mission_derived nm ?d m" by (simp add: mission_derived_def summary_status_def m)
  have "summary_status nm ?d k = summary_status nm d k" for k by (rule summary_cong) simp_all
  with new have "missions_derived_except {} nm ?d"
    using inv by (auto simp: mission_invariant_def invariant_but_def missions_derived_except_def mission_derived_def)
  moreover have "task_settled ?d t = task_settled d t" for t by (rule task_settled_cong) simp
  ultimately have "invariant_but {} nm ?d" using ok' settled by (simp add: invariant_but_def)
  then show ?thesis
    unfolding d' mission_invariant_def
    by (rule notify_invariant_but) (use ns m in \<open>auto simp: references_def\<close>)
qed

lemma change_mission_invariant:
  assumes inv: "mission_invariant nm d" and "changes_storable changes"
  shows "mission_invariant nm (change_mission now mid changes d)"
proof -
  let ?f = "\<lambda>m. m\<lparr>mission_title := coalesce (fst changes) (mission_title m),
                 mission_description := coalesce (snd changes) (mission_description m), mission_updated_at := now\<rparr>"
  let ?d = "change_mission now mid changes d"
  have ok: "mission_tables_ok d" and settled: "\<forall>t \<in> set (tasks d). task_settled d t"
    using inv by (simp_all add: mission_invariant_def invariant_but_def)
  have ms: "missions ?d = update_where (\<lambda>m. mission_id m = mid) ?f (missions d)" and ts: "tasks ?d = tasks d"
    and cs: "contributions ?d = contributions d" and rest: "accounts ?d = accounts d" "members ?d = members d"
      "group_rows ?d = group_rows d" "notifications ?d = notifications d"
    by (simp_all add: change_mission_def)
  have ids: "map mission_id (missions ?d) = map mission_id (missions d)" unfolding ms by (rule map_key_update_where) simp
  then have idset: "mission_id ` set (missions ?d) = mission_id ` set (missions d)" by (metis set_map)
  have title: "has_text (coalesce (fst changes) (mission_title m))" if "m \<in> set (missions d)" for m
    using assms(2) that ok by (auto simp: changes_storable_def coalesce_def mission_tables_ok_def split: option.splits)
  have "group_ok ?d = group_ok d" by (rule group_ok_cong) (simp_all add: rest)
  moreover have "\<forall>m \<in> set (missions ?d). has_text (mission_title m) \<and> mission_group m \<in> group_id ` set (group_rows d) \<and>
        references (mission_created_by m) (account_id ` set (accounts d))"
    using ok title by (auto simp: ms update_where_mem mission_tables_ok_def)
  ultimately have "mission_tables_ok ?d" using ok ids idset by (simp add: mission_tables_ok_def ts cs rest)
  moreover have "summary_status nm ?d k = summary_status nm d k" for k by (rule summary_cong) (simp_all add: ts cs)
  then have "mission_derived nm ?d (if mission_id m = mid then ?f m else m) = mission_derived nm d m" for m
    by (simp add: mission_derived_def)
  then have "missions_derived_except {} nm ?d"
    using inv by (auto simp: missions_derived_except_def ms update_where_mem mission_invariant_def invariant_but_def)
  moreover have "task_settled ?d t = task_settled d t" for t by (rule task_settled_cong) (rule cs)
  ultimately show ?thesis using settled by (simp add: mission_invariant_def invariant_but_def ts)
qed

lemma find_mission_mem: "find_mission d mid \<noteq> None \<Longrightarrow> mid \<in> mission_id ` set (missions d)"
  using find_mission_Some [of d mid] by (cases "find_mission d mid") auto

lemma create_task_invariant:
  assumes inv: "mission_invariant nm d" and commit: "create_task_tx nm now fresh c m x d = Commit a d'"
  shows "mission_invariant nm d'"
proof -
  let ?t = "new_task now fresh (mission_id m) x"
  let ?d = "d\<lparr>tasks := tasks d @ [?t]\<rparr>"
  have conds: "find_mission d (mission_id m) \<noteq> None" "row_storable d ?t" "fresh \<notin> set (map task_id (tasks d))"
    using commit by (auto simp: create_task_tx_def Let_def split: if_splits)
  have "invariant_but {mission_id m} nm ?d"
    using new_task_invariant [OF inv, of ?t] conds by (simp add: new_task_def row_storable_def)
  moreover have "mission_id m \<in> mission_id ` set (missions ?d)" using find_mission_mem [OF conds(1)] by simp
  moreover have "references (Some fresh) (task_id ` set (tasks ?d))" by (simp add: references_def new_task_def)
  ultimately have "invariant_but {mission_id m} nm
      (insertMissionNotification (in_assigned x) (caller_id c) (mission_group m) ''mission_task_assigned'' ''MISSION TASK ASSIGNED''
         (mission_title m @ middle_dot @ in_title x @ middle_dot @ missionActorName c @ js '' assigned you'') (mission_id m)
         (Some fresh) ?d)"
    by (rule insertMissionNotification_invariant_but)
  moreover note commit
  ultimately show ?thesis
    using conds by (auto simp: create_task_tx_def Let_def intro: finish_task_invariant)
qed

lemma update_task_simps [simp]:
  "missions (update_task tid mid f d) = missions d" "contributions (update_task tid mid f d) = contributions d"
  "accounts (update_task tid mid f d) = accounts d" "members (update_task tid mid f d) = members d"
  "group_rows (update_task tid mid f d) = group_rows d" "notifications (update_task tid mid f d) = notifications d"
  "tasks (update_task tid mid f d) = update_where (\<lambda>t. task_id t = tid \<and> task_mission t = mid) f (tasks d)"
  by (simp_all add: update_task_def)

lemma with_task_status_simps [simp]:
  "task_id (with_task_status now st t) = task_id t" "task_mission (with_task_status now st t) = task_mission t"
  "task_type (with_task_status now st t) = task_type t" "task_title (with_task_status now st t) = task_title t"
  "assigned_to (with_task_status now st t) = assigned_to t" "target_quantity (with_task_status now st t) = target_quantity t"
  "task_status (with_task_status now st t) = st"
  "(task_completed_at (with_task_status now st t) = None) = (st \<noteq> Completed)"
  by (simp_all add: with_task_status_def)

lemma task_checks_with_status [simp]: "task_checks (with_task_status now st t) = task_checks t"
  by (simp only: task_checks_def with_task_status_simps)

lemma invariant_task:
  assumes "mission_invariant nm d" "find_task d tid mid = Some t"
  shows "task_settled d t" "task_checks t" "references (assigned_to t) (account_id ` set (accounts d))"
    "mid \<in> mission_id ` set (missions d)"
  using assms find_task_Some [OF assms(2)]
  by (auto simp: mission_invariant_def invariant_but_def mission_tables_ok_def)

lemma updated_task_ids:
  "find_task d tid mid = Some t \<Longrightarrow> (\<And>t. task_id (f t) = task_id t) \<Longrightarrow>
     references (Some tid) (task_id ` set (tasks (update_task tid mid f d)))"
proof -
  assume found: "find_task d tid mid = Some t" and f: "\<And>t. task_id (f t) = task_id t"
  have "map task_id (tasks (update_task tid mid f d)) = map task_id (tasks d)"
    unfolding update_task_simps by (rule map_key_update_where) (rule f)
  then have "task_id ` set (tasks (update_task tid mid f d)) = task_id ` set (tasks d)" by (metis set_map)
  with find_task_Some [OF found] show ?thesis by (auto simp: references_def)
qed

text \<open>The notification that may follow a change to a task.\<close>

lemma after_task_note:
  assumes "invariant_but {mid} nm d" "mid \<in> mission_id ` set (missions d)" "references (Some tid) (task_id ` set (tasks d))"
  shows "invariant_but {mid} nm (if b then insertMissionNotification r actor gid kind ti msg mid (Some tid) d else d)"
  using assms by (simp add: insertMissionNotification_invariant_but)

lemma contribute_Commit:
  assumes "contribute_tx nm now fresh c m role tid q d = Commit a d'"
  obtains t d2 target where "find_task d tid (mission_id m) = Some t" "task_type t = Item" "task_status t \<noteq> Cancelled"
    "canManageMission m role c \<or> assigned_to t = Some (caller_id c)" "target_quantity t = Some target"
    "contributed d tid + q \<le> target" "find_account d (caller_id c) \<noteq> None"
    "fresh \<notin> set (map contribution_id (contributions d))"
    "d2 = update_task tid (mission_id m) (\<lambda>t. with_task_status now (item_status (contributed d tid + q) (coalesce (target_quantity t) 0)) t)
       (d\<lparr>contributions := contributions d @ [\<lparr>contribution_id = fresh, contribution_task = tid,
          contribution_user = Some (caller_id c), contribution_quantity = q, contribution_created_at = now\<rparr>]\<rparr>)"
    "finish_task nm now 201 c (mission_id m) tid (if assigned_to t \<noteq> None then
       insertMissionNotification (assigned_to t) (caller_id c) (mission_group m) ''mission_item_contribution''
         ''MISSION ITEM CONTRIBUTION'' (contribution_message nm c m t q) (mission_id m) (Some tid) d2 else d2) = Commit a d'"
proof -
  let ?row = "\<lparr>contribution_id = fresh, contribution_task = tid,
          contribution_user = Some (caller_id c), contribution_quantity = q, contribution_created_at = now\<rparr>"
  have sum: "contributed (d\<lparr>contributions := contributions d @ [?row]\<rparr>) tid = contributed d tid + q"
    by (simp add: contributed_def)
  obtain t where t: "find_task d tid (mission_id m) = Some t"
    using assms by (auto simp: contribute_tx_def server_error_def split: option.splits)
  have conds: "task_type t = Item" "task_status t \<noteq> Cancelled"
    "canManageMission m role c \<or> assigned_to t = Some (caller_id c)"
    "\<not> (case target_quantity t of Some target \<Rightarrow> target < contributed d tid + q | None \<Rightarrow> True)"
    "find_account d (caller_id c) \<noteq> None" "fresh \<notin> set (map contribution_id (contributions d))"
    using assms t by (auto simp: contribute_tx_def server_error_def Let_def split: if_splits)
  from conds(4) obtain target where target: "target_quantity t = Some target" "contributed d tid + q \<le> target"
    by (cases "target_quantity t") auto
  have gate: "(\<not> canManageMission m role c \<and> assigned_to t \<noteq> Some (caller_id c)) = False"
    "(case target_quantity t of Some target \<Rightarrow> target < contributed d tid + q | None \<Rightarrow> True) = False"
    "(find_account d (caller_id c) = None \<or> fresh \<in> set (map contribution_id (contributions d))) = False"
    "(task_type t \<noteq> Item) = False" "(task_status t = Cancelled) = False"
    using conds by auto
  from assms [unfolded contribute_tx_def t option.case gate if_False Let_def sum]
  show thesis by (rule that [OF t conds(1,2,3) target conds(5,6) refl])
qed

lemma contribute_invariant:
  assumes inv: "mission_invariant nm d" and q: "0 < q"
    and commit: "contribute_tx nm now fresh c m role tid q d = Commit a d'"
  shows "mission_invariant nm d'"
  using commit
proof (rule contribute_Commit)
  let ?mid = "mission_id m"
  let ?row = "\<lparr>contribution_id = fresh, contribution_task = tid,
          contribution_user = Some (caller_id c), contribution_quantity = q, contribution_created_at = now\<rparr>"
  let ?f = "\<lambda>t. with_task_status now (item_status (contributed d tid + q) (coalesce (target_quantity t) 0)) t"
  fix t d2 target
  assume t: "find_task d tid ?mid = Some t" "task_type t = Item" "target_quantity t = Some target"
    and le: "contributed d tid + q \<le> target" and acc: "find_account d (caller_id c) \<noteq> None"
    and fresh: "fresh \<notin> set (map contribution_id (contributions d))"
    and d2: "d2 = update_task tid ?mid ?f (d\<lparr>contributions := contributions d @ [?row]\<rparr>)"
    and fin: "finish_task nm now 201 c ?mid tid (if assigned_to t \<noteq> None then
       insertMissionNotification (assigned_to t) (caller_id c) (mission_group m) ''mission_item_contribution''
         ''MISSION ITEM CONTRIBUTION'' (contribution_message nm c m t q) ?mid (Some tid) d2 else d2) = Commit a d'"
  have tid: "task_id t = tid" using find_task_Some [OF t(1)] by simp
  have sum: "contributed d2 tid = contributed d tid + q" by (simp add: contributed_def d2)
  note row = invariant_task [OF inv t(1)]
  have "invariant_but {?mid} nm d2"
  proof (rule task_change_invariant [OF inv t(1), where f = ?f and new = "[?row]"])
    show "task_checks (?f t)" using row(2) by simp
    show "references (assigned_to (?f t)) (account_id ` set (accounts d))" using row(3) by simp
    show "task_settled d2 (?f t)"
      using t le by (simp add: task_settled_def tid sum coalesce_def del: not_None_eq)
    show "distinct (map contribution_id (contributions d @ [?row]))"
      using inv fresh by (simp add: mission_invariant_def invariant_but_def mission_tables_ok_def)
    show "0 < contribution_quantity x \<and> references (contribution_user x) (account_id ` set (accounts d))" if "x \<in> set [?row]" for x
      using that q find_account_mem [OF acc] by (simp add: references_def)
  qed (simp_all add: d2)
  moreover have "?mid \<in> mission_id ` set (missions d2)" using row(4) by (simp add: d2)
  moreover have "find_task (d\<lparr>contributions := contributions d @ [?row]\<rparr>) tid ?mid = Some t"
    using t(1) by (simp add: find_task_def)
  then have "references (Some tid) (task_id ` set (tasks d2))"
    unfolding d2 by (rule updated_task_ids) simp
  ultimately show ?thesis using fin by (intro finish_task_invariant [OF after_task_note fin])
qed

lemma patch_status_Commit:
  assumes "patch_status_tx nm now c m role ob t d = Commit a d'"
  obtains st where "task_type t = Checklist" "task_status t \<noteq> Cancelled" "st \<in> {Work_open, Completed}"
    "canManageMission m role c \<or> assigned_to t = Some (caller_id c)"
    "finish_task nm now 200 c (mission_id m) (task_id t)
       (if task_status t \<noteq> st \<and> assigned_to t \<noteq> None
        then insertMissionNotification (assigned_to t) (caller_id c) (mission_group m)
               (if st = Completed then ''mission_task_completed'' else ''mission_task_reopened'')
               (if st = Completed then ''MISSION TASK COMPLETED'' else ''MISSION TASK REOPENED'')
               (checklist_message c m t st) (mission_id m) (Some (task_id t))
               (update_task (task_id t) (mission_id m) (with_task_status now st) d)
        else update_task (task_id t) (mission_id m) (with_task_status now st) d) = Commit a d'"
proof -
  obtain st where st: "checklist_status (prop_of ob ''status'') = Some st"
    using assms by (auto simp: patch_status_tx_def server_error_def split: if_splits option.splits)
  then have two: "st \<in> {Work_open, Completed}" by (auto simp: checklist_status_def split: if_splits)
  have conds: "(key_count ob \<noteq> 1) = False" "(task_type t \<noteq> Checklist) = False" "(task_status t = Cancelled) = False"
    "(\<not> canManageMission m role c \<and> assigned_to t \<noteq> Some (caller_id c)) = False"
    using assms st by (auto simp: patch_status_tx_def server_error_def split: if_splits)
  from assms [unfolded patch_status_tx_def st option.case conds if_False Let_def]
  show thesis by (rule that [OF _ _ two, rotated 3]) (use conds in auto)
qed

lemma patch_metadata_Commit:
  assumes "patch_metadata_tx nm now view c m role ob t d = Commit a d'"
  obtains x where "canManageMission m role c" "read_patch ob t = Inr x"
    "task_type t = Item \<Longrightarrow> contributed d (task_id t) \<le> coalesce (in_target x) 0"
    "row_storable d (apply_patch now (contributed d (task_id t)) x t)"
    "finish_task nm now 200 c (mission_id m) (task_id t)
       (if has_own ob ''assigned_to'' \<and> assigned_to t \<noteq> in_assigned x
        then assignment_notes c m t (in_assigned x) (in_title x)
               (update_task (task_id t) (mission_id m) (apply_patch now (contributed d (task_id t)) x) d)
        else update_task (task_id t) (mission_id m) (apply_patch now (contributed d (task_id t)) x) d) = Commit a d'"
proof -
  obtain x where x: "read_patch ob t = Inr x" and can: "canManageMission m role c"
    using assms by (auto simp: patch_metadata_tx_def server_error_def split: if_splits sum.splits)
  note run = assms [unfolded patch_metadata_tx_def x sum.case Let_def]
  have "(task_type t = Item \<and> \<not> contributed d (task_id t) \<le> coalesce (in_target x) 0) = False"
    and "(\<not> row_storable d (apply_patch now (contributed d (task_id t)) x t)) = False"
    using run can by (auto simp: server_error_def split: if_splits)
  with run can show thesis
    by (intro that [OF can x]) (auto simp: server_error_def split: if_splits)
qed

lemma assignment_notes_invariant:
  assumes "invariant_but {mission_id m} nm d" "mission_id m \<in> mission_id ` set (missions d)"
    "references (Some (task_id t)) (task_id ` set (tasks d))"
  shows "invariant_but {mission_id m} nm (assignment_notes c m t assigned title d)"
proof -
  have keep: "missions (insertMissionNotification r ac g k ti ms mi tk d0) = missions d0 \<and>
      tasks (insertMissionNotification r ac g k ti ms mi tk d0) = tasks d0" for r ac g k ti ms mi tk d0
    by (cases rule: insertMissionNotification_cases [of r ac g k ti ms mi tk d0]) simp_all
  note ins = insertMissionNotification_invariant_but [where tid = "Some (task_id t)"]
  show ?thesis
    unfolding assignment_notes_def Let_def using assms by (simp add: ins keep)
qed

lemma apply_patch_settled:
  assumes "task_settled d t" "task_checks (apply_patch now (contributed d (task_id t)) x t)"
    and "task_type t = Item \<Longrightarrow> contributed d (task_id t) \<le> coalesce (in_target x) 0"
    and "contributions d' = contributions d"
  shows "task_settled d' (apply_patch now (contributed d (task_id t)) x t)"
proof (cases "task_type t")
  case Checklist
  with assms(1) show ?thesis
    unfolding task_settled_cong [OF assms(4)] by (simp add: task_settled_def apply_patch_def Let_def)
next
  case Item
  with assms(2) obtain q where q: "in_target x = Some q" "0 < q"
    by (auto simp: task_checks_def apply_patch_def Let_def split: option.splits)
  have "(q \<le> s) = (item_status s q = Completed)" for s using q(2) by (auto simp: item_status_def)
  then show ?thesis
    using Item assms(3) q unfolding task_settled_cong [OF assms(4)]
    by (simp add: task_settled_def apply_patch_def Let_def coalesce_def)
qed

lemma patch_task_invariant:
  assumes inv: "mission_invariant nm d" and commit: "patch_task_tx nm now view c m role tid ob d = Commit a d'"
  shows "mission_invariant nm d'"
proof -
  let ?mid = "mission_id m"
  obtain t where t: "find_task d tid ?mid = Some t"
    using commit by (auto simp: patch_task_tx_def server_error_def split: option.splits)
  have tid: "task_id t = tid" using find_task_Some [OF t] by simp
  note row = invariant_task [OF inv t]
  have changed: "invariant_but {?mid} nm (update_task tid ?mid f d) \<and>
      ?mid \<in> mission_id ` set (missions (update_task tid ?mid f d)) \<and>
      references (Some tid) (task_id ` set (tasks (update_task tid ?mid f d)))"
    if "\<And>t. task_id (f t) = task_id t" "\<And>t. task_mission (f t) = task_mission t" "task_checks (f t)"
      "references (assigned_to (f t)) (account_id ` set (accounts d))" "task_settled (update_task tid ?mid f d) (f t)" for f
  proof -
    have "distinct (map contribution_id (contributions d))"
      using inv by (simp add: mission_invariant_def invariant_but_def mission_tables_ok_def)
    then have "invariant_but {?mid} nm (update_task tid ?mid f d)"
      by (intro task_change_invariant [OF inv t, where f = f and new = "[]"]) (use that in simp_all)
    with row(4) updated_task_ids [OF t, of f, OF that(1)] show ?thesis by simp
  qed
  show ?thesis
  proof (cases "has_own ob ''status''")
    case True
    with commit t have "patch_status_tx nm now c m role ob t d = Commit a d'" by (simp add: patch_task_tx_def)
    then show ?thesis
    proof (rule patch_status_Commit)
      fix st assume ty: "task_type t = Checklist" and st: "st \<in> {Work_open, Completed}"
        and fin: "finish_task nm now 200 c (mission_id m) (task_id t)
       (if task_status t \<noteq> st \<and> assigned_to t \<noteq> None
        then insertMissionNotification (assigned_to t) (caller_id c) (mission_group m)
               (if st = Completed then ''mission_task_completed'' else ''mission_task_reopened'')
               (if st = Completed then ''MISSION TASK COMPLETED'' else ''MISSION TASK REOPENED'')
               (checklist_message c m t st) (mission_id m) (Some (task_id t))
               (update_task (task_id t) (mission_id m) (with_task_status now st) d)
        else update_task (task_id t) (mission_id m) (with_task_status now st) d) = Commit a d'"
      have "task_settled (update_task tid ?mid (with_task_status now st) d) (with_task_status now st t)"
        using ty st by (auto simp: task_settled_def simp del: not_None_eq)
      with row(2,3) have "invariant_but {?mid} nm (update_task tid ?mid (with_task_status now st) d) \<and>
          ?mid \<in> mission_id ` set (missions (update_task tid ?mid (with_task_status now st) d)) \<and>
          references (Some tid) (task_id ` set (tasks (update_task tid ?mid (with_task_status now st) d)))"
        by (intro changed) simp_all
      then show ?thesis using fin unfolding tid by (blast intro: finish_task_invariant [OF after_task_note])
    qed
  next
    case False
    with commit t have "patch_metadata_tx nm now view c m role ob t d = Commit a d'" by (simp add: patch_task_tx_def)
    then show ?thesis
    proof (rule patch_metadata_Commit)
      fix x
      let ?f = "apply_patch now (contributed d tid) x"
      assume le: "task_type t = Item \<Longrightarrow> contributed d (task_id t) \<le> coalesce (in_target x) 0"
        and ok: "row_storable d (apply_patch now (contributed d (task_id t)) x t)"
        and fin: "finish_task nm now 200 c (mission_id m) (task_id t)
       (if has_own ob ''assigned_to'' \<and> assigned_to t \<noteq> in_assigned x
        then assignment_notes c m t (in_assigned x) (in_title x)
               (update_task (task_id t) (mission_id m) (apply_patch now (contributed d (task_id t)) x) d)
        else update_task (task_id t) (mission_id m) (apply_patch now (contributed d (task_id t)) x) d) = Commit a d'"
      have "task_settled (update_task tid ?mid ?f d) (?f t)"
        using apply_patch_settled [OF row(1), of now x "update_task tid ?mid ?f d"] ok le by (simp add: row_storable_def tid)
      then have "invariant_but {?mid} nm (update_task tid ?mid ?f d) \<and>
          ?mid \<in> mission_id ` set (missions (update_task tid ?mid ?f d)) \<and>
          references (Some tid) (task_id ` set (tasks (update_task tid ?mid ?f d)))"
        using ok by (intro changed) (simp_all add: row_storable_def tid, simp_all add: apply_patch_def Let_def)
      then have "invariant_but {?mid} nm (if has_own ob ''assigned_to'' \<and> assigned_to t \<noteq> in_assigned x
        then assignment_notes c m t (in_assigned x) (in_title x) (update_task tid ?mid ?f d) else update_task tid ?mid ?f d)"
        using assignment_notes_invariant [of m nm "update_task tid ?mid ?f d" t] by (simp add: tid)
      then show ?thesis using fin unfolding tid by (rule finish_task_invariant)
    qed
  qed
qed

lemma unassign_invariant:
  assumes inv: "mission_invariant nm d"
  shows "mission_invariant nm (unassign P uid now d)"
proof -
  let ?d = "unassign P uid now d"
  let ?f = "\<lambda>t. t\<lparr>assigned_to := None, task_updated_at := now\<rparr>"
  let ?Q = "\<lambda>t. P t \<and> assigned_to t = Some uid \<and> task_status t \<in> {Work_open, In_progress}"
  let ?g = "\<lambda>t. if ?Q t then ?f t else t"
  have ok: "mission_tables_ok d" using inv by (simp add: mission_invariant_def invariant_but_def)
  have ts: "tasks ?d = map ?g (tasks d)" and cs: "contributions ?d = contributions d"
    and rest: "missions ?d = missions d" "accounts ?d = accounts d" "members ?d = members d" "group_rows ?d = group_rows d"
      "notifications ?d = notifications d"
    by (simp_all add: unassign_def update_where_def)
  have ids: "map task_id (tasks ?d) = map task_id (tasks d)" by (simp add: ts)
  then have idset: "task_id ` set (tasks ?d) = task_id ` set (tasks d)" by (metis set_map)
  have g: "task_type (?g t) = task_type t" "task_status (?g t) = task_status t" "target_quantity (?g t) = target_quantity t"
    "task_id (?g t) = task_id t" "task_mission (?g t) = task_mission t" "task_completed_at (?g t) = task_completed_at t"
    "task_title (?g t) = task_title t" for t by simp_all
  have percent: "task_percent nm ?d (?g t) = task_percent nm d t" for t
    by (simp only: task_percent_def g contributed_cong [OF cs])
  have active: "active_tasks ?d mid = map ?g (active_tasks d mid)" for mid
    by (simp only: active_tasks_def ts filter_map o_def g)
  have "summary_status nm ?d mid = summary_status nm d mid" for mid
    by (simp only: summary_status_def Let_def active filter_map o_def percent length_map map_is_Nil_conv)
  then have "missions_derived_except {} nm ?d"
    using inv by (simp add: mission_invariant_def invariant_but_def missions_derived_except_def mission_derived_def rest)
  moreover have "task_settled ?d (?g t) = task_settled d t" for t
    by (simp only: task_settled_def g contributed_cong [OF cs])
  note settled = this
  have "\<forall>t \<in> set (tasks ?d). task_settled ?d t"
  proof
    fix t' assume "t' \<in> set (tasks ?d)"
    then obtain t where t: "t \<in> set (tasks d)" "t' = ?g t" by (auto simp: ts)
    with inv have "task_settled d t" by (simp add: mission_invariant_def invariant_but_def)
    then show "task_settled ?d t'" unfolding t(2) by (simp only: settled)
  qed
  moreover have "group_ok ?d = group_ok d" by (rule group_ok_cong) (simp_all add: rest)
  moreover have "\<forall>t \<in> set (tasks ?d). task_checks t \<and> task_mission t \<in> mission_id ` set (missions d) \<and>
        references (assigned_to t) (account_id ` set (accounts d))"
  proof
    fix t' assume "t' \<in> set (tasks ?d)"
    then obtain t where t: "t \<in> set (tasks d)" "t' = ?g t" by (auto simp: ts)
    have "task_checks (?g t) = task_checks t" by (simp only: task_checks_def g)
    with t ok show "task_checks t' \<and> task_mission t' \<in> mission_id ` set (missions d) \<and>
        references (assigned_to t') (account_id ` set (accounts d))" by (auto simp: mission_tables_ok_def references_def)
  qed
  ultimately show ?thesis
    using ok ids idset by (simp add: mission_invariant_def invariant_but_def mission_tables_ok_def rest cs)
qed

section \<open>The step relation\<close>

text \<open>One committed change of the mission tables, or any change of accounts, groups and memberships that
  keeps the constraints.\<close>

inductive mission_step :: "numerics \<Rightarrow> mission_db \<Rightarrow> mission_db \<Rightarrow> bool" for nm where
  step_create_mission: "create_mission_tx now fresh c gid title description d = Commit a d' \<Longrightarrow> mission_step nm d d'"
| step_change_mission: "changes_storable changes \<Longrightarrow> mission_step nm d (change_mission now mid changes d)"
| step_create_task: "create_task_tx nm now fresh c m x d = Commit a d' \<Longrightarrow> mission_step nm d d'"
| step_patch_task: "patch_task_tx nm now view c m role tid ob d = Commit a d' \<Longrightarrow> mission_step nm d d'"
| step_contribute: "contribute_tx nm now fresh c m role tid q d = Commit a d' \<Longrightarrow> 0 < q \<Longrightarrow> mission_step nm d d'"
| step_former_member: "mission_step nm d (unassignOpenMissionTasksForFormerMember gid uid now d)"
| step_inactive_user: "mission_step nm d (unassignOpenMissionTasksForInactiveUser uid now d)"
| step_groups: "mission_tables_ok (d\<lparr>accounts := us, group_rows := gs, members := ms\<rparr>) \<Longrightarrow>
     mission_step nm d (d\<lparr>accounts := us, group_rows := gs, members := ms\<rparr>)"

lemma mission_step_invariant: "mission_step nm d d' \<Longrightarrow> mission_invariant nm d \<Longrightarrow> mission_invariant nm d'"
proof (induction rule: mission_step.induct)
  case (step_groups ms gs us d)
  let ?d = "d\<lparr>accounts := us, group_rows := gs, members := ms\<rparr>"
  have "task_settled ?d t = task_settled d t" for t by (rule task_settled_cong) simp
  moreover have "summary_status nm ?d k = summary_status nm d k" for k by (rule summary_cong) simp_all
  ultimately show ?case using step_groups
    by (simp add: mission_invariant_def invariant_but_def missions_derived_except_def mission_derived_def)
next
  case (step_create_mission now fresh c gid title description d a d')
  from create_mission_invariant [OF this(2,1)] show ?case .
next
  case (step_change_mission changes d now mid)
  from change_mission_invariant [OF this(2,1)] show ?case .
next
  case (step_create_task now fresh c m x d a d')
  from create_task_invariant [OF this(2,1)] show ?case .
next
  case (step_patch_task now view c m role tid ob d a d')
  from patch_task_invariant [OF this(2,1)] show ?case .
next
  case (step_contribute now fresh c m role tid q d a d')
  from contribute_invariant [OF this(3,2,1)] show ?case .
next
  case (step_former_member d gid uid now)
  then show ?case unfolding unassignOpenMissionTasksForFormerMember_def by (rule unassign_invariant)
next
  case (step_inactive_user d uid now)
  then show ?case unfolding unassignOpenMissionTasksForInactiveUser_def by (rule unassign_invariant)
qed

interpretation mission_requests: stepwise "mission_step nm" "mission_invariant nm" for nm
  by unfold_locales (rule mission_step_invariant)

section \<open>What a route may do\<close>

lemma run_tx_met:
  assumes "run_tx fault e body d = (answer, d')"
  shows "d' = d \<or> (\<exists>a. body d = Commit a d' \<and> (answer = a \<or> answer = e))"
  using assms by (auto simp: run_tx_def split: if_splits tx_outcome.splits)

lemma with_mission_cases:
  assumes "with_mission env current missionId continue d0 = (answer, d')"
  obtains (refused) status e where "answer = Mission_error status e" "met env d0 d'"
  | (admitted) c m role d1 where "current = Some c" "met env d0 d1"
      "loadMissionAccess d1 (uuid_canonical missionId) (caller_id c) = Some (m, role)" "role \<noteq> None \<or> caller_admin c"
      "continue c m role (others env 1 d1) = (answer, d')"
proof -
  let ?d1 = "others env 0 d0"
  have met: "met env d0 d0" "met env d0 ?d1" by (rule met_start, rule met_once)
  show thesis
  proof (cases "\<exists>c m role. current = Some c \<and> server_uuid missionId \<and> \<not> query_fails env 0 \<and>
      loadMissionAccess ?d1 (uuid_canonical missionId) (caller_id c) = Some (m, role) \<and> (role \<noteq> None \<or> caller_admin c)")
    case True
    then obtain c m role where c: "current = Some c" "server_uuid missionId" "\<not> query_fails env 0"
      "loadMissionAccess ?d1 (uuid_canonical missionId) (caller_id c) = Some (m, role)" "role \<noteq> None \<or> caller_admin c" by blast
    have "(role = None \<and> \<not> caller_admin c) = False" using c(5) by blast
    with assms c show thesis by (intro admitted [OF c(1) met(2) c(4,5)]) (simp add: with_mission_def Let_def)
  next
    case False
    show thesis
    proof (cases "\<exists>c m role. current = Some c \<and> server_uuid missionId \<and> \<not> query_fails env 0 \<and>
      loadMissionAccess ?d1 (uuid_canonical missionId) (caller_id c) = Some (m, role)")
      case True
      then obtain c m role where c: "current = Some c" "server_uuid missionId" "\<not> query_fails env 0"
        "loadMissionAccess ?d1 (uuid_canonical missionId) (caller_id c) = Some (m, role)" by blast
      with False have "(role = None \<and> \<not> caller_admin c) = True" by blast
      with assms c met(2) show thesis by (intro refused) (auto simp: with_mission_def Let_def)
    next
      case none: False
      show thesis
      proof (cases "\<exists>c. current = Some c \<and> server_uuid missionId \<and> \<not> query_fails env 0")
        case True
        then obtain c where c: "current = Some c" "server_uuid missionId" "\<not> query_fails env 0" by blast
        with none have "loadMissionAccess ?d1 (uuid_canonical missionId) (caller_id c) = None"
          by (cases "loadMissionAccess ?d1 (uuid_canonical missionId) (caller_id c)") auto
        with assms c met(2) show thesis by (intro refused) (auto simp: with_mission_def Let_def)
      next
        case False
        with assms met show thesis
          by (cases current; cases "server_uuid missionId")
            (auto simp: with_mission_def Let_def service_unavailable_def intro: refused)
      qed
    qed
  qed
qed

end
