(* ===== verification/Mission_Routes.thy ===== *)
theory Mission_Routes
  imports Mission_Properties
begin

text \<open>
  The mission routes as the server dispatches them, and what a request can do to the tables
  whatever other requests commit while it waits.
\<close>

section \<open>Dispatch\<close>

text \<open>\<open>[^/]+\<close> of the three path patterns: a segment that is not empty. \<open>None\<close>: no mission route takes the request.\<close>

definition mission_path :: "jsstr \<Rightarrow> jsstr list option" where
  "mission_path path =
     (case split_on 47 path of
        e # a # b # rest \<Rightarrow>
          if e = [] \<and> a = js ''api'' \<and> b = js ''missions'' \<and> list_all (\<lambda>s. s \<noteq> []) rest then Some rest else None
      | _ \<Rightarrow> None)"

definition missionRoutes ::
    "numerics \<Rightarrow> mission_db route_env \<Rightarrow> string \<Rightarrow> jsstr \<Rightarrow> caller option \<Rightarrow> jsstr \<Rightarrow> json option \<Rightarrow> mission_db \<Rightarrow>
     (mission_answer \<times> mission_db) option" where
  "missionRoutes nm env meth path current groupId body d =
     (case mission_path path of
        None \<Rightarrow> None
      | Some [] \<Rightarrow>
          if current = None then Some (Mission_error 401 ''login required'', d)
          else if meth = ''GET'' then Some (listMissions nm env current groupId d)
          else if meth = ''POST'' then Some (createMission env current body d) else None
      | Some [mid] \<Rightarrow>
          if meth = ''GET'' then Some (getMission nm env current mid d)
          else if meth = ''PATCH'' then Some (patchMission env current mid body d) else None
      | Some [mid, w] \<Rightarrow>
          if w = js ''tasks'' \<and> meth = ''POST'' then Some (createTask nm env current mid body d) else None
      | Some [mid, w, tid] \<Rightarrow>
          if w = js ''tasks'' \<and> meth = ''PATCH'' then Some (patchTask nm env current mid tid body d) else None
      | Some [mid, w, tid, x] \<Rightarrow>
          if w = js ''tasks'' \<and> x = js ''contributions'' \<and> meth = ''POST''
          then Some (contributeTask nm env current mid tid body d) else None
      | _ \<Rightarrow> None)"

section \<open>Outcomes of the single routes\<close>

text \<open>A route's outcome: nothing of its own was written, or exactly one step was, and then the answer is no
  error but a possible 503 for a lost acknowledgement.\<close>

definition outcome_ok :: "numerics \<Rightarrow> mission_db route_env \<Rightarrow> mission_db \<Rightarrow> mission_answer \<times> mission_db \<Rightarrow> bool" where
  "outcome_ok nm env d0 r \<longleftrightarrow>
     met env d0 (snd r) \<or>
     ((\<exists>d. met env d0 d \<and> mission_step nm d (snd r)) \<and> (\<forall>st e. fst r = Mission_error st e \<longrightarrow> st = 503))"

lemma outcome_met: "met env d0 d \<Longrightarrow> outcome_ok nm env d0 (a, d)"
  by (simp add: outcome_ok_def)

lemma met_next: "met env d0 d \<Longrightarrow> met env d0 (others env i d)"
  by (rule met_step)

lemma outcome_run_tx:
  assumes "met env d0 d" "\<And>a d'. body d = Commit a d' \<Longrightarrow> mission_step nm d d' \<and> (\<forall>st e. a \<noteq> Mission_error st e)"
  shows "outcome_ok nm env d0 (run_tx fault service_unavailable body d)"
proof (cases "run_tx fault service_unavailable body d")
  case (Pair a d')
  from run_tx_met [OF Pair] show ?thesis
  proof
    assume "d' = d" with assms(1) Pair show ?thesis by (simp add: outcome_met)
  next
    assume "\<exists>a'. body d = Commit a' d' \<and> (a = a' \<or> a = service_unavailable)"
    with assms Pair show ?thesis by (auto simp: outcome_ok_def service_unavailable_def)
  qed
qed

lemma finish_task_saved: "finish_task nm now status c mid tid d = Commit a d' \<Longrightarrow> \<exists>t m. a = Task_saved status t m"
  by (auto simp: finish_task_def Let_def split: prod.splits)

lemma create_task_saved:
  assumes "create_task_tx nm now fresh c m x d = Commit a d'"
  shows "\<exists>t v. a = Task_saved 201 t v"
  using assms finish_task_saved by (fastforce simp: create_task_tx_def Let_def split: if_splits)

lemma patch_task_saved:
  assumes "patch_task_tx nm now view c m role tid ob d = Commit a d'"
  shows "\<exists>t v. a = Task_saved 200 t v"
proof -
  obtain t where t: "find_task d tid (mission_id m) = Some t"
    using assms by (auto simp: patch_task_tx_def server_error_def split: option.splits)
  show ?thesis
  proof (cases "has_own ob ''status''")
    case True
    with assms t have "patch_status_tx nm now c m role ob t d = Commit a d'" by (simp add: patch_task_tx_def)
    then show ?thesis by (rule patch_status_Commit) (drule finish_task_saved, blast)
  next
    case False
    with assms t have "patch_metadata_tx nm now view c m role ob t d = Commit a d'" by (simp add: patch_task_tx_def)
    then show ?thesis by (rule patch_metadata_Commit) (drule finish_task_saved, blast)
  qed
qed

lemma contribute_saved:
  assumes "contribute_tx nm now fresh c m role tid q d = Commit a d'"
  shows "\<exists>t v. a = Task_saved 201 t v"
  using assms by (rule contribute_Commit) (drule finish_task_saved, blast)

lemma create_mission_saved:
  "create_mission_tx now fresh c gid title description d = Commit a d' \<Longrightarrow> \<exists>m. a = Mission_saved 201 (Some m)"
  by (auto simp: create_mission_tx_def Let_def split: if_splits)

lemma with_mission_outcome:
  assumes "\<And>c m role d1. met env d0 d1 \<Longrightarrow> current = Some c \<Longrightarrow>
      outcome_ok nm env d0 (continue c m role (others env 1 d1))"
  shows "outcome_ok nm env d0 (with_mission env current missionId continue d0)"
proof (cases "with_mission env current missionId continue d0")
  case (Pair a d')
  from Pair show ?thesis
  proof (cases rule: with_mission_cases)
    case (refused status e)
    with Pair show ?thesis by (simp add: outcome_met)
  next
    case (admitted c m role d1)
    with assms [OF admitted(2,1), of m role] Pair show ?thesis by simp
  qed
qed

lemma createMission_outcome: "outcome_ok nm env d0 (createMission env current body d0)"
proof -
  note m = outcome_met met_next met_start
  have tx: "outcome_ok nm env d0 (run_tx (tx_ends env) service_unavailable
      (create_mission_tx (moment env) (new_id env 0) c gid title description) d)" if "met env d0 d" for c gid title description d
    using that by (rule outcome_run_tx) (auto intro: step_create_mission dest: create_mission_saved)
  show ?thesis
    by (auto simp: createMission_def Let_def service_unavailable_def [symmetric] split: option.splits json.splits
        intro!: m tx)
qed

lemma patchMission_outcome: "outcome_ok nm env d0 (patchMission env current missionId body d0)"
proof -
  note m = outcome_met met_next met_start
  have change: "outcome_ok nm env d0 (Mission_saved n x, change_mission now mid changes d)"
    if "met env d0 d" "changes_storable changes" for n x now mid changes d
    using that by (auto simp: outcome_ok_def intro: step_change_mission)
  show ?thesis
    by (auto simp: patchMission_def Let_def split: option.splits json.splits sum.splits intro!: change met_next met_start intro: outcome_met)
qed

lemma createTask_outcome: "outcome_ok nm env d0 (createTask nm env current missionId body d0)"
  unfolding createTask_def
proof (rule with_mission_outcome)
  fix c m role d1
  assume met: "met env d0 d1"
  note ms = outcome_met met_next met
  have tx: "outcome_ok nm env d0 (run_tx (tx_ends env) service_unavailable
      (create_task_tx nm (moment env) (new_id env 0) c m x) d)" if "met env d0 d" for x d
    using that by (rule outcome_run_tx) (auto intro: step_create_task dest: create_task_saved)
  show "outcome_ok nm env d0 (case body of
            None \<Rightarrow> (Mission_error 400 ''invalid JSON'', others env 1 d1)
          | Some (JObj ob) \<Rightarrow>
              if \<not> canManageMission m role c
              then (Mission_error 403 ''mission creator, group owner, or app admin required'', others env 1 d1)
              else (case read_task ob of
                      Inl answer \<Rightarrow> (answer, others env 1 d1)
                    | Inr x \<Rightarrow>
                        let d3 = others env 2 (others env 1 d1) in
                        if in_assigned x \<noteq> None \<and> query_fails env 2 then (service_unavailable, d3)
                        else if \<not> validateAssignee d3 (mission_group m) (in_assigned x)
                        then (Mission_error 400 ''assignee must be an active group member'', d3)
                        else run_tx (tx_ends env) service_unavailable
                          (create_task_tx nm (moment env) (new_id env 0) c m x) (others env 3 d3))
          | Some v \<Rightarrow> (Mission_error 400 ''invalid task'', others env 1 d1))"
    by (auto simp: Let_def split: option.splits json.splits sum.splits intro!: ms tx)
qed

lemma patchTask_outcome: "outcome_ok nm env d0 (patchTask nm env current missionId taskId body d0)"
  unfolding patchTask_def
proof (rule with_mission_outcome)
  fix c m role d1
  assume met: "met env d0 d1"
  note ms = outcome_met met_next met
  have tx: "outcome_ok nm env d0 (run_tx (tx_ends env) service_unavailable
      (patch_task_tx nm now view c m role tid ob) d)" if "met env d0 d" for now view tid ob d
    using that by (rule outcome_run_tx) (auto intro: step_patch_task dest: patch_task_saved)
  show "outcome_ok nm env d0 (case body of
            None \<Rightarrow> (Mission_error 400 ''invalid JSON'', others env 1 d1)
          | Some (JObj ob) \<Rightarrow>
              if \<not> server_uuid taskId then (Mission_error 400 ''invalid task'', others env 1 d1)
              else let d3 = others env 2 (others env 1 d1) in
                run_tx (tx_ends env) service_unavailable
                  (patch_task_tx nm (moment env) (d3, query_fails env 2) c m role (uuid_canonical taskId) ob) d3
          | Some v \<Rightarrow> (Mission_error 400 ''invalid task'', others env 1 d1))"
    by (auto simp: Let_def split: option.splits json.splits intro!: ms tx)
qed

lemma contribution_amount_pos: "contribution_amount v = Some q \<Longrightarrow> 0 < q"
  by (auto simp: contribution_amount_def split: json.splits if_splits option.splits jsnum.splits)

lemma contributeTask_outcome: "outcome_ok nm env d0 (contributeTask nm env current missionId taskId body d0)"
proof -
  have "outcome_ok nm env d0 (with_mission env current missionId
       (\<lambda>c m role d2.
          case body of
            None \<Rightarrow> (Mission_error 400 ''invalid JSON'', d2)
          | Some v \<Rightarrow>
              (case contribution_amount v of
                 None \<Rightarrow> (Mission_error 400 ''invalid contribution'', d2)
               | Some q \<Rightarrow>
                   run_tx (tx_ends env) service_unavailable
                     (contribute_tx nm (moment env) (new_id env 0) c m role (uuid_canonical taskId) q) (others env 2 d2))) d0)"
  proof (rule with_mission_outcome)
    fix c m role d1
    assume met: "met env d0 d1"
    note ms = outcome_met met_next met
    have tx: "outcome_ok nm env d0 (run_tx (tx_ends env) service_unavailable
        (contribute_tx nm now fresh c m role tid q) d)" if "met env d0 d" "0 < q" for now fresh tid q d
      using that(1) by (rule outcome_run_tx) (auto intro: step_contribute that(2) dest: contribute_saved)
    show "outcome_ok nm env d0 (case body of
            None \<Rightarrow> (Mission_error 400 ''invalid JSON'', others env 1 d1)
          | Some v \<Rightarrow>
              (case contribution_amount v of
                 None \<Rightarrow> (Mission_error 400 ''invalid contribution'', others env 1 d1)
               | Some q \<Rightarrow>
                   run_tx (tx_ends env) service_unavailable
                     (contribute_tx nm (moment env) (new_id env 0) c m role (uuid_canonical taskId) q) (others env 2 (others env 1 d1))))"
      by (auto split: option.splits intro!: ms tx dest: contribution_amount_pos)
  qed
  then show ?thesis by (simp add: contributeTask_def outcome_met met_start)
qed

lemma listMissions_outcome: "met env d0 (snd (listMissions nm env current groupId d0))"
  by (auto simp: listMissions_def Let_def split: option.splits intro!: met_next met_start)

lemma getMission_outcome: "met env d0 (snd (getMission nm env current missionId d0))"
  by (auto simp: getMission_def mission_details_def Let_def split: option.splits intro!: met_next met_start)

lemma missionRoutes_outcome:
  assumes "missionRoutes nm env meth path current groupId body d0 = Some r"
  shows "outcome_ok nm env d0 r"
proof -
  note out = createMission_outcome patchMission_outcome createTask_outcome patchTask_outcome contributeTask_outcome
  have reads: "outcome_ok nm env d0 (listMissions nm env current groupId d0)"
    "outcome_ok nm env d0 (getMission nm env current mid d0)" for current mid
    by (simp_all add: outcome_ok_def listMissions_outcome getMission_outcome)
  have login: "outcome_ok nm env d0 (Mission_error 401 ''login required'', d0)" by (intro outcome_met met_start)
  from assms show ?thesis
    unfolding missionRoutes_def
    by (auto split: option.splits list.splits if_splits intro: out reads login)
qed

end
