(* ===== verification/Mission_Theorems.thy ===== *)
theory Mission_Theorems
  imports Mission_Routes
begin

text \<open>
  The properties of the mission routes, and the sample tables their witnesses run on.
\<close>

section \<open>Sample tables\<close>

definition sample_uuid :: "nat \<Rightarrow> jsstr" where
  "sample_uuid k = replicate 8 k @ [45] @ replicate 4 k @ [45] @ [52] @ replicate 3 k @ [45] @ [97] @ replicate 3 k @ [45] @ replicate 12 k"

definition sample_numerics :: numerics where
  "sample_numerics = \<lparr>numeric_div = (/), number_text = (\<lambda>r. js ''n'')\<rparr>"

definition sample_task :: task where
  "sample_task = \<lparr>task_id = sample_uuid 52, task_mission = sample_uuid 51, task_type = Item, task_title = js ''iron'',
     task_description = None, assigned_to = Some (sample_uuid 49), target_quantity = Some 10, task_unit = None,
     task_status = Work_open, sort_order = 0, task_created_at = 0, task_updated_at = 0, task_completed_at = None\<rparr>"

definition sample_mission :: mission where
  "sample_mission = \<lparr>mission_id = sample_uuid 51, mission_group = sample_uuid 50, mission_created_by = Some (sample_uuid 48),
     mission_title = js ''haul'', mission_description = None, mission_status = Work_open, mission_created_at = 0,
     mission_updated_at = 0, mission_completed_at = None\<rparr>"

definition sample_groups :: mission_db where
  "sample_groups = \<lparr>accounts = [\<lparr>account_id = sample_uuid 48, account_state = Active, account_display_name = js ''A'', account_verselink_name = None\<rparr>,
       \<lparr>account_id = sample_uuid 49, account_state = Active, account_display_name = js ''B'', account_verselink_name = None\<rparr>],
     group_rows = [\<lparr>group_id = sample_uuid 50, group_name = js ''g'', group_creator = Some (sample_uuid 48)\<rparr>],
     members = [\<lparr>member_group = sample_uuid 50, member_user = sample_uuid 48, member_role = Owner\<rparr>,
       \<lparr>member_group = sample_uuid 50, member_user = sample_uuid 49, member_role = Member\<rparr>],
     missions = [], tasks = [], contributions = [], notifications = []\<rparr>"

definition sample_missions :: mission_db where
  "sample_missions = sample_groups\<lparr>missions := [sample_mission], tasks := [sample_task]\<rparr>"

definition sample_caller :: caller where
  "sample_caller = \<lparr>caller_id = sample_uuid 49, caller_admin = False, caller_verselink_name = None, caller_display_name = js ''B''\<rparr>"

lemmas sample_defs = sample_missions_def sample_groups_def sample_mission_def sample_task_def sample_caller_def sample_numerics_def

lemma sample_uuid_eq [simp]: "sample_uuid j = sample_uuid k \<longleftrightarrow> j = k"
  by (simp add: sample_uuid_def numeral_eq_Suc)

lemma sample_groups_ok: "group_ok sample_groups"
  by (simp add: sample_defs group_ok_def)

lemma sample_missions_ok: "mission_invariant sample_numerics sample_missions"
  by (simp add: sample_defs mission_invariant_def invariant_but_def mission_tables_ok_def group_ok_def has_text_def
      references_def task_checks_def js_def missions_derived_except_def mission_derived_def task_settled_def contributed_def
      item_status_def coalesce_def summary_status_def active_tasks_def task_percent_def)

lemmas task_eval = find_task_def find_account_def contributed_def item_status_def coalesce_def canManageMission_def
  with_task_status_def update_task_def update_where_def

section \<open>Reachable tables\<close>

text \<open>C5. From empty mission tables, whatever missions, tasks, contributions, departures and group changes are
  committed in whatever order: the constraints hold, no item task ever holds more than its target, the status of
  every item task that is not cancelled is the one its quantity gives, and the status of every mission that is not
  cancelled is the one its tasks give.\<close>

theorem missions_reachable:
  assumes start: "group_ok d0" "missions d0 = []" "tasks d0 = []" "contributions d0 = []" "notifications d0 = []"
    and steps: "(mission_step nm)\<^sup>*\<^sup>* d0 d"
  shows "mission_tables_ok d \<and>
    (\<forall>t \<in> set (tasks d). task_type t = Item \<longrightarrow> (\<exists>q. target_quantity t = Some q \<and> 0 < q \<and>
       contributed d (task_id t) \<le> q \<and>
       (task_status t \<noteq> Cancelled \<longrightarrow> task_status t = item_status (contributed d (task_id t)) q))) \<and>
    (\<forall>m \<in> set (missions d). mission_status m \<noteq> Cancelled \<longrightarrow>
       mission_status m = summary_status nm d (mission_id m) \<and>
       (mission_completed_at m \<noteq> None \<longleftrightarrow> mission_status m = Completed))"
proof -
  have "mission_invariant nm d0"
    using start by (simp add: mission_invariant_def invariant_but_def mission_tables_ok_def missions_derived_except_def)
  with steps have inv: "mission_invariant nm d" by (rule mission_requests.steps_keep)
  have "\<exists>q. target_quantity t = Some q \<and> 0 < q \<and> contributed d (task_id t) \<le> q \<and>
       (task_status t \<noteq> Cancelled \<longrightarrow> task_status t = item_status (contributed d (task_id t)) q)"
    if t: "t \<in> set (tasks d)" "task_type t = Item" for t
  proof -
    from t inv have "task_checks t" "task_settled d t"
      by (simp_all add: mission_invariant_def invariant_but_def mission_tables_ok_def)
    with t(2) show ?thesis
      by (cases "target_quantity t") (simp_all add: task_checks_def task_settled_def coalesce_def)
  qed
  moreover have "\<forall>m \<in> set (missions d). mission_derived nm d m"
    using inv by (simp add: mission_invariant_def invariant_but_def missions_derived_except_def)
  ultimately show ?thesis
    using inv by (simp add: mission_invariant_def invariant_but_def mission_derived_def) blast
qed

theorem missions_reachable_witness:
  "\<exists>d. (mission_step sample_numerics)\<^sup>*\<^sup>* sample_groups d \<and> missions d \<noteq> [] \<and> mission_tables_ok d"
proof -
  obtain d where d: "create_mission_tx 5 (sample_uuid 51) sample_caller (sample_uuid 50) (js ''haul'') None sample_groups
      = Commit (Mission_saved 201 (Some (sample_mission\<lparr>mission_created_by := Some (sample_uuid 49), mission_created_at := 5,
          mission_updated_at := 5\<rparr>))) d" "missions d \<noteq> []"
    by (simp add: create_mission_tx_def sample_defs group_exists_def find_account_def has_text_def js_def pg_text_def
        pg_text_option_def Let_def insertMissionCreatedNotifications_def)
  then have "(mission_step sample_numerics)\<^sup>*\<^sup>* sample_groups d" by (blast intro: step_create_mission)
  with missions_reachable [OF sample_groups_ok _ _ _ _ this] d(2) show ?thesis by (auto simp: sample_groups_def)
qed

section \<open>Contributions\<close>

lemma finish_task_simps:
  assumes "finish_task nm now status c mid tid d = Commit a d'"
  shows "tasks d' = tasks d" "contributions d' = contributions d" "accounts d' = accounts d" "members d' = members d"
    "group_rows d' = group_rows d"
  using assms by (auto elim!: finish_task_Commit)

lemma insertMissionNotification_simps [simp]:
  "tasks (insertMissionNotification r actor gid kind ti msg mid tid d) = tasks d"
  "contributions (insertMissionNotification r actor gid kind ti msg mid tid d) = contributions d"
  by (cases rule: insertMissionNotification_cases [of r actor gid kind ti msg mid tid d]; simp)+

lemma finish_task_total: "\<exists>a d'. finish_task nm now status c mid tid d = Commit a d'"
  by (cases "recalculateMissionStatus nm now mid d") (simp add: finish_task_def Let_def)

lemma contribute_effect:
  assumes "contribute_tx nm now fresh c m role tid q d = Commit a d'"
  shows "(\<forall>k. contributed d' k = contributed d k + (if k = tid then q else 0)) \<and>
      tasks d' = map (\<lambda>r. if task_id r = tid \<and> task_mission r = mission_id m
        then with_task_status now (item_status (contributed d tid + q) (coalesce (target_quantity r) 0)) r else r) (tasks d)"
  using assms
proof (rule contribute_Commit)
  fix t2 d2 target2
  assume d2: "d2 = update_task tid (mission_id m) (\<lambda>t. with_task_status now (item_status (contributed d tid + q) (coalesce (target_quantity t) 0)) t)
       (d\<lparr>contributions := contributions d @ [\<lparr>contribution_id = fresh, contribution_task = tid,
          contribution_user = Some (caller_id c), contribution_quantity = q, contribution_created_at = now\<rparr>]\<rparr>)"
    and fin: "finish_task nm now 201 c (mission_id m) tid (if assigned_to t2 \<noteq> None then
       insertMissionNotification (assigned_to t2) (caller_id c) (mission_group m) ''mission_item_contribution''
         ''MISSION ITEM CONTRIBUTION'' (contribution_message nm c m t2 q) (mission_id m) (Some tid) d2 else d2) = Commit a d'"
  have "tasks d' = tasks d2" "contributions d' = contributions d2"
    using finish_task_simps(1,2) [OF fin] by (simp_all split: if_splits)
  then show ?thesis by (simp add: d2 contributed_def update_where_def)
qed

text \<open>C7. A contribution is booked exactly when the task is an item task that is not cancelled, the caller manages
  the mission or is assigned, and the sum stays within the target; then the task's sum grows by exactly that
  quantity, no other task's sum or row changes, and the row gets the status of its new sum.\<close>

theorem contribution_exact:
  assumes "find_task d tid (mission_id m) = Some t" "target_quantity t = Some target"
    and "find_account d (caller_id c) \<noteq> None" "fresh \<notin> set (map contribution_id (contributions d))"
  shows "((\<exists>a d'. contribute_tx nm now fresh c m role tid q d = Commit a d') \<longleftrightarrow>
      task_type t = Item \<and> task_status t \<noteq> Cancelled \<and>
      (canManageMission m role c \<or> assigned_to t = Some (caller_id c)) \<and> contributed d tid + q \<le> target) \<and>
    (\<forall>a d'. contribute_tx nm now fresh c m role tid q d = Commit a d' \<longrightarrow>
      (\<forall>k. contributed d' k = contributed d k + (if k = tid then q else 0)) \<and>
      tasks d' = map (\<lambda>r. if task_id r = tid \<and> task_mission r = mission_id m
        then with_task_status now (item_status (contributed d tid + q) (coalesce (target_quantity r) 0)) r else r) (tasks d))"
proof (intro conjI allI impI)
  let ?can = "canManageMission m role c \<or> assigned_to t = Some (caller_id c)"
  show "(\<exists>a d'. contribute_tx nm now fresh c m role tid q d = Commit a d') \<longleftrightarrow>
      task_type t = Item \<and> task_status t \<noteq> Cancelled \<and> ?can \<and> contributed d tid + q \<le> target" (is "?L \<longleftrightarrow> ?R")
  proof
    assume ?L
    then obtain a d' where "contribute_tx nm now fresh c m role tid q d = Commit a d'" by blast
    then show ?R by (rule contribute_Commit) (use assms(1,2) in auto)
  next
    assume R: ?R
    then have gate: "(task_type t \<noteq> Item) = False" "(task_status t = Cancelled) = False"
      "(\<not> canManageMission m role c \<and> assigned_to t \<noteq> Some (caller_id c)) = False"
      "(target < contributed d tid + q) = False"
      "(find_account d (caller_id c) = None \<or> fresh \<in> set (map contribution_id (contributions d))) = False"
      using assms(3,4) by auto
    show ?L
      unfolding contribute_tx_def assms(1,2) option.case gate if_False Let_def by (rule finish_task_total)
  qed
next
  fix a d' k
  assume "contribute_tx nm now fresh c m role tid q d = Commit a d'"
  from contribute_effect [OF this] show "contributed d' k = contributed d k + (if k = tid then q else 0)"
    and "tasks d' = map (\<lambda>r. if task_id r = tid \<and> task_mission r = mission_id m
        then with_task_status now (item_status (contributed d tid + q) (coalesce (target_quantity r) 0)) r else r) (tasks d)"
    by simp_all
qed

theorem contribution_exact_witness:
  "(\<exists>a d. contribute_tx sample_numerics 7 (sample_uuid 53) sample_caller sample_mission (Some Member) (sample_uuid 52) 10 sample_missions
       = Commit a d) \<and>
   (\<nexists>a d. contribute_tx sample_numerics 7 (sample_uuid 53) sample_caller sample_mission (Some Member) (sample_uuid 52) 11 sample_missions
       = Commit a d)"
  using contribution_exact [of sample_missions "sample_uuid 52" sample_mission sample_task 10 sample_caller "sample_uuid 53"
      sample_numerics 7 "Some Member" 10]
    contribution_exact [of sample_missions "sample_uuid 52" sample_mission sample_task 10 sample_caller "sample_uuid 53"
      sample_numerics 7 "Some Member" 11]
  by (simp add: sample_defs find_task_def find_account_def contributed_def)

section \<open>Completion\<close>

text \<open>What the completion of a mission needs of the database's division: it rounds neither across one nor to zero.\<close>

definition exact_division :: "numerics \<Rightarrow> bool" where
  "exact_division nm \<longleftrightarrow> (\<forall>s t. 0 < t \<longrightarrow> (1 \<le> numeric_div nm s t \<longleftrightarrow> t \<le> s) \<and> (0 < numeric_div nm s t \<longleftrightarrow> 0 < s))"

lemma exact_sample: "exact_division sample_numerics"
  by (auto simp: exact_division_def sample_numerics_def divide_simps)

lemma contributed_nonneg:
  assumes "mission_tables_ok d"
  shows "0 \<le> contributed d k"
proof -
  have "\<forall>q \<in> set (map contribution_quantity (filter (\<lambda>c. contribution_task c = k) (contributions d))). 0 \<le> q"
    using assms by (auto simp: mission_tables_ok_def intro: less_imp_le)
  then show ?thesis unfolding contributed_def by (intro sum_list_nonneg) blast
qed

lemma task_percent_full:
  assumes "exact_division nm" "task_checks t" "task_settled d t" "task_status t \<noteq> Cancelled" "0 \<le> contributed d (task_id t)"
  shows "task_percent nm d t = 100 \<longleftrightarrow> task_status t = Completed"
proof (cases "task_type t")
  case Item
  with assms(2) obtain q where q: "target_quantity t = Some q" "0 < q"
    by (auto simp: task_checks_def split: option.splits)
  have "task_percent nm d t = 100 \<longleftrightarrow> 1 \<le> numeric_div nm (contributed d (task_id t)) q"
    using Item q(1) by (auto simp: task_percent_def min_def)
  also have "\<dots> \<longleftrightarrow> q \<le> contributed d (task_id t)" using assms(1) q(2) by (simp add: exact_division_def)
  finally show ?thesis using assms(3,4) Item q by (auto simp: task_settled_def coalesce_def item_status_def)
qed (simp add: task_percent_def)

lemma length_filter_all: "length (filter P xs) = length xs \<longleftrightarrow> (\<forall>x \<in> set xs. P x)"
  by (metis filter_True length_filter_less less_irrefl)



lemma find_mission_recalculate:
  "find_mission (recalculate nm now mid d) mid =
     map_option (with_status now (summary_status nm d mid)) (find_mission d mid)"
proof -
  have "mission_id (with_status now st m) = mission_id m" for st m by (simp add: with_status_def)
  then have "find (\<lambda>m. mission_id m = mid) (update_where (\<lambda>m. mission_id m = mid) (with_status now st) ms)
      = map_option (with_status now st) (find (\<lambda>m. mission_id m = mid) ms)" for st ms
    by (induction ms) (auto simp: update_where_def)
  then show ?thesis by (simp add: find_mission_def recalculate_def)
qed

lemma finish_task_notifications:
  assumes found: "find_mission d mid = Some m" and fin: "finish_task nm now status c mid tid d = Commit a d'"
  shows "notifications d' = notifications d @
     (if mission_status m \<notin> {Completed, Cancelled} \<and> summary_status nm d mid = Completed
      then map (\<lambda>u. \<lparr>note_user = u, note_kind = js ''mission_completed'', note_title = js ''MISSION COMPLETED'',
          note_message = mission_title m @ middle_dot @ missionActorName c @ js '' completed the mission'',
          note_mission = Some mid, note_task = None\<rparr>)
        (completion_recipients (recalculate nm now mid d) (with_status now (summary_status nm d mid) m) (caller_id c))
      else [])"
proof -
  let ?m = "with_status now (summary_status nm d mid) m"
  have mid: "mission_id m = mid" using find_mission_Some [OF found] by simp
  have view: "mv_mission (view_mission nm e x) = x" for e x by (simp add: view_mission_def Let_def)
  have keep: "mission_id ?m = mid" "mission_title ?m = mission_title m"
    "mission_status ?m = (if mission_status m = Cancelled then Cancelled else summary_status nm d mid)"
    by (simp_all add: with_status_def mid)
  have rc: "recalculateMissionStatus nm now mid d =
      (\<lparr>rc_mission = Some (view_mission nm (recalculate nm now mid d) ?m), rc_previous = Some (mission_status m),
        rc_completed_now = (mission_status m \<noteq> Completed \<and> mission_status ?m = Completed)\<rparr>, recalculate nm now mid d)"
    by (simp add: recalculateMissionStatus_def loadMissionProgress_def find_mission_recalculate found view Let_def)
  from fin show ?thesis
    unfolding finish_task_def rc Let_def prod.case
    by (auto simp: notifyMissionCompletion_def insertMissionCompletionNotifications_def view keep split: if_splits)
qed

lemma filter_update_where_same: "(\<And>r. P (f r) = P r) \<Longrightarrow> filter P (update_where P f rows) = map f (filter P rows)"
  by (induction rows) (auto simp: update_where_def)

lemma the_ids_mem: "u \<in> set (the_ids (map f xs)) \<longleftrightarrow> (\<exists>x \<in> set xs. f x = Some u)"
  by (induction xs) (auto simp: the_ids_def split: option.splits)

text \<open>A task change announces the mission's completion exactly when it brings it about: one notification for
  each of the creator, the assignees of active tasks and the owners of the group who is an active member
  and not the actor, none twice; else none.\<close>

theorem completion_announced_once:
  assumes found: "find_mission d mid = Some m" and fin: "finish_task nm now status c mid tid d = Commit a d'"
    and keys: "distinct (map mission_id (missions d))"
  shows "\<exists>ns. notifications d' = notifications d @ ns \<and> distinct (map note_user ns) \<and>
    (\<forall>n \<in> set ns. note_kind n = js ''mission_completed'' \<and> note_mission n = Some mid) \<and>
    set (map note_user ns) =
      (if mission_status m \<notin> {Completed, Cancelled} \<and> summary_status nm d mid = Completed
       then {u. u \<noteq> caller_id c \<and> account_live d u \<and> role_of d (mission_group m) u \<noteq> None \<and>
              (mission_created_by m = Some u \<or>
               (\<exists>t \<in> set (active_tasks d mid). assigned_to t = Some u) \<or>
               (\<exists>r \<in> set (members d). member_group r = mission_group m \<and> member_role r = Owner \<and> member_user r = u))}
       else {})"
proof -
  let ?d = "recalculate nm now mid d" and ?m = "with_status now (summary_status nm d mid) m"
  have mid: "m \<in> set (missions d)" "mission_id m = mid" using find_mission_Some [OF found] by simp_all
  have keep: "mission_id ?m = mid" "mission_group ?m = mission_group m" by (simp_all add: with_status_def mid)
  have only: "x = m" if "mission_id x = mid" "x \<in> set (missions d)" for x
    using key_unique [OF keys that(2) mid(1)] that(1) mid(2) by simp
  have ms: "missions ?d = update_where (\<lambda>m. mission_id m = mid) (with_status now (summary_status nm d mid)) (missions d)"
    by (simp add: recalculate_def)
  have kept: "mission_id (with_status now st x) = mission_id x" "mission_created_by (with_status now st x) = mission_created_by x"
    for st x by (simp_all add: with_status_def)
  have rows: "filter (\<lambda>x. mission_id x = mid) (missions ?d) =
      map (with_status now (summary_status nm d mid)) (filter (\<lambda>x. mission_id x = mid) (missions d))"
    unfolding ms by (rule filter_update_where_same) (simp only: kept)
  have created: "map mission_created_by (filter (\<lambda>x. mission_id x = mid) (missions ?d)) =
      map mission_created_by (filter (\<lambda>x. mission_id x = mid) (missions d))"
    unfolding rows by (simp add: kept)
  have single: "set (filter (\<lambda>x. mission_id x = mid) (missions d)) = {m}"
  proof (rule set_eqI)
    fix x show "x \<in> set (filter (\<lambda>x. mission_id x = mid) (missions d)) \<longleftrightarrow> x \<in> {m}"
      using only [of x] mid by (cases "x = m") auto
  qed
  have creator: "u \<in> set (the_ids (map mission_created_by (filter (\<lambda>x. mission_id x = mid) (missions ?d)))) \<longleftrightarrow>
      mission_created_by m = Some u" for u
    unfolding created the_ids_mem single by simp
  have same: "account_live ?d = account_live d" "role_of ?d = role_of d" "active_tasks ?d = active_tasks d"
    by (auto simp: fun_eq_iff account_live_def find_account_def role_of_def active_tasks_def)
  have recipients: "set (completion_recipients ?d ?m (caller_id c)) =
      {u. u \<noteq> caller_id c \<and> account_live d u \<and> role_of d (mission_group m) u \<noteq> None \<and>
              (mission_created_by m = Some u \<or>
               (\<exists>t \<in> set (active_tasks d mid). assigned_to t = Some u) \<or>
               (\<exists>r \<in> set (members d). member_group r = mission_group m \<and> member_role r = Owner \<and> member_user r = u))}"
    unfolding completion_recipients_def keep same set_filter set_remdups set_append Un_iff creator unfolding the_ids_mem by auto
  have "distinct (completion_recipients ?d ?m (caller_id c))" by (simp add: completion_recipients_def)
  then have dist: "distinct (map note_user (map (\<lambda>u. \<lparr>note_user = u, note_kind = js ''mission_completed'',
      note_title = js ''MISSION COMPLETED'', note_message = msg, note_mission = Some mid, note_task = None\<rparr>)
      (completion_recipients ?d ?m (caller_id c))))" for msg by (simp add: o_def)
  note ns = finish_task_notifications [OF found fin]
  show ?thesis
  proof (cases "mission_status m \<notin> {Completed, Cancelled} \<and> summary_status nm d mid = Completed")
    case True
    show ?thesis
      unfolding ns if_P [OF True] by (intro exI conjI, rule refl, rule dist)
        (simp, simp only: list.set_map image_image notification.select_convs image_ident recipients if_True)
  next
    case False
    show ?thesis unfolding ns if_not_P [OF False] by (intro exI [of _ "[]"]) simp
  qed
qed

definition sample_full :: mission_db where
  "sample_full = sample_missions\<lparr>contributions := [\<lparr>contribution_id = sample_uuid 53, contribution_task = sample_uuid 52,
     contribution_user = None, contribution_quantity = 10, contribution_created_at = 0\<rparr>]\<rparr>"

theorem completion_announced_once_witness:
  "\<exists>a d. finish_task sample_numerics 7 201 sample_caller (sample_uuid 51) (sample_uuid 52) sample_full = Commit a d \<and>
     set (map note_user (notifications d)) = {sample_uuid 48}"
proof -
  obtain a d where fin: "finish_task sample_numerics 7 201 sample_caller (sample_uuid 51) (sample_uuid 52) sample_full = Commit a d"
    using finish_task_total by blast
  have found: "find_mission sample_full (sample_uuid 51) = Some sample_mission" "distinct (map mission_id (missions sample_full))"
    by (simp_all add: find_mission_def sample_full_def sample_defs)
  have "active_tasks sample_full (sample_uuid 51) = [sample_task]" by (simp add: active_tasks_def sample_full_def sample_defs)
  moreover from this have "summary_status sample_numerics sample_full (sample_uuid 51) = Completed"
    by (simp add: summary_status_def task_percent_def contributed_def sample_full_def sample_defs)
  moreover obtain ns where "notifications d = notifications sample_full @ ns" "set (map note_user ns) =
      (if mission_status sample_mission \<notin> {Completed, Cancelled} \<and> summary_status sample_numerics sample_full (sample_uuid 51) = Completed
       then {u. u \<noteq> caller_id sample_caller \<and> account_live sample_full u \<and> role_of sample_full (mission_group sample_mission) u \<noteq> None \<and>
              (mission_created_by sample_mission = Some u \<or>
               (\<exists>t \<in> set (active_tasks sample_full (sample_uuid 51)). assigned_to t = Some u) \<or>
               (\<exists>r \<in> set (members sample_full). member_group r = mission_group sample_mission \<and> member_role r = Owner \<and> member_user r = u))}
       else {})"
    using completion_announced_once [OF found(1) fin found(2)] by blast
  ultimately have "set (map note_user (notifications d)) = {sample_uuid 48}"
    by (auto simp: sample_full_def sample_defs account_live_def find_account_def role_of_def)
  with fin show ?thesis by blast
qed

end
