(* ===== verification/Mission_Safety.thy ===== *)
theory Mission_Safety
  imports Mission_Theorems
begin

text \<open>
  Who may write missions and tasks, what an error answer leaves behind, and the mission routes as a
  refinement of \<open>mission_step\<close>, whatever is committed between a request's queries.
\<close>

section \<open>Errors and refinement\<close>

text \<open>C38. A mission request answered with an error other than 503 has written nothing: the tables are what the
  other requests made of them.\<close>

theorem mission_errors_write_nothing:
  assumes "missionRoutes nm env meth path current groupId body d0 = Some (Mission_error st e, d')" "st \<noteq> 503"
  shows "met env d0 d'"
  using missionRoutes_outcome [OF assms(1)] assms(2) by (simp add: outcome_ok_def)

theorem mission_errors_write_nothing_witness:
  "missionRoutes sample_numerics undisturbed ''POST'' (js ''/api/missions'') (Some sample_caller) [] None sample_missions
     = Some (Mission_error 400 ''invalid JSON'', sample_missions) \<and> met undisturbed sample_missions sample_missions"
proof -
  have run: "missionRoutes sample_numerics undisturbed ''POST'' (js ''/api/missions'') (Some sample_caller) [] None sample_missions
     = Some (Mission_error 400 ''invalid JSON'', sample_missions)"
    by (simp add: missionRoutes_def mission_path_def js_def createMission_def)
  from mission_errors_write_nothing [OF this] run show ?thesis by simp
qed

text \<open>C15. However mission requests interleave with other commits, all a request makes of the tables is a sequence of
  mission steps, so the invariant of the tables holds after every request.\<close>

theorem mission_routes_refine:
  assumes others: "\<And>i z. (mission_step nm)\<^sup>*\<^sup>* z (others env i z)"
    and run: "missionRoutes nm env meth path current groupId body d0 = Some (answer, d')"
  shows "(mission_step nm)\<^sup>*\<^sup>* d0 d' \<and> (mission_invariant nm d0 \<longrightarrow> mission_invariant nm d')"
proof -
  have "one_step (mission_step nm) env d0 d'"
    using missionRoutes_outcome [OF run] by (auto simp: outcome_ok_def one_step_def)
  then show ?thesis by (rule mission_requests.request_steps [OF others])
qed

theorem mission_routes_refine_witness:
  "\<exists>d'. missionRoutes sample_numerics undisturbed ''POST'' (js ''/api/missions'') (Some sample_caller) [] None sample_missions
     = Some (Mission_error 400 ''invalid JSON'', d') \<and> mission_invariant sample_numerics d'"
proof -
  have run: "missionRoutes sample_numerics undisturbed ''POST'' (js ''/api/missions'') (Some sample_caller) [] None sample_missions
     = Some (Mission_error 400 ''invalid JSON'', sample_missions)"
    by (simp add: missionRoutes_def mission_path_def js_def createMission_def)
  from mission_routes_refine [OF _ this] sample_missions_ok run show ?thesis by simp
qed

section \<open>Who may write\<close>

definition may_write ::
    "mission_db route_env \<Rightarrow> jsstr list \<Rightarrow> caller \<Rightarrow> mission_db \<Rightarrow> bool" where
  "may_write env parts c d0 \<longleftrightarrow>
     (\<exists>d1. met env d0 d1 \<and>
       (case parts of
          [] \<Rightarrow> \<exists>gid. role_of d1 gid (caller_id c) \<noteq> None
        | mid # rest \<Rightarrow> \<exists>m role. loadMissionAccess d1 (uuid_canonical mid) (caller_id c) = Some (m, role) \<and>
            (canManageMission m role c \<or>
             (role \<noteq> None \<and> (\<exists>w tid more d2 t. rest = w # tid # more \<and> met env d0 d2 \<and>
                find_task d2 (uuid_canonical tid) (mission_id m) = Some t \<and> assigned_to t = Some (caller_id c))))))"

lemma createMission_writes:
  assumes "createMission env current body d0 = (a, d')" "\<not> met env d0 d'"
  shows "\<exists>c. current = Some c \<and> may_write env [] c d0"
proof -
  obtain c where c: "current = Some c"
    using assms by (cases current) (auto simp: createMission_def intro: met_start)
  have "\<exists>gid d. met env d0 d \<and> role_of d gid (caller_id c) \<noteq> None"
  proof (rule ccontr)
    assume none: "\<nexists>gid d. met env d0 d \<and> role_of d gid (caller_id c) \<noteq> None"
    then have role: "role_of (others env i (others env j d0)) gid (caller_id c) = None" for i j gid
      using met_next [OF met_next [OF met_start [of env d0], of j], of i] by blast
    have "met env d0 (snd (createMission env current body d0))"
      by (auto simp: createMission_def Let_def c role split: option.splits json.splits intro: met_next met_start)
    with assms show False by simp
  qed
  with c show ?thesis by (auto simp: may_write_def)
qed

lemma patchMission_writes:
  assumes "patchMission env current mid body d0 = (a, d')" "\<not> met env d0 d'"
  shows "\<exists>c. current = Some c \<and> may_write env [mid] c d0"
proof -
  obtain c where c: "current = Some c"
    using assms by (cases current) (auto simp: patchMission_def intro: met_start)
  have "\<exists>m role. loadMissionAccess (others env 0 d0) (uuid_canonical mid) (caller_id c) = Some (m, role) \<and> canManageMission m role c"
  proof (rule ccontr)
    assume none: "\<nexists>m role. loadMissionAccess (others env 0 d0) (uuid_canonical mid) (caller_id c) = Some (m, role) \<and>
      canManageMission m role c"
    have "met env d0 (snd (patchMission env current mid body d0))"
      using none by (auto simp: patchMission_def Let_def c split: option.splits intro: met_next met_start)
    with assms show False by simp
  qed
  with c met_next [OF met_start, of env d0 0] show ?thesis by (auto simp: may_write_def)
qed

lemma createTask_writes:
  assumes "createTask nm env current mid body d0 = (a, d')" "\<not> met env d0 d'"
  shows "\<exists>c. current = Some c \<and> may_write env [mid, w] c d0"
  using assms(1) unfolding createTask_def
proof (cases rule: with_mission_cases)
  case (admitted c m role d1)
  have "canManageMission m role c"
  proof (rule ccontr)
    assume "\<not> canManageMission m role c"
    then have "d' = others env 1 d1"
      using admitted(5) by (simp split: option.splits json.splits)
    with met_next [OF admitted(2)] assms(2) show False by simp
  qed
  with admitted show ?thesis by (auto simp: may_write_def)
qed (use assms in simp)

lemma may_write_task:
  assumes "met env d0 d1" "loadMissionAccess d1 (uuid_canonical mid) (caller_id c) = Some (m, role)"
    and role: "role \<noteq> None \<or> caller_admin c" and t: "met env d0 d2" "find_task d2 (uuid_canonical tid) (mission_id m) = Some t"
    and can: "canManageMission m role c \<or> assigned_to t = Some (caller_id c)"
  shows "may_write env (mid # w # tid # rest) c d0"
proof -
  have "canManageMission m role c \<or> role \<noteq> None \<and> assigned_to t = Some (caller_id c)"
    using can role by (auto simp: canManageMission_def)
  with t have "canManageMission m role c \<or>
      (role \<noteq> None \<and> (\<exists>w' tid' more d2 t. w # tid # rest = w' # tid' # more \<and> met env d0 d2 \<and>
        find_task d2 (uuid_canonical tid') (mission_id m) = Some t \<and> assigned_to t = Some (caller_id c)))" by blast
  with assms(1,2) show ?thesis unfolding may_write_def list.case by blast
qed

lemma patchTask_writes:
  assumes "patchTask nm env current mid tid body d0 = (a, d')" "\<not> met env d0 d'"
  shows "\<exists>c. current = Some c \<and> may_write env (mid # w # tid # rest) c d0"
  using assms(1) unfolding patchTask_def
proof (cases rule: with_mission_cases)
  case (admitted c m role d1)
  let ?d = "others env 2 (others env 1 d1)"
  let ?body = "\<lambda>ob. patch_task_tx nm (moment env) (?d, query_fails env 2) c m role (uuid_canonical tid) ob"
  have mets: "met env d0 (others env 1 d1)" "met env d0 ?d" by (intro met_next admitted(2))+
  obtain ob where "run_tx (tx_ends env) service_unavailable (?body ob) ?d = (a, d')"
    using admitted(5) mets assms(2) by (auto simp: Let_def split: option.splits json.splits if_splits)
  from run_tx_met [OF this] mets assms(2) obtain b where b: "?body ob ?d = Commit b d'" by auto
  obtain t where t: "find_task ?d (uuid_canonical tid) (mission_id m) = Some t"
    using b by (auto simp: patch_task_tx_def server_error_def split: option.splits)
  have "canManageMission m role c \<or> assigned_to t = Some (caller_id c)"
  proof (cases "has_own ob ''status''")
    case True
    with b t have "patch_status_tx nm (moment env) c m role ob t ?d = Commit b d'" by (simp add: patch_task_tx_def)
    then show ?thesis by (rule patch_status_Commit)
  next
    case False
    with b t have "patch_metadata_tx nm (moment env) (?d, query_fails env 2) c m role ob t ?d = Commit b d'"
      by (simp add: patch_task_tx_def)
    then show ?thesis by (rule patch_metadata_Commit) blast
  qed
  from may_write_task [OF admitted(2-4) mets(2) t this] admitted(1) show ?thesis by blast
qed (use assms in simp)

lemma contributeTask_writes:
  assumes "contributeTask nm env current mid tid body d0 = (a, d')" "\<not> met env d0 d'"
  shows "\<exists>c. current = Some c \<and> may_write env (mid # w # tid # rest) c d0"
proof -
  have "(current \<noteq> None \<and> server_uuid mid \<and> \<not> server_uuid tid) = False"
  proof (rule ccontr)
    assume "\<not> ?thesis"
    then have c: "current \<noteq> None \<and> server_uuid mid \<and> \<not> server_uuid tid" by simp
    have "contributeTask nm env current mid tid body d0 = (Mission_error 400 ''invalid task'', d0)"
      unfolding contributeTask_def by (rule if_P [OF c])
    with assms met_start [of env d0] show False by simp
  qed
  note run = assms(1) [unfolded contributeTask_def this if_False]
  from run show ?thesis
  proof (cases rule: with_mission_cases)
    case (admitted c m role d1)
    let ?d = "others env 2 (others env 1 d1)"
    let ?body = "\<lambda>q. contribute_tx nm (moment env) (new_id env 0) c m role (uuid_canonical tid) q"
    have mets: "met env d0 (others env 1 d1)" "met env d0 ?d" by (intro met_next admitted(2))+
    obtain q where "run_tx (tx_ends env) service_unavailable (?body q) ?d = (a, d')"
      using admitted(5) mets assms(2) by (auto split: option.splits)
    from run_tx_met [OF this] mets assms(2) obtain b where b: "?body q ?d = Commit b d'" by auto
    then obtain t where t: "find_task ?d (uuid_canonical tid) (mission_id m) = Some t"
      "canManageMission m role c \<or> assigned_to t = Some (caller_id c)" by (rule contribute_Commit)
    from may_write_task [OF admitted(2-4) mets(2) this] admitted(1) show ?thesis by blast
  qed (use assms in simp)
qed


lemma met_undisturbed: "met undisturbed d d' \<Longrightarrow> d' = d"
  by (induction rule: met.induct) simp_all

lemma sample_uuid_shape [simp]: "48 \<le> k \<Longrightarrow> k \<le> 57 \<Longrightarrow> server_uuid (sample_uuid k)" "uuid_canonical (sample_uuid 51) = sample_uuid 51"
  "uuid_canonical (sample_uuid 52) = sample_uuid 52"
  by (simp_all add: uuid_shape_def sample_uuid_def hex_digit_def uuid_canonical_def lowcase_def numeral_eq_Suc)

definition sample_path :: jsstr where
  "sample_path = [] @ 47 # js ''api'' @ 47 # js ''missions'' @ 47 # sample_uuid 51 @ 47 # js ''tasks'' @ 47 # sample_uuid 52 @
     47 # js ''contributions''"

lemma split_on_append: "sep \<notin> set p \<Longrightarrow> split_on sep (p @ sep # s) = p # split_on sep s"
  by (induction p) (auto split: list.splits)

lemma split_on_whole: "sep \<notin> set p \<Longrightarrow> split_on sep p = [p]"
  by (induction p) (auto split: list.splits)

lemma sample_path: "mission_path sample_path = Some [sample_uuid 51, js ''tasks'', sample_uuid 52, js ''contributions'']"
proof -
  have free: "47 \<notin> set (js ''api'')" "47 \<notin> set (js ''missions'')" "47 \<notin> set (js ''tasks'')" "47 \<notin> set (js ''contributions'')"
    "47 \<notin> set (sample_uuid 51)" "47 \<notin> set (sample_uuid 52)" "47 \<notin> set ([] :: jsstr)"
    by (simp_all add: js_def sample_uuid_def)
  have "sample_uuid k \<noteq> []" "js ''tasks'' \<noteq> []" "js ''contributions'' \<noteq> []" for k by (simp_all add: sample_uuid_def js_def)
  then show ?thesis
    unfolding mission_path_def sample_path_def split_on_append [OF free(1)] split_on_append [OF free(2)] split_on_append [OF free(3)]
      split_on_append [OF free(5)] split_on_append [OF free(6)] split_on_append [OF free(7)] split_on_whole [OF free(4)]
    by (simp only: list.case list.pred_inject simp_thms if_True refl)
qed


section \<open>Typing\<close>

lemma js_trim_length: "length (js_trim s) \<le> length s"
  by (simp add: js_trim_def) (metis length_dropWhile_le length_rev order_trans)

text \<open>C39. Every task input that the server accepts is well-formed: a title of 1 to 500 characters with no space at
  either end; no target and no unit for a checklist; a positive target for an item; a unit of at most 50 characters.\<close>

theorem read_task_typed:
  assumes "read_task ob = Inr x"
  shows "short_text (in_title x) \<and> \<not> trim_space (hd (in_title x)) \<and> \<not> trim_space (last (in_title x)) \<and>
    (in_type x = Checklist \<longrightarrow> in_target x = None \<and> in_unit x = None) \<and>
    (in_type x = Item \<longrightarrow> (\<exists>q. in_target x = Some q \<and> 0 < q)) \<and>
    (\<forall>u. in_unit x = Some u \<longrightarrow> u \<noteq> [] \<and> length u \<le> 50) \<and>
    (\<forall>s. in_description x = Some s \<longrightarrow> length s \<le> 500) \<and>
    (\<forall>s. in_assigned x = Some s \<longrightarrow> server_uuid s)"
proof -
  define title where "title = trimmed_text (prop_of ob ''title'')"
  obtain ty description rank unit assigned where fields: "description_value (prop_of ob ''description'') = Some description"
    "short_text title" "(if has_own ob ''unit'' then normalizeUnit (prop_of ob ''unit'') else Some None) = Some unit"
    "\<not> (ty = Checklist \<and> (given (prop_of ob ''target_quantity'') \<or> unit \<noteq> None))"
    "\<not> (ty = Item \<and> positive_target (prop_of ob ''target_quantity'') = None)"
    "assignee_text (prop_of ob ''assigned_to'') = Some assigned"
    and x: "x = \<lparr>in_type = ty, in_title = title, in_description = description, in_assigned = assigned,
      in_target = (if ty = Item then positive_target (prop_of ob ''target_quantity'') else None),
      in_unit = unit, in_sort = rank\<rparr>"
    using assms unfolding read_task_def Let_def title_def [symmetric]
    by (auto split: if_splits option.splits prod.splits)
  have "title \<noteq> []" using fields(2) by (simp add: short_text_def)
  then have ends: "\<not> trim_space (hd title)" "\<not> trim_space (last title)"
    using js_trim_ends by (auto simp: title_def trimmed_text_def split: option.splits json.splits)
  have target: "0 < q" if "positive_target v = Some q" for v q
    using that by (auto simp: positive_target_def split: jsnum.splits if_splits)
  have unit: "u \<noteq> [] \<and> length u \<le> 50" if "unit = Some u" for u
    using fields(3) that js_trim_length
    by (auto simp: normalizeUnit_def split: if_splits option.splits json.splits intro: order_trans)
  have descr: "length s \<le> 500" if "description = Some s" for s
    using fields(1) that by (auto simp: description_value_def split: if_splits option.splits json.splits)
  have asg: "server_uuid s" if "assigned = Some s" for s
    using fields(6) that by (auto simp: assignee_text_def split: if_splits option.splits json.splits)
  show ?thesis
    using fields(2,4,5) ends target unit descr asg by (auto simp: x)
qed

theorem read_task_typed_witness:
  "\<exists>x. read_task [(js ''type'', jstr ''checklist''), (js ''title'', jstr ''fly'')] = Inr x \<and> in_type x = Checklist \<and> in_target x = None"
proof -
  let ?ob = "[(js ''type'', jstr ''checklist''), (js ''title'', jstr ''fly'')]"
  have props: "prop_of ?ob ''type'' = Some (jstr ''checklist'')" "prop_of ?ob ''title'' = Some (jstr ''fly'')"
    "prop_of ?ob ''description'' = None" "prop_of ?ob ''assigned_to'' = None" "prop_of ?ob ''target_quantity'' = None"
    "prop_of ?ob ''unit'' = None" "prop_of ?ob ''sort_order'' = None"
    by (simp_all add: prop_of_def js_def)
  have "keys_within ?ob [''type'', ''title'', ''description'', ''assigned_to'', ''target_quantity'', ''unit'', ''sort_order'']"
    by (simp add: keys_within_def)
  moreover have "trimmed_text (Some (jstr ''fly'')) = js ''fly''"
    by (simp add: trimmed_text_def js_trim_def trim_space_def white_space_def js_def)
  moreover have "short_text (js ''fly'')" by (simp add: short_text_def js_def)
  ultimately obtain x where x: "read_task ?ob = Inr x" "in_type x = Checklist"
    by (simp add: read_task_def props read_type_def has_own_def given_def description_value_def sort_value_def assignee_text_def)
  from read_task_typed [OF x(1)] x show ?thesis by blast
qed

section \<open>The history of a mission\<close>

lemma map_of_set_key:
  "map_of (map (\<lambda>(j, h). if j = key then (j, v) else (j, h)) xs) k =
     (if k = key \<and> key \<in> fst ` set xs then Some v else map_of xs k)"
proof (induction xs)
  case (Cons x xs)
  then show ?case by (cases x; cases "fst x = key"; cases "k = fst x") auto
qed simp

lemma keys_set_key: "map fst (map (\<lambda>(j, h). if j = key then (j, v) else (j, h)) xs) = map fst xs"
  by (induction xs) auto

lemma push_contribution_keys:
  "distinct (map fst acc) \<Longrightarrow> distinct (map fst (push_contribution acc x)) \<and>
    map_of (push_contribution acc x) k =
      (if k = contribution_task (fst x) then Some (coalesce (map_of acc k) [] @ [x]) else map_of acc k)"
proof -
  assume dist: "distinct (map fst acc)"
  let ?key = "contribution_task (fst x)"
  let ?h = "coalesce (map_of acc ?key) [] @ [x]"
  show ?thesis
  proof (cases "?key \<in> fst ` set acc")
    case True
    with dist show ?thesis by (simp add: push_contribution_def Let_def map_of_set_key keys_set_key del: map_map)
  next
    case False
    then have none: "map_of acc ?key = None" by (simp add: map_of_eq_None_iff)
    with False dist show ?thesis
      by (auto simp: push_contribution_def Let_def coalesce_def map_add_def split: option.splits)
  qed
qed

text \<open>The grouping loop of the mission's page is a filter: each task's history is the list of its contributions, in
  the order of the query.\<close>

theorem contributionsByTask_filter:
  "map_of (contributionsByTask xs) k =
     (let h = filter (\<lambda>x. contribution_task (fst x) = k) xs in if h = [] then None else Some h)"
proof -
  have "distinct (map fst (contributionsByTask xs)) \<and> map_of (contributionsByTask xs) k =
     (let h = filter (\<lambda>x. contribution_task (fst x) = k) xs in if h = [] then None else Some h)"
  proof (induction xs rule: rev_induct)
    case (snoc x xs)
    then have dist: "distinct (map fst (contributionsByTask xs))" by simp
    have step: "contributionsByTask (xs @ [x]) = push_contribution (contributionsByTask xs) x"
      by (simp add: contributionsByTask_def)
    from snoc push_contribution_keys [OF dist, of x k] show ?case
      unfolding step by (auto simp: Let_def coalesce_def)
  qed (simp add: contributionsByTask_def)
  then show ?thesis by blast
qed

end
