(* ===== verification/Sink_Db.thy ===== *)
theory Sink_Db
  imports Group_Db
begin

text \<open>
  The tables of the SCMDB event sink of \<open>src/src/server.js\<close>: connections and revoked tokens, profiles,
  received events, blueprints, and the inventory that game-log transactions feed; their
  constraints; the text an event's values turn into. A connection is known by the hash of its token.
\<close>

section \<open>Tables\<close>

datatype connection_status = Pending | Linked | Disconnected | Revoked_connection

record connection =
  conn_hash :: jsstr
  conn_user :: "jsstr option"
  conn_scmdb_id :: "jsstr option"
  conn_handle :: "jsstr option"
  conn_status :: connection_status
  conn_connected_at :: "int option"
  conn_disconnected_at :: "int option"
  conn_revoked_at :: "int option"
  conn_seen_at :: int

record scmdb_profile =
  prof_hash :: jsstr
  prof_scmdb_id :: jsstr
  prof_name :: "jsstr option"
  prof_rsi_handle :: "jsstr option"
  prof_organizations :: "json list option"

record scmdb_event =
  event_id :: jsstr
  event_hash :: jsstr
  event_name :: jsstr
  event_ts :: int

record blueprint =
  bp_hash :: jsstr
  bp_tag :: jsstr
  bp_product :: "jsstr option"
  bp_owned_at :: int
  bp_first_seen :: int

record catalog_item =
  item_id :: jsstr
  item_external :: "jsstr option"
  item_name :: jsstr
  item_category :: jsstr

record inventory_location =
  loc_id :: jsstr
  loc_external :: "jsstr option"
  loc_name :: jsstr
  loc_system :: "jsstr option"

record inventory_row =
  inv_user :: jsstr
  inv_item :: jsstr
  inv_location :: jsstr
  inv_quantity :: int

datatype storage = Backpack | Station

record sync_row =
  sync_user :: jsstr
  sync_item :: jsstr
  sync_category :: jsstr
  sync_location :: jsstr
  sync_location_name :: jsstr
  sync_storage :: storage
  sync_quantity :: int

datatype direction = To_backpack | To_station

record transaction_row =
  txn_event :: jsstr
  txn_user :: jsstr
  txn_item :: jsstr
  txn_direction :: direction
  txn_quantity :: int
  txn_location :: jsstr
  txn_location_name :: jsstr
  txn_channel :: "jsstr option"

record sink_db = group_db +
  connections :: "connection list"
  revoked_sinks :: "jsstr list"
  profiles :: "scmdb_profile list"
  sink_events :: "scmdb_event list"
  blueprints :: "blueprint list"
  catalog :: "catalog_item list"
  locations :: "inventory_location list"
  inventory :: "inventory_row list"
  sync_rows :: "sync_row list"
  transactions :: "transaction_row list"

section \<open>Constraints\<close>

definition inv_key :: "inventory_row \<Rightarrow> jsstr \<times> jsstr \<times> jsstr" where
  "inv_key r = (inv_user r, inv_item r, inv_location r)"

definition sync_key :: "sync_row \<Rightarrow> jsstr \<times> jsstr \<times> jsstr \<times> storage" where
  "sync_key r = (sync_user r, sync_item r, sync_location r, sync_storage r)"

definition bp_key :: "blueprint \<Rightarrow> jsstr \<times> jsstr" where
  "bp_key b = (bp_hash b, bp_tag b)"

text \<open>The unique columns that may be \<open>NULL\<close>.\<close>

definition externals :: "('r \<Rightarrow> jsstr option) \<Rightarrow> 'r list \<Rightarrow> jsstr list" where
  "externals f rows = concat (map (\<lambda>r. case f r of None \<Rightarrow> [] | Some x \<Rightarrow> [x]) rows)"

definition connections_ok :: "sink_db \<Rightarrow> bool" where
  "connections_ok d \<longleftrightarrow>
     group_ok d \<and> distinct (map conn_hash (connections d)) \<and> distinct (revoked_sinks d) \<and>
     (\<forall>c \<in> set (connections d). \<forall>u. conn_user c = Some u \<longrightarrow> u \<in> account_id ` set (accounts d)) \<and>
     distinct (map prof_hash (profiles d)) \<and> (\<forall>p \<in> set (profiles d). prof_hash p \<in> conn_hash ` set (connections d)) \<and>
     distinct (map event_id (sink_events d)) \<and> (\<forall>e \<in> set (sink_events d). event_hash e \<in> conn_hash ` set (connections d)) \<and>
     distinct (map bp_key (blueprints d)) \<and> (\<forall>b \<in> set (blueprints d). bp_hash b \<in> conn_hash ` set (connections d))"

definition inventory_ok :: "sink_db \<Rightarrow> bool" where
  "inventory_ok d \<longleftrightarrow>
     distinct (map item_id (catalog d)) \<and> distinct (externals item_external (catalog d)) \<and>
     distinct (map loc_id (locations d)) \<and> distinct (externals loc_external (locations d)) \<and>
     distinct (map loc_name (locations d)) \<and>
     distinct (map inv_key (inventory d)) \<and> distinct (map sync_key (sync_rows d)) \<and>
     distinct (map txn_event (transactions d)) \<and>
     (\<forall>r \<in> set (inventory d). 1 \<le> inv_quantity r \<and> inv_quantity r < 2 ^ 31 \<and> inv_user r \<in> account_id ` set (accounts d) \<and>
        inv_item r \<in> item_id ` set (catalog d) \<and> inv_location r \<in> loc_id ` set (locations d)) \<and>
     (\<forall>r \<in> set (sync_rows d). 0 \<le> sync_quantity r \<and> sync_quantity r < 2 ^ 31 \<and> sync_user r \<in> account_id ` set (accounts d)) \<and>
     (\<forall>r \<in> set (transactions d). 0 < txn_quantity r \<and> txn_user r \<in> account_id ` set (accounts d))"

text \<open>A connection revoked by its row is revoked by its token too: the table of revoked tokens is what
  outlives the row.\<close>

definition revocations_ok :: "sink_db \<Rightarrow> bool" where
  "revocations_ok d \<longleftrightarrow> (\<forall>c \<in> set (connections d).
     (conn_revoked_at c \<noteq> None \<longrightarrow> conn_hash c \<in> set (revoked_sinks d)) \<and>
     (conn_status c = Revoked_connection \<longrightarrow> conn_revoked_at c \<noteq> None))"

definition sink_ok :: "sink_db \<Rightarrow> bool" where
  "sink_ok d \<longleftrightarrow> connections_ok d \<and> inventory_ok d \<and> revocations_ok d"

section \<open>Text of a value\<close>

text \<open>\<open>toUpperCase\<close>, as far as the letters of the two directions go: besides a to z, the dotless i, the long s
  and the st ligatures give ASCII letters.\<close>

definition upper_char :: "nat \<Rightarrow> jsstr" where
  "upper_char c =
     (if 97 \<le> c \<and> c \<le> 122 then [c - 32] else if c = 0x131 then [73] else if c = 0x17f then [83]
      else if c = 0xfb05 \<or> c = 0xfb06 then [83, 84] else [c])"

definition to_upper :: "jsstr \<Rightarrow> jsstr" where
  "to_upper s = concat (map upper_char s)"

text \<open>What \<open>jsonb\<close> stores: no NUL and no unpaired surrogate in any string.\<close>

fun json_storable :: "json \<Rightarrow> bool" where
  "json_storable (JStr s) \<longleftrightarrow> pg_text s \<and> \<not> hasUnpairedSurrogate s"
| "json_storable (JArr xs) \<longleftrightarrow> (\<forall>x \<in> set xs. json_storable x)"
| "json_storable (JObj ob) \<longleftrightarrow>
     (\<forall>kv \<in> set ob. pg_text (fst kv) \<and> \<not> hasUnpairedSurrogate (fst kv) \<and> json_storable (snd kv))"
| "json_storable v \<longleftrightarrow> True"

end
