(* ===== verification/Sink.thy ===== *)
theory Sink
  imports Sink_Db Device_Auth
begin

text \<open>
  The SCMDB event sink (\<open>POST /v1/scmdb/:token\<close> of \<open>src/src/server.js\<close>): the validation of an
  envelope, what each event does (\<open>applyBlueprintEvent\<close>), and the transaction around it. An event is
  applied in the order of the code's statements; a statement the database refuses, or a \<open>throw\<close>, ends it
  (\<open>Raised\<close>) and the transaction is rolled back.
\<close>

section \<open>Envelopes\<close>

definition validateEnvelope :: "json \<Rightarrow> string option" where
  "validateEnvelope envelope =
     (let ob = props_of envelope; user = (case prop_of ob ''user'' of Some u \<Rightarrow> props_of u | None \<Rightarrow> []) in
      if prop_of ob ''schema'' \<noteq> Some (jint 1) then Some ''unsupported schema''
      else if \<not> validText 128 (prop_of ob ''event_id'') \<or> \<not> validText 128 (prop_of ob ''event'') then Some ''invalid event identity''
      else if (case prop_of ob ''ts'' of Some (JNum n) \<Rightarrow> safe_integer_of n = None | _ \<Rightarrow> True) then Some ''invalid timestamp''
      else if prop_of ob ''event'' \<noteq> Some (jstr ''inventory.transaction'') \<and> \<not> validText 128 (prop_of user ''id'')
      then Some ''invalid user identity''
      else case prop_of ob ''payload'' of
        Some (JObj p) \<Rightarrow> None
      | Some (JArr xs) \<Rightarrow> None
      | _ \<Rightarrow> Some ''invalid payload'')"

record envelope =
  ev_id :: jsstr
  ev_event :: jsstr
  ev_ts :: int
  ev_user_id :: jsstr
  ev_handle :: "jsstr option"
  ev_payload :: obj

text \<open>The fields of a valid envelope.\<close>

definition coalesce_int :: "int option \<Rightarrow> int" where
  "coalesce_int v = (case v of Some i \<Rightarrow> i | None \<Rightarrow> 0)"

definition text_field :: "obj \<Rightarrow> string \<Rightarrow> jsstr" where
  "text_field ob k = (case prop_of ob k of Some (JStr s) \<Rightarrow> s | _ \<Rightarrow> [])"

definition read_envelope :: "json \<Rightarrow> envelope" where
  "read_envelope j =
     (let ob = props_of j; user = (case prop_of ob ''user'' of Some u \<Rightarrow> props_of u | None \<Rightarrow> []) in
      \<lparr>ev_id = text_field ob ''event_id'', ev_event = text_field ob ''event'',
       ev_ts = (case prop_of ob ''ts'' of Some (JNum n) \<Rightarrow> coalesce_int (safe_integer_of n) | _ \<Rightarrow> 0),
       ev_user_id = text_field user ''id'', ev_handle = valid_text 200 (prop_of user ''handle''),
       ev_payload = (case prop_of ob ''payload'' of Some p \<Rightarrow> props_of p | None \<Rightarrow> [])\<rparr>)"

section \<open>Inventory transactions\<close>

datatype applied = Applied sink_db | Raised string

definition open_connection :: "sink_db \<Rightarrow> jsstr \<Rightarrow> connection option" where
  "open_connection d h = find (\<lambda>c. conn_hash c = h \<and> conn_user c \<noteq> None \<and> conn_status c \<in> {Pending, Linked} \<and>
     conn_revoked_at c = None) (connections d)"

definition find_profile :: "sink_db \<Rightarrow> jsstr \<Rightarrow> scmdb_profile option" where
  "find_profile d h = find (\<lambda>p. prof_hash p = h) (profiles d)"

definition rename_account :: "jsstr \<Rightarrow> jsstr \<Rightarrow> sink_db \<Rightarrow> sink_db" where
  "rename_account name uid d =
     d\<lparr>accounts := update_where (\<lambda>a. account_id a = uid) (\<lambda>a. a\<lparr>account_display_name := name\<rparr>) (accounts d)\<rparr>"

text \<open>\<open>a || b\<close> on texts that may be \<open>NULL\<close>.\<close>

definition or_text :: "jsstr option \<Rightarrow> jsstr option \<Rightarrow> jsstr option" where
  "or_text a b = (if a = None \<or> a = Some [] then b else a)"

definition getConnectedServiceUser :: "jsstr \<Rightarrow> sink_db \<Rightarrow> (jsstr \<times> sink_db) option" where
  "getConnectedServiceUser h d =
     (case open_connection d h of
        Some c \<Rightarrow>
          (case conn_user c of
             Some uid \<Rightarrow>
               (case or_text (Option.bind (find_profile d h) prof_name) (conn_handle c) of
                  Some name \<Rightarrow>
                    Some (uid, if name \<noteq> [] \<and> name \<noteq> js ''SCMDB user'' then rename_account name uid d else d)
                | None \<Rightarrow> Some (uid, d))
           | None \<Rightarrow> None)
      | None \<Rightarrow> None)"

record item_move =
  mv_item :: jsstr
  mv_direction :: direction
  mv_station :: jsstr
  mv_station_name :: jsstr
  mv_quantity :: int
  mv_category :: jsstr
  mv_system :: "jsstr option"
  mv_channel :: "jsstr option"

definition item_class_pattern :: "jsstr \<Rightarrow> bool" where
  "item_class_pattern s \<longleftrightarrow> 1 \<le> length s \<and> length s \<le> 300 \<and>
     list_all (\<lambda>c. (48 \<le> c \<and> c \<le> 57) \<or> (65 \<le> c \<and> c \<le> 90) \<or> (97 \<le> c \<and> c \<le> 122) \<or> c \<in> {45, 46, 95}) s"

definition read_direction :: "jsstr \<Rightarrow> direction option" where
  "read_direction s =
     (if to_upper s = js ''TO_BACKPACK'' then Some To_backpack
      else if to_upper s = js ''TO_STATION'' then Some To_station else None)"

definition null_if_empty :: "jsstr \<Rightarrow> jsstr option" where
  "null_if_empty s = (if s = [] then None else Some s)"

definition read_move :: "(jsnum \<Rightarrow> jsstr) \<Rightarrow> obj \<Rightarrow> item_move option" where
  "read_move nt p =
     (let quantity = (case prop_of p ''quantity'' of None \<Rightarrow> Fin 1 | Some JNull \<Rightarrow> Fin 1 | Some v \<Rightarrow> json_number v) in
      case (text_or nt (prop_of p ''item_class'') [], text_or nt (prop_of p ''direction'') [],
            text_or nt (prop_of p ''station_key'') [], text_or nt (prop_of p ''category'') (js ''Other'')) of
        (Some item, Some dir, Some key, Some category) \<Rightarrow>
          let station = js_trim key in
          (case (text_or nt (prop_of p ''station_name'') (if station = [] then js ''Unbekannter Standort'' else station),
                 read_direction (js_trim dir), integer_of quantity,
                 text_or nt (prop_of p ''star_system'') [], text_or nt (prop_of p ''game_channel'') []) of
             (Some name, Some direction, Some q, Some system, Some channel) \<Rightarrow>
               if \<not> item_class_pattern (js_trim item) \<or> station = [] \<or> 200 < length station \<or> q < 1 \<or> 1000000 < q \<or>
                 js_trim category \<notin> {js ''Weapons'', js ''Armor''}
               then None
               else Some \<lparr>mv_item = js_trim item, mv_direction = direction, mv_station = station, mv_station_name = js_trim name,
                 mv_quantity = q, mv_category = js_trim category, mv_system = null_if_empty system,
                 mv_channel = null_if_empty channel\<rparr>
           | _ \<Rightarrow> None)
      | _ \<Rightarrow> None)"

text \<open>\<open>INSERT INTO inventory_locations ... ON CONFLICT (external_id) DO UPDATE SET name\<close>; the name is unique
  on its own.\<close>

definition upsert_location :: "jsstr \<Rightarrow> item_move \<Rightarrow> sink_db \<Rightarrow> (jsstr \<times> sink_db) option" where
  "upsert_location fresh mv d =
     (case find (\<lambda>l. loc_external l = Some (mv_station mv)) (locations d) of
        Some l \<Rightarrow>
          if \<exists>x \<in> set (locations d). loc_id x \<noteq> loc_id l \<and> loc_name x = mv_station_name mv then None
          else Some (loc_id l, d\<lparr>locations := update_where (\<lambda>x. loc_external x = Some (mv_station mv))
            (\<lambda>x. x\<lparr>loc_name := mv_station_name mv\<rparr>) (locations d)\<rparr>)
      | None \<Rightarrow>
          if fresh \<in> loc_id ` set (locations d) \<or> mv_station_name mv \<in> loc_name ` set (locations d) then None
          else Some (fresh, d\<lparr>locations := locations d @ [\<lparr>loc_id = fresh, loc_external = Some (mv_station mv),
            loc_name = mv_station_name mv, loc_system = mv_system mv\<rparr>]\<rparr>))"

definition upsert_item :: "jsstr \<Rightarrow> item_move \<Rightarrow> sink_db \<Rightarrow> (jsstr \<times> sink_db) option" where
  "upsert_item fresh mv d =
     (case find (\<lambda>i. item_external i = Some (mv_item mv)) (catalog d) of
        Some i \<Rightarrow> Some (item_id i, d\<lparr>catalog := update_where (\<lambda>x. item_external x = Some (mv_item mv))
          (\<lambda>x. x\<lparr>item_category := mv_category mv\<rparr>) (catalog d)\<rparr>)
      | None \<Rightarrow>
          if fresh \<in> item_id ` set (catalog d) then None
          else Some (fresh, d\<lparr>catalog := catalog d @ [\<lparr>item_id = fresh, item_external = Some (mv_item mv),
            item_name = mv_item mv, item_category = mv_category mv\<rparr>]\<rparr>))"

definition own_quantity :: "sink_db \<Rightarrow> jsstr \<times> jsstr \<times> jsstr \<Rightarrow> int" where
  "own_quantity d k = (case find (\<lambda>r. inv_key r = k) (inventory d) of Some r \<Rightarrow> inv_quantity r | None \<Rightarrow> 0)"

text \<open>\<open>TO_BACKPACK\<close> adds to the row; \<open>TO_STATION\<close> deletes a row it exhausts and else subtracts.\<close>

definition move_inventory :: "jsstr \<Rightarrow> jsstr \<Rightarrow> jsstr \<Rightarrow> item_move \<Rightarrow> sink_db \<Rightarrow> sink_db option" where
  "move_inventory uid iid lid mv d =
     (let k = (uid, iid, lid); q = mv_quantity mv in
      case mv_direction mv of
        To_backpack \<Rightarrow>
          if \<not> own_quantity d k + q < 2 ^ 31 then None
          else Some (d\<lparr>inventory := upsert inv_key (\<lambda>r x. r\<lparr>inv_quantity := inv_quantity r + inv_quantity x\<rparr>)
            \<lparr>inv_user = uid, inv_item = iid, inv_location = lid, inv_quantity = q\<rparr> (inventory d)\<rparr>)
      | To_station \<Rightarrow>
          Some (d\<lparr>inventory := update_where (\<lambda>r. inv_key r = k) (\<lambda>r. r\<lparr>inv_quantity := inv_quantity r - q\<rparr>)
            (delete_where (\<lambda>r. inv_key r = k \<and> inv_quantity r \<le> q) (inventory d))\<rparr>))"

definition sync_amount :: "sink_db \<Rightarrow> jsstr \<times> jsstr \<times> jsstr \<times> storage \<Rightarrow> int" where
  "sync_amount d k = (case find (\<lambda>r. sync_key r = k) (sync_rows d) of Some r \<Rightarrow> sync_quantity r | None \<Rightarrow> 0)"

definition sync_delta :: "item_move \<Rightarrow> storage \<Rightarrow> int" where
  "sync_delta mv st = (if (mv_direction mv = To_backpack) = (st = Backpack) then mv_quantity mv else - mv_quantity mv)"

definition sync_storage_row :: "jsstr \<Rightarrow> item_move \<Rightarrow> storage \<Rightarrow> sink_db \<Rightarrow> sink_db option" where
  "sync_storage_row uid mv st d =
     (let delta = sync_delta mv st in
      if \<not> sync_amount d (uid, mv_item mv, mv_station mv, st) + delta < 2 ^ 31 then None
      else Some (d\<lparr>sync_rows := upsert sync_key (\<lambda>r x. r\<lparr>sync_quantity := max (sync_quantity r + delta) 0\<rparr>)
        \<lparr>sync_user = uid, sync_item = mv_item mv, sync_category = mv_category mv, sync_location = mv_station mv,
         sync_location_name = mv_station_name mv, sync_storage = st, sync_quantity = max delta 0\<rparr> (sync_rows d)\<rparr>))"

definition record_transaction :: "jsstr \<Rightarrow> jsstr \<Rightarrow> item_move \<Rightarrow> sink_db \<Rightarrow> sink_db option" where
  "record_transaction eid uid mv d =
     (if eid \<in> txn_event ` set (transactions d) then None
      else Some (d\<lparr>transactions := transactions d @
        [\<lparr>txn_event = eid, txn_user = uid, txn_item = mv_item mv, txn_direction = mv_direction mv, txn_quantity = mv_quantity mv,
          txn_location = mv_station mv, txn_location_name = mv_station_name mv, txn_channel = mv_channel mv\<rparr>]\<rparr>))"

definition move_storable :: "item_move \<Rightarrow> bool" where
  "move_storable mv \<longleftrightarrow> pg_text (mv_station mv) \<and> pg_text (mv_station_name mv) \<and> pg_text_option (mv_system mv) \<and>
     pg_text_option (mv_channel mv)"

definition apply_move :: "(nat \<Rightarrow> jsstr) \<Rightarrow> jsstr \<Rightarrow> jsstr \<Rightarrow> item_move \<Rightarrow> sink_db \<Rightarrow> sink_db option" where
  "apply_move fresh eid uid mv d =
     Option.bind (upsert_location (fresh 0) mv d) (\<lambda>(lid, d1).
     Option.bind (upsert_item (fresh 1) mv d1) (\<lambda>(iid, d2).
     Option.bind (move_inventory uid iid lid mv d2) (\<lambda>d3.
     Option.bind (sync_storage_row uid mv Backpack d3) (\<lambda>d4.
     Option.bind (sync_storage_row uid mv Station d4) (\<lambda>d5.
     record_transaction eid uid mv d5)))))"

definition inventory_transaction :: "(jsnum \<Rightarrow> jsstr) \<Rightarrow> (nat \<Rightarrow> jsstr) \<Rightarrow> jsstr \<Rightarrow> envelope \<Rightarrow> sink_db \<Rightarrow> applied" where
  "inventory_transaction nt fresh h ev d =
     (case getConnectedServiceUser h d of
        None \<Rightarrow> Raised ''sink not registered''
      | Some (uid, d1) \<Rightarrow>
          (case read_move nt (ev_payload ev) of
             None \<Rightarrow> Raised ''invalid inventory transaction''
           | Some mv \<Rightarrow>
               if \<not> move_storable mv then Raised ''database''
               else case apply_move fresh (ev_id ev) uid mv d1 of None \<Rightarrow> Raised ''database'' | Some d2 \<Rightarrow> Applied d2))"

section \<open>Profiles\<close>

definition merge_profile :: "scmdb_profile \<Rightarrow> scmdb_profile \<Rightarrow> scmdb_profile" where
  "merge_profile old new =
     \<lparr>prof_hash = prof_hash old, prof_scmdb_id = prof_scmdb_id new,
      prof_name = (if prof_name new = None then prof_name old else prof_name new),
      prof_rsi_handle = (if prof_rsi_handle new = None then prof_rsi_handle old else prof_rsi_handle new),
      prof_organizations = (if prof_organizations new = None then prof_organizations old else prof_organizations new)\<rparr>"

definition read_profile :: "jsstr \<Rightarrow> envelope \<Rightarrow> scmdb_profile" where
  "read_profile h ev =
     (let p = (case prop_of (ev_payload ev) ''profile'' of
                 Some (JObj ob) \<Rightarrow> ob | Some (JArr xs) \<Rightarrow> [] | _ \<Rightarrow> ev_payload ev);
          either = (\<lambda>a b. if validText 200 (prop_of p a) then valid_text 200 (prop_of p a) else valid_text 200 (prop_of p b))
      in \<lparr>prof_hash = h, prof_scmdb_id = ev_user_id ev, prof_name = either ''display_name'' ''displayName'',
          prof_rsi_handle = either ''rsi_handle'' ''rsiHandle'',
          prof_organizations = (case prop_of p ''organizations'' of Some (JArr xs) \<Rightarrow> Some (take 100 xs) | _ \<Rightarrow> None)\<rparr>)"

definition profile_storable :: "scmdb_profile \<Rightarrow> bool" where
  "profile_storable p \<longleftrightarrow> pg_text (prof_scmdb_id p) \<and> pg_text_option (prof_name p) \<and> pg_text_option (prof_rsi_handle p) \<and>
     (case prof_organizations p of None \<Rightarrow> True | Some xs \<Rightarrow> \<forall>x \<in> set xs. json_storable x)"

definition crew_name :: "jsstr \<Rightarrow> jsstr" where
  "crew_name s = s @ [39] @ js ''s crew''"

definition rename_crew :: "jsstr \<Rightarrow> jsstr \<Rightarrow> sink_db \<Rightarrow> sink_db" where
  "rename_crew name uid d =
     d\<lparr>group_rows := update_where (\<lambda>g. group_creator g = Some uid \<and> group_name g = crew_name (js ''SCMDB user''))
        (\<lambda>g. g\<lparr>group_name := crew_name name\<rparr>) (group_rows d)\<rparr>"

definition profile_event :: "jsstr \<Rightarrow> envelope \<Rightarrow> sink_db \<Rightarrow> applied" where
  "profile_event h ev d =
     (let p = read_profile h ev in
      if \<not> profile_storable p then Raised ''database''
      else let d1 = d\<lparr>profiles := upsert prof_hash merge_profile p (profiles d)\<rparr> in
        case or_text (or_text (prof_name p) (prof_rsi_handle p)) (ev_handle ev) of
          None \<Rightarrow> Applied d1
        | Some name \<Rightarrow>
            (case Option.bind (find (\<lambda>c. conn_hash c = h) (connections d1)) conn_user of
               None \<Rightarrow> Applied d1
             | Some uid \<Rightarrow> Applied (rename_crew name uid (rename_account name uid d1))))"

section \<open>Blueprints\<close>

definition own_blueprint :: "jsstr \<Rightarrow> int \<Rightarrow> jsstr \<times> jsstr option \<Rightarrow> blueprint list \<Rightarrow> blueprint list" where
  "own_blueprint h ts x =
     upsert bp_key (\<lambda>old new. old\<lparr>bp_product := bp_product new, bp_owned_at := bp_owned_at new\<rparr>)
       \<lparr>bp_hash = h, bp_tag = fst x, bp_product = snd x, bp_owned_at = ts, bp_first_seen = ts\<rparr>"

definition read_blueprint :: "obj \<Rightarrow> (jsstr \<times> jsstr option) option" where
  "read_blueprint p = map_option (\<lambda>t. (t, valid_text 500 (prop_of p ''product_name''))) (valid_text 300 (prop_of p ''tag''))"

definition blueprint_storable :: "jsstr \<times> jsstr option \<Rightarrow> bool" where
  "blueprint_storable x \<longleftrightarrow> pg_text (fst x) \<and> pg_text_option (snd x)"

definition read_owned :: "json list \<Rightarrow> (jsstr \<times> jsstr option) list" where
  "read_owned xs = concat (map (\<lambda>x. case read_blueprint (props_of x) of None \<Rightarrow> [] | Some b \<Rightarrow> [b]) xs)"

definition blueprint_snapshot :: "jsstr \<Rightarrow> envelope \<Rightarrow> sink_db \<Rightarrow> applied" where
  "blueprint_snapshot h ev d =
     (case prop_of (ev_payload ev) ''owned'' of
        Some (JArr owned) \<Rightarrow>
          if 10000 < length owned then Raised ''invalid blueprint snapshot''
          else let bs = read_owned owned in
            if \<not> list_all blueprint_storable bs then Raised ''database''
            else Applied (d\<lparr>blueprints := delete_where (\<lambda>b. bp_hash b = h \<and> bp_tag b \<notin> set (map fst bs))
              (foldl (\<lambda>rows x. own_blueprint h (ev_ts ev) x rows) (blueprints d) bs)\<rparr>)
      | _ \<Rightarrow> Raised ''invalid blueprint snapshot'')"

definition blueprint_added :: "jsstr \<Rightarrow> envelope \<Rightarrow> sink_db \<Rightarrow> applied" where
  "blueprint_added h ev d =
     (case read_blueprint (ev_payload ev) of
        None \<Rightarrow> Raised ''invalid blueprint tag''
      | Some b \<Rightarrow>
          if \<not> blueprint_storable b then Raised ''database''
          else Applied (d\<lparr>blueprints := own_blueprint h (ev_ts ev) b (blueprints d)\<rparr>))"

definition blueprint_removed :: "jsstr \<Rightarrow> envelope \<Rightarrow> sink_db \<Rightarrow> applied" where
  "blueprint_removed h ev d =
     (case valid_text 300 (prop_of (ev_payload ev) ''tag'') of
        None \<Rightarrow> Raised ''invalid blueprint tag''
      | Some t \<Rightarrow>
          if \<not> pg_text t then Raised ''database''
          else Applied (d\<lparr>blueprints := delete_where (\<lambda>b. bp_hash b = h \<and> bp_tag b = t) (blueprints d)\<rparr>))"

definition profile_event_names :: "jsstr list" where
  "profile_event_names = [js ''profile.snapshot'', js ''profile.updated'']"

definition applyBlueprintEvent :: "(jsnum \<Rightarrow> jsstr) \<Rightarrow> (nat \<Rightarrow> jsstr) \<Rightarrow> jsstr \<Rightarrow> envelope \<Rightarrow> sink_db \<Rightarrow> applied" where
  "applyBlueprintEvent nt fresh h ev d =
     (if ev_event ev = js ''inventory.transaction'' then inventory_transaction nt fresh h ev d
      else if ev_event ev \<in> set profile_event_names then profile_event h ev d
      else if ev_event ev = js ''blueprint.snapshot'' then blueprint_snapshot h ev d
      else if ev_event ev = js ''blueprint.owned.added'' then blueprint_added h ev d
      else if ev_event ev = js ''blueprint.owned.removed'' then blueprint_removed h ev d
      else Applied d)"

section \<open>The sink\<close>

datatype sink_answer = Sink_error nat string | Sink_accepted

definition sink_token_pattern :: "jsstr \<Rightarrow> bool" where
  "sink_token_pattern s \<longleftrightarrow> 32 \<le> length s \<and> list_all base64url_char s"

definition touch_connection :: "int \<Rightarrow> jsstr option \<Rightarrow> connection \<Rightarrow> connection" where
  "touch_connection now handle c =
     c\<lparr>conn_status := (if conn_status c = Pending then Linked else conn_status c),
       conn_connected_at := (if conn_status c = Pending
          then (case conn_connected_at c of None \<Rightarrow> Some now | Some t \<Rightarrow> Some t) else conn_connected_at c),
       conn_disconnected_at := (if conn_status c = Pending then None else conn_disconnected_at c),
       conn_seen_at := now, conn_handle := (case handle of Some s \<Rightarrow> Some s | None \<Rightarrow> conn_handle c)\<rparr>"

definition touch :: "int \<Rightarrow> jsstr \<Rightarrow> jsstr option \<Rightarrow> sink_db \<Rightarrow> sink_db" where
  "touch now h handle d =
     d\<lparr>connections := update_where (\<lambda>c. conn_hash c = h \<and> conn_status c \<noteq> Revoked_connection) (touch_connection now handle)
        (connections d)\<rparr>"

definition bind_identity :: "jsstr \<Rightarrow> envelope \<Rightarrow> sink_db \<Rightarrow> sink_db" where
  "bind_identity h ev d =
     d\<lparr>connections := update_where (\<lambda>c. conn_hash c = h)
        (\<lambda>c. c\<lparr>conn_scmdb_id := Some (ev_user_id ev),
               conn_handle := (case ev_handle ev of Some s \<Rightarrow> Some s | None \<Rightarrow> conn_handle c)\<rparr>) (connections d)\<rparr>"

text \<open>The check of the sender: the first profile event binds the connection to its SCMDB user, game-log
  transactions speak for the connection, everything else must come from the bound user.\<close>

datatype identity = Identified envelope sink_db | Mismatch

definition identify :: "jsstr \<Rightarrow> connection \<Rightarrow> envelope \<Rightarrow> sink_db \<Rightarrow> identity" where
  "identify h c ev d =
     (if (conn_scmdb_id c = None \<or> conn_scmdb_id c = Some []) \<and> ev_event ev \<in> set profile_event_names
      then Identified ev (bind_identity h ev d)
      else if ev_event ev = js ''inventory.transaction''
      then Identified (ev\<lparr>ev_user_id := (case conn_scmdb_id c of Some i \<Rightarrow> i | None \<Rightarrow> []),
          ev_handle := (case conn_handle c of Some s \<Rightarrow> if s \<noteq> [] \<and> length s \<le> 200 then Some s else None | None \<Rightarrow> None)\<rparr>) d
      else if conn_scmdb_id c \<noteq> Some (ev_user_id ev) then Mismatch
      else Identified ev d)"

definition sink_tx ::
    "(jsnum \<Rightarrow> jsstr) \<Rightarrow> int \<Rightarrow> (nat \<Rightarrow> jsstr) \<Rightarrow> jsstr \<Rightarrow> envelope \<Rightarrow> sink_db \<Rightarrow> (sink_answer, sink_db) tx_outcome" where
  "sink_tx nt now fresh h ev0 d =
     (if h \<in> set (revoked_sinks d) then Rollback (Sink_error 401 ''sink revoked'')
      else case open_connection d h of
        None \<Rightarrow> Rollback (Sink_error 401 ''sink not registered'')
      | Some c \<Rightarrow>
          (case identify h c ev0 d of
             Mismatch \<Rightarrow> Rollback (Sink_error 403 ''sink identity mismatch'')
           | Identified ev d1 \<Rightarrow>
               if \<not> pg_text (ev_user_id ev) \<or> \<not> pg_text_option (ev_handle ev) \<or> \<not> pg_text (ev_id ev) then Throw
               else let d2 = touch now h (ev_handle ev) d1 in
                 if ev_id ev \<in> event_id ` set (sink_events d2) then Commit Sink_accepted d2
                 else case applyBlueprintEvent nt fresh h ev d2 of
                   Raised e \<Rightarrow>
                     if e \<in> {''invalid blueprint tag'', ''invalid blueprint snapshot''} then Rollback (Sink_error 400 e) else Throw
                 | Applied d3 \<Rightarrow>
                     if \<not> pg_text (ev_event ev) then Throw
                     else Commit Sink_accepted (d3\<lparr>sink_events := sink_events d3 @
                       [\<lparr>event_id = ev_id ev, event_hash = h, event_name = ev_event ev, event_ts = ev_ts ev\<rparr>]\<rparr>)))"

definition receiveSinkEvent ::
    "(jsnum \<Rightarrow> jsstr) \<Rightarrow> (jsstr \<Rightarrow> jsstr) \<Rightarrow> sink_db route_env \<Rightarrow> jsstr \<Rightarrow> json option \<Rightarrow> sink_db \<Rightarrow> sink_answer \<times> sink_db" where
  "receiveSinkEvent nt hashToken env token body d0 =
     (if \<not> sink_token_pattern token then (Sink_error 401 ''invalid sink'', d0)
      else let d1 = others env 0 d0 in
        case body of
          None \<Rightarrow> (Sink_error 400 ''invalid JSON'', d1)
        | Some j \<Rightarrow>
            (case validateEnvelope j of
               Some e \<Rightarrow> (Sink_error 400 e, d1)
             | None \<Rightarrow>
                 let d2 = others env 1 d1 in
                 if query_fails env 1 then (Sink_error 503 ''service unavailable'', d2)
                 else run_tx (tx_ends env) (Sink_error 400 ''event rejected'')
                   (sink_tx nt (moment env) (new_id env) (hashToken token) (read_envelope j)) d2))"

end
