(* ===== verification/Sink_Connections.thy ===== *)
theory Sink_Connections
  imports Sink
begin

text \<open>
  Connecting and disconnecting an account to the sink (\<open>/api/profile/scmdb/*\<close>), the sink's address
  (\<open>src/src/scmdb-sink-config.js\<close>), and what the administrator's deletion of an account and of abandoned
  connections does to the tables of the sink.
\<close>

section \<open>The address of the sink\<close>

text \<open>What the platform's \<open>URL\<close> makes of a text; \<open>url_text\<close> is its serialisation.\<close>

record parsed_url =
  url_protocol :: jsstr
  url_hostname :: jsstr
  url_search :: jsstr
  url_hash :: jsstr
  url_text :: jsstr

definition strip_slashes :: "jsstr \<Rightarrow> jsstr" where
  "strip_slashes s = rev (dropWhile (\<lambda>c. c = 47) (rev s))"

definition normalizeScmdbSinkBaseUrl :: "(jsstr \<Rightarrow> parsed_url option) \<Rightarrow> jsstr option \<Rightarrow> jsstr option" where
  "normalizeScmdbSinkBaseUrl parse_url v =
     (let configured = js_trim (case v of Some s \<Rightarrow> s | None \<Rightarrow> []) in
      if configured = [] then None
      else case parse_url configured of
        None \<Rightarrow> None
      | Some u \<Rightarrow>
          if url_protocol u \<notin> {js ''http:'', js ''https:''} \<or> url_hostname u = [] \<or> url_search u \<noteq> [] \<or> url_hash u \<noteq> [] then None
          else Some (strip_slashes (url_text u)))"

definition scmdbSinkUrl :: "jsstr option \<Rightarrow> jsstr \<Rightarrow> jsstr option" where
  "scmdbSinkUrl base token = (case base of Some b \<Rightarrow> if b = [] then None else Some (b @ 47 # token) | None \<Rightarrow> None)"

section \<open>Revoking\<close>

text \<open>\<open>INSERT INTO revoked_sink_tokens SELECT token_hash ... ON CONFLICT DO NOTHING\<close>, then the update of the
  rows it selected.\<close>

definition revoke_tokens :: "(connection \<Rightarrow> bool) \<Rightarrow> sink_db \<Rightarrow> sink_db" where
  "revoke_tokens P d =
     d\<lparr>revoked_sinks := revoked_sinks d @
        filter (\<lambda>h. h \<notin> set (revoked_sinks d)) (map conn_hash (filter P (connections d)))\<rparr>"

definition revoke_rows :: "(connection \<Rightarrow> bool) \<Rightarrow> (connection \<Rightarrow> connection) \<Rightarrow> int \<Rightarrow> sink_db \<Rightarrow> sink_db" where
  "revoke_rows P also now d =
     d\<lparr>connections := update_where P (\<lambda>c. also (c\<lparr>conn_status := Revoked_connection, conn_revoked_at := Some now\<rparr>))
        (connections d)\<rparr>"

definition user_connection :: "jsstr \<Rightarrow> connection_status set \<Rightarrow> connection \<Rightarrow> bool" where
  "user_connection uid states c \<longleftrightarrow> conn_user c = Some uid \<and> conn_status c \<in> states \<and> conn_revoked_at c = None"

section \<open>The routes\<close>

datatype connect_answer = Connect_error nat string | Connect_created jsstr jsstr | Disconnected_count nat

definition new_connection :: "int \<Rightarrow> jsstr \<Rightarrow> jsstr \<Rightarrow> connection" where
  "new_connection now h uid =
     \<lparr>conn_hash = h, conn_user = Some uid, conn_scmdb_id = None, conn_handle = None, conn_status = Pending,
      conn_connected_at = None, conn_disconnected_at = None, conn_revoked_at = None, conn_seen_at = now\<rparr>"

definition connect_tx ::
    "int \<Rightarrow> jsstr \<Rightarrow> jsstr \<Rightarrow> jsstr \<Rightarrow> jsstr \<Rightarrow> sink_db \<Rightarrow> (connect_answer, sink_db) tx_outcome" where
  "connect_tx now raw h sink_url uid d =
     (if \<not> account_live d uid then Rollback (Connect_error 403 ''account is not active'')
      else let P = user_connection uid {Pending};
               d1 = (if \<exists>c \<in> set (connections d). P c then revoke_rows P (\<lambda>c. c) now (revoke_tokens P d) else d)
           in if h \<in> conn_hash ` set (connections d1) then Throw
              else Commit (Connect_created raw sink_url) (d1\<lparr>connections := connections d1 @ [new_connection now h uid]\<rparr>))"

definition connectSink ::
    "(jsstr \<Rightarrow> jsstr) \<Rightarrow> sink_db route_env \<Rightarrow> jsstr option \<Rightarrow> jsstr option \<Rightarrow> sink_db \<Rightarrow> connect_answer \<times> sink_db" where
  "connectSink hashToken env context base d0 =
     (case context of
        None \<Rightarrow> (Connect_error 401 ''login required'', d0)
      | Some uid \<Rightarrow>
          (case scmdbSinkUrl base (new_id env 0) of
             None \<Rightarrow> (Connect_error 503 ''SCMDB synchronization is not configured on this VerseLink instance.'', d0)
           | Some sink_url \<Rightarrow>
               let d1 = others env 0 d0 in
               if query_fails env 0 then (Connect_error 503 ''service unavailable'', d1)
               else run_tx (tx_ends env) (Connect_error 500 ''unable to create SCMDB connection'')
                 (connect_tx (moment env) (new_id env 0) (hashToken (new_id env 0)) sink_url uid) d1))"

definition disconnect_tx :: "int \<Rightarrow> jsstr \<Rightarrow> sink_db \<Rightarrow> (connect_answer, sink_db) tx_outcome" where
  "disconnect_tx now uid d =
     (let P = user_connection uid {Pending, Linked} in
      Commit (Disconnected_count (count_where P (connections d)))
        (revoke_rows P
          (\<lambda>c. c\<lparr>conn_disconnected_at := (case conn_disconnected_at c of None \<Rightarrow> Some now | Some t \<Rightarrow> Some t)\<rparr>) now
          (revoke_tokens P d)))"

definition disconnectSink ::
    "sink_db route_env \<Rightarrow> jsstr option \<Rightarrow> sink_db \<Rightarrow> connect_answer \<times> sink_db" where
  "disconnectSink env context d0 =
     (case context of
        None \<Rightarrow> (Connect_error 401 ''login required'', d0)
      | Some uid \<Rightarrow>
          let d1 = others env 0 d0 in
          if query_fails env 0 then (Connect_error 503 ''service unavailable'', d1)
          else run_tx (tx_ends env) (Connect_error 500 ''unable to disconnect SCMDB'') (disconnect_tx (moment env) uid) d1)"

section \<open>Deletions by the administrator\<close>

text \<open>The rows that go with a connection (\<open>ON DELETE CASCADE\<close>).\<close>

definition delete_connections :: "(connection \<Rightarrow> bool) \<Rightarrow> sink_db \<Rightarrow> sink_db" where
  "delete_connections P d =
     (let gone = set (map conn_hash (filter P (connections d))) in
      d\<lparr>connections := delete_where P (connections d),
        profiles := delete_where (\<lambda>p. prof_hash p \<in> gone) (profiles d),
        sink_events := delete_where (\<lambda>e. event_hash e \<in> gone) (sink_events d),
        blueprints := delete_where (\<lambda>b. bp_hash b \<in> gone) (blueprints d)\<rparr>)"

definition delete_groups :: "(group_row \<Rightarrow> bool) \<Rightarrow> sink_db \<Rightarrow> sink_db" where
  "delete_groups P d =
     (let gone = set (map group_id (filter P (group_rows d))) in
      d\<lparr>group_rows := delete_where P (group_rows d), members := delete_where (\<lambda>m. member_group m \<in> gone) (members d)\<rparr>)"

definition delete_account_rows :: "jsstr \<Rightarrow> sink_db \<Rightarrow> sink_db" where
  "delete_account_rows uid d =
     d\<lparr>accounts := delete_where (\<lambda>a. account_id a = uid) (accounts d),
       members := delete_where (\<lambda>m. member_user m = uid) (members d),
       inventory := delete_where (\<lambda>r. inv_user r = uid) (inventory d),
       sync_rows := delete_where (\<lambda>r. sync_user r = uid) (sync_rows d),
       transactions := delete_where (\<lambda>r. txn_user r = uid) (transactions d)\<rparr>"

definition deleteUser_tx :: "jsstr \<Rightarrow> sink_db \<Rightarrow> (unit, sink_db) tx_outcome" where
  "deleteUser_tx uid d =
     (let d1 = delete_groups (\<lambda>g. \<exists>m \<in> set (members d). member_group m = group_id g \<and> member_user m = uid \<and>
            member_role m = Owner) d;
          d2 = d1\<lparr>group_rows := update_where (\<lambda>g. group_creator g = Some uid) (\<lambda>g. g\<lparr>group_creator := None\<rparr>) (group_rows d1),
                  members := delete_where (\<lambda>m. member_user m = uid) (members d1)\<rparr>;
          d3 = delete_connections (\<lambda>c. conn_user c = Some uid) (revoke_tokens (\<lambda>c. conn_user c = Some uid) d2)
      in if find_account d3 uid = None then Throw else Commit () (delete_account_rows uid d3))"

definition cleanupConnections :: "int \<Rightarrow> sink_db \<Rightarrow> sink_db" where
  "cleanupConnections cutoff d =
     delete_connections (\<lambda>c. conn_user c = None \<and> conn_scmdb_id c = None \<and> conn_seen_at c < cutoff) d"

end
