(* ===== verification/Sink_Events.thy ===== *)
theory Sink_Events
  imports Sink_Connections
begin

text \<open>
  What the events of the sink do: blueprints as a map from tags per connection, the owned and the
  synchronised quantities, and what every event leaves alone.
\<close>

section \<open>Blueprints as a map\<close>

text \<open>The abstract view of a connection's blueprints: product, time of ownership, time first seen.\<close>

definition blueprint_of :: "blueprint list \<Rightarrow> jsstr \<Rightarrow> jsstr \<Rightarrow> (jsstr option \<times> int \<times> int) option" where
  "blueprint_of rows h t =
     map_option (\<lambda>b. (bp_product b, bp_owned_at b, bp_first_seen b)) (find (\<lambda>b. bp_key b = (h, t)) rows)"

definition seen_first :: "(jsstr option \<times> int \<times> int) option \<Rightarrow> int \<Rightarrow> int" where
  "seen_first old ts = (case old of None \<Rightarrow> ts | Some (p, o_at, f) \<Rightarrow> f)"

lemma own_blueprint_keys: "distinct (map bp_key rows) \<Longrightarrow> distinct (map bp_key (own_blueprint h ts x rows))"
  unfolding own_blueprint_def by (rule distinct_key_upsert) (auto simp: bp_key_def)

lemma own_blueprint_of:
  assumes "distinct (map bp_key rows)"
  shows "blueprint_of (own_blueprint h ts x rows) k t =
    (if (k, t) = (h, fst x) then Some (snd x, ts, seen_first (blueprint_of rows h (fst x)) ts) else blueprint_of rows k t)"
proof -
  have "find (\<lambda>b. bp_key b = (k, t)) (own_blueprint h ts x rows) =
    (if (k, t) = (h, fst x) then Some (case find (\<lambda>b. bp_key b = (k, t)) rows of
       None \<Rightarrow> \<lparr>bp_hash = h, bp_tag = fst x, bp_product = snd x, bp_owned_at = ts, bp_first_seen = ts\<rparr>
     | Some r \<Rightarrow> r\<lparr>bp_product := snd x, bp_owned_at := ts\<rparr>) else find (\<lambda>b. bp_key b = (k, t)) rows)"
    unfolding own_blueprint_def by (subst find_upsert_key [OF assms]) (auto simp: bp_key_def split: option.splits)
  then show ?thesis
    by (cases "find (\<lambda>b. bp_key b = (h, fst x)) rows") (auto simp: blueprint_of_def seen_first_def)
qed

lemma own_all_keys:
  "distinct (map bp_key rows) \<Longrightarrow> distinct (map bp_key (foldl (\<lambda>rows x. own_blueprint h ts x rows) rows bs))"
  by (induction bs arbitrary: rows) (simp_all add: own_blueprint_keys)

lemma seen_first_again: "seen_first (Some (p, ts, seen_first old ts)) ts' = seen_first old ts"
  by (simp add: seen_first_def)

lemma own_all_of:
  assumes "distinct (map bp_key rows)"
  shows "blueprint_of (foldl (\<lambda>rows x. own_blueprint h ts x rows) rows bs) k t =
    (if k = h then (case map_of (rev bs) t of
        Some p \<Rightarrow> Some (p, ts, seen_first (blueprint_of rows h t) ts) | None \<Rightarrow> blueprint_of rows h t)
     else blueprint_of rows k t)"
proof (induction bs rule: rev_induct)
  case (snoc x bs)
  show ?case
    using snoc by (cases x; cases "k = h"; cases "t = fst x"; cases "map_of (rev bs) t")
      (auto simp: own_blueprint_of [OF own_all_keys [OF assms]] seen_first_again)
qed simp

lemma find_delete_where:
  "find P (delete_where Q rows) = find (\<lambda>r. P r \<and> \<not> Q r) rows"
  by (induction rows) (auto simp: delete_where_def)

lemma blueprint_of_delete:
  "blueprint_of (delete_where (\<lambda>b. bp_hash b = h \<and> \<not> T (bp_tag b)) rows) k t =
     (if k = h \<and> \<not> T t then None else blueprint_of rows k t)"
proof -
  have "(\<lambda>b. bp_key b = (k, t) \<and> \<not> (bp_hash b = h \<and> \<not> T (bp_tag b))) =
    (if k = h \<and> \<not> T t then (\<lambda>b. False) else (\<lambda>b. bp_key b = (k, t)))"
    by (auto simp: fun_eq_iff bp_key_def)
  moreover have "find (\<lambda>b. False) rows = None" by (simp add: find_None_iff)
  ultimately show ?thesis by (simp add: blueprint_of_def find_delete_where)
qed

text \<open>The three events on the abstract view.\<close>

definition abstract_snapshot :: "int \<Rightarrow> (jsstr \<times> jsstr option) list \<Rightarrow>
    (jsstr \<Rightarrow> (jsstr option \<times> int \<times> int) option) \<Rightarrow> jsstr \<Rightarrow> (jsstr option \<times> int \<times> int) option" where
  "abstract_snapshot ts bs owned t =
     (case map_of (rev bs) t of None \<Rightarrow> None | Some p \<Rightarrow> Some (p, ts, seen_first (owned t) ts))"

lemma blueprint_snapshot_of:
  assumes "distinct (map bp_key (blueprints d))" "blueprint_snapshot h ev d = Applied d'"
  shows "\<exists>owned. prop_of (ev_payload ev) ''owned'' = Some (JArr owned) \<and> length owned \<le> 10000 \<and>
    blueprint_of (blueprints d') h = abstract_snapshot (ev_ts ev) (read_owned owned) (blueprint_of (blueprints d) h) \<and>
    (\<forall>k. k \<noteq> h \<longrightarrow> blueprint_of (blueprints d') k = blueprint_of (blueprints d) k)"
proof -
  obtain owned where owned: "prop_of (ev_payload ev) ''owned'' = Some (JArr owned)" "length owned \<le> 10000"
    "list_all blueprint_storable (read_owned owned)"
    using assms(2) by (auto simp: blueprint_snapshot_def Let_def split: option.splits json.splits if_splits)
  let ?bs = "read_owned owned"
  have d': "blueprints d' = delete_where (\<lambda>b. bp_hash b = h \<and> bp_tag b \<notin> set (map fst ?bs))
      (foldl (\<lambda>rows x. own_blueprint h (ev_ts ev) x rows) (blueprints d) ?bs)"
    using assms(2) owned by (auto simp: blueprint_snapshot_def Let_def)
  have mem: "map_of (rev ?bs) t = None \<longleftrightarrow> t \<notin> set (map fst ?bs)" for t
    by (simp add: map_of_eq_None_iff)
  have row: "blueprint_of (blueprints d') k t =
      (if k = h \<and> t \<notin> set (map fst ?bs) then None
       else if k = h then (case map_of (rev ?bs) t of
          Some p \<Rightarrow> Some (p, ev_ts ev, seen_first (blueprint_of (blueprints d) h t) (ev_ts ev)) | None \<Rightarrow> blueprint_of (blueprints d) h t)
       else blueprint_of (blueprints d) k t)" for k t
    unfolding d' blueprint_of_delete [where T = "\<lambda>t. t \<in> set (map fst ?bs)"] own_all_of [OF assms(1)] by simp
  have "blueprint_of (blueprints d') h t = abstract_snapshot (ev_ts ev) ?bs (blueprint_of (blueprints d) h) t" for t
    using mem [of t] by (cases "map_of (rev ?bs) t") (simp_all add: row abstract_snapshot_def)
  moreover have "k \<noteq> h \<Longrightarrow> blueprint_of (blueprints d') k = blueprint_of (blueprints d) k" for k
    by (rule ext) (simp add: row)
  ultimately show ?thesis using owned(1,2) by (intro exI [of _ owned]) auto
qed

lemma blueprint_added_of:
  assumes "distinct (map bp_key (blueprints d))" "blueprint_added h ev d = Applied d'"
  shows "\<exists>t p. read_blueprint (ev_payload ev) = Some (t, p) \<and>
    blueprint_of (blueprints d') h = (blueprint_of (blueprints d) h)
      (t \<mapsto> (p, ev_ts ev, seen_first (blueprint_of (blueprints d) h t) (ev_ts ev))) \<and>
    (\<forall>k. k \<noteq> h \<longrightarrow> blueprint_of (blueprints d') k = blueprint_of (blueprints d) k)"
proof -
  obtain x where x: "read_blueprint (ev_payload ev) = Some x" "blueprints d' = own_blueprint h (ev_ts ev) x (blueprints d)"
    using assms(2) by (auto simp: blueprint_added_def split: option.splits if_splits)
  then show ?thesis
    by (intro exI [of _ "fst x"] exI [of _ "snd x"]) (auto simp: own_blueprint_of [OF assms(1)] fun_eq_iff)
qed

lemma blueprint_removed_of:
  assumes "blueprint_removed h ev d = Applied d'"
  shows "\<exists>t. valid_text 300 (prop_of (ev_payload ev) ''tag'') = Some t \<and>
    blueprint_of (blueprints d') h = (blueprint_of (blueprints d) h)(t := None) \<and>
    (\<forall>k. k \<noteq> h \<longrightarrow> blueprint_of (blueprints d') k = blueprint_of (blueprints d) k)"
proof -
  obtain t where t: "valid_text 300 (prop_of (ev_payload ev) ''tag'') = Some t"
    "blueprints d' = delete_where (\<lambda>b. bp_hash b = h \<and> bp_tag b = t) (blueprints d)"
    using assms by (auto simp: blueprint_removed_def split: option.splits if_splits)
  have "blueprint_of (blueprints d') k u = (if k = h \<and> u = t then None else blueprint_of (blueprints d) k u)" for k u
    unfolding t(2) using blueprint_of_delete [where T = "\<lambda>u. u \<noteq> t", of h "blueprints d" k u] by simp
  then show ?thesis using t(1) by (intro exI [of _ t]) (auto simp: fun_eq_iff)
qed

end
