(* ===== verification/Sink_Inventory.thy ===== *)
theory Sink_Inventory
  imports Sink_Events
begin

text \<open>
  The quantities that an inventory transaction of the game log leaves, and the constraints of the
  inventory tables through it.
\<close>

section \<open>Stock\<close>

lemma own_quantity_upsert:
  assumes "distinct (map inv_key (inventory d))"
  shows "own_quantity (d\<lparr>inventory := upsert inv_key (\<lambda>r x. r\<lparr>inv_quantity := inv_quantity r + inv_quantity x\<rparr>)
      \<lparr>inv_user = uid, inv_item = iid, inv_location = lid, inv_quantity = q\<rparr> (inventory d)\<rparr>) k =
    own_quantity d k + (if k = (uid, iid, lid) then q else 0)"
proof -
  have "find (\<lambda>r. inv_key r = k) (upsert inv_key (\<lambda>r x. r\<lparr>inv_quantity := inv_quantity r + inv_quantity x\<rparr>)
      \<lparr>inv_user = uid, inv_item = iid, inv_location = lid, inv_quantity = q\<rparr> (inventory d)) =
    (if k = (uid, iid, lid) then Some (case find (\<lambda>r. inv_key r = k) (inventory d) of
        None \<Rightarrow> \<lparr>inv_user = uid, inv_item = iid, inv_location = lid, inv_quantity = q\<rparr>
      | Some r \<Rightarrow> r\<lparr>inv_quantity := inv_quantity r + q\<rparr>) else find (\<lambda>r. inv_key r = k) (inventory d))"
    by (subst find_upsert_key [OF assms]) (auto simp: inv_key_def split: option.splits)
  then show ?thesis
    by (cases "k = (uid, iid, lid)"; cases "find (\<lambda>r. inv_key r = k) (inventory d)") (simp_all add: own_quantity_def)
qed

lemma own_quantity_take:
  assumes dist: "distinct (map inv_key (inventory d))" and q: "1 \<le> q"
  shows "own_quantity (d\<lparr>inventory := update_where (\<lambda>r. inv_key r = j) (\<lambda>r. r\<lparr>inv_quantity := inv_quantity r - q\<rparr>)
      (delete_where (\<lambda>r. inv_key r = j \<and> inv_quantity r \<le> q) (inventory d))\<rparr>) k =
    (if k = j then max 0 (own_quantity d k - q) else own_quantity d k)"
    (is "own_quantity ?d k = _")
proof -
  have "find (\<lambda>r. inv_key r = k) (inventory ?d) =
      map_option (\<lambda>r. if inv_key r = j then r\<lparr>inv_quantity := inv_quantity r - q\<rparr> else r)
        (find (\<lambda>r. inv_key r = k) (delete_where (\<lambda>r. inv_key r = j \<and> inv_quantity r \<le> q) (inventory d)))"
    using find_update_where_key [OF distinct_key_delete_where [OF dist], of "\<lambda>r. inv_key r = j"
        "\<lambda>r. r\<lparr>inv_quantity := inv_quantity r - q\<rparr>"] by (simp add: inv_key_def)
  also have "find (\<lambda>r. inv_key r = k) (delete_where (\<lambda>r. inv_key r = j \<and> inv_quantity r \<le> q) (inventory d)) =
      (case find (\<lambda>r. inv_key r = k) (inventory d) of None \<Rightarrow> None
       | Some r \<Rightarrow> if inv_key r = j \<and> inv_quantity r \<le> q then None else Some r)"
    by (rule find_delete_where_key [OF dist])
  finally have found: "find (\<lambda>r. inv_key r = k) (inventory ?d) =
      map_option (\<lambda>r. if inv_key r = j then r\<lparr>inv_quantity := inv_quantity r - q\<rparr> else r)
        (case find (\<lambda>r. inv_key r = k) (inventory d) of None \<Rightarrow> None
         | Some r \<Rightarrow> if inv_key r = j \<and> inv_quantity r \<le> q then None else Some r)" .
  show ?thesis
  proof (cases "find (\<lambda>r. inv_key r = k) (inventory d)")
    case None
    with found q show ?thesis by (cases "k = j") (simp_all add: own_quantity_def)
  next
    case (Some r)
    with find_Some_mem [OF Some] found show ?thesis by (cases "k = j") (simp_all add: own_quantity_def)
  qed
qed

definition moved_quantity :: "item_move \<Rightarrow> int \<Rightarrow> int" where
  "moved_quantity mv n = (case mv_direction mv of To_backpack \<Rightarrow> n + mv_quantity mv | To_station \<Rightarrow> max 0 (n - mv_quantity mv))"

lemma move_inventory_quantity:
  assumes "distinct (map inv_key (inventory d))" "\<forall>r \<in> set (inventory d). 1 \<le> inv_quantity r" "1 \<le> mv_quantity mv"
    and "move_inventory uid iid lid mv d = Some d'"
  shows "own_quantity d' k = (if k = (uid, iid, lid) then moved_quantity mv (own_quantity d k) else own_quantity d k)"
proof (cases "mv_direction mv")
  case To_backpack
  with assms(4) show ?thesis
    by (auto simp: move_inventory_def Let_def own_quantity_upsert [OF assms(1)] moved_quantity_def split: if_splits)
next
  case To_station
  with assms(4) show ?thesis
    by (auto simp: move_inventory_def Let_def own_quantity_take [OF assms(1,3)] moved_quantity_def)
qed

lemma sync_row_amount:
  assumes "distinct (map sync_key (sync_rows d))" "sync_storage_row uid mv st d = Some d'"
  shows "sync_amount d' k = (if k = (uid, mv_item mv, mv_station mv, st) then max (sync_amount d k + sync_delta mv st) 0
    else sync_amount d k)"
proof -
  let ?row = "\<lparr>sync_user = uid, sync_item = mv_item mv, sync_category = mv_category mv, sync_location = mv_station mv,
         sync_location_name = mv_station_name mv, sync_storage = st, sync_quantity = max (sync_delta mv st) 0\<rparr>"
  have d': "sync_rows d' = upsert sync_key (\<lambda>r x. r\<lparr>sync_quantity := max (sync_quantity r + sync_delta mv st) 0\<rparr>) ?row (sync_rows d)"
    using assms(2) by (auto simp: sync_storage_row_def Let_def split: if_splits)
  have "find (\<lambda>r. sync_key r = k) (sync_rows d') =
    (if k = (uid, mv_item mv, mv_station mv, st) then Some (case find (\<lambda>r. sync_key r = k) (sync_rows d) of
        None \<Rightarrow> ?row | Some r \<Rightarrow> r\<lparr>sync_quantity := max (sync_quantity r + sync_delta mv st) 0\<rparr>)
     else find (\<lambda>r. sync_key r = k) (sync_rows d))"
    unfolding d' by (subst find_upsert_key [OF assms(1)]) (auto simp: sync_key_def split: option.splits)
  then show ?thesis
    by (cases "k = (uid, mv_item mv, mv_station mv, st)"; cases "find (\<lambda>r. sync_key r = k) (sync_rows d)")
      (simp_all add: sync_amount_def)
qed

section \<open>The transaction as a whole\<close>

lemma upsert_location_Some:
  assumes "upsert_location fresh mv d = Some (lid, d')"
  shows "\<exists>ls. d' = d\<lparr>locations := ls\<rparr>"
  using assms by (auto simp: upsert_location_def split: option.splits if_splits)

lemma upsert_item_Some:
  assumes "upsert_item fresh mv d = Some (iid, d')"
  shows "\<exists>cs. d' = d\<lparr>catalog := cs\<rparr>"
  using assms by (auto simp: upsert_item_def split: option.splits if_splits)

lemma move_inventory_Some:
  assumes "move_inventory uid iid lid mv d = Some d'"
  shows "\<exists>rs. d' = d\<lparr>inventory := rs\<rparr>"
  using assms by (auto simp: move_inventory_def Let_def split: direction.splits if_splits)

lemma sync_storage_row_Some:
  assumes "sync_storage_row uid mv st d = Some d'"
  shows "\<exists>rs. d' = d\<lparr>sync_rows := rs\<rparr>"
  using assms by (auto simp: sync_storage_row_def Let_def split: if_splits)

lemma sync_row_keys:
  assumes "distinct (map sync_key (sync_rows d))" "sync_storage_row uid mv st d = Some d'"
  shows "distinct (map sync_key (sync_rows d'))"
  using assms by (auto simp: sync_storage_row_def Let_def sync_key_def split: if_splits intro!: distinct_key_upsert)

lemma apply_move_Some:
  assumes "apply_move fresh eid uid mv d = Some d'"
  obtains lid d1 iid d2 d3 d4 d5 where "upsert_location (fresh 0) mv d = Some (lid, d1)"
    "upsert_item (fresh 1) mv d1 = Some (iid, d2)" "move_inventory uid iid lid mv d2 = Some d3"
    "sync_storage_row uid mv Backpack d3 = Some d4" "sync_storage_row uid mv Station d4 = Some d5"
    "record_transaction eid uid mv d5 = Some d'"
  using assms by (auto simp: apply_move_def bind_eq_Some_conv)

lemma record_transaction_Some:
  assumes "record_transaction eid uid mv d = Some d'"
  shows "\<exists>ts. d' = d\<lparr>transactions := ts\<rparr>"
  using assms by (auto simp: record_transaction_def split: if_splits)

definition known_location :: "sink_db \<Rightarrow> jsstr \<Rightarrow> jsstr \<Rightarrow> bool" where
  "known_location d key lid \<longleftrightarrow> (\<exists>l \<in> set (locations d). loc_external l = Some key \<and> loc_id l = lid)"

definition known_item :: "sink_db \<Rightarrow> jsstr \<Rightarrow> jsstr \<Rightarrow> bool" where
  "known_item d key iid \<longleftrightarrow> (\<exists>i \<in> set (catalog d). item_external i = Some key \<and> item_id i = iid)"

lemma updated_row:
  assumes "find P rows = Some r" "\<And>x. P x \<Longrightarrow> P (f x)"
  shows "f r \<in> set (update_where P f rows) \<and> P (f r)"
  using find_Some_mem [OF assms(1)] assms(2) by (auto simp: set_update_where)

lemma upsert_location_known:
  assumes "upsert_location fresh mv d = Some (lid, d')"
  shows "known_location d' (mv_station mv) lid"
proof (cases "find (\<lambda>l. loc_external l = Some (mv_station mv)) (locations d)")
  case None
  with assms show ?thesis by (auto simp: upsert_location_def known_location_def split: if_splits)
next
  case (Some l)
  note row = updated_row [OF Some, where f = "\<lambda>x. x\<lparr>loc_name := mv_station_name mv\<rparr>"]
  have "lid = loc_id l" "locations d' = update_where (\<lambda>x. loc_external x = Some (mv_station mv))
      (\<lambda>x. x\<lparr>loc_name := mv_station_name mv\<rparr>) (locations d)"
    using assms Some by (auto simp: upsert_location_def split: if_splits)
  with row show ?thesis by (auto simp: known_location_def intro!: bexI [of _ "l\<lparr>loc_name := mv_station_name mv\<rparr>"])
qed

lemma upsert_item_known:
  assumes "upsert_item fresh mv d = Some (iid, d')"
  shows "known_item d' (mv_item mv) iid"
proof (cases "find (\<lambda>i. item_external i = Some (mv_item mv)) (catalog d)")
  case None
  with assms show ?thesis by (auto simp: upsert_item_def known_item_def split: if_splits)
next
  case (Some i)
  note row = updated_row [OF Some, where f = "\<lambda>x. x\<lparr>item_category := mv_category mv\<rparr>"]
  have "iid = item_id i" "catalog d' = update_where (\<lambda>x. item_external x = Some (mv_item mv))
      (\<lambda>x. x\<lparr>item_category := mv_category mv\<rparr>) (catalog d)"
    using assms Some by (auto simp: upsert_item_def)
  with row show ?thesis by (auto simp: known_item_def intro!: bexI [of _ "i\<lparr>item_category := mv_category mv\<rparr>"])
qed

text \<open>A move changes exactly one owned quantity and the two synchronised quantities of its item and station.\<close>

lemma apply_move_effect:
  assumes ok: "distinct (map inv_key (inventory d))" "\<forall>r \<in> set (inventory d). 1 \<le> inv_quantity r"
      "distinct (map sync_key (sync_rows d))" "1 \<le> mv_quantity mv"
    and run: "apply_move fresh eid uid mv d = Some d'"
  shows "\<exists>iid lid. known_item d' (mv_item mv) iid \<and> known_location d' (mv_station mv) lid \<and>
    (\<forall>k. own_quantity d' k = (if k = (uid, iid, lid) then moved_quantity mv (own_quantity d k) else own_quantity d k)) \<and>
    (\<forall>k. sync_amount d' k =
      (if fst k = uid \<and> fst (snd k) = mv_item mv \<and> fst (snd (snd k)) = mv_station mv
       then max (sync_amount d k + sync_delta mv (snd (snd (snd k)))) 0 else sync_amount d k))"
  using run
proof (rule apply_move_Some)
  fix lid d1 iid d2 d3 d4 d5
  assume st: "upsert_location (fresh 0) mv d = Some (lid, d1)" "upsert_item (fresh 1) mv d1 = Some (iid, d2)"
    "move_inventory uid iid lid mv d2 = Some d3" "sync_storage_row uid mv Backpack d3 = Some d4"
    "sync_storage_row uid mv Station d4 = Some d5" "record_transaction eid uid mv d5 = Some d'"
  obtain ls cs rs1 rs2 rs3 ts where eqs: "d1 = d\<lparr>locations := ls\<rparr>" "d2 = d1\<lparr>catalog := cs\<rparr>" "d3 = d2\<lparr>inventory := rs1\<rparr>"
    "d4 = d3\<lparr>sync_rows := rs2\<rparr>" "d5 = d4\<lparr>sync_rows := rs3\<rparr>" "d' = d5\<lparr>transactions := ts\<rparr>"
    using upsert_location_Some [OF st(1)] upsert_item_Some [OF st(2)] move_inventory_Some [OF st(3)]
      sync_storage_row_Some [OF st(4)] sync_storage_row_Some [OF st(5)] record_transaction_Some [OF st(6)] by blast
  have own: "own_quantity d2 k = own_quantity d k" "own_quantity d' k = own_quantity d3 k" for k
    by (simp_all add: own_quantity_def eqs)
  have sync: "sync_amount d3 k = sync_amount d k" "sync_amount d' k = sync_amount d5 k" for k
    by (simp_all add: sync_amount_def eqs)
  have keys: "distinct (map sync_key (sync_rows d3))" using ok(3) by (simp add: eqs)
  have quantities: "own_quantity d' k = (if k = (uid, iid, lid) then moved_quantity mv (own_quantity d k) else own_quantity d k)" for k
    using move_inventory_quantity [OF _ _ ok(4) st(3), of k] ok(1,2) unfolding own by (simp add: eqs(1,2))
  have amounts: "sync_amount d' k =
      (if fst k = uid \<and> fst (snd k) = mv_item mv \<and> fst (snd (snd k)) = mv_station mv
       then max (sync_amount d k + sync_delta mv (snd (snd (snd k)))) 0 else sync_amount d k)" for k
    using sync_row_amount [OF sync_row_keys [OF keys st(4)] st(5), of k] sync_row_amount [OF keys st(4), of k]
    by (cases k; cases "snd (snd (snd k))") (auto simp: sync)
  have "known_item d' (mv_item mv) iid" "known_location d' (mv_station mv) lid"
    using upsert_item_known [OF st(2)] upsert_location_known [OF st(1)] by (simp_all add: known_item_def known_location_def eqs)
  with quantities amounts show ?thesis by (intro exI [of _ iid] exI [of _ lid] conjI allI)
qed

end
