(* ===== verification/Sink_Invariants.thy ===== *)
theory Sink_Invariants
  imports Sink_Inventory
begin

text \<open>
  The constraints of the sink's tables through every operation on them, and \<open>sink_step\<close>, one
  committed change.
\<close>

section \<open>Renames\<close>

lemma rename_account_rows [simp]:
  "map account_id (accounts (rename_account n u d)) = map account_id (accounts d)"
  "account_id ` set (accounts (rename_account n u d)) = account_id ` set (accounts d)"
proof -
  show m: "map account_id (accounts (rename_account n u d)) = map account_id (accounts d)"
    unfolding rename_account_def by (simp add: map_key_update_where)
  show "account_id ` set (accounts (rename_account n u d)) = account_id ` set (accounts d)"
    using m by (metis set_map)
qed

lemma rename_account_same [simp]:
  "group_rows (rename_account n u d) = group_rows d" "members (rename_account n u d) = members d"
  "connections (rename_account n u d) = connections d" "revoked_sinks (rename_account n u d) = revoked_sinks d"
  "profiles (rename_account n u d) = profiles d" "sink_events (rename_account n u d) = sink_events d"
  "blueprints (rename_account n u d) = blueprints d" "catalog (rename_account n u d) = catalog d"
  "locations (rename_account n u d) = locations d" "inventory (rename_account n u d) = inventory d"
  "sync_rows (rename_account n u d) = sync_rows d" "transactions (rename_account n u d) = transactions d"
  by (simp_all add: rename_account_def)

lemma rename_account_ok: "sink_ok (rename_account n u d) = sink_ok d"
  by (simp add: sink_ok_def connections_ok_def inventory_ok_def revocations_ok_def group_ok_def)

lemma rename_crew_rows [simp]:
  "map group_id (group_rows (rename_crew n u d)) = map group_id (group_rows d)"
  "group_id ` set (group_rows (rename_crew n u d)) = group_id ` set (group_rows d)"
proof -
  show m: "map group_id (group_rows (rename_crew n u d)) = map group_id (group_rows d)"
    unfolding rename_crew_def by (simp add: map_key_update_where)
  show "group_id ` set (group_rows (rename_crew n u d)) = group_id ` set (group_rows d)"
    using m by (metis set_map)
qed

lemma rename_crew_same [simp]:
  "accounts (rename_crew n u d) = accounts d" "members (rename_crew n u d) = members d"
  "connections (rename_crew n u d) = connections d" "revoked_sinks (rename_crew n u d) = revoked_sinks d"
  "profiles (rename_crew n u d) = profiles d" "sink_events (rename_crew n u d) = sink_events d"
  "blueprints (rename_crew n u d) = blueprints d" "catalog (rename_crew n u d) = catalog d"
  "locations (rename_crew n u d) = locations d" "inventory (rename_crew n u d) = inventory d"
  "sync_rows (rename_crew n u d) = sync_rows d" "transactions (rename_crew n u d) = transactions d"
  by (simp_all add: rename_crew_def)

lemma rename_crew_ok:
  assumes "sink_ok d"
  shows "sink_ok (rename_crew n u d)"
proof -
  have "\<forall>g \<in> set (group_rows (rename_crew n u d)). \<forall>v. group_creator g = Some v \<longrightarrow> v \<in> account_id ` set (accounts d)"
    using assms by (auto simp: rename_crew_def update_where_mem sink_ok_def connections_ok_def group_ok_def split: if_splits)
  with assms show ?thesis
    by (simp add: sink_ok_def connections_ok_def inventory_ok_def revocations_ok_def group_ok_def)
qed

section \<open>Connections\<close>

lemma update_connections_ok:
  assumes "sink_ok d" "\<And>c. conn_hash (f c) = conn_hash c" "\<And>c. conn_user (f c) = conn_user c"
    and "\<And>c. c \<in> set (connections d) \<Longrightarrow> P c \<Longrightarrow> (conn_revoked_at (f c) \<noteq> None \<longrightarrow> conn_hash c \<in> set (revoked_sinks d)) \<and>
      (conn_status (f c) = Revoked_connection \<longrightarrow> conn_revoked_at (f c) \<noteq> None)"
  shows "sink_ok (d\<lparr>connections := update_where P f (connections d)\<rparr>)"
proof -
  let ?cs = "update_where P f (connections d)"
  have m: "map conn_hash ?cs = map conn_hash (connections d)" by (rule map_key_update_where) (rule assms(2))
  then have i: "conn_hash ` set ?cs = conn_hash ` set (connections d)" by (metis set_map)
  have users: "\<forall>c \<in> set ?cs. \<forall>u. conn_user c = Some u \<longrightarrow> u \<in> account_id ` set (accounts d)"
    using assms(1,3) by (auto simp: update_where_mem sink_ok_def connections_ok_def split: if_splits)
  have "\<forall>c \<in> set ?cs. (conn_revoked_at c \<noteq> None \<longrightarrow> conn_hash c \<in> set (revoked_sinks d)) \<and>
     (conn_status c = Revoked_connection \<longrightarrow> conn_revoked_at c \<noteq> None)"
    using assms(1,2,4) by (intro update_where_all) (auto simp: sink_ok_def revocations_ok_def)
  with assms(1) m i users show ?thesis
    by (simp add: sink_ok_def connections_ok_def inventory_ok_def revocations_ok_def group_ok_def)
qed

lemma touch_ok: "sink_ok d \<Longrightarrow> sink_ok (touch now h handle d)"
  unfolding touch_def
  by (rule update_connections_ok) (auto simp: touch_connection_def sink_ok_def revocations_ok_def)

lemma bind_identity_ok: "sink_ok d \<Longrightarrow> sink_ok (bind_identity h ev d)"
  unfolding bind_identity_def
  by (rule update_connections_ok) (auto simp: sink_ok_def revocations_ok_def)

lemma identify_ok: "sink_ok d \<Longrightarrow> identify h c ev d = Identified ev' d' \<Longrightarrow> sink_ok d'"
  by (auto simp: identify_def bind_identity_ok split: if_splits)

lemma revoke_tokens_ok: "sink_ok d \<Longrightarrow> sink_ok (revoke_tokens P d)"
proof -
  assume ok: "sink_ok d"
  then have "distinct (map conn_hash (filter P (connections d)))"
    by (simp add: sink_ok_def connections_ok_def distinct_map_filter)
  with ok show ?thesis
    by (auto simp: revoke_tokens_def sink_ok_def connections_ok_def inventory_ok_def revocations_ok_def group_ok_def)
qed

lemma revoke_tokens_covers: "c \<in> set (connections d) \<Longrightarrow> P c \<Longrightarrow> conn_hash c \<in> set (revoked_sinks (revoke_tokens P d))"
  by (auto simp: revoke_tokens_def)

lemma revoke_tokens_connections [simp]: "connections (revoke_tokens P d) = connections d"
  by (simp add: revoke_tokens_def)

lemma revoke_ok:
  assumes "sink_ok d" "\<And>c. conn_hash (also c) = conn_hash c" "\<And>c. conn_user (also c) = conn_user c"
    "\<And>c. conn_revoked_at (also c) = conn_revoked_at c" "\<And>c. conn_status (also c) = conn_status c"
  shows "sink_ok (revoke_rows P also now (revoke_tokens P d))"
  unfolding revoke_rows_def
  by (rule update_connections_ok [OF revoke_tokens_ok [OF assms(1)]])
    (use assms(2-5) revoke_tokens_covers [of _ d P] in simp_all)

lemma connect_ok:
  assumes ok: "sink_ok d" and commit: "connect_tx now raw h url uid d = Commit a d'"
  shows "sink_ok d'"
proof -
  let ?P = "user_connection uid {Pending}"
  let ?d1 = "if \<exists>c \<in> set (connections d). ?P c then revoke_rows ?P (\<lambda>c. c) now (revoke_tokens ?P d) else d"
  have ok1: "sink_ok ?d1" using ok revoke_ok [of d "\<lambda>c. c" ?P now] by simp
  have "accounts ?d1 = accounts d" by (simp add: revoke_rows_def revoke_tokens_def)
  moreover have "account_live d uid" "h \<notin> conn_hash ` set (connections ?d1)"
    and d': "d' = ?d1\<lparr>connections := connections ?d1 @ [new_connection now h uid]\<rparr>"
    using commit by (auto simp: connect_tx_def Let_def split: if_splits)
  ultimately show ?thesis
    using ok1 account_live_mem [of d uid] unfolding d'
    by (auto simp: new_connection_def sink_ok_def connections_ok_def inventory_ok_def revocations_ok_def group_ok_def)
qed

lemma disconnect_ok:
  assumes "sink_ok d" "disconnect_tx now uid d = Commit a d'"
  shows "sink_ok d'"
proof -
  let ?P = "user_connection uid {Pending, Linked}"
  have "d' = revoke_rows ?P (\<lambda>c. c\<lparr>conn_disconnected_at := (case conn_disconnected_at c of None \<Rightarrow> Some now | Some t \<Rightarrow> Some t)\<rparr>)
      now (revoke_tokens ?P d)"
    using assms(2) by (simp add: disconnect_tx_def Let_def)
  then show ?thesis using revoke_ok [OF assms(1)] by simp
qed

section \<open>Deletions\<close>

lemma delete_where_image: "x \<in> key ` set (delete_where P rows) \<longleftrightarrow> (\<exists>r \<in> set rows. \<not> P r \<and> key r = x)"
  by (auto simp: delete_where_def)

lemma delete_connections_ok:
  assumes "sink_ok d"
  shows "sink_ok (delete_connections P d)"
proof -
  have dist: "distinct (map conn_hash (connections d))" using assms by (simp add: sink_ok_def connections_ok_def)
  have keep: "h \<in> conn_hash ` set (delete_where P (connections d))"
    if h: "h \<in> conn_hash ` set (connections d)" "h \<notin> conn_hash ` set (filter P (connections d))" for h
    using h by (auto simp: delete_where_def)
  with assms show ?thesis
    by (auto simp: delete_connections_def Let_def sink_ok_def connections_ok_def inventory_ok_def revocations_ok_def group_ok_def
        row_simps intro: keep)
qed

lemma delete_groups_ok:
  assumes "sink_ok d"
  shows "sink_ok (delete_groups P d)"
proof -
  have "g \<in> group_id ` set (delete_where P (group_rows d))"
    if "g \<in> group_id ` set (group_rows d)" "g \<notin> group_id ` set (filter P (group_rows d))" for g
    using that by (auto simp: delete_where_def)
  with assms show ?thesis
    by (auto simp: delete_groups_def Let_def sink_ok_def connections_ok_def inventory_ok_def revocations_ok_def group_ok_def
        row_simps)
qed

lemma groups_change_ok:
  "sink_ok d \<Longrightarrow> group_ok (d\<lparr>group_rows := gs, members := ms\<rparr>) \<Longrightarrow> sink_ok (d\<lparr>group_rows := gs, members := ms\<rparr>)"
  by (simp add: sink_ok_def connections_ok_def inventory_ok_def revocations_ok_def)

definition forget_member :: "jsstr \<Rightarrow> sink_db \<Rightarrow> sink_db" where
  "forget_member uid d =
     d\<lparr>group_rows := update_where (\<lambda>g. group_creator g = Some uid) (\<lambda>g. g\<lparr>group_creator := None\<rparr>) (group_rows d),
       members := delete_where (\<lambda>m. member_user m = uid) (members d)\<rparr>"

lemma forget_member_creators: "\<forall>g \<in> set (group_rows (forget_member uid d)). group_creator g \<noteq> Some uid"
proof -
  have "\<forall>g \<in> set (update_where (\<lambda>g. group_creator g = Some uid) (\<lambda>g. g\<lparr>group_creator := None\<rparr>) (group_rows d)).
      group_creator g \<noteq> Some uid"
    by (rule update_where_all) simp_all
  then show ?thesis by (simp add: forget_member_def)
qed

lemma forget_member_ok:
  assumes ok: "sink_ok d"
  shows "sink_ok (forget_member uid d)"
  unfolding forget_member_def
proof (rule groups_change_ok [OF ok])
  let ?gs = "update_where (\<lambda>g. group_creator g = Some uid) (\<lambda>g. g\<lparr>group_creator := None\<rparr>) (group_rows d)"
  have gok: "group_ok d" using ok by (simp add: sink_ok_def connections_ok_def)
  have gm: "map group_id ?gs = map group_id (group_rows d)" by (rule map_key_update_where) simp
  then have gi: "group_id ` set ?gs = group_id ` set (group_rows d)" by (metis set_map)
  have "\<forall>g \<in> set ?gs. \<forall>v. group_creator g = Some v \<longrightarrow> v \<in> account_id ` set (accounts d)"
    using gok by (intro update_where_all) (auto simp: group_ok_def)
  with gok gm gi show "group_ok (d\<lparr>group_rows := ?gs, members := delete_where (\<lambda>m. member_user m = uid) (members d)\<rparr>)"
    by (simp add: group_ok_def row_simps)
qed

lemma delete_account_rows_ok:
  assumes ok: "sink_ok d" and gone: "\<forall>g \<in> set (group_rows d). group_creator g \<noteq> Some uid"
    "\<forall>c \<in> set (connections d). conn_user c \<noteq> Some uid"
  shows "sink_ok (delete_account_rows uid d)"
proof -
  have keep: "v \<in> account_id ` set (delete_where (\<lambda>a. account_id a = uid) (accounts d))"
    if "v \<in> account_id ` set (accounts d)" "v \<noteq> uid" for v
    using that by (auto simp: delete_where_def)
  have gok: "group_ok d" and cok: "connections_ok d" using ok by (simp_all add: sink_ok_def connections_ok_def)
  have "v \<in> account_id ` set (delete_where (\<lambda>a. account_id a = uid) (accounts d))"
    if "g \<in> set (group_rows d)" "group_creator g = Some v" for g v
    by (rule keep) (use gok gone(1) that in \<open>auto simp: group_ok_def\<close>)
  moreover have "member_user m \<in> account_id ` set (delete_where (\<lambda>a. account_id a = uid) (accounts d))"
    if "m \<in> set (members d)" "member_user m \<noteq> uid" for m
    by (rule keep) (use gok that in \<open>auto simp: group_ok_def\<close>)
  moreover have "distinct (map account_id (delete_where (\<lambda>a. account_id a = uid) (accounts d)))"
    "distinct (map (\<lambda>m. (member_group m, member_user m)) (delete_where (\<lambda>m. member_user m = uid) (members d)))"
    using gok by (intro distinct_key_delete_where, simp add: group_ok_def)+
  ultimately have "group_ok (delete_account_rows uid d)"
    using gok by (simp add: group_ok_def delete_account_rows_def set_delete_where)
  moreover have "\<forall>c \<in> set (connections d). \<forall>u. conn_user c = Some u \<longrightarrow>
      u \<in> account_id ` set (delete_where (\<lambda>a. account_id a = uid) (accounts d))"
  proof (intro ballI allI impI)
    fix c u assume "c \<in> set (connections d)" "conn_user c = Some u"
    then show "u \<in> account_id ` set (delete_where (\<lambda>a. account_id a = uid) (accounts d))"
      by (intro keep) (use cok gone(2) in \<open>auto simp: connections_ok_def\<close>)
  qed
  ultimately have "connections_ok (delete_account_rows uid d)"
    using ok by (simp add: sink_ok_def connections_ok_def delete_account_rows_def)
  moreover have "inventory_ok (delete_account_rows uid d)"
    using ok by (simp add: sink_ok_def inventory_ok_def delete_account_rows_def set_delete_where distinct_key_delete_where
      keep [unfolded set_delete_where mem_Collect_eq])
  moreover have "revocations_ok (delete_account_rows uid d)"
    using ok by (simp add: sink_ok_def revocations_ok_def delete_account_rows_def)
  ultimately show ?thesis by (simp add: sink_ok_def)
qed

lemma deleteUser_ok:
  assumes ok: "sink_ok d" and commit: "deleteUser_tx uid d = Commit a d'"
  shows "sink_ok d'"
proof -
  let ?own = "\<lambda>g. \<exists>m \<in> set (members d). member_group m = group_id g \<and> member_user m = uid \<and> member_role m = Owner"
  let ?P = "\<lambda>c. conn_user c = Some uid"
  let ?d2 = "forget_member uid (delete_groups ?own d)"
  let ?d3 = "delete_connections ?P (revoke_tokens ?P ?d2)"
  have d': "d' = delete_account_rows uid ?d3"
    using commit by (simp add: deleteUser_tx_def forget_member_def Let_def split: if_splits)
  have "group_rows ?d3 = group_rows ?d2" by (simp add: delete_connections_def Let_def revoke_tokens_def)
  then have "\<forall>g \<in> set (group_rows ?d3). group_creator g \<noteq> Some uid" using forget_member_creators by simp
  moreover have "\<forall>c \<in> set (connections ?d3). conn_user c \<noteq> Some uid"
    by (simp add: delete_connections_def Let_def delete_where_def)
  moreover have "sink_ok ?d3" by (intro delete_connections_ok revoke_tokens_ok forget_member_ok delete_groups_ok ok)
  ultimately show ?thesis unfolding d' by (intro delete_account_rows_ok)
qed

end
