(* ===== verification/Sink_Steps.thy ===== *)
theory Sink_Steps
  imports Sink_Invariants
begin

text \<open>
  The constraints of the sink's tables through an event, and \<open>sink_step\<close>: one committed change of
  those tables by any route.
\<close>

section \<open>Inventory\<close>

lemma distinct_update_single:
  assumes "distinct (map key rows)" "\<forall>x \<in> set rows. \<forall>y \<in> set rows. P x \<longrightarrow> P y \<longrightarrow> key x = key y"
    and "\<forall>x \<in> set rows. P x \<longrightarrow> key (f x) = n" "\<forall>x \<in> set rows. \<not> P x \<longrightarrow> key x \<noteq> n"
  shows "distinct (map key (update_where P f rows))"
  using assms
proof (induction rows)
  case (Cons a rows)
  have rest: "distinct (map key (update_where P f rows))" 
  proof (rule Cons.IH)
    show "distinct (map key rows)" using Cons.prems(1) by simp
    show "\<forall>x \<in> set rows. \<forall>y \<in> set rows. P x \<longrightarrow> P y \<longrightarrow> key x = key y"
      using Cons.prems(2) by (meson list.set_intros(2))
    show "\<forall>x \<in> set rows. P x \<longrightarrow> key (f x) = n" "\<forall>x \<in> set rows. \<not> P x \<longrightarrow> key x \<noteq> n"
      using Cons.prems(3,4) by simp_all
  qed
  show ?case
  proof (cases "P a")
    case True
    have "\<forall>x \<in> set rows. \<not> P x"
    proof (intro ballI notI)
      fix x assume "x \<in> set rows" "P x"
      have "key x = key a"
        by (rule Cons.prems(2) [rule_format]) (use \<open>x \<in> set rows\<close> \<open>P x\<close> True in simp_all)
      then have "key a \<in> key ` set rows" using \<open>x \<in> set rows\<close> by (metis imageI)
      with Cons.prems(1) show False by simp
    qed
    then have "update_where P f rows = rows" by (intro update_where_none) auto
    with Cons.prems(1,3,4) True \<open>\<forall>x \<in> set rows. \<not> P x\<close> show ?thesis by (auto simp: update_where_def)
  next
    case False
    have "key a \<notin> key ` set (update_where P f rows)"
    proof
      assume "key a \<in> key ` set (update_where P f rows)"
      then obtain x where x: "x \<in> set rows" "key a = (if P x then key (f x) else key x)"
        by (auto simp: update_where_def split: if_splits)
      show False
      proof (cases "P x")
        case True
        with x Cons.prems(3,4) \<open>\<not> P a\<close> show False by simp
      next
        case False
        with x Cons.prems(1) show False by (auto simp: image_iff)
      qed
    qed
    moreover have "update_where P f (a # rows) = a # update_where P f rows" using False by (simp add: update_where_def)
    ultimately show ?thesis using rest by simp
  qed
qed (simp add: update_where_def)

lemma externals_unique:
  assumes "distinct (externals f rows)" "x \<in> set rows" "y \<in> set rows" "f x = Some k" "f y = Some k"
  shows "x = y"
  using assms
proof (induction rows)
  case (Cons a rows)
  have mem: "k \<in> set (externals f rows)" if "z \<in> set rows" "f z = Some k" for z
    using that by (force simp: externals_def)
  from Cons mem [of x] mem [of y] show ?case by (auto simp: externals_def split: option.splits)
qed simp

lemma externals_update: "(\<And>r. f (g r) = f r) \<Longrightarrow> externals f (update_where P g rows) = externals f rows"
  by (induction rows) (auto simp: externals_def update_where_def)

lemma externals_append: "externals f (rows @ [r]) = externals f rows @ (case f r of None \<Rightarrow> [] | Some x \<Rightarrow> [x])"
  by (simp add: externals_def)

lemma externals_mem: "k \<in> set (externals f rows) \<longleftrightarrow> (\<exists>r \<in> set rows. f r = Some k)"
  by (induction rows) (auto simp: externals_def split: option.splits)

lemma upsert_location_ok:
  assumes ok: "inventory_ok d" and run: "upsert_location fresh mv d = Some (lid, d')"
  shows "inventory_ok d' \<and> lid \<in> loc_id ` set (locations d')"
proof (cases "find (\<lambda>l. loc_external l = Some (mv_station mv)) (locations d)")
  case None
  then have "mv_station mv \<notin> set (externals loc_external (locations d))"
    by (auto simp: externals_mem find_None_iff)
  with None run ok show ?thesis
    by (auto simp: upsert_location_def inventory_ok_def externals_append split: if_splits)
next
  case (Some l)
  let ?P = "\<lambda>x. loc_external x = Some (mv_station mv)" and ?f = "\<lambda>x. x\<lparr>loc_name := mv_station_name mv\<rparr>"
  have l: "l \<in> set (locations d)" "?P l" using find_Some_mem [OF Some] by simp_all
  have free: "\<forall>x \<in> set (locations d). loc_id x \<noteq> loc_id l \<longrightarrow> loc_name x \<noteq> mv_station_name mv"
    and d': "d' = d\<lparr>locations := update_where ?P ?f (locations d)\<rparr>" "lid = loc_id l"
    using run Some by (auto simp: upsert_location_def split: if_splits)
  have ids: "map loc_id (locations d') = map loc_id (locations d)"
    unfolding d' by (simp add: map_key_update_where)
  then have idset: "loc_id ` set (locations d') = loc_id ` set (locations d)" by (metis set_map)
  have single: "x = l" if "x \<in> set (locations d)" "?P x" for x
    using externals_unique [of loc_external "locations d" x l] that l ok by (auto simp: inventory_ok_def)
  have other: "loc_name x \<noteq> mv_station_name mv" if "x \<in> set (locations d)" "\<not> ?P x" for x
  proof -
    have "loc_id x \<noteq> loc_id l"
    proof
      assume "loc_id x = loc_id l"
      with ok that(1) l(1) have "x = l" by (intro key_unique [of loc_id "locations d"]) (simp_all add: inventory_ok_def)
      with that(2) l(2) show False by simp
    qed
    with free that(1) show ?thesis by simp
  qed
  have "distinct (map loc_name (update_where ?P ?f (locations d)))"
    by (rule distinct_update_single [where n = "mv_station_name mv"])
      (use ok other in \<open>simp_all add: inventory_ok_def\<close>, metis single)
  moreover have "distinct (externals loc_external (update_where ?P ?f (locations d)))"
    using ok by (simp add: externals_update inventory_ok_def)
  ultimately have "inventory_ok d'"
    using ok ids idset by (simp add: inventory_ok_def d'(1))
  with idset l(1) d'(2) show ?thesis by simp
qed

lemma upsert_item_ok:
  assumes ok: "inventory_ok d" and run: "upsert_item fresh mv d = Some (iid, d')"
  shows "inventory_ok d' \<and> iid \<in> item_id ` set (catalog d')"
proof (cases "find (\<lambda>i. item_external i = Some (mv_item mv)) (catalog d)")
  case None
  then have "mv_item mv \<notin> set (externals item_external (catalog d))"
    by (auto simp: externals_mem find_None_iff)
  with None run ok show ?thesis
    by (auto simp: upsert_item_def inventory_ok_def externals_append split: if_splits)
next
  case (Some i)
  let ?P = "\<lambda>x. item_external x = Some (mv_item mv)" and ?f = "\<lambda>x. x\<lparr>item_category := mv_category mv\<rparr>"
  have d': "d' = d\<lparr>catalog := update_where ?P ?f (catalog d)\<rparr>" "iid = item_id i"
    using run Some by (auto simp: upsert_item_def)
  have ids: "map item_id (catalog d') = map item_id (catalog d)"
    unfolding d' by (simp add: map_key_update_where)
  then have idset: "item_id ` set (catalog d') = item_id ` set (catalog d)" by (metis set_map)
  have "distinct (externals item_external (update_where ?P ?f (catalog d)))"
    using ok by (simp add: externals_update inventory_ok_def)
  then have "inventory_ok d'"
    using ok ids idset by (simp add: inventory_ok_def d'(1))
  with idset find_Some_mem [OF Some] d'(2) show ?thesis by simp
qed

definition stock_ok :: "sink_db \<Rightarrow> inventory_row \<Rightarrow> bool" where
  "stock_ok d r \<longleftrightarrow> 1 \<le> inv_quantity r \<and> inv_quantity r < 2 ^ 31 \<and> inv_user r \<in> account_id ` set (accounts d) \<and>
     inv_item r \<in> item_id ` set (catalog d) \<and> inv_location r \<in> loc_id ` set (locations d)"

lemma replace_inventory_ok:
  "inventory_ok d \<Longrightarrow> distinct (map inv_key rs) \<Longrightarrow> \<forall>r \<in> set rs. stock_ok d r \<Longrightarrow> inventory_ok (d\<lparr>inventory := rs\<rparr>)"
  by (simp add: inventory_ok_def stock_ok_def)

lemma inventory_ok_stock: "inventory_ok d \<Longrightarrow> r \<in> set (inventory d) \<Longrightarrow> stock_ok d r"
  by (simp add: inventory_ok_def stock_ok_def)

lemma move_inventory_ok:
  assumes ok: "inventory_ok d" and run: "move_inventory uid iid lid mv d = Some d'"
    and refs: "uid \<in> account_id ` set (accounts d)" "iid \<in> item_id ` set (catalog d)" "lid \<in> loc_id ` set (locations d)"
    and q: "1 \<le> mv_quantity mv"
  shows "inventory_ok d'"
proof (cases "mv_direction mv")
  case To_backpack
  let ?row = "\<lparr>inv_user = uid, inv_item = iid, inv_location = lid, inv_quantity = mv_quantity mv\<rparr>"
  let ?merge = "\<lambda>r x. r\<lparr>inv_quantity := inv_quantity r + inv_quantity x\<rparr>"
  have d': "d' = d\<lparr>inventory := upsert inv_key ?merge ?row (inventory d)\<rparr>"
    and range: "own_quantity d (uid, iid, lid) + mv_quantity mv < 2 ^ 31"
    using run To_backpack by (auto simp: move_inventory_def Let_def split: if_splits)
  have dist: "distinct (map inv_key (inventory d))" using ok by (simp add: inventory_ok_def)
  have own: "own_quantity d (inv_key r) = inv_quantity r" if "r \<in> set (inventory d)" for r
    using that find_key_Some [OF dist, of "inv_key r" r] by (simp add: own_quantity_def)
  have "0 \<le> own_quantity d k" for k
    using ok by (auto simp: own_quantity_def inventory_ok_def dest!: find_Some_mem split: option.splits)
  from this [of "(uid, iid, lid)"] range have small: "mv_quantity mv < 2 ^ 31" by linarith
  have "stock_ok d r" if "r \<in> set (upsert inv_key ?merge ?row (inventory d))" for r
  proof -
    from that set_upsert_subset [of inv_key ?merge ?row "inventory d"] consider "r \<in> set (inventory d)" | "r = ?row"
      | x where "r = ?merge x ?row" "x \<in> set (inventory d)" "inv_key x = inv_key ?row" by blast
    then show ?thesis
    proof cases
      case 2
      then show ?thesis using refs q small by (simp add: stock_ok_def)
    next
      case (3 x)
      with own [OF 3(2)] range have "inv_quantity x + mv_quantity mv < 2 ^ 31" by (simp add: inv_key_def)
      with 3 inventory_ok_stock [OF ok 3(2)] q show ?thesis by (simp add: stock_ok_def)
    qed (rule inventory_ok_stock [OF ok])
  qed
  moreover have "distinct (map inv_key (upsert inv_key ?merge ?row (inventory d)))"
    by (rule distinct_key_upsert [OF dist]) (simp add: inv_key_def)
  ultimately show ?thesis unfolding d' by (intro replace_inventory_ok [OF ok]) auto
next
  case To_station
  let ?k = "(uid, iid, lid)" and ?f = "\<lambda>r. r\<lparr>inv_quantity := inv_quantity r - mv_quantity mv\<rparr>"
  let ?left = "delete_where (\<lambda>r. inv_key r = ?k \<and> inv_quantity r \<le> mv_quantity mv) (inventory d)"
  have d': "d' = d\<lparr>inventory := update_where (\<lambda>r. inv_key r = ?k) ?f ?left\<rparr>"
    using run To_station by (simp add: move_inventory_def Let_def)
  have "distinct (map inv_key ?left)" using ok by (simp add: inventory_ok_def distinct_key_delete_where)
  then have "distinct (map inv_key (update_where (\<lambda>r. inv_key r = ?k) ?f ?left))"
    by (subst map_key_update_where) (simp_all add: inv_key_def)
  moreover have "\<forall>r \<in> set (update_where (\<lambda>r. inv_key r = ?k) ?f ?left). stock_ok d r"
    by (rule update_where_all)
      (use inventory_ok_stock [OF ok] q in \<open>fastforce simp: set_delete_where stock_ok_def\<close>)+
  ultimately show ?thesis unfolding d' by (intro replace_inventory_ok [OF ok])
qed

lemma sync_storage_row_ok:
  assumes ok: "inventory_ok d" and run: "sync_storage_row uid mv st d = Some d'" and uid: "uid \<in> account_id ` set (accounts d)"
  shows "inventory_ok d'"
proof -
  let ?row = "\<lparr>sync_user = uid, sync_item = mv_item mv, sync_category = mv_category mv, sync_location = mv_station mv,
         sync_location_name = mv_station_name mv, sync_storage = st, sync_quantity = max (sync_delta mv st) 0\<rparr>"
  let ?merge = "\<lambda>r x. r\<lparr>sync_quantity := max (sync_quantity r + sync_delta mv st) 0\<rparr>"
  let ?k = "(uid, mv_item mv, mv_station mv, st)"
  have d': "d' = d\<lparr>sync_rows := upsert sync_key ?merge ?row (sync_rows d)\<rparr>"
    and range: "sync_amount d ?k + sync_delta mv st < 2 ^ 31"
    using run by (auto simp: sync_storage_row_def Let_def split: if_splits)
  have dist: "distinct (map sync_key (sync_rows d))" using ok by (simp add: inventory_ok_def)
  have amount: "sync_amount d (sync_key r) = sync_quantity r" if "r \<in> set (sync_rows d)" for r
    using that find_key_Some [OF dist, of "sync_key r" r] by (simp add: sync_amount_def)
  have "0 \<le> sync_amount d k" for k
    using ok by (auto simp: sync_amount_def inventory_ok_def dest!: find_Some_mem split: option.splits)
  from this [of ?k] range have small: "sync_delta mv st < 2 ^ 31" by linarith
  have "0 \<le> sync_quantity r \<and> sync_quantity r < 2 ^ 31 \<and> sync_user r \<in> account_id ` set (accounts d)"
    if "r \<in> set (upsert sync_key ?merge ?row (sync_rows d))" for r
  proof -
    have old: "0 \<le> sync_quantity r \<and> sync_quantity r < 2 ^ 31 \<and> sync_user r \<in> account_id ` set (accounts d)"
      if "r \<in> set (sync_rows d)" for r using ok that by (simp add: inventory_ok_def)
    from that set_upsert_subset [of sync_key ?merge ?row "sync_rows d"] consider "r \<in> set (sync_rows d)" | "r = ?row"
      | x where "r = ?merge x ?row" "x \<in> set (sync_rows d)" "sync_key x = sync_key ?row" by blast
    then show ?thesis
    proof cases
      case 2
      then show ?thesis using uid small by simp
    next
      case (3 x)
      with amount [OF 3(2)] range have "sync_quantity x + sync_delta mv st < 2 ^ 31" by (simp add: sync_key_def)
      with 3 old [OF 3(2)] show ?thesis by simp
    qed (rule old)
  qed
  moreover have "distinct (map sync_key (upsert sync_key ?merge ?row (sync_rows d)))"
    by (rule distinct_key_upsert [OF dist]) (simp add: sync_key_def)
  ultimately show ?thesis using ok by (simp add: inventory_ok_def d')
qed

lemma record_transaction_ok:
  assumes "inventory_ok d" "record_transaction eid uid mv d = Some d'" "uid \<in> account_id ` set (accounts d)" "1 \<le> mv_quantity mv"
  shows "inventory_ok d'"
  using assms by (auto simp: record_transaction_def inventory_ok_def split: if_splits)

lemma apply_move_ok:
  assumes ok: "sink_ok d" and run: "apply_move fresh eid uid mv d = Some d'"
    and uid: "uid \<in> account_id ` set (accounts d)" and q: "1 \<le> mv_quantity mv"
  shows "sink_ok d' \<and> connections d' = connections d"
  using run
proof (rule apply_move_Some)
  fix lid d1 iid d2 d3 d4 d5
  assume st: "upsert_location (fresh 0) mv d = Some (lid, d1)" "upsert_item (fresh 1) mv d1 = Some (iid, d2)"
    "move_inventory uid iid lid mv d2 = Some d3" "sync_storage_row uid mv Backpack d3 = Some d4"
    "sync_storage_row uid mv Station d4 = Some d5" "record_transaction eid uid mv d5 = Some d'"
  obtain ls cs rs1 rs2 rs3 ts where eqs: "d1 = d\<lparr>locations := ls\<rparr>" "d2 = d1\<lparr>catalog := cs\<rparr>" "d3 = d2\<lparr>inventory := rs1\<rparr>"
    "d4 = d3\<lparr>sync_rows := rs2\<rparr>" "d5 = d4\<lparr>sync_rows := rs3\<rparr>" "d' = d5\<lparr>transactions := ts\<rparr>"
    using upsert_location_Some [OF st(1)] upsert_item_Some [OF st(2)] move_inventory_Some [OF st(3)]
      sync_storage_row_Some [OF st(4)] sync_storage_row_Some [OF st(5)] record_transaction_Some [OF st(6)] by blast
  have i0: "inventory_ok d" using ok by (simp add: sink_ok_def)
  have i1: "inventory_ok d1" "lid \<in> loc_id ` set (locations d1)" using upsert_location_ok [OF i0 st(1)] by simp_all
  have i2: "inventory_ok d2" "iid \<in> item_id ` set (catalog d2)" using upsert_item_ok [OF i1(1) st(2)] by simp_all
  have i3: "inventory_ok d3" by (rule move_inventory_ok [OF i2(1) st(3) _ i2(2) _ q]) (use uid i1(2) in \<open>simp_all add: eqs(1,2)\<close>)
  have i4: "inventory_ok d4" by (rule sync_storage_row_ok [OF i3 st(4)]) (use uid in \<open>simp add: eqs(1-3)\<close>)
  have i5: "inventory_ok d5" by (rule sync_storage_row_ok [OF i4 st(5)]) (use uid in \<open>simp add: eqs(1-4)\<close>)
  have "inventory_ok d'" by (rule record_transaction_ok [OF i5 st(6) _ q]) (use uid in \<open>simp add: eqs(1-5)\<close>)
  with ok show ?thesis by (simp add: sink_ok_def connections_ok_def revocations_ok_def group_ok_def eqs)
qed

end
