(* ===== verification/Sink_Properties.thy ===== *)
theory Sink_Properties
  imports Sink_Steps
begin

text \<open>
  The events of the sink keep its constraints; \<open>sink_step\<close>, one committed change of its tables by any
  route; and the properties of the sink.
\<close>

section \<open>Events keep the constraints\<close>

lemma read_move_quantity: "read_move nt p = Some mv \<Longrightarrow> 1 \<le> mv_quantity mv"
  by (auto simp: read_move_def Let_def split: option.splits if_splits)

lemma open_connection_Some:
  "open_connection d h = Some c \<Longrightarrow> c \<in> set (connections d) \<and> conn_hash c = h \<and> conn_user c \<noteq> None \<and>
     conn_status c \<in> {Pending, Linked} \<and> conn_revoked_at c = None"
  unfolding open_connection_def by (rule find_Some_mem)

lemma getConnectedServiceUser_Some:
  assumes "getConnectedServiceUser h d = Some (uid, d')"
  shows "(\<exists>c. open_connection d h = Some c \<and> conn_user c = Some uid) \<and> (d' = d \<or> (\<exists>n. d' = rename_account n uid d))"
  using assms by (auto simp: getConnectedServiceUser_def split: option.splits if_splits)

lemma profile_upsert_ok:
  assumes ok: "sink_ok d" and h: "prof_hash p \<in> conn_hash ` set (connections d)"
  shows "sink_ok (d\<lparr>profiles := upsert prof_hash merge_profile p (profiles d)\<rparr>)"
proof -
  have "prof_hash (merge_profile r p) = prof_hash r" for r by (simp add: merge_profile_def)
  note key = this
  have "distinct (map prof_hash (upsert prof_hash merge_profile p (profiles d)))"
    using ok by (intro distinct_key_upsert) (simp_all add: key sink_ok_def connections_ok_def)
  moreover have "prof_hash r \<in> conn_hash ` set (connections d)"
    if "r \<in> set (upsert prof_hash merge_profile p (profiles d))" for r
  proof -
    have old: "prof_hash r \<in> conn_hash ` set (connections d)" if "r \<in> set (profiles d)" for r
      using ok that by (simp add: sink_ok_def connections_ok_def)
    from that set_upsert_subset [of prof_hash merge_profile p "profiles d"] consider "r \<in> set (profiles d)" | "r = p"
      | x where "r = merge_profile x p" "x \<in> set (profiles d)" by blast
    then show ?thesis using old h key by cases simp_all
  qed
  ultimately show ?thesis
    using ok by (simp add: sink_ok_def connections_ok_def inventory_ok_def revocations_ok_def group_ok_def)
qed

lemma own_blueprint_hashes:
  "b \<in> set (own_blueprint h ts x rows) \<Longrightarrow> bp_hash b = h \<or> (\<exists>r \<in> set rows. bp_hash b = bp_hash r)"
  unfolding own_blueprint_def
  using set_upsert_subset [of bp_key "\<lambda>old new. old\<lparr>bp_product := bp_product new, bp_owned_at := bp_owned_at new\<rparr>"
      "\<lparr>bp_hash = h, bp_tag = fst x, bp_product = snd x, bp_owned_at = ts, bp_first_seen = ts\<rparr>" rows] by fastforce

lemma own_all_hashes:
  "b \<in> set (foldl (\<lambda>rows x. own_blueprint h ts x rows) rows bs) \<Longrightarrow> bp_hash b = h \<or> (\<exists>r \<in> set rows. bp_hash b = bp_hash r)"
proof (induction bs arbitrary: rows)
  case (Cons x bs)
  from Cons.IH [of "own_blueprint h ts x rows"] Cons.prems show ?case
    using own_blueprint_hashes [of _ h ts x rows] by fastforce
qed auto

lemma blueprints_ok:
  assumes "sink_ok d" "distinct (map bp_key rows)" "\<And>b. b \<in> set rows \<Longrightarrow> bp_hash b \<in> conn_hash ` set (connections d)"
  shows "sink_ok (d\<lparr>blueprints := rows\<rparr>)"
  using assms by (simp add: sink_ok_def connections_ok_def inventory_ok_def revocations_ok_def group_ok_def)

lemma own_all_ok:
  assumes ok: "sink_ok d" and h: "h \<in> conn_hash ` set (connections d)"
  shows "sink_ok (d\<lparr>blueprints := delete_where P (foldl (\<lambda>rows x. own_blueprint h ts x rows) (blueprints d) bs)\<rparr>)"
proof (rule blueprints_ok [OF ok])
  let ?rows = "foldl (\<lambda>rows x. own_blueprint h ts x rows) (blueprints d) bs"
  have "distinct (map bp_key (blueprints d))" using ok by (simp add: sink_ok_def connections_ok_def)
  then show "distinct (map bp_key (delete_where P ?rows))" by (intro distinct_key_delete_where own_all_keys)
  fix b assume "b \<in> set (delete_where P ?rows)"
  then have "b \<in> set ?rows" by (simp add: set_delete_where)
  from own_all_hashes [OF this] show "bp_hash b \<in> conn_hash ` set (connections d)"
    using ok h by (auto simp: sink_ok_def connections_ok_def)
qed

lemma blueprint_events_ok:
  assumes ok: "sink_ok d" and h: "h \<in> conn_hash ` set (connections d)"
  shows "blueprint_snapshot h ev d = Applied d' \<Longrightarrow> sink_ok d' \<and> connections d' = connections d"
    and "blueprint_added h ev d = Applied d' \<Longrightarrow> sink_ok d' \<and> connections d' = connections d"
    and "blueprint_removed h ev d = Applied d' \<Longrightarrow> sink_ok d' \<and> connections d' = connections d"
proof -
  note all = own_all_ok [OF ok h]
  show "blueprint_snapshot h ev d = Applied d' \<Longrightarrow> sink_ok d' \<and> connections d' = connections d"
    using all by (auto simp: blueprint_snapshot_def Let_def split: option.splits json.splits if_splits)
  show "blueprint_added h ev d = Applied d' \<Longrightarrow> sink_ok d' \<and> connections d' = connections d"
    using all [where P = "\<lambda>b. False" and bs = "[x]" for x]
    by (auto simp: blueprint_added_def delete_where_def split: option.splits if_splits)
  show "blueprint_removed h ev d = Applied d' \<Longrightarrow> sink_ok d' \<and> connections d' = connections d"
    using all [where bs = "[]"] by (auto simp: blueprint_removed_def split: option.splits if_splits)
qed

lemma profile_event_ok:
  assumes ok: "sink_ok d" and h: "h \<in> conn_hash ` set (connections d)" and run: "profile_event h ev d = Applied d'"
  shows "sink_ok d' \<and> connections d' = connections d"
proof -
  let ?d1 = "d\<lparr>profiles := upsert prof_hash merge_profile (read_profile h ev) (profiles d)\<rparr>"
  have ok1: "sink_ok ?d1"
    by (rule profile_upsert_ok [OF ok]) (use h in \<open>simp add: read_profile_def Let_def\<close>)
  from run consider "d' = ?d1" | n uid where "d' = rename_crew n uid (rename_account n uid ?d1)"
    by (auto simp: profile_event_def Let_def split: if_splits option.splits)
  then show ?thesis
  proof cases
    case 1 with ok1 show ?thesis by simp
  next
    case (2 n uid)
    from ok1 have "sink_ok (rename_account n uid ?d1)" by (simp only: rename_account_ok)
    from rename_crew_ok [OF this] 2 show ?thesis by simp
  qed
qed

lemma inventory_transaction_Applied:
  assumes "inventory_transaction nt fresh h ev d = Applied d'"
  obtains uid d1 mv c where "open_connection d h = Some c" "conn_user c = Some uid"
    "d1 = d \<or> (\<exists>n. d1 = rename_account n uid d)" "read_move nt (ev_payload ev) = Some mv"
    "apply_move fresh (ev_id ev) uid mv d1 = Some d'"
proof -
  obtain uid d1 where u: "getConnectedServiceUser h d = Some (uid, d1)"
    using assms by (auto simp: inventory_transaction_def split: option.splits)
  obtain mv where mv: "read_move nt (ev_payload ev) = Some mv" "apply_move fresh (ev_id ev) uid mv d1 = Some d'"
    using assms u by (auto simp: inventory_transaction_def split: option.splits if_splits)
  from getConnectedServiceUser_Some [OF u] obtain c where "open_connection d h = Some c" "conn_user c = Some uid"
    "d1 = d \<or> (\<exists>n. d1 = rename_account n uid d)" by blast
  from that [OF this mv] show thesis .
qed

lemma inventory_transaction_ok:
  assumes ok: "sink_ok d" and run: "inventory_transaction nt fresh h ev d = Applied d'"
  shows "sink_ok d' \<and> connections d' = connections d"
  using run
proof (rule inventory_transaction_Applied)
  fix uid d1 mv c
  assume c: "open_connection d h = Some c" "conn_user c = Some uid" and d1: "d1 = d \<or> (\<exists>n. d1 = rename_account n uid d)"
    and mv: "read_move nt (ev_payload ev) = Some mv" "apply_move fresh (ev_id ev) uid mv d1 = Some d'"
  have "uid \<in> account_id ` set (accounts d)"
    using ok c open_connection_Some [OF c(1)] by (auto simp: sink_ok_def connections_ok_def)
  with d1 have uid: "uid \<in> account_id ` set (accounts d1)" by auto
  have ok1: "sink_ok d1" using d1 ok rename_account_ok by metis
  have same: "connections d1 = connections d" using d1 by auto
  from apply_move_ok [OF ok1 mv(2) uid read_move_quantity [OF mv(1)]] same show ?thesis by simp
qed

lemma applied_cases [consumes 1, case_names inventory profile snapshot_case added removed ignored]:
  assumes "applyBlueprintEvent nt fresh h ev d = Applied d'"
  obtains "inventory_transaction nt fresh h ev d = Applied d'" | "profile_event h ev d = Applied d'"
    | "blueprint_snapshot h ev d = Applied d'" | "blueprint_added h ev d = Applied d'"
    | "blueprint_removed h ev d = Applied d'" | "d' = d"
  using assms unfolding applyBlueprintEvent_def by (metis applied.inject(1))

lemma applied_ok:
  assumes "sink_ok d" "h \<in> conn_hash ` set (connections d)" "applyBlueprintEvent nt fresh h ev d = Applied d'"
  shows "sink_ok d' \<and> connections d' = connections d"
proof -
  from assms(3) show ?thesis
  proof (cases rule: applied_cases)
    case inventory from inventory_transaction_ok [OF assms(1) this] show ?thesis .
  next
    case profile from profile_event_ok [OF assms(1,2) this] show ?thesis .
  next
    case snapshot_case from blueprint_events_ok(1) [OF assms(1,2) this] show ?thesis .
  next
    case added from blueprint_events_ok(2) [OF assms(1,2) this] show ?thesis .
  next
    case removed from blueprint_events_ok(3) [OF assms(1,2) this] show ?thesis .
  next
    case ignored with assms(1) show ?thesis by simp
  qed
qed

lemma conn_hashes_identify [simp]: "identify h c ev d = Identified ev' d' \<Longrightarrow>
    conn_hash ` set (connections d') = conn_hash ` set (connections d)"
proof -
  have "map conn_hash (connections (bind_identity h ev d)) = map conn_hash (connections d)"
    unfolding bind_identity_def by (simp add: map_key_update_where)
  then have "conn_hash ` set (connections (bind_identity h ev d)) = conn_hash ` set (connections d)" by (metis set_map)
  then show "identify h c ev d = Identified ev' d' \<Longrightarrow> ?thesis" by (auto simp: identify_def split: if_splits)
qed

lemma conn_hashes_touch [simp]: "conn_hash ` set (connections (touch now h handle d)) = conn_hash ` set (connections d)"
proof -
  have "map conn_hash (connections (touch now h handle d)) = map conn_hash (connections d)"
    unfolding touch_def by (simp add: map_key_update_where touch_connection_def)
  then show ?thesis by (metis set_map)
qed

lemma sink_tx_Commit:
  assumes "sink_tx nt now fresh h ev0 d = Commit a d'"
  obtains c ev d1 where "h \<notin> set (revoked_sinks d)" "open_connection d h = Some c" "identify h c ev0 d = Identified ev d1"
    "pg_text (ev_user_id ev)" "pg_text_option (ev_handle ev)" "pg_text (ev_id ev)" "a = Sink_accepted"
    "(ev_id ev \<in> event_id ` set (sink_events (touch now h (ev_handle ev) d1)) \<and> d' = touch now h (ev_handle ev) d1) \<or>
     (ev_id ev \<notin> event_id ` set (sink_events (touch now h (ev_handle ev) d1)) \<and>
      (\<exists>d3. applyBlueprintEvent nt fresh h ev (touch now h (ev_handle ev) d1) = Applied d3 \<and>
        d' = d3\<lparr>sink_events := sink_events d3 @
          [\<lparr>event_id = ev_id ev, event_hash = h, event_name = ev_event ev, event_ts = ev_ts ev\<rparr>]\<rparr>))"
proof -
  obtain c where c: "h \<notin> set (revoked_sinks d)" "open_connection d h = Some c"
    using assms by (auto simp: sink_tx_def split: if_splits option.splits)
  obtain ev d1 where i: "identify h c ev0 d = Identified ev d1" "pg_text (ev_user_id ev)" "pg_text_option (ev_handle ev)" "pg_text (ev_id ev)"
    using assms c by (auto simp: sink_tx_def split: if_splits identity.splits)
  show thesis
  proof (cases "ev_id ev \<in> event_id ` set (sink_events (touch now h (ev_handle ev) d1))")
    case True
    with assms c i show thesis by (intro that [OF c i]) (auto simp: sink_tx_def Let_def)
  next
    case False
    with assms c i show thesis
      by (intro that [OF c i]) (auto simp: sink_tx_def Let_def split: applied.splits if_splits)
  qed
qed

lemma applied_events:
  assumes "applyBlueprintEvent nt fresh h ev d = Applied d'"
  shows "sink_events d' = sink_events d \<and> revoked_sinks d' = revoked_sinks d"
  using assms
proof (cases rule: applied_cases)
  case inventory
  then show ?thesis
  proof (rule inventory_transaction_Applied)
    fix uid d1 mv c
    assume d1: "d1 = d \<or> (\<exists>n. d1 = rename_account n uid d)" and mv: "apply_move fresh (ev_id ev) uid mv d1 = Some d'"
    have "sink_events d' = sink_events d1 \<and> revoked_sinks d' = revoked_sinks d1"
      using mv by (rule apply_move_Some) (auto dest!: upsert_location_Some upsert_item_Some move_inventory_Some
          sync_storage_row_Some record_transaction_Some)
    with d1 show ?thesis by auto
  qed
next
  case profile then show ?thesis by (auto simp: profile_event_def Let_def split: if_splits option.splits)
next
  case snapshot_case then show ?thesis
    by (auto simp: blueprint_snapshot_def Let_def split: if_splits option.splits json.splits)
next
  case added then show ?thesis by (auto simp: blueprint_added_def split: if_splits option.splits)
next
  case removed then show ?thesis by (auto simp: blueprint_removed_def split: if_splits option.splits)
qed simp

lemma sink_tx_ok:
  assumes ok: "sink_ok d" and commit: "sink_tx nt now fresh h ev0 d = Commit a d'"
  shows "sink_ok d'"
  using commit
proof (rule sink_tx_Commit)
  fix c and ev :: envelope and d1
  let ?d2 = "touch now h (ev_handle ev) d1"
  assume c: "open_connection d h = Some c" and i: "identify h c ev0 d = Identified ev d1"
    and run: "(ev_id ev \<in> event_id ` set (sink_events ?d2) \<and> d' = ?d2) \<or>
     (ev_id ev \<notin> event_id ` set (sink_events ?d2) \<and>
      (\<exists>d3. applyBlueprintEvent nt fresh h ev ?d2 = Applied d3 \<and>
        d' = d3\<lparr>sink_events := sink_events d3 @
          [\<lparr>event_id = ev_id ev, event_hash = h, event_name = ev_event ev, event_ts = ev_ts ev\<rparr>]\<rparr>))"
  have ok2: "sink_ok ?d2" by (rule touch_ok [OF identify_ok [OF ok i]])
  have h: "h \<in> conn_hash ` set (connections ?d2)"
    using open_connection_Some [OF c] conn_hashes_identify [OF i] by auto
  from run show ?thesis
  proof
    assume "ev_id ev \<notin> event_id ` set (sink_events ?d2) \<and>
      (\<exists>d3. applyBlueprintEvent nt fresh h ev ?d2 = Applied d3 \<and>
        d' = d3\<lparr>sink_events := sink_events d3 @
          [\<lparr>event_id = ev_id ev, event_hash = h, event_name = ev_event ev, event_ts = ev_ts ev\<rparr>]\<rparr>)"
    then obtain d3 where d3: "applyBlueprintEvent nt fresh h ev ?d2 = Applied d3" "ev_id ev \<notin> event_id ` set (sink_events ?d2)"
      "d' = d3\<lparr>sink_events := sink_events d3 @
          [\<lparr>event_id = ev_id ev, event_hash = h, event_name = ev_event ev, event_ts = ev_ts ev\<rparr>]\<rparr>" by blast
    have "h \<in> conn_hash ` set (connections d3)" "sink_ok d3" "ev_id ev \<notin> event_id ` set (sink_events d3)"
      using applied_ok [OF ok2 h d3(1)] applied_events [OF d3(1)] d3(2) h by simp_all
    then show ?thesis unfolding d3(3)
      by (simp add: sink_ok_def connections_ok_def inventory_ok_def revocations_ok_def group_ok_def)
  qed (use ok2 in simp)
qed

section \<open>The step relation\<close>

inductive sink_step :: "sink_db \<Rightarrow> sink_db \<Rightarrow> bool" where
  step_event: "sink_tx nt now fresh h ev d = Commit a d' \<Longrightarrow> sink_step d d'"
| step_connect: "connect_tx now raw h url uid d = Commit a d' \<Longrightarrow> sink_step d d'"
| step_disconnect: "disconnect_tx now uid d = Commit a d' \<Longrightarrow> sink_step d d'"
| step_delete_user: "deleteUser_tx uid d = Commit a d' \<Longrightarrow> sink_step d d'"
| step_cleanup: "sink_step d (cleanupConnections cutoff d)"
| step_accounts: "sink_ok (d\<lparr>accounts := us, group_rows := gs, members := ms\<rparr>) \<Longrightarrow>
     sink_step d (d\<lparr>accounts := us, group_rows := gs, members := ms\<rparr>)"

lemma sink_step_ok: "sink_step d d' \<Longrightarrow> sink_ok d \<Longrightarrow> sink_ok d'"
  by (induction rule: sink_step.induct)
    (auto intro: sink_tx_ok connect_ok disconnect_ok deleteUser_ok simp: cleanupConnections_def delete_connections_ok)

interpretation sink_requests: stepwise sink_step sink_ok
  by unfold_locales (rule sink_step_ok)

end
