(* ===== verification/Sink_Theorems.thy ===== *)
theory Sink_Theorems
  imports Sink_Properties
begin

text \<open>
  The properties of the SCMDB sink, with a sample of its tables for their witnesses.
\<close>

section \<open>Sample tables\<close>

definition sink_sample :: sink_db where
  "sink_sample =
     \<lparr>accounts = [\<lparr>account_id = js ''u'', account_state = Active, account_display_name = js ''A'', account_verselink_name = None\<rparr>],
      group_rows = [], members = [],
      connections = [\<lparr>conn_hash = js ''h'', conn_user = Some (js ''u''), conn_scmdb_id = Some (js ''s''), conn_handle = None,
        conn_status = Linked, conn_connected_at = Some 0, conn_disconnected_at = None, conn_revoked_at = None, conn_seen_at = 0\<rparr>],
      revoked_sinks = [], profiles = [], sink_events = [], blueprints = [], catalog = [], locations = [], inventory = [],
      sync_rows = [], transactions = []\<rparr>"

definition sample_event :: "string \<Rightarrow> obj \<Rightarrow> envelope" where
  "sample_event name p =
     \<lparr>ev_id = js ''e'', ev_event = js name, ev_ts = 7, ev_user_id = js ''s'', ev_handle = None, ev_payload = p\<rparr>"

lemma sink_sample_ok: "sink_ok sink_sample"
  by (simp add: sink_sample_def sink_ok_def connections_ok_def inventory_ok_def revocations_ok_def group_ok_def externals_def)

section \<open>Revocation\<close>

lemma applied_revoked: "sink_tx nt now fresh h ev d = Commit a d' \<Longrightarrow> revoked_sinks d' = revoked_sinks d"
proof (erule sink_tx_Commit)
  fix c and ev' :: envelope and d1
  assume i: "identify h c ev d = Identified ev' d1"
    and run: "(ev_id ev' \<in> event_id ` set (sink_events (touch now h (ev_handle ev') d1)) \<and> d' = touch now h (ev_handle ev') d1) \<or>
     (ev_id ev' \<notin> event_id ` set (sink_events (touch now h (ev_handle ev') d1)) \<and>
      (\<exists>d3. applyBlueprintEvent nt fresh h ev' (touch now h (ev_handle ev') d1) = Applied d3 \<and>
        d' = d3\<lparr>sink_events := sink_events d3 @
          [\<lparr>event_id = ev_id ev', event_hash = h, event_name = ev_event ev', event_ts = ev_ts ev'\<rparr>]\<rparr>))"
  have "revoked_sinks d1 = revoked_sinks d" using i by (auto simp: identify_def bind_identity_def split: if_splits)
  then have "revoked_sinks (touch now h (ev_handle ev') d1) = revoked_sinks d" by (simp add: touch_def)
  then show ?thesis using run applied_events by auto
qed

lemma revoke_tokens_grows: "set (revoked_sinks d) \<subseteq> set (revoked_sinks (revoke_tokens P d))"
  by (auto simp: revoke_tokens_def)

lemma step_revocations: "sink_step d d' \<Longrightarrow> h \<in> set (revoked_sinks d) \<Longrightarrow> h \<in> set (revoked_sinks d')"
proof (induction rule: sink_step.induct)
  case (step_event nt now fresh h' ev d a d')
  then show ?case by (simp add: applied_revoked)
next
  case (step_connect now raw h' url uid d a d')
  then show ?case
    by (auto simp: connect_tx_def Let_def revoke_rows_def split: if_splits intro: subsetD [OF revoke_tokens_grows])
next
  case (step_disconnect now uid d a d')
  then show ?case
    by (auto simp: disconnect_tx_def Let_def revoke_rows_def intro: subsetD [OF revoke_tokens_grows])
next
  case (step_delete_user uid d a d')
  then show ?case using revoke_tokens_grows
    by (auto simp: deleteUser_tx_def Let_def delete_account_rows_def delete_connections_def delete_groups_def revoke_tokens_def split: if_splits)
qed (simp_all add: cleanupConnections_def delete_connections_def Let_def)

lemma steps_revocations: "sink_step\<^sup>*\<^sup>* d d' \<Longrightarrow> h \<in> set (revoked_sinks d) \<Longrightarrow> h \<in> set (revoked_sinks d')"
  by (induction rule: rtranclp_induct) (auto intro: step_revocations)

text \<open>C10. A disconnect is final: every token the user could still have sent events with is refused with 401 from then
  on, whatever is committed later (a new connection, the deletion of the account, other users' events).\<close>

theorem sink_revocation_permanent:
  assumes cut: "disconnect_tx now uid d = Commit a d1" and later: "sink_step\<^sup>*\<^sup>* d1 d2"
    and c: "c \<in> set (connections d)" "conn_user c = Some uid" "conn_status c \<in> {Pending, Linked}" "conn_revoked_at c = None"
  shows "sink_tx nt t fresh (conn_hash c) ev d2 = Rollback (Sink_error 401 ''sink revoked'')"
proof -
  have "conn_hash c \<in> set (revoked_sinks d1)"
    using cut c revoke_tokens_covers [of c d "user_connection uid {Pending, Linked}"]
    by (auto simp: disconnect_tx_def Let_def revoke_rows_def user_connection_def)
  from steps_revocations [OF later this] show ?thesis by (simp add: sink_tx_def)
qed

theorem sink_revocation_permanent_witness:
  "\<exists>a d1. disconnect_tx 5 (js ''u'') sink_sample = Commit a d1 \<and>
     sink_tx (\<lambda>n. []) 9 (\<lambda>i. []) (js ''h'') (sample_event ''blueprint.owned.added'' []) d1 = Rollback (Sink_error 401 ''sink revoked'')"
proof -
  obtain a d1 where cut: "disconnect_tx 5 (js ''u'') sink_sample = Commit a d1" by (simp add: disconnect_tx_def Let_def)
  from sink_revocation_permanent [OF cut rtranclp.rtrancl_refl, of "hd (connections sink_sample)" "\<lambda>n. []" 9 "\<lambda>i. []"
      "sample_event ''blueprint.owned.added'' []"] cut
  show ?thesis by (auto simp: sink_sample_def)
qed

section \<open>Retries\<close>

lemma open_connection_iff:
  assumes "distinct (map conn_hash (connections d))"
  shows "open_connection d h = Some c \<longleftrightarrow> c \<in> set (connections d) \<and> conn_hash c = h \<and> conn_user c \<noteq> None \<and>
    conn_status c \<in> {Pending, Linked} \<and> conn_revoked_at c = None"
proof
  assume c: "c \<in> set (connections d) \<and> conn_hash c = h \<and> conn_user c \<noteq> None \<and>
    conn_status c \<in> {Pending, Linked} \<and> conn_revoked_at c = None"
  then have "open_connection d h \<noteq> None" by (auto simp: open_connection_def find_None_iff)
  then obtain c' where c': "open_connection d h = Some c'" by blast
  from open_connection_Some [OF this] c have "c' = c" by (intro key_unique [OF assms]) auto
  with c' show "open_connection d h = Some c" by simp
qed (rule open_connection_Some)

lemma open_connection_update:
  assumes d: "distinct (map conn_hash (connections d))" "open_connection d h = Some c"
    and f: "\<And>x. conn_hash (f x) = conn_hash x" "\<And>x. conn_user (f x) = conn_user x"
      "\<And>x. conn_revoked_at (f x) = conn_revoked_at x" "conn_status (f c) \<in> {Pending, Linked}" "P c"
  shows "open_connection (d\<lparr>connections := update_where P f (connections d)\<rparr>) h = Some (f c)"
    and "distinct (map conn_hash (update_where P f (connections d)))"
proof -
  show dist: "distinct (map conn_hash (update_where P f (connections d)))"
    using d(1) f(1) by (subst map_key_update_where) simp_all
  have "f c \<in> set (update_where P f (connections d))"
    using open_connection_Some [OF d(2)] f(5) by (auto simp: set_update_where)
  then show "open_connection (d\<lparr>connections := update_where P f (connections d)\<rparr>) h = Some (f c)"
    using open_connection_Some [OF d(2)] f(1-4) dist by (subst open_connection_iff) simp_all
qed

text \<open>The connection after the sender is identified and noted.\<close>

lemma identified_connection:
  assumes d: "distinct (map conn_hash (connections d))" "open_connection d h = Some c"
    and i: "identify h c ev0 d = Identified ev d1"
  shows "\<exists>c'. open_connection (touch now h (ev_handle ev) d1) h = Some c' \<and>
    distinct (map conn_hash (connections (touch now h (ev_handle ev) d1))) \<and>
    (\<forall>e. connections e = connections (touch now h (ev_handle ev) d1) \<longrightarrow>
       (\<exists>ev' e'. identify h c' ev0 e = Identified ev' e' \<and> ev_id ev' = ev_id ev \<and> ev_user_id ev' = ev_user_id ev \<and>
          ev_handle ev' = ev_handle ev \<and> e'\<lparr>connections := connections e\<rparr> = e))"
proof -
  let ?bind = "\<lambda>c. c\<lparr>conn_scmdb_id := Some (ev_user_id ev0),
               conn_handle := (case ev_handle ev0 of Some s \<Rightarrow> Some s | None \<Rightarrow> conn_handle c)\<rparr>"
  let ?first = "(conn_scmdb_id c = None \<or> conn_scmdb_id c = Some []) \<and> ev_event ev0 \<in> set profile_event_names"
  note c = open_connection_Some [OF d(2)]
  obtain c1 where c1: "open_connection d1 h = Some c1" "distinct (map conn_hash (connections d1))"
    "c1 = (if ?first then ?bind c else c)"
    using i d c open_connection_update [OF d, of ?bind "\<lambda>c. conn_hash c = h"]
    by (cases ?first) (auto simp: identify_def bind_identity_def split: if_splits)
  have open1: "conn_hash c1 = h" "conn_status c1 \<in> {Pending, Linked}" using open_connection_Some [OF c1(1)] by simp_all
  let ?c' = "touch_connection now (ev_handle ev) c1"
  have touched: "open_connection (touch now h (ev_handle ev) d1) h = Some ?c'"
    "distinct (map conn_hash (connections (touch now h (ev_handle ev) d1)))"
    using open_connection_update [OF c1(2,1), of "touch_connection now (ev_handle ev)"
        "\<lambda>c. conn_hash c = h \<and> conn_status c \<noteq> Revoked_connection"] open1
    by (auto simp: touch_def touch_connection_def)
  have profile: "js ''inventory.transaction'' \<notin> set profile_event_names" by (simp add: profile_event_names_def)
  have "\<exists>ev' e'. identify h ?c' ev0 e = Identified ev' e' \<and> ev_id ev' = ev_id ev \<and> ev_user_id ev' = ev_user_id ev \<and>
          ev_handle ev' = ev_handle ev \<and> e'\<lparr>connections := connections e\<rparr> = e" for e
  proof (cases ?first)
    case True
    then have "ev = ev0" using i by (simp add: identify_def)
    moreover have "conn_scmdb_id ?c' = Some (ev_user_id ev0)" unfolding c1(3) if_P [OF True] by (simp add: touch_connection_def)
    ultimately show ?thesis using True profile by (auto simp: identify_def bind_identity_def)
  next
    case False
    have "c1 = c" unfolding c1(3) by (rule if_not_P [OF False])
    then have same: "c1 = c" "conn_scmdb_id ?c' = conn_scmdb_id c" by (simp_all add: touch_connection_def)
    show ?thesis
    proof (cases "ev_event ev0 = js ''inventory.transaction''")
      case True
      with profile i have ev: "ev = ev0\<lparr>ev_user_id := (case conn_scmdb_id c of Some i \<Rightarrow> i | None \<Rightarrow> []),
          ev_handle := (case conn_handle c of Some s \<Rightarrow> if s \<noteq> [] \<and> length s \<le> 200 then Some s else None | None \<Rightarrow> None)\<rparr>"
        by (auto simp: identify_def)
      with same(1) have "conn_handle ?c' = conn_handle c"
        by (cases "conn_handle c") (auto simp: touch_connection_def)
      with True profile same(2) ev show ?thesis by (simp add: identify_def)
    next
      case inv: False
      with False i have "ev = ev0" "conn_scmdb_id c = Some (ev_user_id ev0)" by (auto simp: identify_def split: if_splits)
      with False inv same(2) show ?thesis by (auto simp: identify_def)
    qed
  qed
  with touched show ?thesis by blast
qed



end
