(* ===== verification/Sink_Safety.thy ===== *)
theory Sink_Safety
  imports Sink_Theorems
begin

text \<open>
  Blueprint events as operations on a map, the exact effect of inventory transactions, what an event
  leaves alone, and the routes of the sink under interference.
\<close>

section \<open>Blueprints\<close>

lemma inventory_blueprints: "inventory_transaction nt fresh h ev d = Applied d' \<Longrightarrow>
    blueprints d' = blueprints d \<and> profiles d' = profiles d \<and> connections d' = connections d"
proof (erule inventory_transaction_Applied)
  fix uid d1 mv c
  assume d1: "d1 = d \<or> (\<exists>n. d1 = rename_account n uid d)" and mv: "apply_move fresh (ev_id ev) uid mv d1 = Some d'"
  have "blueprints d' = blueprints d1 \<and> profiles d' = profiles d1 \<and> connections d' = connections d1"
    using mv by (rule apply_move_Some) (auto dest!: upsert_location_Some upsert_item_Some move_inventory_Some
        sync_storage_row_Some record_transaction_Some)
  with d1 show ?thesis by auto
qed

lemma profile_event_frame: "profile_event h ev d = Applied d' \<Longrightarrow>
    blueprints d' = blueprints d \<and> inventory d' = inventory d \<and> sync_rows d' = sync_rows d \<and> connections d' = connections d \<and>
    profiles d' = upsert prof_hash merge_profile (read_profile h ev) (profiles d)"
  by (auto simp: profile_event_def Let_def split: if_splits option.splits)

lemma event_names_distinct:
  "js ''blueprint.snapshot'' \<notin> set profile_event_names" "js ''blueprint.owned.added'' \<notin> set profile_event_names"
  "js ''blueprint.owned.removed'' \<notin> set profile_event_names" "js ''inventory.transaction'' \<notin> set profile_event_names"
  by (simp_all add: profile_event_names_def)

lemmas event_dispatch = applyBlueprintEvent_def event_names_distinct



section \<open>Inventory\<close>

lemma rename_account_quantities: "own_quantity (rename_account n u d) = own_quantity d" "sync_amount (rename_account n u d) = sync_amount d"
  by (auto simp: fun_eq_iff own_quantity_def sync_amount_def)

text \<open>C26. An accepted game-log transaction changes exactly one owned quantity, that of its user, item and station: it grows
  by the moved quantity on the way to the backpack, and on the way back shrinks by it, to zero at least; the two
  synchronised quantities move in opposite directions, never below zero; nothing else changes.\<close>

theorem inventory_transaction_exact:
  assumes ok: "inventory_ok d" and run: "inventory_transaction nt fresh h ev d = Applied d'"
  shows "\<exists>c uid mv iid lid. open_connection d h = Some c \<and> conn_user c = Some uid \<and> read_move nt (ev_payload ev) = Some mv \<and>
    known_item d' (mv_item mv) iid \<and> known_location d' (mv_station mv) lid \<and>
    (\<forall>k. own_quantity d' k = (if k = (uid, iid, lid)
       then (if mv_direction mv = To_backpack then own_quantity d k + mv_quantity mv else max 0 (own_quantity d k - mv_quantity mv))
       else own_quantity d k)) \<and>
    (\<forall>u i l st. sync_amount d' (u, i, l, st) =
      (if u = uid \<and> i = mv_item mv \<and> l = mv_station mv
       then max (if (mv_direction mv = To_backpack) = (st = Backpack) then sync_amount d (u, i, l, st) + mv_quantity mv
                 else sync_amount d (u, i, l, st) - mv_quantity mv) 0
       else sync_amount d (u, i, l, st)))"
  using run
proof (rule inventory_transaction_Applied)
  fix uid d1 mv c
  assume c: "open_connection d h = Some c" "conn_user c = Some uid" and d1: "d1 = d \<or> (\<exists>n. d1 = rename_account n uid d)"
    and mv: "read_move nt (ev_payload ev) = Some mv" "apply_move fresh (ev_id ev) uid mv d1 = Some d'"
  have same: "inventory d1 = inventory d" "sync_rows d1 = sync_rows d" "own_quantity d1 = own_quantity d" "sync_amount d1 = sync_amount d"
    using d1 rename_account_quantities by auto
  obtain iid lid where known: "known_item d' (mv_item mv) iid" "known_location d' (mv_station mv) lid"
    and own: "\<And>k. own_quantity d' k = (if k = (uid, iid, lid) then moved_quantity mv (own_quantity d k) else own_quantity d k)"
    and sync: "\<And>k. sync_amount d' k = (if fst k = uid \<and> fst (snd k) = mv_item mv \<and> fst (snd (snd k)) = mv_station mv
       then max (sync_amount d k + sync_delta mv (snd (snd (snd k)))) 0 else sync_amount d k)"
    using apply_move_effect [OF _ _ _ read_move_quantity [OF mv(1)] mv(2)] ok unfolding same inventory_ok_def by blast
  have moved: "moved_quantity mv n =
      (if mv_direction mv = To_backpack then n + mv_quantity mv else max 0 (n - mv_quantity mv))" for n
    by (cases "mv_direction mv") (simp_all add: moved_quantity_def)
  have "own_quantity d' k = (if k = (uid, iid, lid)
       then (if mv_direction mv = To_backpack then own_quantity d k + mv_quantity mv else max 0 (own_quantity d k - mv_quantity mv))
       else own_quantity d k)" for k unfolding own moved ..
  moreover have "sync_amount d' (u, i, l, st) =
      (if u = uid \<and> i = mv_item mv \<and> l = mv_station mv
       then max (if (mv_direction mv = To_backpack) = (st = Backpack) then sync_amount d (u, i, l, st) + mv_quantity mv
                 else sync_amount d (u, i, l, st) - mv_quantity mv) 0
       else sync_amount d (u, i, l, st))" for u i l st
    unfolding sync by (simp add: sync_delta_def)
  ultimately show ?thesis using c mv(1) known by blast
qed

definition sample_move :: envelope where
  "sample_move = sample_event ''inventory.transaction'' [(js ''item_class'', jstr ''gun''), (js ''direction'', jstr ''TO_BACKPACK''),
     (js ''station_key'', jstr ''k''), (js ''category'', jstr ''Weapons''), (js ''quantity'', jint 3)]"

lemma sample_move_read: "read_move (\<lambda>n. []) (ev_payload sample_move) = Some \<lparr>mv_item = js ''gun'', mv_direction = To_backpack,
    mv_station = js ''k'', mv_station_name = js ''k'', mv_quantity = 3, mv_category = js ''Weapons'', mv_system = None, mv_channel = None\<rparr>"
proof -
  let ?p = "ev_payload sample_move"
  have props: "prop_of ?p ''item_class'' = Some (jstr ''gun'')" "prop_of ?p ''direction'' = Some (jstr ''TO_BACKPACK'')"
    "prop_of ?p ''station_key'' = Some (jstr ''k'')" "prop_of ?p ''category'' = Some (jstr ''Weapons'')"
    "prop_of ?p ''quantity'' = Some (jint 3)" "prop_of ?p ''station_name'' = None" "prop_of ?p ''star_system'' = None"
    "prop_of ?p ''game_channel'' = None"
    by (simp_all add: sample_move_def sample_event_def prop_of_def js_def)
  have trims: "js_trim (js ''gun'') = js ''gun''" "js_trim (js ''k'') = js ''k''" "js_trim (js ''Weapons'') = js ''Weapons''"
    "js_trim (js ''TO_BACKPACK'') = js ''TO_BACKPACK''"
    by (simp_all add: js_trim_def trim_space_def white_space_def js_def)
  have "read_direction (js ''TO_BACKPACK'') = Some To_backpack"
    by (simp add: read_direction_def to_upper_def upper_char_def js_def)
  moreover have "item_class_pattern (js ''gun'')" "length (js ''k'') \<le> 200" by (simp_all add: item_class_pattern_def js_def)
  ultimately show ?thesis
    by (simp add: read_move_def props text_or_def falsy_def trims null_if_empty_def Let_def)
qed

theorem inventory_transaction_exact_witness:
  "\<exists>d iid lid. inventory_transaction (\<lambda>n. []) (\<lambda>i. [i]) (js ''h'') sample_move sink_sample = Applied d \<and>
     own_quantity d (js ''u'', iid, lid) = 3"
proof -
  obtain d where run: "inventory_transaction (\<lambda>n. []) (\<lambda>i. [i]) (js ''h'') sample_move sink_sample = Applied d"
    by (simp add: inventory_transaction_def getConnectedServiceUser_def open_connection_def sink_sample_def or_text_def find_profile_def
        sample_move_read move_storable_def pg_text_def pg_text_option_def js_def apply_move_def upsert_location_def upsert_item_def
        move_inventory_def own_quantity_def sync_storage_row_def sync_amount_def sync_delta_def record_transaction_def Let_def upsert_def
        sync_key_def inv_key_def)
  have "inventory_ok sink_sample" using sink_sample_ok by (simp add: sink_ok_def)
  from inventory_transaction_exact [OF this run] obtain c uid mv iid lid where
    c: "open_connection sink_sample (js ''h'') = Some c" "conn_user c = Some uid"
    and mv: "read_move (\<lambda>n. []) (ev_payload sample_move) = Some mv"
    and own: "\<And>k. own_quantity d k = (if k = (uid, iid, lid)
       then (if mv_direction mv = To_backpack then own_quantity sink_sample k + mv_quantity mv
             else max 0 (own_quantity sink_sample k - mv_quantity mv)) else own_quantity sink_sample k)" by blast
  have "uid = js ''u''" using c by (auto simp: sink_sample_def open_connection_def)
  moreover have "mv_direction mv = To_backpack" "mv_quantity mv = 3" using mv sample_move_read by auto
  moreover have "own_quantity sink_sample k = 0" for k by (simp add: own_quantity_def sink_sample_def)
  ultimately have "own_quantity d (js ''u'', iid, lid) = 3" by (simp add: own)
  with run show ?thesis by blast
qed

end
