(* ===== verification/Sink_Routes.thy ===== *)
theory Sink_Routes
  imports Sink_Safety
begin

text \<open>
  What an event leaves alone, and the routes of the sink as a refinement of \<open>sink_step\<close>, whatever is
  committed between a request's queries.
\<close>

section \<open>Rows of others\<close>

text \<open>Everything that belongs to other connections than \<open>h\<close> and to other accounts than \<open>uid\<close> is the same.\<close>

definition spares :: "jsstr \<Rightarrow> jsstr \<Rightarrow> sink_db \<Rightarrow> sink_db \<Rightarrow> bool" where
  "spares h uid d d' \<longleftrightarrow>
     filter (\<lambda>c. conn_hash c \<noteq> h) (connections d') = filter (\<lambda>c. conn_hash c \<noteq> h) (connections d) \<and>
     filter (\<lambda>p. prof_hash p \<noteq> h) (profiles d') = filter (\<lambda>p. prof_hash p \<noteq> h) (profiles d) \<and>
     filter (\<lambda>e. event_hash e \<noteq> h) (sink_events d') = filter (\<lambda>e. event_hash e \<noteq> h) (sink_events d) \<and>
     filter (\<lambda>b. bp_hash b \<noteq> h) (blueprints d') = filter (\<lambda>b. bp_hash b \<noteq> h) (blueprints d) \<and>
     filter (\<lambda>a. account_id a \<noteq> uid) (accounts d') = filter (\<lambda>a. account_id a \<noteq> uid) (accounts d) \<and>
     filter (\<lambda>g. group_creator g \<noteq> Some uid) (group_rows d') = filter (\<lambda>g. group_creator g \<noteq> Some uid) (group_rows d) \<and>
     filter (\<lambda>r. inv_user r \<noteq> uid) (inventory d') = filter (\<lambda>r. inv_user r \<noteq> uid) (inventory d) \<and>
     filter (\<lambda>r. sync_user r \<noteq> uid) (sync_rows d') = filter (\<lambda>r. sync_user r \<noteq> uid) (sync_rows d) \<and>
     filter (\<lambda>r. txn_user r \<noteq> uid) (transactions d') = filter (\<lambda>r. txn_user r \<noteq> uid) (transactions d) \<and>
     members d' = members d \<and> revoked_sinks d' = revoked_sinks d"

lemma spares_refl [simp]: "spares h uid d d"
  by (simp add: spares_def)

lemma spares_trans: "spares h uid d1 d2 \<Longrightarrow> spares h uid d2 d3 \<Longrightarrow> spares h uid d1 d3"
  by (simp add: spares_def)

lemma filter_upsert_other:
  assumes "\<not> Q row" "\<And>r. key r = key row \<Longrightarrow> \<not> Q r \<and> \<not> Q (merge r row)"
  shows "filter Q (upsert key merge row rows) = filter Q rows"
  unfolding upsert_def using assms by (simp add: filter_update_where_other)

lemma filter_delete_where_other: "(\<And>r. P r \<Longrightarrow> \<not> Q r) \<Longrightarrow> filter Q (delete_where P rows) = filter Q rows"
  by (auto simp: delete_where_def intro!: filter_cong)

lemmas filter_others = filter_update_where_other filter_delete_where_other filter_upsert_other

lemma spares_rename: "spares h uid d (rename_account n uid d)"
  by (simp add: spares_def) (simp add: rename_account_def filter_update_where_other)

lemma spares_rename_crew: "spares h uid d (rename_crew n uid d)"
  by (simp add: spares_def) (auto simp: rename_crew_def intro!: filter_update_where_other)

lemma spares_touch: "spares h uid d (touch now h handle d)"
  by (auto simp: spares_def touch_def touch_connection_def intro!: filter_update_where_other)

lemma spares_identify: "identify h c ev d = Identified ev' d' \<Longrightarrow> spares h uid d d'"
  by (auto simp: identify_def bind_identity_def spares_def filter_update_where_other split: if_splits)

lemma spares_profile_upsert: "prof_hash p = h \<Longrightarrow> spares h uid d (d\<lparr>profiles := upsert prof_hash merge_profile p (profiles d)\<rparr>)"
  by (simp add: spares_def filter_upsert_other merge_profile_def)

lemma spares_own_all:
  "filter (\<lambda>b. bp_hash b \<noteq> h) (foldl (\<lambda>rows x. own_blueprint h ts x rows) rows bs) = filter (\<lambda>b. bp_hash b \<noteq> h) rows"
proof (induction bs arbitrary: rows)
  case (Cons x bs)
  have "filter (\<lambda>b. bp_hash b \<noteq> h) (own_blueprint h ts x rows) = filter (\<lambda>b. bp_hash b \<noteq> h) rows"
    unfolding own_blueprint_def by (rule filter_upsert_other) (auto simp: bp_key_def)
  with Cons.IH show ?case by simp
qed simp

lemma spares_blueprints:
  "blueprint_snapshot h ev d = Applied d' \<Longrightarrow> spares h uid d d'"
  "blueprint_added h ev d = Applied d' \<Longrightarrow> spares h uid d d'"
  "blueprint_removed h ev d = Applied d' \<Longrightarrow> spares h uid d d'"
proof -
  note one = spares_own_all [of h ts rows "[x]" for ts rows x, simplified]
  have snap: "filter (\<lambda>b. bp_hash b \<noteq> h) (delete_where (\<lambda>b. bp_hash b = h \<and> P b)
      (foldl (\<lambda>rows x. own_blueprint h ts x rows) rows bs)) = filter (\<lambda>b. bp_hash b \<noteq> h) rows" for P ts rows bs
    by (rule trans [OF filter_delete_where_other spares_own_all]) simp
  show "blueprint_snapshot h ev d = Applied d' \<Longrightarrow> spares h uid d d'"
    by (auto simp: blueprint_snapshot_def Let_def spares_def snap
        split: option.splits json.splits if_splits)
  show "blueprint_added h ev d = Applied d' \<Longrightarrow> spares h uid d d'"
    by (auto simp: blueprint_added_def spares_def one split: option.splits if_splits)
  show "blueprint_removed h ev d = Applied d' \<Longrightarrow> spares h uid d d'"
    by (auto simp: blueprint_removed_def spares_def intro!: filter_delete_where_other split: option.splits if_splits)
qed

lemma spares_move:
  assumes "apply_move fresh eid uid mv d = Some d'"
  shows "spares h uid d d'"
  using assms
proof (rule apply_move_Some)
  fix lid d1 iid d2 d3 d4 d5
  assume steps: "upsert_location (fresh 0) mv d = Some (lid, d1)" "upsert_item (fresh 1) mv d1 = Some (iid, d2)"
    "move_inventory uid iid lid mv d2 = Some d3" "sync_storage_row uid mv Backpack d3 = Some d4"
    "sync_storage_row uid mv Station d4 = Some d5" "record_transaction eid uid mv d5 = Some d'"
  have "spares h uid d d1" using upsert_location_Some [OF steps(1)] by (auto simp: spares_def)
  moreover have "spares h uid d1 d2" using upsert_item_Some [OF steps(2)] by (auto simp: spares_def)
  moreover have "spares h uid d2 d3"
  proof (cases "mv_direction mv")
    case To_backpack
    with steps(3) show ?thesis
      by (auto simp: move_inventory_def Let_def spares_def inv_key_def intro!: filter_upsert_other split: if_splits)
  next
    case To_station
    let ?other = "\<lambda>r. inv_user r \<noteq> uid" and ?mine = "\<lambda>r. inv_key r = (uid, iid, lid)"
    have "filter ?other (update_where ?mine f (delete_where (\<lambda>r. ?mine r \<and> inv_quantity r \<le> mv_quantity mv) rows)) =
        filter ?other rows" if "\<And>r. inv_user (f r) = inv_user r" for f rows
      by (rule trans [OF filter_update_where_other filter_delete_where_other]) (auto simp: inv_key_def that)
    with To_station steps(3) show ?thesis by (auto simp: move_inventory_def Let_def spares_def)
  qed
  moreover have sync: "spares h uid x y" if "sync_storage_row uid mv st x = Some y" for x y st
    using that by (auto simp: sync_storage_row_def Let_def spares_def sync_key_def intro!: filter_upsert_other split: if_splits)
  moreover have "spares h uid d5 d'" using steps(6) by (auto simp: record_transaction_def spares_def split: if_splits)
  ultimately show ?thesis using steps(4,5) spares_trans by metis
qed

text \<open>The connection \<open>h\<close> belongs to \<open>uid\<close>.\<close>

definition owned_by :: "jsstr \<Rightarrow> jsstr \<Rightarrow> sink_db \<Rightarrow> bool" where
  "owned_by h uid d \<longleftrightarrow> (\<forall>c \<in> set (connections d). conn_hash c = h \<longrightarrow> conn_user c = Some uid)"

lemma owned_by_update:
  assumes "\<And>c. conn_hash (f c) = conn_hash c \<and> conn_user (f c) = conn_user c" "owned_by h uid d"
  shows "owned_by h uid (d\<lparr>connections := update_where P f (connections d)\<rparr>)"
  using assms by (auto simp: owned_by_def update_where_mem)

lemma owned_by_identified:
  "owned_by h uid d \<Longrightarrow> identify h c ev0 d = Identified ev d1 \<Longrightarrow> owned_by h uid (touch now h handle d1)"
  by (auto simp: identify_def bind_identity_def touch_def touch_connection_def intro!: owned_by_update split: if_splits)

lemma spares_applied:
  assumes own: "owned_by h uid d" and run: "applyBlueprintEvent nt fresh h ev d = Applied d'"
  shows "spares h uid d d'"
  using run
proof (cases rule: applied_cases)
  case inventory
  then show ?thesis
  proof (rule inventory_transaction_Applied)
    fix u d1 mv c
    assume c: "open_connection d h = Some c" "conn_user c = Some u" and d1: "d1 = d \<or> (\<exists>n. d1 = rename_account n u d)"
      and mv: "apply_move fresh (ev_id ev) u mv d1 = Some d'"
    have "u = uid" using own c open_connection_Some [OF c(1)] by (auto simp: owned_by_def)
    with d1 mv show ?thesis using spares_trans [OF spares_rename spares_move] spares_move by metis
  qed
next
  case profile
  let ?d1 = "d\<lparr>profiles := upsert prof_hash merge_profile (read_profile h ev) (profiles d)\<rparr>"
  have first: "spares h uid d ?d1" by (rule spares_profile_upsert) (simp add: read_profile_def Let_def)
  from profile consider "d' = ?d1" | n u where "d' = rename_crew n u (rename_account n u ?d1)"
      "Option.bind (find (\<lambda>c. conn_hash c = h) (connections d)) conn_user = Some u"
    by (auto simp: profile_event_def Let_def split: if_splits option.splits)
  then show ?thesis
  proof cases
    case (2 n u)
    then have "u = uid" using own by (auto simp: owned_by_def bind_eq_Some_conv dest!: find_Some_mem)
    with 2 show ?thesis using spares_trans [OF first spares_trans [OF spares_rename spares_rename_crew]] by simp
  qed (use first in simp)
qed (use spares_blueprints in auto)

text \<open>An event sent with one connection's token changes nothing of other connections (their rows, profiles,
  blueprints and events) and nothing of other accounts (their rows, inventories, synchronised quantities
  and transactions), no membership and no revocation.\<close>

theorem sink_isolated:
  assumes ok: "sink_ok d" and sent: "sink_tx nt now fresh h ev d = Commit a d'"
  shows "\<exists>c uid. open_connection d h = Some c \<and> conn_user c = Some uid \<and> spares h uid d d'"
  using sent
proof (rule sink_tx_Commit)
  fix c and ev' :: envelope and d1
  let ?d2 = "touch now h (ev_handle ev') d1"
  assume c: "open_connection d h = Some c" and i: "identify h c ev d = Identified ev' d1"
    and run: "(ev_id ev' \<in> event_id ` set (sink_events ?d2) \<and> d' = ?d2) \<or>
     (ev_id ev' \<notin> event_id ` set (sink_events ?d2) \<and>
      (\<exists>d3. applyBlueprintEvent nt fresh h ev' ?d2 = Applied d3 \<and>
        d' = d3\<lparr>sink_events := sink_events d3 @
          [\<lparr>event_id = ev_id ev', event_hash = h, event_name = ev_event ev', event_ts = ev_ts ev'\<rparr>]\<rparr>))"
  obtain uid where uid: "conn_user c = Some uid" using open_connection_Some [OF c] by blast
  have "distinct (map conn_hash (connections d))" using ok by (simp add: sink_ok_def connections_ok_def)
  then have "owned_by h uid d"
    unfolding owned_by_def using open_connection_Some [OF c] uid key_unique by metis
  then have own: "owned_by h uid ?d2" using i by (rule owned_by_identified)
  have touched: "spares h uid d ?d2" by (rule spares_trans [OF spares_identify [OF i] spares_touch])
  from run have "spares h uid ?d2 d'"
  proof
    assume "ev_id ev' \<notin> event_id ` set (sink_events ?d2) \<and>
      (\<exists>d3. applyBlueprintEvent nt fresh h ev' ?d2 = Applied d3 \<and>
        d' = d3\<lparr>sink_events := sink_events d3 @
          [\<lparr>event_id = ev_id ev', event_hash = h, event_name = ev_event ev', event_ts = ev_ts ev'\<rparr>]\<rparr>)"
    then obtain d3 where "applyBlueprintEvent nt fresh h ev' ?d2 = Applied d3" and d': "d' = d3\<lparr>sink_events := sink_events d3 @
          [\<lparr>event_id = ev_id ev', event_hash = h, event_name = ev_event ev', event_ts = ev_ts ev'\<rparr>]\<rparr>" by blast
    from spares_applied [OF own this(1)] show ?thesis unfolding d' by (simp add: spares_def)
  qed simp
  with touched c uid show ?thesis using spares_trans by blast
qed

theorem sink_isolated_witness:
  "\<exists>d. sink_tx (\<lambda>n. []) 5 (\<lambda>i. []) (js ''h'') (sample_event ''blueprint.owned.added'' [(js ''tag'', jstr ''t'')]) sink_sample =
      Commit Sink_accepted d \<and> spares (js ''h'') (js ''u'') sink_sample d"
proof -
  let ?ev = "sample_event ''blueprint.owned.added'' [(js ''tag'', jstr ''t'')]"
  obtain d where d: "sink_tx (\<lambda>n. []) 5 (\<lambda>i. []) (js ''h'') ?ev sink_sample = Commit Sink_accepted d"
    by (simp add: sink_tx_def sink_sample_def open_connection_def identify_def sample_event_def profile_event_names_def
        pg_text_def pg_text_option_def touch_def applyBlueprintEvent_def blueprint_added_def read_blueprint_def
        valid_text_def prop_of_def blueprint_storable_def own_blueprint_def upsert_def Let_def js_def)
  from sink_isolated [OF sink_sample_ok d] d show ?thesis by (auto simp: sink_sample_def open_connection_def)
qed

section \<open>Routes\<close>

text \<open>The requests of the sink's routes.\<close>

datatype sink_request = Receive jsstr "json option" | Connect "jsstr option" "jsstr option" | Disconnect "jsstr option"

datatype sink_reply = From_sink sink_answer | From_profile connect_answer

fun sink_routes :: "(jsnum \<Rightarrow> jsstr) \<Rightarrow> (jsstr \<Rightarrow> jsstr) \<Rightarrow> sink_db route_env \<Rightarrow> sink_request \<Rightarrow> sink_db \<Rightarrow> sink_reply \<times> sink_db" where
  "sink_routes nt hash env (Receive token body) d = map_prod From_sink id (receiveSinkEvent nt hash env token body d)"
| "sink_routes nt hash env (Connect context base) d = map_prod From_profile id (connectSink hash env context base d)"
| "sink_routes nt hash env (Disconnect context) d = map_prod From_profile id (disconnectSink env context d)"

fun error_reply :: "sink_reply \<Rightarrow> bool" where
  "error_reply (From_sink (Sink_error st e)) = True"
| "error_reply (From_profile (Connect_error st e)) = True"
| "error_reply r = False"

lemma sink_routes_outcome: "routed sink_step env d0 (error_reply (fst (sink_routes nt hash env r d0))) (snd (sink_routes nt hash env r d0))"
proof -
  note met = met_start [of env d0] met_once [of env d0 0] met_step [OF met_once, of env d0 1 0]
  show ?thesis
  proof (cases r)
    case (Receive token body)
    let ?bad = "\<lambda>a. error_reply (From_sink a)"
    have tx: "routed sink_step env d0 (?bad (fst (run_tx (tx_ends env) e (sink_tx nt now fresh h ev) d)))
        (snd (run_tx (tx_ends env) e (sink_tx nt now fresh h ev) d))" if "met env d0 d" for e now fresh h ev d
      using that by (rule routed_tx) (metis step_event sink_tx_Commit error_reply.simps(3))
    with Receive met show ?thesis
      by (auto simp: receiveSinkEvent_def Let_def split: option.splits)
  next
    case (Connect login base)
    let ?bad = "\<lambda>a. error_reply (From_profile a)"
    have tx: "routed sink_step env d0 (?bad (fst (run_tx (tx_ends env) e (connect_tx now raw h url uid) d)))
        (snd (run_tx (tx_ends env) e (connect_tx now raw h url uid) d))" if "met env d0 d" for e now raw h url uid d
      using that by (rule routed_tx)
        (rule conjI, erule step_connect, auto simp: connect_tx_def Let_def split: if_splits)
    with Connect met show ?thesis
      by (auto simp: connectSink_def Let_def split: option.splits)
  next
    case (Disconnect login)
    let ?bad = "\<lambda>a. error_reply (From_profile a)"
    have tx: "routed sink_step env d0 (?bad (fst (run_tx (tx_ends env) e (disconnect_tx now uid) d)))
        (snd (run_tx (tx_ends env) e (disconnect_tx now uid) d))" if "met env d0 d" for e now uid d
      using that by (rule routed_tx) (rule conjI, erule step_disconnect, auto simp: disconnect_tx_def Let_def)
    with Disconnect met show ?thesis
      by (auto simp: disconnectSink_def Let_def split: option.splits)
  qed
qed

text \<open>C16. However requests to the sink interleave with other commits, what a request makes of the tables is a sequence
  of committed steps, so their constraints hold after it; and a request answered with an error has
  written nothing, unless the database lost the acknowledgement of its commit.\<close>

theorem sink_routes_refine:
  assumes others: "\<And>i z. sink_step\<^sup>*\<^sup>* z (others env i z)"
    and run: "sink_routes nt hash env r d0 = (answer, d')"
  shows "sink_step\<^sup>*\<^sup>* d0 d' \<and> (sink_ok d0 \<longrightarrow> sink_ok d') \<and>
    (error_reply answer \<and> tx_ends env \<noteq> Tx_lost_ack \<longrightarrow> met env d0 d')"
proof -
  have "routed sink_step env d0 (error_reply answer) d'" using sink_routes_outcome [of env d0 nt hash r] run by simp
  then show ?thesis by (rule sink_requests.routed_requests [OF others])
qed

theorem sink_routes_refine_witness:
  "\<exists>d. sink_routes (\<lambda>n. []) (\<lambda>t. t) undisturbed (Disconnect (Some (js ''u''))) sink_sample = (From_profile (Disconnected_count 1), d) \<and>
     sink_step\<^sup>*\<^sup>* sink_sample d \<and> sink_ok d"
proof -
  obtain d where d: "sink_routes (\<lambda>n. []) (\<lambda>t. t) undisturbed (Disconnect (Some (js ''u''))) sink_sample = (From_profile (Disconnected_count 1), d)"
    by (simp add: disconnectSink_def run_tx_def disconnect_tx_def sink_sample_def user_connection_def count_where_def Let_def)
  have others: "sink_step\<^sup>*\<^sup>* z (others undisturbed i z)" for i z by simp
  from sink_routes_refine [OF others d] sink_sample_ok d show ?thesis by blast
qed

end
