(* ===== verification/Account_Db.thy ===== *)
theory Account_Db
  imports Mission_Db
begin

text \<open>
  The tables behind accounts and groups in \<open>src/src/server.js\<close>: login tokens, recovery keys, browser
  sessions and group invites, beside the accounts, groups, memberships and missions of \<open>Mission_Db\<close>; their
  constraints, and what the database deletes along with a group or an account. Times are microseconds.
  A token's row is known by the hash of the token.
\<close>

section \<open>Tables\<close>

record login_token =
  tok_hash :: jsstr
  tok_user :: jsstr
  tok_used_at :: "int option"
  tok_revoked_at :: "int option"

record recovery_key =
  rec_hash :: jsstr
  rec_user :: jsstr
  rec_used_at :: "int option"
  rec_revoked_at :: "int option"

record invite =
  invite_id :: jsstr
  invite_group :: jsstr
  invite_hash :: jsstr
  invite_code :: jsstr
  invite_expires_at :: int
  invite_accepted_at :: "int option"
  invite_max_uses :: "int option"
  invite_use_count :: int

record account_db =
  crew :: mission_db
  login_tokens :: "login_token list"
  recovery_keys :: "recovery_key list"
  sessions :: "dashboard_session list"
  invites :: "invite list"

definition accounts_ok :: "account_db \<Rightarrow> bool" where
  "accounts_ok d \<longleftrightarrow>
     group_ok (crew d) \<and>
     distinct (map tok_hash (login_tokens d)) \<and> (\<forall>t \<in> set (login_tokens d). tok_user t \<in> account_id ` set (accounts (crew d))) \<and>
     distinct (map rec_hash (recovery_keys d)) \<and> (\<forall>r \<in> set (recovery_keys d). rec_user r \<in> account_id ` set (accounts (crew d))) \<and>
     (\<forall>r \<in> set (recovery_keys d). \<forall>s \<in> set (recovery_keys d).
        rec_user r = rec_user s \<and> rec_revoked_at r = None \<and> rec_revoked_at s = None \<longrightarrow> r = s) \<and>
     distinct (map session_hash (sessions d)) \<and> (\<forall>s \<in> set (sessions d). session_user s \<in> account_id ` set (accounts (crew d))) \<and>
     distinct (map invite_id (invites d)) \<and> distinct (map invite_hash (invites d)) \<and>
     (\<forall>i \<in> set (invites d). invite_group i \<in> group_id ` set (group_rows (crew d)))"

section \<open>Queries\<close>

text \<open>The token row and account of a login; the recovery key's row and account.\<close>

definition find_login :: "account_db \<Rightarrow> jsstr \<Rightarrow> (login_token \<times> account) option" where
  "find_login d h =
     Option.bind (find (\<lambda>t. tok_hash t = h \<and> tok_revoked_at t = None) (login_tokens d))
       (\<lambda>t. map_option (Pair t) (find_account (crew d) (tok_user t)))"

definition find_recovery :: "account_db \<Rightarrow> jsstr \<Rightarrow> (recovery_key \<times> account) option" where
  "find_recovery d h =
     Option.bind (find (\<lambda>r. rec_hash r = h) (recovery_keys d))
       (\<lambda>r. map_option (Pair r) (find_account (crew d) (rec_user r)))"

definition owns_group :: "account_db \<Rightarrow> jsstr \<Rightarrow> jsstr \<Rightarrow> bool" where
  "owns_group d gid uid \<longleftrightarrow> role_of (crew d) gid uid = Some Owner"

text \<open>An invite that can be used now.\<close>

definition invite_open :: "int \<Rightarrow> invite \<Rightarrow> bool" where
  "invite_open now i \<longleftrightarrow> invite_accepted_at i = None \<and> now < invite_expires_at i \<and>
     (case invite_max_uses i of None \<Rightarrow> True | Some m \<Rightarrow> invite_use_count i < m)"

section \<open>Inserts\<close>

text \<open>\<open>None\<close>: the database refuses (a duplicate key, a reference to nothing).\<close>

definition session_days :: int where
  "session_days = 30 * 24 * 60 * 60 * 1000000"

definition createDashboardSession :: "jsstr \<Rightarrow> jsstr \<Rightarrow> int \<Rightarrow> account_db \<Rightarrow> account_db option" where
  "createDashboardSession h uid now d =
     (if h \<in> session_hash ` set (sessions d) \<or> uid \<notin> account_id ` set (accounts (crew d)) then None
      else Some (d\<lparr>sessions := sessions d @ [\<lparr>session_hash = h, session_user = uid, session_expires_at = now + session_days\<rparr>]\<rparr>))"

definition insert_login_token :: "jsstr \<Rightarrow> jsstr \<Rightarrow> account_db \<Rightarrow> account_db option" where
  "insert_login_token h uid d =
     (if h \<in> tok_hash ` set (login_tokens d) \<or> uid \<notin> account_id ` set (accounts (crew d)) then None
      else Some (d\<lparr>login_tokens := login_tokens d @
        [\<lparr>tok_hash = h, tok_user = uid, tok_used_at = None, tok_revoked_at = None\<rparr>]\<rparr>))"

definition insert_recovery_key :: "jsstr \<Rightarrow> jsstr \<Rightarrow> account_db \<Rightarrow> account_db option" where
  "insert_recovery_key h uid d =
     (if h \<in> rec_hash ` set (recovery_keys d) \<or> uid \<notin> account_id ` set (accounts (crew d)) \<or>
        (\<exists>r \<in> set (recovery_keys d). rec_user r = uid \<and> rec_revoked_at r = None) then None
      else Some (d\<lparr>recovery_keys := recovery_keys d @
        [\<lparr>rec_hash = h, rec_user = uid, rec_used_at = None, rec_revoked_at = None\<rparr>]\<rparr>))"

definition insert_group :: "jsstr \<Rightarrow> jsstr \<Rightarrow> jsstr \<Rightarrow> account_db \<Rightarrow> account_db option" where
  "insert_group gid name uid d =
     (let m = crew d in
      if gid \<in> group_id ` set (group_rows m) \<or> uid \<notin> account_id ` set (accounts m) then None
      else Some (d\<lparr>crew := m\<lparr>
        group_rows := group_rows m @ [\<lparr>group_id = gid, group_name = name, group_creator = Some uid\<rparr>],
        members := members m @ [\<lparr>member_group = gid, member_user = uid, member_role = Owner\<rparr>]\<rparr>\<rparr>))"

section \<open>Deletions with everything that refers to the rows\<close>

definition delete_crew_groups :: "(group_row \<Rightarrow> bool) \<Rightarrow> mission_db \<Rightarrow> mission_db" where
  "delete_crew_groups P d =
     (let gone = group_id ` set (filter P (group_rows d));
          gone_missions = mission_id ` set (filter (\<lambda>m. mission_group m \<in> gone) (missions d));
          gone_tasks = task_id ` set (filter (\<lambda>t. task_mission t \<in> gone_missions) (tasks d)) in
      d\<lparr>group_rows := delete_where P (group_rows d),
        members := delete_where (\<lambda>m. member_group m \<in> gone) (members d),
        missions := delete_where (\<lambda>m. mission_id m \<in> gone_missions) (missions d),
        tasks := delete_where (\<lambda>t. task_id t \<in> gone_tasks) (tasks d),
        contributions := delete_where (\<lambda>c. contribution_task c \<in> gone_tasks) (contributions d),
        notifications := delete_where (\<lambda>n. (case note_mission n of Some i \<Rightarrow> i \<in> gone_missions | None \<Rightarrow> False) \<or>
          (case note_task n of Some i \<Rightarrow> i \<in> gone_tasks | None \<Rightarrow> False)) (notifications d)\<rparr>)"

definition delete_groups_where :: "(group_row \<Rightarrow> bool) \<Rightarrow> account_db \<Rightarrow> account_db" where
  "delete_groups_where P d =
     (let gone = group_id ` set (filter P (group_rows (crew d))) in
      d\<lparr>crew := delete_crew_groups P (crew d), invites := delete_where (\<lambda>i. invite_group i \<in> gone) (invites d)\<rparr>)"

text \<open>\<open>DELETE FROM app_users\<close>: memberships, tokens, keys, sessions and notifications go, missions, tasks and
  contributions forget the account.\<close>

definition forget_user :: "jsstr \<Rightarrow> jsstr option \<Rightarrow> jsstr option" where
  "forget_user uid v = (if v = Some uid then None else v)"

definition delete_account :: "jsstr \<Rightarrow> account_db \<Rightarrow> account_db" where
  "delete_account uid d =
     (let m = crew d in
      d\<lparr>crew := m\<lparr>accounts := delete_where (\<lambda>a. account_id a = uid) (accounts m),
          members := delete_where (\<lambda>x. member_user x = uid) (members m),
          missions := map (\<lambda>x. x\<lparr>mission_created_by := forget_user uid (mission_created_by x)\<rparr>) (missions m),
          tasks := map (\<lambda>t. t\<lparr>assigned_to := forget_user uid (assigned_to t)\<rparr>) (tasks m),
          contributions := map (\<lambda>c. c\<lparr>contribution_user := forget_user uid (contribution_user c)\<rparr>) (contributions m),
          notifications := delete_where (\<lambda>n. note_user n = uid) (notifications m)\<rparr>,
        login_tokens := delete_where (\<lambda>t. tok_user t = uid) (login_tokens d),
        recovery_keys := delete_where (\<lambda>r. rec_user r = uid) (recovery_keys d),
        sessions := delete_where (\<lambda>s. session_user s = uid) (sessions d)\<rparr>)"

end
