(* ===== verification/Accounts.thy ===== *)
theory Accounts
  imports Account_Db
begin

text \<open>
  Registration, recovery, login, logout and the rotation of the recovery key (\<open>/auth/register\<close>,
  \<open>/auth/recover\<close>, \<open>/auth/login\<close>, \<open>/logout\<close>, \<open>/api/me/recovery-key\<close> in \<open>src/src/server.js\<close>). A handler
  says what becomes of its caller's failure count (\<open>limiter_effect\<close>); whether the limiter let the
  caller in is an argument, the random bytes, the keyed hash and Unicode's letters and numbers are
  parameters.
\<close>

section \<open>Answers\<close>

datatype auth_answer =
    Auth_error nat string
  | Registered jsstr jsstr jsstr
  | Recovered jsstr jsstr
  | Logged_in jsstr
  | Logged_out
  | Rotated jsstr

datatype limiter_effect = Untouched | Failure_recorded | Failures_cleared

type_synonym auth_result = "auth_answer \<times> limiter_effect"

definition auth_unavailable :: auth_result where
  "auth_unavailable = (Auth_error 503 ''service unavailable'', Untouched)"

definition too_many :: auth_result where
  "too_many = (Auth_error 429 ''too many requests'', Untouched)"

section \<open>Secrets\<close>

record auth_secrets =
  keyed_hash :: "jsstr \<Rightarrow> jsstr \<Rightarrow> jsstr"
  pepper_key :: jsstr
  random_bytes :: "nat \<Rightarrow> nat list"
  letter_or_number :: "nat \<Rightarrow> bool"
  number_text :: "jsnum \<Rightarrow> jsstr"

definition token_hash_of :: "auth_secrets \<Rightarrow> jsstr \<Rightarrow> jsstr" where
  "token_hash_of sec = hashAuthToken (keyed_hash sec) (pepper_key sec)"

definition recovery_hash_of :: "auth_secrets \<Rightarrow> jsstr \<Rightarrow> jsstr" where
  "recovery_hash_of sec = hashRecoveryToken (keyed_hash sec) (pepper_key sec)"

definition session_hash_of :: "auth_secrets \<Rightarrow> jsstr \<Rightarrow> jsstr" where
  "session_hash_of sec = hashSession (keyed_hash sec) (pepper_key sec)"

text \<open>\<open>randomBytes(32).toString("hex")\<close>.\<close>

definition hex_char :: "nat \<Rightarrow> nat" where
  "hex_char n = (if n < 10 then 48 + n else 87 + n)"

definition hex_text :: "nat list \<Rightarrow> jsstr" where
  "hex_text bs = concat (map (\<lambda>b. [hex_char (b div 16), hex_char (b mod 16)]) bs)"

section \<open>Display names\<close>

text \<open>The code points of a string (the \<open>u\<close> flag of a pattern); an unpaired surrogate stands for itself.\<close>

fun code_points_of :: "jsstr \<Rightarrow> nat list" where
  "code_points_of [] = []"
| "code_points_of [c] = [c]"
| "code_points_of (c # e # s) =
     (if high_surrogate c \<and> low_surrogate e
      then (0x10000 + (c - 0xd800) * 0x400 + (e - 0xdc00)) # code_points_of s
      else c # code_points_of (e # s))"

definition display_name_pattern :: "(nat \<Rightarrow> bool) \<Rightarrow> jsstr \<Rightarrow> bool" where
  "display_name_pattern letter s \<longleftrightarrow>
     (case code_points_of s of
        [] \<Rightarrow> False
      | c # cs \<Rightarrow> letter c \<and> list_all (\<lambda>x. letter x \<or> x \<in> {32, 45, 46, 95}) cs)"

definition read_display_name :: "(nat \<Rightarrow> bool) \<Rightarrow> jsstr \<Rightarrow> jsstr option" where
  "read_display_name letter s =
     (let name = js_trim s in
      if validText 50 (Some (JStr name)) \<and> display_name_pattern letter name then Some name else None)"

definition crew_title :: "jsstr \<Rightarrow> jsstr" where
  "crew_title name = name @ 39 # js ''s crew''"

section \<open>Registration\<close>

text \<open>A unique violation (\<open>23505\<close>) of any insert gives the same answer as a token that exists, but no failure is
  recorded.\<close>

definition name_taken :: "limiter_effect \<Rightarrow> auth_result" where
  "name_taken e = (Auth_error 409 ''VerseLink ID already exists'', e)"

definition register_tx ::
    "auth_secrets \<Rightarrow> int \<Rightarrow> (nat \<Rightarrow> jsstr) \<Rightarrow> jsstr \<Rightarrow> account_db \<Rightarrow> (auth_result, account_db) tx_outcome" where
  "register_tx sec now fresh name d =
     (let token = generateVerseLinkToken (random_bytes sec 0);
          recoveryKey = generateRecoveryToken (random_bytes sec 1);
          session = hex_text (random_bytes sec 2); uid = fresh 0; m = crew d in
      if token_hash_of sec token \<in> tok_hash ` set (login_tokens d) then Rollback (name_taken Failure_recorded)
      else if uid \<in> account_id ` set (accounts m) then Rollback (name_taken Untouched)
      else let d1 = d\<lparr>crew := m\<lparr>accounts := accounts m @
             [\<lparr>account_id = uid, account_state = Active, account_display_name = name, account_verselink_name = None\<rparr>]\<rparr>\<rparr> in
        case Option.bind (insert_login_token (token_hash_of sec token) uid d1) (\<lambda>d2.
             Option.bind (insert_recovery_key (recovery_hash_of sec recoveryKey) uid d2) (\<lambda>d3.
             Option.bind (insert_group (fresh 1) (crew_title name) uid d3) (\<lambda>d4.
             createDashboardSession (session_hash_of sec session) uid now d4))) of
          None \<Rightarrow> Rollback (name_taken Untouched)
        | Some d5 \<Rightarrow> Commit (Registered token recoveryKey session, Failures_cleared) d5)"

definition handleRegister ::
    "auth_secrets \<Rightarrow> account_db route_env \<Rightarrow> bool \<Rightarrow> obj option \<Rightarrow> account_db \<Rightarrow> auth_result \<times> account_db" where
  "handleRegister sec env admitted payload d0 =
     (if \<not> admitted then (too_many, d0)
      else let d1 = others env 0 d0 in
        case payload of
          None \<Rightarrow> ((Auth_error 400 ''invalid registration'', Failure_recorded), d1)
        | Some ob \<Rightarrow>
            (case text_or (number_text sec) (prop_of ob ''display_name'') [] of
               None \<Rightarrow> (auth_unavailable, d1)
             | Some s \<Rightarrow>
                 (case read_display_name (letter_or_number sec) s of
                    None \<Rightarrow> ((Auth_error 400 ''invalid VerseLink ID or display name'', Failure_recorded), d1)
                  | Some name \<Rightarrow>
                      let d2 = others env 1 d1 in
                      if query_fails env 1 then (auth_unavailable, d2)
                      else run_tx (tx_ends env) auth_unavailable (register_tx sec (moment env) (new_id env) name) d2)))"

section \<open>Recovery\<close>

definition invalid_recovery :: auth_result where
  "invalid_recovery = (Auth_error 401 ''invalid or expired recovery key'', Failure_recorded)"

definition revoke_tokens_of :: "jsstr \<Rightarrow> int \<Rightarrow> account_db \<Rightarrow> account_db" where
  "revoke_tokens_of uid now d =
     d\<lparr>login_tokens := update_where (\<lambda>t. tok_user t = uid \<and> tok_revoked_at t = None) (\<lambda>t. t\<lparr>tok_revoked_at := Some now\<rparr>)
        (login_tokens d)\<rparr>"

definition revoke_keys_where :: "(recovery_key \<Rightarrow> bool) \<Rightarrow> int \<Rightarrow> account_db \<Rightarrow> account_db" where
  "revoke_keys_where P now d =
     d\<lparr>recovery_keys := update_where P (\<lambda>r. r\<lparr>rec_revoked_at := Some now, rec_used_at := Some now\<rparr>) (recovery_keys d)\<rparr>"

definition recover_tx :: "auth_secrets \<Rightarrow> int \<Rightarrow> jsstr \<Rightarrow> account_db \<Rightarrow> (auth_result, account_db) tx_outcome" where
  "recover_tx sec now h d =
     (case find_recovery d h of
        None \<Rightarrow> Rollback invalid_recovery
      | Some (r, a) \<Rightarrow>
          if rec_revoked_at r \<noteq> None \<or> account_state a \<noteq> Active then Rollback invalid_recovery
          else let uid = rec_user r; token = generateVerseLinkToken (random_bytes sec 0);
                   recoveryKey = generateRecoveryToken (random_bytes sec 1) in
            case Option.bind (insert_login_token (token_hash_of sec token) uid (revoke_tokens_of uid now d)) (\<lambda>d1.
                 insert_recovery_key (recovery_hash_of sec recoveryKey) uid (revoke_keys_where (\<lambda>x. rec_hash x = h) now d1)) of
              None \<Rightarrow> Throw
            | Some d2 \<Rightarrow>
                Commit (Recovered token recoveryKey, Failures_cleared)
                  (d2\<lparr>sessions := delete_where (\<lambda>s. session_user s = uid) (sessions d2)\<rparr>))"

definition handleRecover ::
    "auth_secrets \<Rightarrow> account_db route_env \<Rightarrow> bool \<Rightarrow> json option \<Rightarrow> account_db \<Rightarrow> auth_result \<times> account_db" where
  "handleRecover sec env admitted payload d0 =
     (if \<not> admitted then (too_many, d0)
      else let d1 = others env 0 d0 in
        case payload of
          None \<Rightarrow> (invalid_recovery, d1)
        | Some j \<Rightarrow>
            if j = JNull then (auth_unavailable, d1)
            else (case text_or (number_text sec) (prop_of (props_of j) ''recovery_key'') [] of
               None \<Rightarrow> (auth_unavailable, d1)
             | Some key \<Rightarrow>
                 if \<not> isRecoveryToken (Some key) then (invalid_recovery, d1)
                 else let d2 = others env 1 d1 in
                   if query_fails env 1 then (auth_unavailable, d2)
                   else run_tx (tx_ends env) auth_unavailable (recover_tx sec (moment env) (recovery_hash_of sec key)) d2))"

section \<open>Login and logout\<close>

definition invalid_login :: auth_result where
  "invalid_login = (Auth_error 401 ''invalid VerseLink ID'', Failure_recorded)"

text \<open>The token was read before the transaction: its row is updated if it is still there, and the account must
  still exist for the session to refer to.\<close>

definition login_tx :: "auth_secrets \<Rightarrow> int \<Rightarrow> login_token \<Rightarrow> account_db \<Rightarrow> (auth_result, account_db) tx_outcome" where
  "login_tx sec now t d =
     (let session = hex_text (random_bytes sec 0);
          d1 = d\<lparr>login_tokens := update_where (\<lambda>x. tok_hash x = tok_hash t) (\<lambda>x. x\<lparr>tok_used_at := Some now\<rparr>) (login_tokens d)\<rparr> in
      case createDashboardSession (session_hash_of sec session) (tok_user t) now d1 of
        None \<Rightarrow> Throw
      | Some d2 \<Rightarrow> Commit (Logged_in session, Failures_cleared) d2)"

definition handleLogin ::
    "auth_secrets \<Rightarrow> account_db route_env \<Rightarrow> bool \<Rightarrow> obj option \<Rightarrow> account_db \<Rightarrow> auth_result \<times> account_db" where
  "handleLogin sec env admitted payload d0 =
     (if \<not> admitted then (too_many, d0)
      else let d1 = others env 0 d0 in
        case payload of
          None \<Rightarrow> (invalid_login, d1)
        | Some ob \<Rightarrow>
            (case text_or (number_text sec) (prop_of ob ''token'') [] of
               None \<Rightarrow> (auth_unavailable, d1)
             | Some token \<Rightarrow>
                 if \<not> verseLinkTokenPattern token then (invalid_login, d1)
                 else let d2 = others env 1 d1 in
                   if query_fails env 1 then (auth_unavailable, d2)
                   else (case find_login d2 (token_hash_of sec token) of
                      None \<Rightarrow> (invalid_login, d2)
                    | Some (t, a) \<Rightarrow>
                        if account_state a \<noteq> Active then (invalid_login, d2)
                        else let d3 = others env 2 d2 in
                          if query_fails env 2 then (auth_unavailable, d3)
                          else run_tx (tx_ends env) auth_unavailable (login_tx sec (moment env) t) d3)))"

text \<open>\<open>/logout\<close>; the cookie is \<open>None\<close> when it is missing or empty.\<close>

definition logout :: "auth_secrets \<Rightarrow> account_db route_env \<Rightarrow> jsstr option \<Rightarrow> account_db \<Rightarrow> auth_result \<times> account_db" where
  "logout sec env cookie d0 =
     (case cookie of
        None \<Rightarrow> ((Logged_out, Untouched), d0)
      | Some session \<Rightarrow>
          let d1 = others env 0 d0 in
          if query_fails env 0 then (auth_unavailable, d1)
          else ((Logged_out, Untouched),
            d1\<lparr>sessions := delete_where (\<lambda>s. session_hash s = session_hash_of sec session) (sessions d1)\<rparr>))"

section \<open>Rotation of the recovery key\<close>

definition rotate_tx :: "auth_secrets \<Rightarrow> int \<Rightarrow> jsstr \<Rightarrow> account_db \<Rightarrow> (auth_result, account_db) tx_outcome" where
  "rotate_tx sec now uid d =
     (if \<not> account_live (crew d) uid then Rollback (Auth_error 403 ''account is not active'', Untouched)
      else let recoveryKey = generateRecoveryToken (random_bytes sec 0) in
        case insert_recovery_key (recovery_hash_of sec recoveryKey) uid
               (revoke_keys_where (\<lambda>r. rec_user r = uid \<and> rec_revoked_at r = None) now d) of
          None \<Rightarrow> Throw
        | Some d1 \<Rightarrow> Commit (Rotated recoveryKey, Failures_cleared) d1)"

definition rotateRecoveryKey ::
    "auth_secrets \<Rightarrow> account_db route_env \<Rightarrow> jsstr option \<Rightarrow> bool \<Rightarrow> account_db \<Rightarrow> auth_result \<times> account_db" where
  "rotateRecoveryKey sec env context admitted d0 =
     (case context of
        None \<Rightarrow> ((Auth_error 401 ''login required'', Untouched), d0)
      | Some uid \<Rightarrow>
          if \<not> admitted then (too_many, d0)
          else if \<not> isRecoveryToken (Some (generateRecoveryToken (random_bytes sec 0)))
          then ((Auth_error 500 ''unable to create recovery key'', Untouched), d0)
          else let d1 = others env 0 d0 in
            if query_fails env 0 then (auth_unavailable, d1)
            else run_tx (tx_ends env) auth_unavailable (rotate_tx sec (moment env) uid) d1)"

end
