(* ===== verification/Account_Groups.thy ===== *)
theory Account_Groups
  imports Accounts
begin

text \<open>
  Groups and invites (\<open>/api/groups/*\<close>, \<open>/api/invites/*\<close>, and the administrator's \<open>/api/admin/groups/*\<close> and
  \<open>/api/admin/users/*\<close> in \<open>src/src/server.js\<close>). A request's parameters are what
  \<open>URLSearchParams.get\<close> gives for a name; \<open>read_uuid\<close> is how the database reads a uuid, \<open>None\<close> when it
  refuses the text.
\<close>

section \<open>Answers and parameters\<close>

datatype group_answer =
    Group_error nat string
  | Invite_created jsstr int int bool
  | Group_created jsstr jsstr
  | Group_renamed jsstr jsstr
  | Group_done

type_synonym parameters = "string \<Rightarrow> jsstr option"

definition group_unavailable :: group_answer where
  "group_unavailable = Group_error 503 ''service unavailable''"

definition login_required :: group_answer where
  "login_required = Group_error 401 ''login required''"

datatype uuid_arg = No_uuid | Bad_uuid | Uuid jsstr

definition uuid_arg_of :: "(jsstr \<Rightarrow> jsstr option) \<Rightarrow> jsstr option \<Rightarrow> uuid_arg" where
  "uuid_arg_of read_uuid v =
     (case v of None \<Rightarrow> No_uuid | Some s \<Rightarrow> (case read_uuid s of None \<Rightarrow> Bad_uuid | Some u \<Rightarrow> Uuid u))"

text \<open>\<open>/^[0-9a-f-]{36}$/i\<close>.\<close>

definition group_id_pattern :: "jsstr option \<Rightarrow> bool" where
  "group_id_pattern v = (case v of None \<Rightarrow> False | Some s \<Rightarrow> length s = 36 \<and> list_all (\<lambda>c. hex_digit c \<or> c = 45) s)"

definition or_empty :: "jsstr option \<Rightarrow> jsstr" where
  "or_empty v = (case v of None \<Rightarrow> [] | Some s \<Rightarrow> s)"

section \<open>Invites\<close>

text \<open>The server's calendar: the local day of an instant and the instant a local day begins.\<close>

record calendar =
  local_day :: "int \<Rightarrow> int"
  local_midnight :: "int \<Rightarrow> int"

definition inviteExpiryDate :: "calendar \<Rightarrow> int \<Rightarrow> int \<Rightarrow> int" where
  "inviteExpiryDate cal days now = local_midnight cal (local_day cal now + days + 1)"

text \<open>The oldest group the caller may invite to; \<open>age\<close> is a group's \<open>created_at\<close>.\<close>

definition invitable_group :: "(jsstr \<Rightarrow> int) \<Rightarrow> jsstr \<Rightarrow> bool \<Rightarrow> jsstr \<Rightarrow> account_db \<Rightarrow> jsstr option" where
  "invitable_group age uid admin requested d =
     (case sort_key age (map group_id (filter (\<lambda>g. (requested = [] \<or> group_id g = requested) \<and>
        (if admin then \<exists>m \<in> set (members (crew d)). member_group m = group_id g else owns_group d (group_id g) uid))
        (group_rows (crew d)))) of
        [] \<Rightarrow> None
      | gid # rest \<Rightarrow> Some gid)"

definition insert_invite :: "jsstr \<Rightarrow> jsstr \<Rightarrow> jsstr \<Rightarrow> jsstr \<Rightarrow> int \<Rightarrow> int option \<Rightarrow> account_db \<Rightarrow> account_db option" where
  "insert_invite fresh gid h code expires max_uses d =
     (if fresh \<in> invite_id ` set (invites d) \<or> h \<in> invite_hash ` set (invites d) \<or>
        gid \<notin> group_id ` set (group_rows (crew d)) then None
      else Some (d\<lparr>invites := invites d @ [\<lparr>invite_id = fresh, invite_group = gid, invite_hash = h, invite_code = code,
        invite_expires_at = expires, invite_accepted_at = None, invite_max_uses = max_uses, invite_use_count = 0\<rparr>]\<rparr>))"

definition invite_hash_of :: "auth_secrets \<Rightarrow> jsstr \<Rightarrow> jsstr" where
  "invite_hash_of sec code = session_hash_of sec (js ''invite:'' @ code)"

definition createInvite ::
    "auth_secrets \<Rightarrow> calendar \<Rightarrow> (jsstr \<Rightarrow> int) \<Rightarrow> account_db route_env \<Rightarrow> jsstr option \<Rightarrow> bool \<Rightarrow> parameters \<Rightarrow> account_db \<Rightarrow>
     group_answer \<times> account_db" where
  "createInvite sec cal age env context admin get d0 =
     (case context of
        None \<Rightarrow> (login_required, d0)
      | Some uid \<Rightarrow>
          let d1 = others env 0 d0 in
          if query_fails env 0 then (group_unavailable, d1)
          else case invitable_group age uid admin (or_empty (get ''group_id'')) d1 of
            None \<Rightarrow> (Group_error 403 ''group owner required'', d1)
          | Some gid \<Rightarrow>
              let code = base64url (random_bytes sec 0);
                  reusable = (get ''reusable'' = Some (js ''1''));
                  days_text = or_empty (get ''expires_in_days'') in
              case integer_of (if days_text = [] then Fin 14 else number_of_string days_text) of
                None \<Rightarrow> (Group_error 400 ''expiry must be between 1 and 365 days'', d1)
              | Some days \<Rightarrow>
                  if days < 1 \<or> 365 < days then (Group_error 400 ''expiry must be between 1 and 365 days'', d1)
                  else let expires = inviteExpiryDate cal days (moment env); d2 = others env 1 d1 in
                    if query_fails env 1 then (group_unavailable, d2)
                    else case insert_invite (new_id env 0) gid (invite_hash_of sec code) code expires
                           (if reusable then None else Some 1) d2 of
                      None \<Rightarrow> (group_unavailable, d2)
                    | Some d3 \<Rightarrow> (Invite_created code expires days reusable, d3))"

definition invite_pattern :: "jsstr \<Rightarrow> bool" where
  "invite_pattern s \<longleftrightarrow> 20 \<le> length s \<and> list_all token_char s"

definition use_invite :: "int \<Rightarrow> invite \<Rightarrow> invite" where
  "use_invite now i = i\<lparr>invite_use_count := invite_use_count i + 1,
     invite_accepted_at := (case invite_max_uses i of None \<Rightarrow> None | Some m \<Rightarrow> Some now)\<rparr>"

text \<open>\<open>INSERT ... ON CONFLICT DO NOTHING\<close>: who is a member already keeps the role.\<close>

definition add_member :: "jsstr \<Rightarrow> jsstr \<Rightarrow> mission_db \<Rightarrow> mission_db" where
  "add_member gid uid m =
     (if \<exists>x \<in> set (members m). member_group x = gid \<and> member_user x = uid then m
      else m\<lparr>members := members m @ [\<lparr>member_group = gid, member_user = uid, member_role = Member\<rparr>]\<rparr>)"

definition join_tx :: "int \<Rightarrow> jsstr \<Rightarrow> jsstr \<Rightarrow> account_db \<Rightarrow> (group_answer, account_db) tx_outcome" where
  "join_tx now h uid d =
     (case find (\<lambda>i. invite_hash i = h \<and> invite_open now i) (invites d) of
        None \<Rightarrow> Rollback (Group_error 400 ''invite invalid or expired'')
      | Some i \<Rightarrow>
          if uid \<notin> account_id ` set (accounts (crew d)) then Throw
          else Commit Group_done (d\<lparr>crew := add_member (invite_group i) uid (crew d),
            invites := update_where (\<lambda>x. invite_id x = invite_id i) (use_invite now) (invites d)\<rparr>))"

definition joinGroup ::
    "auth_secrets \<Rightarrow> account_db route_env \<Rightarrow> jsstr option \<Rightarrow> parameters \<Rightarrow> account_db \<Rightarrow> group_answer \<times> account_db" where
  "joinGroup sec env context get d0 =
     (case context of
        None \<Rightarrow> (login_required, d0)
      | Some uid \<Rightarrow>
          let code = or_empty (get ''invite''); d1 = others env 0 d0 in
          if \<not> invite_pattern code then (Group_error 400 ''invalid invite'', d1)
          else let d2 = others env 1 d1 in
            if query_fails env 1 then (group_unavailable, d2)
            else run_tx (tx_ends env) (Group_error 400 ''database error'') (join_tx (moment env) (invite_hash_of sec code) uid) d2)"

definition revokeInvite ::
    "(jsstr \<Rightarrow> jsstr option) \<Rightarrow> account_db route_env \<Rightarrow> jsstr option \<Rightarrow> bool \<Rightarrow> parameters \<Rightarrow> account_db \<Rightarrow>
     group_answer \<times> account_db" where
  "revokeInvite read_uuid env context admin get d0 =
     (case context of
        None \<Rightarrow> (login_required, d0)
      | Some uid \<Rightarrow>
          let d1 = others env 0 d0 in
          if query_fails env 0 then (group_unavailable, d1)
          else case uuid_arg_of read_uuid (get ''invite_id'') of
            Bad_uuid \<Rightarrow> (group_unavailable, d1)
          | No_uuid \<Rightarrow> (Group_done, d1)
          | Uuid iid \<Rightarrow> (Group_done, d1\<lparr>invites := delete_where (\<lambda>i. invite_id i = iid \<and>
              (admin \<or> owns_group d1 (invite_group i) uid)) (invites d1)\<rparr>))"

definition cleanupExpiredInvites :: "int \<Rightarrow> account_db \<Rightarrow> account_db" where
  "cleanupExpiredInvites now d = d\<lparr>invites := delete_where (\<lambda>i. invite_expires_at i \<le> now) (invites d)\<rparr>"

section \<open>Groups\<close>

definition createGroup ::
    "account_db route_env \<Rightarrow> jsstr option \<Rightarrow> parameters \<Rightarrow> account_db \<Rightarrow> group_answer \<times> account_db" where
  "createGroup env context get d0 =
     (case context of
        None \<Rightarrow> (login_required, d0)
      | Some uid \<Rightarrow>
          let d1 = others env 0 d0 in
          (case map_option js_trim (get ''name'') of
             None \<Rightarrow> (Group_error 400 ''invalid group name'', d1)
           | Some name \<Rightarrow>
               if \<not> validText 120 (Some (JStr name)) then (Group_error 400 ''invalid group name'', d1)
               else let d2 = others env 1 d1 in
                 if query_fails env 1 then (group_unavailable, d2)
                 else run_tx (tx_ends env) (Group_error 400 ''database error'')
                   (\<lambda>d. if \<not> pg_text name then Throw
                        else case insert_group (new_id env 0) name uid d of
                          None \<Rightarrow> Throw | Some d' \<Rightarrow> Commit (Group_created (new_id env 0) name) d') d2))"

definition renameGroup ::
    "(jsstr \<Rightarrow> jsstr option) \<Rightarrow> account_db route_env \<Rightarrow> jsstr option \<Rightarrow> parameters \<Rightarrow> account_db \<Rightarrow> group_answer \<times> account_db" where
  "renameGroup read_uuid env context get d0 =
     (case context of
        None \<Rightarrow> (login_required, d0)
      | Some uid \<Rightarrow>
          let d1 = others env 0 d0 in
          (case map_option js_trim (get ''name'') of
             None \<Rightarrow> (Group_error 400 ''invalid group name'', d1)
           | Some name \<Rightarrow>
               if \<not> group_id_pattern (get ''group_id'') \<or> \<not> validText 120 (Some (JStr name))
               then (Group_error 400 ''invalid group name'', d1)
               else let d2 = others env 1 d1 in
                 if query_fails env 1 \<or> \<not> pg_text name then (group_unavailable, d2)
                 else case uuid_arg_of read_uuid (get ''group_id'') of
                   Uuid gid \<Rightarrow>
                     if owns_group d2 gid uid \<and> group_exists (crew d2) gid
                     then (Group_renamed gid name, d2\<lparr>crew := (crew d2)\<lparr>group_rows :=
                       update_where (\<lambda>g. group_id g = gid) (\<lambda>g. g\<lparr>group_name := name\<rparr>) (group_rows (crew d2))\<rparr>\<rparr>)
                     else (Group_error 403 ''group owner required'', d2)
                 | _ \<Rightarrow> (group_unavailable, d2)))"

text \<open>\<open>DELETE FROM group_members ... AND role <> 'owner' RETURNING\<close>, then the member's open tasks are unassigned.\<close>

definition remove_member :: "jsstr \<Rightarrow> jsstr \<Rightarrow> int \<Rightarrow> account_db \<Rightarrow> account_db" where
  "remove_member gid uid now d =
     (let m = crew d in
      if role_of m gid uid \<noteq> Some Member then d
      else d\<lparr>crew := unassignOpenMissionTasksForFormerMember gid uid now
        (m\<lparr>members := delete_where (\<lambda>x. member_group x = gid \<and> member_user x = uid \<and> member_role x \<noteq> Owner) (members m)\<rparr>)\<rparr>)"

definition leaveGroup ::
    "(jsstr \<Rightarrow> jsstr option) \<Rightarrow> account_db route_env \<Rightarrow> jsstr option \<Rightarrow> parameters \<Rightarrow> account_db \<Rightarrow> group_answer \<times> account_db" where
  "leaveGroup read_uuid env context get d0 =
     (case context of
        None \<Rightarrow> (login_required, d0)
      | Some uid \<Rightarrow>
          let d1 = others env 0 d0 in
          if \<not> group_id_pattern (get ''group_id'') then (Group_error 400 ''invalid group'', d1)
          else let d2 = others env 1 d1 in
            if query_fails env 1 then (group_unavailable, d2)
            else run_tx (tx_ends env) group_unavailable
              (\<lambda>d. case uuid_arg_of read_uuid (get ''group_id'') of
                 Uuid gid \<Rightarrow> Commit Group_done (remove_member gid uid (moment env) d)
               | _ \<Rightarrow> Throw) d2)"

definition removeMember ::
    "(jsstr \<Rightarrow> jsstr option) \<Rightarrow> account_db route_env \<Rightarrow> jsstr option \<Rightarrow> bool \<Rightarrow> parameters \<Rightarrow> account_db \<Rightarrow>
     group_answer \<times> account_db" where
  "removeMember read_uuid env context admin get d0 =
     (case context of
        None \<Rightarrow> (login_required, d0)
      | Some uid \<Rightarrow>
          let d1 = others env 0 d0; d2 = others env 1 d1 in
          if query_fails env 1 then (group_unavailable, d2)
          else run_tx (tx_ends env) group_unavailable
            (\<lambda>d. case (uuid_arg_of read_uuid (get ''group_id''), uuid_arg_of read_uuid (get ''member_id'')) of
               (Uuid gid, Uuid member) \<Rightarrow>
                 Commit Group_done (if admin \<or> owns_group d gid uid then remove_member gid member (moment env) d else d)
             | (g, u) \<Rightarrow> if g = Bad_uuid \<or> u = Bad_uuid then Throw else Commit Group_done d) d2)"

text \<open>The three statements of a transfer each see what is committed when they run: the owner is checked in \<open>v1\<close>, the
  member in \<open>v2\<close>, the update runs on the rows as they are then.\<close>

definition set_owner :: "jsstr \<Rightarrow> jsstr \<Rightarrow> account_db \<Rightarrow> account_db" where
  "set_owner gid member d =
     d\<lparr>crew := (crew d)\<lparr>members := update_where (\<lambda>x. member_group x = gid)
        (\<lambda>x. x\<lparr>member_role := (if member_user x = member then Owner else Member)\<rparr>) (members (crew d))\<rparr>\<rparr>"

definition transfer_tx ::
    "account_db \<Rightarrow> account_db \<Rightarrow> jsstr option \<Rightarrow> uuid_arg \<Rightarrow> uuid_arg \<Rightarrow> account_db \<Rightarrow> (group_answer, account_db) tx_outcome" where
  "transfer_tx v1 v2 owner g u d =
     (if g = Bad_uuid then Throw
      else case g of
        Uuid gid \<Rightarrow>
          if (case owner of Some uid \<Rightarrow> \<not> owns_group v1 gid uid | None \<Rightarrow> False)
          then Rollback (Group_error 400 ''group owner required'')
          else (case u of
             Uuid member \<Rightarrow>
               if role_of (crew v2) gid member = None then Rollback (Group_error 400 ''member not found'')
               else Commit Group_done (set_owner gid member d)
           | No_uuid \<Rightarrow> Rollback (Group_error 400 ''member not found'')
           | Bad_uuid \<Rightarrow> Throw)
      | _ \<Rightarrow> if owner \<noteq> None then Rollback (Group_error 400 ''group owner required'')
             else if u = Bad_uuid then Throw else Rollback (Group_error 400 ''member not found''))"

text \<open>The owner's transfer and the administrator's, which skips the first check.\<close>

definition transferOwner ::
    "(jsstr \<Rightarrow> jsstr option) \<Rightarrow> account_db route_env \<Rightarrow> jsstr option \<Rightarrow> parameters \<Rightarrow> account_db \<Rightarrow> group_answer \<times> account_db" where
  "transferOwner read_uuid env context get d0 =
     (case context of
        None \<Rightarrow> (login_required, d0)
      | Some uid \<Rightarrow>
          let d1 = others env 1 (others env 0 d0); d2 = others env 2 d1; d3 = others env 3 d2 in
          if query_fails env 1 then (group_unavailable, d1)
          else run_tx (tx_ends env) (Group_error 400 ''database error'')
            (transfer_tx d1 d2 (Some uid) (uuid_arg_of read_uuid (get ''group_id'')) (uuid_arg_of read_uuid (get ''member_id''))) d3)"

definition adminTransferOwner ::
    "(jsstr \<Rightarrow> jsstr option) \<Rightarrow> account_db route_env \<Rightarrow> bool \<Rightarrow> parameters \<Rightarrow> account_db \<Rightarrow> group_answer \<times> account_db" where
  "adminTransferOwner read_uuid env admin get d0 =
     (if \<not> admin then (Group_error 403 ''app admin required'', d0)
      else let d1 = others env 1 (others env 0 d0); d2 = others env 2 d1 in
        if query_fails env 1 then (group_unavailable, d1)
        else run_tx (tx_ends env) (Group_error 400 ''database error'')
          (transfer_tx d1 d1 None (uuid_arg_of read_uuid (get ''group_id'')) (uuid_arg_of read_uuid (get ''member_id''))) d2)"

definition deleteGroup ::
    "(jsstr \<Rightarrow> jsstr option) \<Rightarrow> account_db route_env \<Rightarrow> jsstr option \<Rightarrow> parameters \<Rightarrow> account_db \<Rightarrow> group_answer \<times> account_db" where
  "deleteGroup read_uuid env context get d0 =
     (case context of
        None \<Rightarrow> (login_required, d0)
      | Some uid \<Rightarrow>
          let d1 = others env 0 d0 in
          if query_fails env 0 then (group_unavailable, d1)
          else case uuid_arg_of read_uuid (get ''group_id'') of
            Bad_uuid \<Rightarrow> (group_unavailable, d1)
          | No_uuid \<Rightarrow> (Group_done, d1)
          | Uuid gid \<Rightarrow> (Group_done, delete_groups_where (\<lambda>g. group_id g = gid \<and> owns_group d1 gid uid) d1))"

section \<open>Accounts under the administrator\<close>

definition read_account_state :: "jsstr \<Rightarrow> account_status option" where
  "read_account_state s =
     (if s = js ''active'' then Some Active else if s = js ''blocked'' then Some Blocked
      else if s = js ''deleted'' then Some Deleted else None)"

definition status_tx :: "jsstr \<Rightarrow> jsstr \<Rightarrow> account_status \<Rightarrow> int \<Rightarrow> account_db \<Rightarrow> (group_answer, account_db) tx_outcome" where
  "status_tx self uid st now d =
     (if uid = self \<or> find_account (crew d) uid = None then Rollback (Group_error 400 ''user not available'')
      else let m = (crew d)\<lparr>accounts := update_where (\<lambda>a. account_id a = uid) (\<lambda>a. a\<lparr>account_state := st\<rparr>) (accounts (crew d))\<rparr> in
        Commit Group_done
          (if st = Active then d\<lparr>crew := m\<rparr>
           else d\<lparr>crew := unassignOpenMissionTasksForInactiveUser uid now m,
                   sessions := delete_where (\<lambda>s. session_user s = uid) (sessions d)\<rparr>))"

definition setUserStatus ::
    "(jsstr \<Rightarrow> jsstr option) \<Rightarrow> account_db route_env \<Rightarrow> caller option \<Rightarrow> parameters \<Rightarrow> account_db \<Rightarrow> group_answer \<times> account_db" where
  "setUserStatus read_uuid env current get d0 =
     (case current of
        None \<Rightarrow> (Group_error 403 ''app admin required'', d0)
      | Some c \<Rightarrow>
          if \<not> caller_admin c then (Group_error 403 ''app admin required'', d0)
          else let d1 = others env 0 d0 in
            if \<not> group_id_pattern (get ''user_id'') then (Group_error 400 ''invalid user or status'', d1)
            else case read_account_state (or_empty (get ''status'')) of
              None \<Rightarrow> (Group_error 400 ''invalid user or status'', d1)
            | Some st \<Rightarrow>
                let d2 = others env 1 d1 in
                if query_fails env 1 then (group_unavailable, d2)
                else run_tx (tx_ends env) group_unavailable
                  (\<lambda>d. case uuid_arg_of read_uuid (get ''user_id'') of
                     Uuid uid \<Rightarrow> status_tx (caller_id c) uid st (moment env) d | _ \<Rightarrow> Throw) d2)"

definition remove_user_tx :: "jsstr \<Rightarrow> account_db \<Rightarrow> (group_answer, account_db) tx_outcome" where
  "remove_user_tx uid d =
     (let d1 = delete_groups_where (\<lambda>g. owns_group d (group_id g) uid)
            (d\<lparr>sessions := delete_where (\<lambda>s. session_user s = uid) (sessions d)\<rparr>);
          m = crew d1;
          d2 = d1\<lparr>crew := m\<lparr>
            group_rows := update_where (\<lambda>g. group_creator g = Some uid) (\<lambda>g. g\<lparr>group_creator := None\<rparr>) (group_rows m),
            members := delete_where (\<lambda>x. member_user x = uid) (members m)\<rparr>\<rparr> in
      if find_account (crew d2) uid = None then Rollback (Group_error 400 ''user not found'')
      else Commit Group_done (delete_account uid d2))"

definition removeUser ::
    "(jsstr \<Rightarrow> jsstr option) \<Rightarrow> account_db route_env \<Rightarrow> caller option \<Rightarrow> parameters \<Rightarrow> account_db \<Rightarrow> group_answer \<times> account_db" where
  "removeUser read_uuid env current get d0 =
     (case current of
        None \<Rightarrow> (Group_error 403 ''app admin required'', d0)
      | Some c \<Rightarrow>
          if \<not> caller_admin c then (Group_error 403 ''app admin required'', d0)
          else let d1 = others env 0 d0 in
            if \<not> group_id_pattern (get ''user_id'') \<or> get ''user_id'' = Some (caller_id c)
            then (Group_error 400 ''invalid user'', d1)
            else let d2 = others env 1 d1 in
              if query_fails env 1 then (group_unavailable, d2)
              else run_tx (tx_ends env) (Group_error 400 ''database error'')
                (\<lambda>d. case uuid_arg_of read_uuid (get ''user_id'') of Uuid uid \<Rightarrow> remove_user_tx uid d | _ \<Rightarrow> Throw) d2)"

end
