(* ===== verification/Account_Invariants.thy ===== *)
theory Account_Invariants
  imports Account_Groups
begin

text \<open>
  What every change of the account tables keeps: the constraints, one owner of a group, one live login token of
  an account, sound invites; and \<open>account_step\<close>, one committed change by any route.
\<close>

section \<open>The invariant\<close>

definition one_owner :: "member_row list \<Rightarrow> bool" where
  "one_owner ms \<longleftrightarrow> (\<forall>m \<in> set ms. \<forall>n \<in> set ms. member_group m = member_group n \<and> member_role m = Owner \<and> member_role n = Owner \<longrightarrow> m = n)"

definition owned_groups :: "mission_db \<Rightarrow> bool" where
  "owned_groups m \<longleftrightarrow> (\<forall>g \<in> set (group_rows m). \<exists>x \<in> set (members m). member_group x = group_id g \<and> member_role x = Owner)"

definition one_token :: "login_token list \<Rightarrow> bool" where
  "one_token ts \<longleftrightarrow> (\<forall>s \<in> set ts. \<forall>t \<in> set ts. tok_user s = tok_user t \<and> tok_revoked_at s = None \<and> tok_revoked_at t = None \<longrightarrow> s = t)"

definition one_key :: "recovery_key list \<Rightarrow> bool" where
  "one_key rs \<longleftrightarrow> (\<forall>r \<in> set rs. \<forall>s \<in> set rs. rec_user r = rec_user s \<and> rec_revoked_at r = None \<and> rec_revoked_at s = None \<longrightarrow> r = s)"

definition invite_sound :: "invite \<Rightarrow> bool" where
  "invite_sound i \<longleftrightarrow>
     (case invite_max_uses i of
        None \<Rightarrow> 0 \<le> invite_use_count i \<and> invite_accepted_at i = None
      | Some m \<Rightarrow> m = 1 \<and> (invite_use_count i = 0 \<and> invite_accepted_at i = None \<or> invite_use_count i = 1 \<and> invite_accepted_at i \<noteq> None))"

definition crew_invariant :: "bool \<Rightarrow> account_db \<Rightarrow> bool" where
  "crew_invariant serial d \<longleftrightarrow>
     accounts_ok d \<and> one_owner (members (crew d)) \<and> (serial \<longrightarrow> owned_groups (crew d)) \<and>
     one_token (login_tokens d) \<and> (\<forall>i \<in> set (invites d). invite_sound i)"

text \<open>The invariant by table: a change of some tables has to keep only what is said of them.\<close>

definition crew_part :: "bool \<Rightarrow> mission_db \<Rightarrow> bool" where
  "crew_part serial m \<longleftrightarrow> group_ok m \<and> one_owner (members m) \<and> (serial \<longrightarrow> owned_groups m)"

definition token_part :: "jsstr set \<Rightarrow> login_token list \<Rightarrow> bool" where
  "token_part us ts \<longleftrightarrow> distinct (map tok_hash ts) \<and> (\<forall>t \<in> set ts. tok_user t \<in> us) \<and> one_token ts"

definition key_part :: "jsstr set \<Rightarrow> recovery_key list \<Rightarrow> bool" where
  "key_part us rs \<longleftrightarrow> distinct (map rec_hash rs) \<and> (\<forall>r \<in> set rs. rec_user r \<in> us) \<and> one_key rs"

definition session_part :: "jsstr set \<Rightarrow> dashboard_session list \<Rightarrow> bool" where
  "session_part us ss \<longleftrightarrow> distinct (map session_hash ss) \<and> (\<forall>s \<in> set ss. session_user s \<in> us)"

definition invite_part :: "jsstr set \<Rightarrow> invite list \<Rightarrow> bool" where
  "invite_part gs is \<longleftrightarrow> distinct (map invite_id is) \<and> distinct (map invite_hash is) \<and>
     (\<forall>i \<in> set is. invite_group i \<in> gs \<and> invite_sound i)"

abbreviation account_ids :: "mission_db \<Rightarrow> jsstr set" where
  "account_ids m \<equiv> account_id ` set (accounts m)"

abbreviation group_ids :: "mission_db \<Rightarrow> jsstr set" where
  "group_ids m \<equiv> group_id ` set (group_rows m)"

lemma invariant_parts:
  "crew_invariant serial d \<longleftrightarrow>
     crew_part serial (crew d) \<and> token_part (account_ids (crew d)) (login_tokens d) \<and>
     key_part (account_ids (crew d)) (recovery_keys d) \<and> session_part (account_ids (crew d)) (sessions d) \<and>
     invite_part (group_ids (crew d)) (invites d)"
  by (auto simp: crew_invariant_def accounts_ok_def crew_part_def token_part_def key_part_def session_part_def invite_part_def
      one_key_def)

section \<open>Tokens, keys and sessions\<close>

lemma token_part_mono: "token_part us ts \<Longrightarrow> us \<subseteq> vs \<Longrightarrow> token_part vs ts"
  by (auto simp: token_part_def)

lemma key_part_mono: "key_part us rs \<Longrightarrow> us \<subseteq> vs \<Longrightarrow> key_part vs rs"
  by (auto simp: key_part_def)

lemma session_part_mono: "session_part us ss \<Longrightarrow> us \<subseteq> vs \<Longrightarrow> session_part vs ss"
  by (auto simp: session_part_def)

lemma invite_part_mono: "invite_part gs is \<Longrightarrow> gs \<subseteq> hs \<Longrightarrow> invite_part hs is"
  by (auto simp: invite_part_def)

lemma token_part_delete: "token_part us ts \<Longrightarrow> (\<And>t. t \<in> set ts \<Longrightarrow> \<not> P t \<Longrightarrow> tok_user t \<in> vs) \<Longrightarrow> token_part vs (delete_where P ts)"
  by (auto simp: token_part_def one_token_def row_simps)

lemma key_part_delete: "key_part us rs \<Longrightarrow> (\<And>r. r \<in> set rs \<Longrightarrow> \<not> P r \<Longrightarrow> rec_user r \<in> vs) \<Longrightarrow> key_part vs (delete_where P rs)"
  by (auto simp: key_part_def one_key_def row_simps)

lemma session_part_delete:
  "session_part us ss \<Longrightarrow> (\<And>s. s \<in> set ss \<Longrightarrow> \<not> P s \<Longrightarrow> session_user s \<in> vs) \<Longrightarrow> session_part vs (delete_where P ss)"
  by (auto simp: session_part_def row_simps)

lemma invite_part_delete:
  "invite_part gs is \<Longrightarrow> (\<And>i. i \<in> set is \<Longrightarrow> \<not> P i \<Longrightarrow> invite_group i \<in> hs) \<Longrightarrow> invite_part hs (delete_where P is)"
  by (auto simp: invite_part_def row_simps)

text \<open>Rows that are only marked as used or revoked.\<close>

lemma token_part_mark:
  assumes ok: "token_part us ts"
    and f: "\<And>t. tok_hash (f t) = tok_hash t \<and> tok_user (f t) = tok_user t \<and> (tok_revoked_at (f t) = None \<longrightarrow> tok_revoked_at t = None)"
  shows "token_part us (update_where P f ts)"
proof -
  have "map tok_hash (update_where P f ts) = map tok_hash ts" by (rule map_key_update_where) (simp add: f)
  moreover have "one_token (update_where P f ts)"
    unfolding one_token_def
  proof (intro ballI impI)
    fix s t
    assume "s \<in> set (update_where P f ts)" "t \<in> set (update_where P f ts)"
      and live: "tok_user s = tok_user t \<and> tok_revoked_at s = None \<and> tok_revoked_at t = None"
    then obtain s0 t0 where "s0 \<in> set ts" "s = (if P s0 then f s0 else s0)" "t0 \<in> set ts" "t = (if P t0 then f t0 else t0)"
      by (auto simp: update_where_mem)
    with live f ok have "s0 = t0" unfolding token_part_def one_token_def by (metis (full_types))
    with \<open>s = _\<close> \<open>t = _\<close> show "s = t" by simp
  qed
  ultimately show ?thesis using ok f by (auto simp: token_part_def update_where_mem)
qed

lemma key_part_mark:
  assumes ok: "key_part us rs"
    and f: "\<And>r. rec_hash (f r) = rec_hash r \<and> rec_user (f r) = rec_user r \<and> (rec_revoked_at (f r) = None \<longrightarrow> rec_revoked_at r = None)"
  shows "key_part us (update_where P f rs)"
proof -
  have "map rec_hash (update_where P f rs) = map rec_hash rs" by (rule map_key_update_where) (simp add: f)
  moreover have "one_key (update_where P f rs)"
    unfolding one_key_def
  proof (intro ballI impI)
    fix s t
    assume "s \<in> set (update_where P f rs)" "t \<in> set (update_where P f rs)"
      and live: "rec_user s = rec_user t \<and> rec_revoked_at s = None \<and> rec_revoked_at t = None"
    then obtain s0 t0 where "s0 \<in> set rs" "s = (if P s0 then f s0 else s0)" "t0 \<in> set rs" "t = (if P t0 then f t0 else t0)"
      by (auto simp: update_where_mem)
    with live f ok have "s0 = t0" unfolding key_part_def one_key_def by (metis (full_types))
    with \<open>s = _\<close> \<open>t = _\<close> show "s = t" by simp
  qed
  ultimately show ?thesis using ok f by (auto simp: key_part_def update_where_mem)
qed

lemma token_part_insert:
  "token_part us ts \<Longrightarrow> h \<notin> tok_hash ` set ts \<Longrightarrow> uid \<in> us \<Longrightarrow> \<forall>t \<in> set ts. tok_user t = uid \<longrightarrow> tok_revoked_at t \<noteq> None \<Longrightarrow>
     token_part us (ts @ [\<lparr>tok_hash = h, tok_user = uid, tok_used_at = None, tok_revoked_at = None\<rparr>])"
  by (auto simp: token_part_def one_token_def)

lemma key_part_insert:
  "key_part us rs \<Longrightarrow> h \<notin> rec_hash ` set rs \<Longrightarrow> uid \<in> us \<Longrightarrow> \<forall>r \<in> set rs. rec_user r = uid \<longrightarrow> rec_revoked_at r \<noteq> None \<Longrightarrow>
     key_part us (rs @ [\<lparr>rec_hash = h, rec_user = uid, rec_used_at = None, rec_revoked_at = None\<rparr>])"
  by (auto simp: key_part_def one_key_def)

lemma insert_login_token_Some: "insert_login_token h uid d = Some d' \<Longrightarrow>
    h \<notin> tok_hash ` set (login_tokens d) \<and> uid \<in> account_ids (crew d) \<and>
    d' = d\<lparr>login_tokens := login_tokens d @ [\<lparr>tok_hash = h, tok_user = uid, tok_used_at = None, tok_revoked_at = None\<rparr>]\<rparr>"
  by (auto simp: insert_login_token_def split: if_splits)

lemma insert_recovery_key_Some: "insert_recovery_key h uid d = Some d' \<Longrightarrow>
    h \<notin> rec_hash ` set (recovery_keys d) \<and> uid \<in> account_ids (crew d) \<and>
    (\<forall>r \<in> set (recovery_keys d). rec_user r = uid \<longrightarrow> rec_revoked_at r \<noteq> None) \<and>
    d' = d\<lparr>recovery_keys := recovery_keys d @ [\<lparr>rec_hash = h, rec_user = uid, rec_used_at = None, rec_revoked_at = None\<rparr>]\<rparr>"
  by (auto simp: insert_recovery_key_def split: if_splits)

lemma createDashboardSession_Some: "createDashboardSession h uid now d = Some d' \<Longrightarrow>
    h \<notin> session_hash ` set (sessions d) \<and> uid \<in> account_ids (crew d) \<and>
    d' = d\<lparr>sessions := sessions d @ [\<lparr>session_hash = h, session_user = uid, session_expires_at = now + session_days\<rparr>]\<rparr>"
  by (auto simp: createDashboardSession_def split: if_splits)

lemma insert_recovery_key_ok: "crew_invariant serial d \<Longrightarrow> insert_recovery_key h uid d = Some d' \<Longrightarrow> crew_invariant serial d'"
  using key_part_insert by (fastforce simp: invariant_parts dest!: insert_recovery_key_Some)

lemma createDashboardSession_ok: "crew_invariant serial d \<Longrightarrow> createDashboardSession h uid now d = Some d' \<Longrightarrow> crew_invariant serial d'"
  by (auto simp: invariant_parts session_part_def dest!: createDashboardSession_Some)

lemma insert_login_token_ok:
  "crew_invariant serial d \<Longrightarrow> insert_login_token h uid d = Some d' \<Longrightarrow>
    \<forall>t \<in> set (login_tokens d). tok_user t = uid \<longrightarrow> tok_revoked_at t \<noteq> None \<Longrightarrow> crew_invariant serial d'"
  using token_part_insert by (fastforce simp: invariant_parts dest!: insert_login_token_Some)

section \<open>Accounts and groups\<close>

lemma part_accounts: "crew_part serial (m\<lparr>accounts := us\<rparr>) \<longleftrightarrow> group_ok (m\<lparr>accounts := us\<rparr>) \<and> one_owner (members m) \<and> (serial \<longrightarrow> owned_groups m)"
  by (simp add: crew_part_def owned_groups_def)

lemma insert_group_Some: "insert_group gid name uid d = Some d' \<Longrightarrow>
    gid \<notin> group_ids (crew d) \<and> uid \<in> account_ids (crew d) \<and>
    d' = d\<lparr>crew := (crew d)\<lparr>group_rows := group_rows (crew d) @ [\<lparr>group_id = gid, group_name = name, group_creator = Some uid\<rparr>],
      members := members (crew d) @ [\<lparr>member_group = gid, member_user = uid, member_role = Owner\<rparr>]\<rparr>\<rparr>"
  by (auto simp: insert_group_def Let_def split: if_splits)

lemma new_group_part:
  assumes ok: "crew_part serial m" and new: "gid \<notin> group_ids m" "uid \<in> account_ids m"
  shows "crew_part serial (m\<lparr>group_rows := group_rows m @ [\<lparr>group_id = gid, group_name = name, group_creator = Some uid\<rparr>],
      members := members m @ [\<lparr>member_group = gid, member_user = uid, member_role = Owner\<rparr>]\<rparr>)"
proof -
  have groups: "member_group x \<noteq> gid" if "x \<in> set (members m)" for x
    using ok new(1) that by (auto simp: crew_part_def group_ok_def)
  show ?thesis
    using ok new groups by (auto simp: crew_part_def group_ok_def one_owner_def owned_groups_def)
qed

lemma insert_group_ok: "crew_invariant serial d \<Longrightarrow> insert_group gid name uid d = Some d' \<Longrightarrow> crew_invariant serial d'"
  using new_group_part by (auto simp: invariant_parts dest!: insert_group_Some intro: invite_part_mono)

end
