(* ===== verification/Account_Steps.thy ===== *)
theory Account_Steps
  imports Account_Invariants
begin

text \<open>
  \<open>account_step\<close>, one committed change of the account tables, and that each keeps the invariant.
\<close>

section \<open>Transactions on accounts\<close>

lemma register_Commit:
  assumes "register_tx sec now fresh name d = Commit a d'"
  obtains uid th d1 d2 d3 d4 rh sh where "uid \<notin> account_ids (crew d)" "uid = fresh 0"
    "d1 = d\<lparr>crew := (crew d)\<lparr>accounts := accounts (crew d) @
       [\<lparr>account_id = uid, account_state = Active, account_display_name = name, account_verselink_name = None\<rparr>]\<rparr>\<rparr>"
    "insert_login_token th uid d1 = Some d2" "insert_recovery_key rh uid d2 = Some d3"
    "insert_group (fresh 1) (crew_title name) uid d3 = Some d4" "createDashboardSession sh uid now d4 = Some d'"
proof -
  let ?uid = "fresh 0" and ?th = "token_hash_of sec (generateVerseLinkToken (random_bytes sec 0))"
    and ?rh = "recovery_hash_of sec (generateRecoveryToken (random_bytes sec 1))"
    and ?sh = "session_hash_of sec (hex_text (random_bytes sec 2))"
  let ?d1 = "d\<lparr>crew := (crew d)\<lparr>accounts := accounts (crew d) @
       [\<lparr>account_id = ?uid, account_state = Active, account_display_name = name, account_verselink_name = None\<rparr>]\<rparr>\<rparr>"
  have "?uid \<notin> account_ids (crew d)" using assms by (auto simp: register_tx_def Let_def split: if_splits)
  moreover obtain d2 d3 d4 where "insert_login_token ?th ?uid ?d1 = Some d2" "insert_recovery_key ?rh ?uid d2 = Some d3"
      "insert_group (fresh 1) (crew_title name) ?uid d3 = Some d4" "createDashboardSession ?sh ?uid now d4 = Some d'"
    using assms by (auto simp: register_tx_def Let_def bind_eq_Some_conv split: if_splits option.splits)
  ultimately show thesis using that by blast
qed

lemma new_account_ok:
  assumes ok: "crew_invariant serial d" and new: "uid \<notin> account_ids (crew d)"
  shows "crew_invariant serial (d\<lparr>crew := (crew d)\<lparr>accounts := accounts (crew d) @
       [\<lparr>account_id = uid, account_state = Active, account_display_name = name, account_verselink_name = None\<rparr>]\<rparr>\<rparr>)"
    (is "crew_invariant serial ?d")
proof -
  have more: "account_ids (crew d) \<subseteq> account_ids (crew ?d)" by auto
  have "crew_part serial (crew ?d)"
    using ok new by (auto simp: invariant_parts crew_part_def group_ok_def owned_groups_def)
  with ok more show ?thesis
    by (auto simp: invariant_parts intro: token_part_mono key_part_mono session_part_mono)
qed

lemma register_ok:
  assumes ok: "crew_invariant serial d" and run: "register_tx sec now fresh name d = Commit a d'"
  shows "crew_invariant serial d'"
  using run
proof (rule register_Commit)
  fix uid th d1 d2 d3 d4 rh sh
  assume new: "uid \<notin> account_ids (crew d)" and d1: "d1 = d\<lparr>crew := (crew d)\<lparr>accounts := accounts (crew d) @
       [\<lparr>account_id = uid, account_state = Active, account_display_name = name, account_verselink_name = None\<rparr>]\<rparr>\<rparr>"
    and inserts: "insert_login_token th uid d1 = Some d2" "insert_recovery_key rh uid d2 = Some d3"
    "insert_group (fresh 1) (crew_title name) uid d3 = Some d4" "createDashboardSession sh uid now d4 = Some d'"
  have "crew_invariant serial d1" unfolding d1 by (rule new_account_ok [OF ok new])
  moreover have "\<forall>t \<in> set (login_tokens d1). tok_user t = uid \<longrightarrow> tok_revoked_at t \<noteq> None"
    using ok new by (auto simp: d1 invariant_parts token_part_def)
  ultimately have "crew_invariant serial d2" by (rule insert_login_token_ok [OF _ inserts(1)])
  then show ?thesis
    using insert_recovery_key_ok insert_group_ok createDashboardSession_ok inserts(2-4) by blast
qed

lemma revoke_tokens_of_ok: "crew_invariant serial d \<Longrightarrow> crew_invariant serial (revoke_tokens_of uid now d)"
  by (simp add: invariant_parts revoke_tokens_of_def token_part_mark)

lemma revoke_tokens_of_none: "\<forall>t \<in> set (login_tokens (revoke_tokens_of uid now d)). tok_user t = uid \<longrightarrow> tok_revoked_at t \<noteq> None"
  unfolding revoke_tokens_of_def by simp (rule update_where_all, auto)

lemma revoke_keys_where_ok: "crew_invariant serial d \<Longrightarrow> crew_invariant serial (revoke_keys_where P now d)"
  by (simp add: invariant_parts revoke_keys_where_def key_part_mark)

lemma delete_sessions_ok: "crew_invariant serial d \<Longrightarrow> crew_invariant serial (d\<lparr>sessions := delete_where P (sessions d)\<rparr>)"
  by (auto simp: invariant_parts session_part_def row_simps)

lemma find_recovery_Some: "find_recovery d h = Some (r, a) \<Longrightarrow>
    r \<in> set (recovery_keys d) \<and> rec_hash r = h \<and> a \<in> set (accounts (crew d)) \<and> account_id a = rec_user r"
  by (auto simp: find_recovery_def bind_eq_Some_conv dest!: find_Some_mem find_account_Some)

lemma recover_Commit:
  assumes "recover_tx sec now h d = Commit a d'"
  obtains r acc th rh d1 d2 where "find_recovery d h = Some (r, acc)" "rec_revoked_at r = None" "account_state acc = Active"
    "insert_login_token th (rec_user r) (revoke_tokens_of (rec_user r) now d) = Some d1"
    "insert_recovery_key rh (rec_user r) (revoke_keys_where (\<lambda>x. rec_hash x = h) now d1) = Some d2"
    "d' = d2\<lparr>sessions := delete_where (\<lambda>s. session_user s = rec_user r) (sessions d2)\<rparr>"
    "th = token_hash_of sec (generateVerseLinkToken (random_bytes sec 0))"
    "rh = recovery_hash_of sec (generateRecoveryToken (random_bytes sec 1))"
    "a = (Recovered (generateVerseLinkToken (random_bytes sec 0)) (generateRecoveryToken (random_bytes sec 1)), Failures_cleared)"
proof -
  obtain r acc where r: "find_recovery d h = Some (r, acc)" "rec_revoked_at r = None" "account_state acc = Active"
    using assms by (auto simp: recover_tx_def split: option.splits if_splits)
  let ?th = "token_hash_of sec (generateVerseLinkToken (random_bytes sec 0))"
    and ?rh = "recovery_hash_of sec (generateRecoveryToken (random_bytes sec 1))"
  obtain d1 d2 where "insert_login_token ?th (rec_user r) (revoke_tokens_of (rec_user r) now d) = Some d1"
    "insert_recovery_key ?rh (rec_user r) (revoke_keys_where (\<lambda>x. rec_hash x = h) now d1) = Some d2"
    "d' = d2\<lparr>sessions := delete_where (\<lambda>s. session_user s = rec_user r) (sessions d2)\<rparr>"
    "a = (Recovered (generateVerseLinkToken (random_bytes sec 0)) (generateRecoveryToken (random_bytes sec 1)), Failures_cleared)"
    using assms r by (auto simp: recover_tx_def Let_def bind_eq_Some_conv split: option.splits)
  with r that show thesis by blast
qed

lemma recover_ok:
  assumes ok: "crew_invariant serial d" and run: "recover_tx sec now h d = Commit a d'"
  shows "crew_invariant serial d'"
  using run
proof (rule recover_Commit)
  fix r acc th rh d1 d2
  assume inserts: "insert_login_token th (rec_user r) (revoke_tokens_of (rec_user r) now d) = Some d1"
    "insert_recovery_key rh (rec_user r) (revoke_keys_where (\<lambda>x. rec_hash x = h) now d1) = Some d2"
    and d': "d' = d2\<lparr>sessions := delete_where (\<lambda>s. session_user s = rec_user r) (sessions d2)\<rparr>"
  have "crew_invariant serial d1"
    by (rule insert_login_token_ok [OF revoke_tokens_of_ok [OF ok] inserts(1) revoke_tokens_of_none])
  then show ?thesis
    unfolding d' using revoke_keys_where_ok insert_recovery_key_ok [OF _ inserts(2)] delete_sessions_ok by blast
qed

lemma login_ok:
  assumes ok: "crew_invariant serial d" and run: "login_tx sec now t d = Commit a d'"
  shows "crew_invariant serial d'"
proof -
  have "crew_invariant serial (d\<lparr>login_tokens := update_where (\<lambda>x. tok_hash x = tok_hash t) (\<lambda>x. x\<lparr>tok_used_at := Some now\<rparr>) (login_tokens d)\<rparr>)"
    using ok by (simp add: invariant_parts token_part_mark)
  with run show ?thesis by (auto simp: login_tx_def Let_def split: option.splits intro: createDashboardSession_ok)
qed

lemma rotate_ok:
  assumes ok: "crew_invariant serial d" and run: "rotate_tx sec now uid d = Commit a d'"
  shows "crew_invariant serial d'"
  using run revoke_keys_where_ok [OF ok]
  by (auto simp: rotate_tx_def Let_def split: option.splits if_splits intro: insert_recovery_key_ok)

section \<open>Invites\<close>

lemma insert_invite_ok:
  "crew_invariant serial d \<Longrightarrow> insert_invite fresh gid h code expires mx d = Some d' \<Longrightarrow> mx \<in> {None, Some 1} \<Longrightarrow>
     crew_invariant serial d'"
  by (auto simp: insert_invite_def invariant_parts invite_part_def invite_sound_def split: if_splits)

lemma delete_invites_ok: "crew_invariant serial d \<Longrightarrow> crew_invariant serial (d\<lparr>invites := delete_where P (invites d)\<rparr>)"
  unfolding invariant_parts by (auto simp: invite_part_def row_simps)

lemma use_invite_part:
  assumes ok: "invite_part gs is" and i: "i \<in> set is" "invite_open now i"
  shows "invite_part gs (update_where (\<lambda>x. invite_id x = invite_id i) (use_invite now) is)"
proof -
  have same: "x = i" if "x \<in> set is" "invite_id x = invite_id i" for x
    using ok i(1) that by (intro key_unique [where key = invite_id]) (auto simp: invite_part_def)
  have "invite_sound (use_invite now i)"
    using ok i by (auto simp: invite_part_def invite_sound_def use_invite_def invite_open_def split: option.splits)
  then have "\<forall>x \<in> set (update_where (\<lambda>x. invite_id x = invite_id i) (use_invite now) is). invite_group x \<in> gs \<and> invite_sound x"
    using ok same by (intro update_where_all) (auto simp: invite_part_def use_invite_def)
  then show ?thesis
    using ok by (simp add: invite_part_def map_key_update_where use_invite_def)
qed

lemma add_member_part:
  assumes ok: "crew_part serial m" and refs: "gid \<in> group_ids m" "uid \<in> account_ids m"
  shows "crew_part serial (add_member gid uid m)"
  using ok refs by (auto simp: add_member_def crew_part_def group_ok_def one_owner_def owned_groups_def)

lemma join_Commit:
  assumes "join_tx now h uid d = Commit a d'"
  obtains i where "i \<in> set (invites d)" "invite_hash i = h" "invite_open now i" "uid \<in> account_ids (crew d)" "a = Group_done"
    "d' = d\<lparr>crew := add_member (invite_group i) uid (crew d),
            invites := update_where (\<lambda>x. invite_id x = invite_id i) (use_invite now) (invites d)\<rparr>"
  using assms by (auto simp: join_tx_def split: option.splits if_splits dest!: find_Some_mem)

lemma join_ok:
  assumes ok: "crew_invariant serial d" and run: "join_tx now h uid d = Commit a d'"
  shows "crew_invariant serial d'"
  using run
proof (rule join_Commit)
  fix i
  assume i: "i \<in> set (invites d)" "invite_open now i" "uid \<in> account_ids (crew d)"
    and d': "d' = d\<lparr>crew := add_member (invite_group i) uid (crew d),
            invites := update_where (\<lambda>x. invite_id x = invite_id i) (use_invite now) (invites d)\<rparr>"
  have "invite_group i \<in> group_ids (crew d)" using ok i(1) by (auto simp: invariant_parts invite_part_def)
  then have "crew_part serial (add_member (invite_group i) uid (crew d))"
    using ok i(3) by (intro add_member_part) (simp_all add: invariant_parts)
  moreover have "accounts (add_member (invite_group i) uid (crew d)) = accounts (crew d)"
    "group_rows (add_member (invite_group i) uid (crew d)) = group_rows (crew d)" by (simp_all add: add_member_def)
  ultimately show ?thesis
    using ok use_invite_part [OF _ i(1,2)] by (simp add: d' invariant_parts)
qed

section \<open>Members and owners\<close>

lemma unassign_crew [simp]:
  "members (unassignOpenMissionTasksForFormerMember gid uid now m) = members m"
  "group_rows (unassignOpenMissionTasksForFormerMember gid uid now m) = group_rows m"
  "accounts (unassignOpenMissionTasksForFormerMember gid uid now m) = accounts m"
  "members (unassignOpenMissionTasksForInactiveUser uid now m) = members m"
  "group_rows (unassignOpenMissionTasksForInactiveUser uid now m) = group_rows m"
  "accounts (unassignOpenMissionTasksForInactiveUser uid now m) = accounts m"
  by (simp_all add: unassignOpenMissionTasksForFormerMember_def unassignOpenMissionTasksForInactiveUser_def unassign_def)

text \<open>A crew with the same accounts, groups and creators and some of the members, all owners among them.\<close>

lemma crew_part_fewer_members:
  assumes ok: "crew_part serial m" and same: "accounts m' = accounts m" "group_rows m' = group_rows m"
    and mem: "members m' = delete_where P (members m)" "\<And>x. P x \<Longrightarrow> member_role x \<noteq> Owner"
  shows "crew_part serial m'"
proof -
  have "owned_groups m'" if "owned_groups m"
    using that mem(2) unfolding owned_groups_def same mem(1) set_delete_where by blast
  with ok show ?thesis
    by (auto simp: crew_part_def group_ok_def one_owner_def same mem(1) row_simps)
qed

lemma remove_member_ok: "crew_invariant serial d \<Longrightarrow> crew_invariant serial (remove_member gid uid now d)"
proof (cases "role_of (crew d) gid uid = Some Member")
  case True
  let ?P = "\<lambda>x. member_group x = gid \<and> member_user x = uid \<and> member_role x \<noteq> Owner"
  assume ok: "crew_invariant serial d"
  have "crew_part serial (unassignOpenMissionTasksForFormerMember gid uid now ((crew d)\<lparr>members := delete_where ?P (members (crew d))\<rparr>))"
    by (rule crew_part_fewer_members [of serial "crew d" _ ?P]) (use ok in \<open>simp_all add: invariant_parts\<close>)
  with ok True show ?thesis by (simp add: remove_member_def Let_def invariant_parts)
qed (simp add: remove_member_def Let_def)

lemma set_owner_part:
  assumes ok: "crew_part serial (crew d)" and member: "serial \<longrightarrow> role_of (crew d) gid member \<noteq> None"
  shows "crew_part serial (crew (set_owner gid member d))"
proof -
  let ?f = "\<lambda>x. x\<lparr>member_role := (if member_user x = member then Owner else Member)\<rparr>"
  let ?ms = "update_where (\<lambda>x. member_group x = gid) ?f (members (crew d))"
  have keys: "map (\<lambda>x. (member_group x, member_user x)) ?ms = map (\<lambda>x. (member_group x, member_user x)) (members (crew d))"
    by (rule map_key_update_where) simp
  have row: "\<exists>x0 \<in> set (members (crew d)). x = (if member_group x0 = gid then ?f x0 else x0)" if "x \<in> set ?ms" for x
    using that by (auto simp: update_where_mem)
  have gok: "group_ok (crew d)" and one: "one_owner (members (crew d))" using ok by (simp_all add: crew_part_def)
  have "group_ok ((crew d)\<lparr>members := ?ms\<rparr>)"
  proof -
    have "\<forall>x \<in> set ?ms. member_group x \<in> group_ids (crew d) \<and> member_user x \<in> account_ids (crew d)"
      using gok by (intro update_where_all) (auto simp: group_ok_def)
    with gok keys show ?thesis by (simp add: group_ok_def)
  qed
  moreover have "one_owner ?ms"
    unfolding one_owner_def
  proof (intro ballI impI)
    fix x y assume xy: "x \<in> set ?ms" "y \<in> set ?ms" "member_group x = member_group y \<and> member_role x = Owner \<and> member_role y = Owner"
    obtain x0 y0 where x0: "x0 \<in> set (members (crew d))" "x = (if member_group x0 = gid then ?f x0 else x0)"
      and y0: "y0 \<in> set (members (crew d))" "y = (if member_group y0 = gid then ?f y0 else y0)" using row xy by blast
    show "x = y"
    proof (cases "member_group x = gid")
      case True
      with xy x0 y0 have "member_user x0 = member" "member_user y0 = member" "member_group x0 = gid" "member_group y0 = gid"
        by (auto split: if_splits)
      with gok x0(1) y0(1) have "x0 = y0"
        by (intro key_unique [where key = "\<lambda>x. (member_group x, member_user x)"]) (auto simp: group_ok_def)
      with x0 y0 show ?thesis by simp
    next
      case False
      with xy x0 y0 one show ?thesis by (auto simp: one_owner_def split: if_splits)
    qed
  qed
  moreover have "owned_groups ((crew d)\<lparr>members := ?ms\<rparr>)" if serial
    unfolding owned_groups_def
  proof
    fix g assume g: "g \<in> set (group_rows ((crew d)\<lparr>members := ?ms\<rparr>))"
    show "\<exists>x \<in> set (members ((crew d)\<lparr>members := ?ms\<rparr>)). member_group x = group_id g \<and> member_role x = Owner"
    proof (cases "group_id g = gid")
      case True
      from member that obtain r where "role_of (crew d) gid member = Some r" by blast
      then obtain x where "x \<in> set (members (crew d))" "member_group x = gid" "member_user x = member"
        using role_of_Some by blast
      with True show ?thesis by (auto simp: set_update_where intro!: bexI [of _ "?f x"])
    next
      case False
      from ok that g obtain x where "x \<in> set (members (crew d))" "member_group x = group_id g" "member_role x = Owner"
        by (auto simp: crew_part_def owned_groups_def)
      with False show ?thesis by (auto simp: set_update_where)
    qed
  qed
  ultimately show ?thesis by (simp add: set_owner_def crew_part_def)
qed

lemma transfer_Commit:
  assumes "transfer_tx v1 v2 owner g u d = Commit a d'"
  obtains gid member where "g = Uuid gid" "u = Uuid member" "role_of (crew v2) gid member \<noteq> None" "d' = set_owner gid member d"
    "\<And>uid. owner = Some uid \<Longrightarrow> owns_group v1 gid uid" "a = Group_done"
  using assms by (auto simp: transfer_tx_def split: uuid_arg.splits if_splits option.splits)

lemma transfer_ok:
  assumes ok: "crew_invariant serial d" and run: "transfer_tx v1 v2 owner g u d = Commit a d'" and fresh: "serial \<longrightarrow> v2 = d"
  shows "crew_invariant serial d'"
  using run
proof (rule transfer_Commit)
  fix gid member
  assume m: "role_of (crew v2) gid member \<noteq> None" "d' = set_owner gid member d"
  have "crew_part serial (crew d')" unfolding m(2) by (rule set_owner_part) (use ok m(1) fresh in \<open>auto simp: invariant_parts\<close>)
  with ok show ?thesis by (simp add: invariant_parts m(2) set_owner_def)
qed

lemma delete_groups_where_ok:
  assumes ok: "crew_invariant serial d"
  shows "crew_invariant serial (delete_groups_where P d)"
proof -
  let ?gone = "group_id ` set (filter P (group_rows (crew d)))"
  have keep: "g \<in> group_id ` set (delete_where P (group_rows (crew d)))" if "g \<in> group_ids (crew d)" "g \<notin> ?gone" for g
    using that by (auto simp: delete_where_def)
  have "owned_groups (crew (delete_groups_where P d))" if "owned_groups (crew d)"
    unfolding owned_groups_def
  proof
    fix g assume g: "g \<in> set (group_rows (crew (delete_groups_where P d)))"
    then have g0: "g \<in> set (group_rows (crew d))" "\<not> P g" by (auto simp: delete_groups_where_def delete_crew_groups_def Let_def row_simps)
    with that obtain x where x: "x \<in> set (members (crew d))" "member_group x = group_id g" "member_role x = Owner"
      by (auto simp: owned_groups_def)
    have "distinct (map group_id (group_rows (crew d)))" using ok by (simp add: invariant_parts crew_part_def group_ok_def)
    with g0 have "group_id g \<notin> ?gone" by (auto dest: key_unique)
    with x show "\<exists>x \<in> set (members (crew (delete_groups_where P d))). member_group x = group_id g \<and> member_role x = Owner"
      by (intro bexI [of _ x]) (simp_all add: delete_groups_where_def delete_crew_groups_def Let_def row_simps)
  qed
  with ok keep have "crew_part serial (crew (delete_groups_where P d))"
    by (auto simp: invariant_parts crew_part_def group_ok_def one_owner_def delete_groups_where_def delete_crew_groups_def Let_def row_simps)
  moreover have "invite_part (group_ids (crew (delete_groups_where P d))) (invites (delete_groups_where P d))"
    using ok keep by (auto simp: invariant_parts invite_part_def delete_groups_where_def delete_crew_groups_def Let_def row_simps)
  ultimately show ?thesis
    using ok by (simp add: invariant_parts delete_groups_where_def delete_crew_groups_def Let_def)
qed

section \<open>Accounts under the administrator\<close>

text \<open>A crew with the same members whose accounts and groups only differ in names and states, or in missions.\<close>

lemma crew_part_same:
  assumes ok: "crew_part serial m" and same: "map account_id (accounts m') = map account_id (accounts m)"
    "map (\<lambda>g. (group_id g, group_creator g)) (group_rows m') = map (\<lambda>g. (group_id g, group_creator g)) (group_rows m)"
    "members m' = members m"
  shows "crew_part serial m'" "account_ids m' = account_ids m" "group_ids m' = group_ids m"
proof -
  have gids: "map group_id (group_rows m') = map group_id (group_rows m)"
    using arg_cong [OF same(2), of "map fst"] by (simp add: comp_def)
  show ids: "account_ids m' = account_ids m" "group_ids m' = group_ids m" using same(1) gids by (metis set_map)+
  have creators: "group_creator ` set (group_rows m') = group_creator ` set (group_rows m)"
    using arg_cong [OF arg_cong [OF same(2), of "map snd"], of set] by (simp add: comp_def)
  have "u \<in> account_ids m" if "g \<in> set (group_rows m')" "group_creator g = Some u" for g u
  proof -
    from that creators obtain g0 where "g0 \<in> set (group_rows m)" "group_creator g0 = Some u" by (metis (no_types) image_iff)
    with ok show ?thesis by (auto simp: crew_part_def group_ok_def)
  qed
  moreover have "owned_groups m'" if "owned_groups m"
  proof -
    have "\<forall>i \<in> group_ids m'. \<exists>x \<in> set (members m'). member_group x = i \<and> member_role x = Owner"
      using that unfolding ids(2) same(3) owned_groups_def by blast
    then show ?thesis by (simp add: owned_groups_def)
  qed
  ultimately show "crew_part serial m'"
    using ok same(1,3) gids ids by (auto simp: crew_part_def group_ok_def)
qed

lemma crew_same_ok:
  assumes "crew_invariant serial d" "map account_id (accounts m) = map account_id (accounts (crew d))"
    "map (\<lambda>g. (group_id g, group_creator g)) (group_rows m) = map (\<lambda>g. (group_id g, group_creator g)) (group_rows (crew d))"
    "members m = members (crew d)"
  shows "crew_invariant serial (d\<lparr>crew := m\<rparr>)"
  using assms crew_part_same [of serial "crew d" m] by (simp add: invariant_parts)

lemma status_ok:
  assumes ok: "crew_invariant serial d" and run: "status_tx self uid st now d = Commit a d'"
  shows "crew_invariant serial d'"
proof -
  let ?m = "(crew d)\<lparr>accounts := update_where (\<lambda>a. account_id a = uid) (\<lambda>a. a\<lparr>account_state := st\<rparr>) (accounts (crew d))\<rparr>"
  have ids: "map account_id (accounts ?m) = map account_id (accounts (crew d))" by (simp add: map_key_update_where)
  have "crew_invariant serial (d\<lparr>crew := ?m\<rparr>)" by (rule crew_same_ok [OF ok ids]) simp_all
  moreover have "crew_invariant serial (d\<lparr>crew := unassignOpenMissionTasksForInactiveUser uid now ?m\<rparr>)"
    by (rule crew_same_ok [OF ok]) (use ids in simp_all)
  ultimately show ?thesis
    using run delete_sessions_ok [of serial "d\<lparr>crew := unassignOpenMissionTasksForInactiveUser uid now ?m\<rparr>"]
    by (auto simp: status_tx_def Let_def split: if_splits)
qed

lemma forget_creator_rows:
  "map group_id (update_where (\<lambda>g. group_creator g = Some uid) (\<lambda>g. g\<lparr>group_creator := None\<rparr>) gs) = map group_id gs"
  "\<forall>g \<in> set (update_where (\<lambda>g. group_creator g = Some uid) (\<lambda>g. g\<lparr>group_creator := None\<rparr>) gs).
     group_creator g \<noteq> Some uid \<and> (\<forall>v. group_creator g = Some v \<longrightarrow> (\<exists>h \<in> set gs. group_creator h = Some v))"
  by (simp add: map_key_update_where) (rule update_where_all, auto)

lemma role_of_mem:
  assumes "group_ok m" "x \<in> set (members m)"
  shows "role_of m (member_group x) (member_user x) = Some (member_role x)"
proof -
  have "find (\<lambda>y. (member_group y, member_user y) = (member_group x, member_user x)) (members m) = Some x"
    using assms by (subst find_key_Some) (simp_all add: group_ok_def)
  then show ?thesis by (simp add: role_of_def)
qed

lemma delete_account_part:
  assumes ok: "crew_part serial m" and none: "\<forall>g \<in> set (group_rows m). role_of m (group_id g) uid \<noteq> Some Owner"
  shows "crew_part serial (m\<lparr>accounts := delete_where (\<lambda>a. account_id a = uid) (accounts m),
    group_rows := update_where (\<lambda>g. group_creator g = Some uid) (\<lambda>g. g\<lparr>group_creator := None\<rparr>) (group_rows m),
    members := delete_where (\<lambda>x. member_user x = uid) (members m)\<rparr>)" (is "crew_part serial ?m")
proof -
  let ?gs = "update_where (\<lambda>g. group_creator g = Some uid) (\<lambda>g. g\<lparr>group_creator := None\<rparr>) (group_rows m)"
  have gok: "group_ok m" using ok by (simp add: crew_part_def)
  have keep: "v \<in> account_ids ?m" if "v \<in> account_ids m" "v \<noteq> uid" for v
    using that by (auto simp: delete_where_def)
  have gids: "group_ids ?m = group_ids m" using forget_creator_rows(1) [of uid "group_rows m"] by (simp, metis set_map)
  have creators: "v \<in> account_ids ?m" if g: "g \<in> set ?gs" "group_creator g = Some v" for g v
  proof -
    obtain h where "h \<in> set (group_rows m)" "group_creator h = Some v" "v \<noteq> uid"
      using bspec [OF forget_creator_rows(2) g(1)] g(2) by auto
    moreover have "v \<in> account_ids m" using gok calculation(1,2) unfolding group_ok_def by blast
    ultimately show ?thesis by (intro keep)
  qed
  have users: "member_user x \<in> account_ids ?m" if "x \<in> set (members m)" "member_user x \<noteq> uid" for x
    using gok that by (intro keep) (auto simp: group_ok_def)
  have dist: "distinct (map account_id (accounts ?m))" "distinct (map (\<lambda>x. (member_group x, member_user x)) (members ?m))"
    using gok by (simp_all add: group_ok_def distinct_key_delete_where)
  have gdist: "distinct (map group_id (group_rows ?m))"
    using gok forget_creator_rows(1) [of uid "group_rows m"] by (simp add: group_ok_def)
  have groups: "member_group x \<in> group_ids ?m" if "x \<in> set (members m)" for x
    using gok that unfolding gids by (auto simp: group_ok_def)
  have left: "x \<in> set (members m) \<and> member_user x \<noteq> uid" if "x \<in> set (members ?m)" for x
    using that by (simp add: set_delete_where)
  have "group_ok ?m"
    unfolding group_ok_def
  proof (intro conjI ballI allI impI)
    fix g v assume "g \<in> set (group_rows ?m)" "group_creator g = Some v"
    then show "v \<in> account_ids ?m" by (intro creators [of g]) simp_all
  next
    fix x assume "x \<in> set (members ?m)"
    with left have x: "x \<in> set (members m)" "member_user x \<noteq> uid" by blast+
    show "member_group x \<in> group_ids ?m" by (rule groups [OF x(1)])
    show "member_user x \<in> account_ids ?m" by (rule users [OF x])
  qed (rule dist gdist)+
  moreover have "owned_groups ?m" if "owned_groups m"
    unfolding owned_groups_def
  proof
    fix g assume "g \<in> set (group_rows ?m)"
    then have "group_id g \<in> group_ids ?m" by (rule imageI)
    then have "group_id g \<in> group_ids m" by (simp only: gids)
    then obtain g0 where g0: "g0 \<in> set (group_rows m)" "group_id g0 = group_id g" by auto
    with that obtain x where x: "x \<in> set (members m)" "member_group x = group_id g" "member_role x = Owner"
      by (auto simp: owned_groups_def)
    have "role_of m (group_id g) (member_user x) = Some Owner" using role_of_mem [OF gok x(1)] x by simp
    with none g0 have "member_user x \<noteq> uid" by metis
    with x show "\<exists>x \<in> set (members ?m). member_group x = group_id g \<and> member_role x = Owner"
      by (intro bexI [of _ x]) (simp_all add: set_delete_where)
  qed
  ultimately show ?thesis using ok by (auto simp: crew_part_def one_owner_def set_delete_where)
qed

lemma remove_user_Commit:
  assumes "remove_user_tx uid d = Commit a d'"
  defines "d1 \<equiv> delete_groups_where (\<lambda>g. owns_group d (group_id g) uid) (d\<lparr>sessions := delete_where (\<lambda>s. session_user s = uid) (sessions d)\<rparr>)"
  shows "accounts (crew d') = delete_where (\<lambda>a. account_id a = uid) (accounts (crew d1))"
    "group_rows (crew d') = update_where (\<lambda>g. group_creator g = Some uid) (\<lambda>g. g\<lparr>group_creator := None\<rparr>) (group_rows (crew d1))"
    "members (crew d') = delete_where (\<lambda>x. member_user x = uid) (members (crew d1))"
    "login_tokens d' = delete_where (\<lambda>t. tok_user t = uid) (login_tokens d1)"
    "recovery_keys d' = delete_where (\<lambda>r. rec_user r = uid) (recovery_keys d1)"
    "sessions d' = delete_where (\<lambda>s. session_user s = uid) (sessions d1)" "invites d' = invites d1" "a = Group_done"
proof -
  have again: "delete_where P (delete_where P rows) = delete_where P rows" for P :: "member_row \<Rightarrow> bool" and rows
    by (simp add: delete_where_def)
  show "accounts (crew d') = delete_where (\<lambda>a. account_id a = uid) (accounts (crew d1))"
    "group_rows (crew d') = update_where (\<lambda>g. group_creator g = Some uid) (\<lambda>g. g\<lparr>group_creator := None\<rparr>) (group_rows (crew d1))"
    "members (crew d') = delete_where (\<lambda>x. member_user x = uid) (members (crew d1))"
    "login_tokens d' = delete_where (\<lambda>t. tok_user t = uid) (login_tokens d1)"
    "recovery_keys d' = delete_where (\<lambda>r. rec_user r = uid) (recovery_keys d1)"
    "sessions d' = delete_where (\<lambda>s. session_user s = uid) (sessions d1)" "invites d' = invites d1" "a = Group_done"
    using assms(1) again by (auto simp: remove_user_tx_def d1_def Let_def delete_account_def split: if_splits)
qed

lemma remove_user_ok:
  assumes ok: "crew_invariant serial d" and run: "remove_user_tx uid d = Commit a d'"
  shows "crew_invariant serial d'"
proof -
  let ?d0 = "d\<lparr>sessions := delete_where (\<lambda>s. session_user s = uid) (sessions d)\<rparr>"
  let ?P = "\<lambda>g. owns_group d (group_id g) uid"
  let ?d1 = "delete_groups_where ?P ?d0"
  let ?m = "(crew ?d1)\<lparr>accounts := delete_where (\<lambda>a. account_id a = uid) (accounts (crew ?d1)),
    group_rows := update_where (\<lambda>g. group_creator g = Some uid) (\<lambda>g. g\<lparr>group_creator := None\<rparr>) (group_rows (crew ?d1)),
    members := delete_where (\<lambda>x. member_user x = uid) (members (crew ?d1))\<rparr>"
  note rows = remove_user_Commit [OF run]
  have ok1: "crew_invariant serial ?d1" by (rule delete_groups_where_ok [OF delete_sessions_ok [OF ok]])
  have gok: "group_ok (crew d)" using ok by (simp add: invariant_parts crew_part_def)
  have "role_of (crew ?d1) (group_id g) uid \<noteq> Some Owner" if g: "g \<in> set (group_rows (crew ?d1))" for g
  proof
    assume "role_of (crew ?d1) (group_id g) uid = Some Owner"
    from role_of_Some [OF this] obtain x where "x \<in> set (members (crew ?d1))" "member_group x = group_id g" "member_user x = uid"
      "member_role x = Owner" by blast
    then have "owns_group d (group_id g) uid"
      using role_of_mem [OF gok, of x] by (auto simp: delete_groups_where_def delete_crew_groups_def Let_def set_delete_where owns_group_def)
    with g show False by (auto simp: delete_groups_where_def delete_crew_groups_def Let_def set_delete_where)
  qed
  then have part: "crew_part serial ?m"
    using ok1 by (intro delete_account_part) (simp_all add: invariant_parts)
  have same: "crew_part serial (crew d')" "account_ids (crew d') = account_ids ?m" "group_ids (crew d') = group_ids ?m"
    using crew_part_same [OF part, of "crew d'"] rows(1-3) by simp_all
  have gids: "group_ids ?m = group_ids (crew ?d1)"
    using forget_creator_rows(1) [of uid "group_rows (crew ?d1)"] by (simp, metis set_map)
  have keep: "v \<in> account_ids (crew d')" if "v \<in> account_ids (crew ?d1)" "v \<noteq> uid" for v
    using that unfolding same by (auto simp: delete_where_def)
  have parts: "token_part (account_ids (crew ?d1)) (login_tokens ?d1)" "key_part (account_ids (crew ?d1)) (recovery_keys ?d1)"
    "session_part (account_ids (crew ?d1)) (sessions ?d1)" "invite_part (group_ids (crew ?d1)) (invites ?d1)"
    using ok1 by (simp_all only: invariant_parts)
  have "token_part (account_ids (crew d')) (login_tokens d')"
    unfolding rows(4) by (rule token_part_delete [OF parts(1)]) (rule keep, use parts(1) in \<open>simp_all add: token_part_def\<close>)
  moreover have "key_part (account_ids (crew d')) (recovery_keys d')"
    unfolding rows(5) by (rule key_part_delete [OF parts(2)]) (rule keep, use parts(2) in \<open>simp_all add: key_part_def\<close>)
  moreover have "session_part (account_ids (crew d')) (sessions d')"
    unfolding rows(6) by (rule session_part_delete [OF parts(3)]) (rule keep, use parts(3) in \<open>simp_all add: session_part_def\<close>)
  moreover have "invite_part (group_ids (crew d')) (invites d')" unfolding rows(7) same(3) gids by (rule parts(4))
  ultimately show ?thesis using same(1) by (simp only: invariant_parts)
qed

section \<open>The step relation\<close>

text \<open>One committed change. With \<open>serial\<close> the statements of a transfer all see the rows it changes; without it the
  checks may have seen older ones. The last rule is everything the routes of other parts change: names,
  missions, tasks, notifications.\<close>

inductive account_step :: "bool \<Rightarrow> account_db \<Rightarrow> account_db \<Rightarrow> bool" for serial where
  step_register: "register_tx sec now fresh name d = Commit a d' \<Longrightarrow> account_step serial d d'"
| step_recover: "recover_tx sec now h d = Commit a d' \<Longrightarrow> account_step serial d d'"
| step_login: "login_tx sec now t d = Commit a d' \<Longrightarrow> account_step serial d d'"
| step_rotate: "rotate_tx sec now uid d = Commit a d' \<Longrightarrow> account_step serial d d'"
| step_sessions: "account_step serial d (d\<lparr>sessions := delete_where P (sessions d)\<rparr>)"
| step_invite: "insert_invite fresh gid h code expires mx d = Some d' \<Longrightarrow> mx \<in> {None, Some 1} \<Longrightarrow> account_step serial d d'"
| step_join: "join_tx now h uid d = Commit a d' \<Longrightarrow> account_step serial d d'"
| step_delete_invites: "account_step serial d (d\<lparr>invites := delete_where P (invites d)\<rparr>)"
| step_group: "insert_group gid name uid d = Some d' \<Longrightarrow> account_step serial d d'"
| step_remove_member: "account_step serial d (remove_member gid uid now d)"
| step_transfer: "transfer_tx v1 v2 owner g u d = Commit a d' \<Longrightarrow> serial \<longrightarrow> v2 = d \<Longrightarrow> account_step serial d d'"
| step_delete_groups: "account_step serial d (delete_groups_where P d)"
| step_status: "status_tx self uid st now d = Commit a d' \<Longrightarrow> account_step serial d d'"
| step_remove_user: "remove_user_tx uid d = Commit a d' \<Longrightarrow> account_step serial d d'"
| step_elsewhere: "map account_id (accounts m) = map account_id (accounts (crew d)) \<Longrightarrow>
     map (\<lambda>g. (group_id g, group_creator g)) (group_rows m) = map (\<lambda>g. (group_id g, group_creator g)) (group_rows (crew d)) \<Longrightarrow>
     members m = members (crew d) \<Longrightarrow> account_step serial d (d\<lparr>crew := m\<rparr>)"

lemma account_step_ok: "account_step serial d d' \<Longrightarrow> crew_invariant serial d \<Longrightarrow> crew_invariant serial d'"
  by (induction rule: account_step.induct)
    (auto intro: register_ok recover_ok login_ok rotate_ok delete_sessions_ok insert_invite_ok join_ok delete_invites_ok insert_group_ok
      remove_member_ok transfer_ok delete_groups_where_ok status_ok remove_user_ok crew_same_ok)

interpretation account_requests: stepwise "account_step serial" "crew_invariant serial" for serial
  by unfold_locales (rule account_step_ok)

end
