(* ===== verification/Account_Theorems.thy ===== *)
theory Account_Theorems
  imports Account_Steps
begin

text \<open>
  The properties of accounts and groups: owners, tokens, keys and invites in every reachable state, what a
  recovery and a used invite mean for ever after, and what the checks of a transfer do not see.
\<close>

section \<open>Reachable states\<close>

definition no_accounts :: account_db where
  "no_accounts = \<lparr>crew = \<lparr>accounts = [], group_rows = [], members = [], missions = [], tasks = [], contributions = [], notifications = []\<rparr>,
     login_tokens = [], recovery_keys = [], sessions = [], invites = []\<rparr>"

lemma no_accounts_ok [simp]: "crew_invariant serial no_accounts"
  by (simp add: no_accounts_def crew_invariant_def accounts_ok_def group_ok_def one_owner_def owned_groups_def one_token_def)

text \<open>C6. Whatever requests commit, in any order, starting from empty tables: the constraints hold, no group has two
  owners, no account two live login tokens or two live recovery keys, and a single-use invite is used once at most;
  and if the statements of every transfer see the same rows, every group has exactly one owner.\<close>

theorem accounts_reachable:
  assumes "(account_step serial)\<^sup>*\<^sup>* no_accounts d"
  shows "accounts_ok d \<and>
    (\<forall>g \<in> set (group_rows (crew d)). \<exists>\<^sub>\<le>\<^sub>1 x. x \<in> set (members (crew d)) \<and> member_group x = group_id g \<and> member_role x = Owner) \<and>
    (serial \<longrightarrow> (\<forall>g \<in> set (group_rows (crew d)). \<exists>x \<in> set (members (crew d)). member_group x = group_id g \<and> member_role x = Owner)) \<and>
    (\<forall>u. \<exists>\<^sub>\<le>\<^sub>1 t. t \<in> set (login_tokens d) \<and> tok_user t = u \<and> tok_revoked_at t = None) \<and>
    (\<forall>u. \<exists>\<^sub>\<le>\<^sub>1 r. r \<in> set (recovery_keys d) \<and> rec_user r = u \<and> rec_revoked_at r = None) \<and>
    (\<forall>i \<in> set (invites d). invite_max_uses i = Some 1 \<longrightarrow> invite_use_count i \<le> 1)"
proof -
  have inv: "crew_invariant serial d" by (rule account_requests.steps_keep [OF assms no_accounts_ok])
  then have "one_owner (members (crew d))" "one_token (login_tokens d)" "serial \<longrightarrow> owned_groups (crew d)" "accounts_ok d"
    "\<forall>i \<in> set (invites d). invite_sound i" by (simp_all add: crew_invariant_def)
  moreover have "one_key (recovery_keys d)" using inv by (simp add: invariant_parts key_part_def)
  ultimately show ?thesis
    unfolding one_owner_def one_token_def one_key_def owned_groups_def Uniq_def
    by (intro conjI) (blast | (force simp: invite_sound_def))+
qed

section \<open>A sample\<close>

definition sample_secrets :: auth_secrets where
  "sample_secrets = \<lparr>keyed_hash = (\<lambda>p s. s), pepper_key = [], random_bytes = (\<lambda>i. replicate 32 i), letter_or_number = (\<lambda>c. 65 \<le> c),
     number_text = (\<lambda>n. [])\<rparr>"

definition sample_accounts :: account_db where
  "sample_accounts = \<lparr>crew = \<lparr>
       accounts = [\<lparr>account_id = js ''u'', account_state = Active, account_display_name = js ''A'', account_verselink_name = None\<rparr>,
         \<lparr>account_id = js ''v'', account_state = Active, account_display_name = js ''B'', account_verselink_name = None\<rparr>],
       group_rows = [\<lparr>group_id = js ''g'', group_name = js ''G'', group_creator = Some (js ''u'')\<rparr>],
       members = [\<lparr>member_group = js ''g'', member_user = js ''u'', member_role = Owner\<rparr>,
         \<lparr>member_group = js ''g'', member_user = js ''v'', member_role = Member\<rparr>],
       missions = [], tasks = [], contributions = [], notifications = []\<rparr>,
     login_tokens = [\<lparr>tok_hash = js ''t'', tok_user = js ''u'', tok_used_at = None, tok_revoked_at = None\<rparr>],
     recovery_keys = [\<lparr>rec_hash = js ''r'', rec_user = js ''u'', rec_used_at = None, rec_revoked_at = None\<rparr>],
     sessions = [\<lparr>session_hash = js ''s'', session_user = js ''u'', session_expires_at = 100\<rparr>],
     invites = [\<lparr>invite_id = js ''i'', invite_group = js ''g'', invite_hash = js ''h'', invite_code = js ''c'', invite_expires_at = 100,
       invite_accepted_at = None, invite_max_uses = Some 1, invite_use_count = 0\<rparr>]\<rparr>"

lemma sample_accounts_ok: "crew_invariant serial sample_accounts"
  by (simp add: sample_accounts_def crew_invariant_def accounts_ok_def group_ok_def one_owner_def owned_groups_def one_token_def invite_sound_def)

theorem accounts_reachable_witness:
  "\<exists>d. (account_step True)\<^sup>*\<^sup>* no_accounts d \<and> length (group_rows (crew d)) = 1 \<and>
     (\<exists>x \<in> set (members (crew d)). member_group x = js ''g'' \<and> member_role x = Owner)"
proof -
  define fresh where "fresh = (\<lambda>i :: nat. if i = 0 then js ''u'' else js ''g'')"
  obtain a d where run: "register_tx sample_secrets 5 fresh (js ''Ada'') no_accounts = Commit a d"
    and rows: "group_rows (crew d) = [\<lparr>group_id = js ''g'', group_name = crew_title (js ''Ada''), group_creator = Some (js ''u'')\<rparr>]"
    by (simp add: register_tx_def no_accounts_def Let_def name_taken_def insert_login_token_def insert_recovery_key_def insert_group_def
        createDashboardSession_def fresh_def js_def)
  have "(account_step True)\<^sup>*\<^sup>* no_accounts d" using step_register [OF run] by blast
  with accounts_reachable [OF this] rows show ?thesis by (auto intro: exI [of _ d])
qed

section \<open>Recovery\<close>

text \<open>Rows that are dead stay dead while their account exists.\<close>

definition dead_token :: "jsstr \<Rightarrow> jsstr \<Rightarrow> account_db \<Rightarrow> bool" where
  "dead_token uid h d \<longleftrightarrow> (\<exists>t \<in> set (login_tokens d). tok_hash t = h \<and> tok_user t = uid \<and> tok_revoked_at t \<noteq> None)"

definition dead_key :: "jsstr \<Rightarrow> jsstr \<Rightarrow> account_db \<Rightarrow> bool" where
  "dead_key uid h d \<longleftrightarrow> (\<exists>r \<in> set (recovery_keys d). rec_hash r = h \<and> rec_user r = uid \<and> rec_revoked_at r \<noteq> None)"

text \<open>What a change may do to tokens and keys: mark them, add new ones, or lose all of one account.\<close>

definition outlives :: "account_db \<Rightarrow> account_db \<Rightarrow> bool" where
  "outlives d d' \<longleftrightarrow> (\<forall>uid h. uid \<in> account_ids (crew d') \<longrightarrow>
     (dead_token uid h d \<longrightarrow> dead_token uid h d') \<and> (dead_key uid h d \<longrightarrow> dead_key uid h d'))"

lemma outlives_same: "login_tokens d' = login_tokens d \<Longrightarrow> recovery_keys d' = recovery_keys d \<Longrightarrow> outlives d d'"
  by (simp add: outlives_def dead_token_def dead_key_def)

lemma outlives_marked:
  assumes "\<And>t. t \<in> set (login_tokens d) \<Longrightarrow> tok_revoked_at t \<noteq> None \<Longrightarrow>
      \<exists>t' \<in> set (login_tokens d'). tok_hash t' = tok_hash t \<and> tok_user t' = tok_user t \<and> tok_revoked_at t' \<noteq> None"
    and "\<And>r. r \<in> set (recovery_keys d) \<Longrightarrow> rec_revoked_at r \<noteq> None \<Longrightarrow>
      \<exists>r' \<in> set (recovery_keys d'). rec_hash r' = rec_hash r \<and> rec_user r' = rec_user r \<and> rec_revoked_at r' \<noteq> None"
  shows "outlives d d'"
  using assms unfolding outlives_def dead_token_def dead_key_def by metis

lemma update_where_keeps:
  assumes "x \<in> set rows" "Q x" "\<And>y. Q y \<Longrightarrow> Q (f y)"
  shows "\<exists>y \<in> set (update_where P f rows). Q y"
  using assms by (intro bexI [of _ "if P x then f x else x"]) (auto simp: update_where_mem)

lemma outlives_trans: "outlives d1 d2 \<Longrightarrow> outlives d2 d3 \<Longrightarrow> account_ids (crew d3) \<subseteq> account_ids (crew d2) \<Longrightarrow> outlives d1 d3"
  unfolding outlives_def by blast

lemma outlives_chain: "outlives d1 d2 \<Longrightarrow> outlives d2 d3 \<Longrightarrow> crew d3 = crew d2 \<Longrightarrow> outlives d1 d3"
  using outlives_trans [of d1 d2 d3] by simp

lemma revoke_tokens_outlives: "outlives d (revoke_tokens_of uid now d)"
  by (rule outlives_marked) (auto simp: revoke_tokens_of_def intro!: update_where_keeps)

lemma revoke_keys_outlives: "outlives d (revoke_keys_where P now d)"
  by (rule outlives_marked) (auto simp: revoke_keys_where_def intro!: update_where_keeps)

lemma outlives_more:
  "set (login_tokens d) \<subseteq> set (login_tokens d') \<Longrightarrow> set (recovery_keys d) \<subseteq> set (recovery_keys d') \<Longrightarrow> outlives d d'"
  by (rule outlives_marked) auto

lemma inserts_outlive:
  "insert_login_token h uid d = Some d' \<Longrightarrow> outlives d d' \<and> crew d' = crew d"
  "insert_recovery_key h uid d = Some d' \<Longrightarrow> outlives d d' \<and> crew d' = crew d"
  "createDashboardSession h uid now d = Some d' \<Longrightarrow> outlives d d' \<and> crew d' = crew d"
  by (intro conjI outlives_more, auto dest!: insert_login_token_Some insert_recovery_key_Some createDashboardSession_Some)+

lemma insert_group_outlives: "insert_group gid name uid d = Some d' \<Longrightarrow> outlives d d' \<and> account_ids (crew d') = account_ids (crew d)"
  by (auto dest!: insert_group_Some intro: outlives_same)

lemma recover_outlives: "recover_tx sec now h d = Commit a d' \<Longrightarrow> outlives d d'"
proof (erule recover_Commit)
  fix r :: recovery_key and acc :: account and th rh d1 d2
  assume inserts: "insert_login_token th (rec_user r) (revoke_tokens_of (rec_user r) now d) = Some d1"
    "insert_recovery_key rh (rec_user r) (revoke_keys_where (\<lambda>x. rec_hash x = h) now d1) = Some d2"
    and d': "d' = d2\<lparr>sessions := delete_where (\<lambda>s. session_user s = rec_user r) (sessions d2)\<rparr>"
  let ?k = "revoke_keys_where (\<lambda>x. rec_hash x = h) now d1"
  have crews: "crew (revoke_tokens_of (rec_user r) now d) = crew d" "crew ?k = crew d1"
    by (simp_all add: revoke_tokens_of_def revoke_keys_where_def)
  have "outlives d d1" by (rule outlives_chain [OF revoke_tokens_outlives]) (use inserts_outlive(1) [OF inserts(1)] in simp_all)
  moreover have "outlives d1 d2" by (rule outlives_chain [OF revoke_keys_outlives]) (use inserts_outlive(2) [OF inserts(2)] in simp_all)
  moreover have "outlives d2 d'" unfolding d' by (rule outlives_same) simp_all
  moreover have "crew d2 = crew d1" "crew d' = crew d2"
    using inserts_outlive(2) [OF inserts(2)] crews d' by simp_all
  ultimately show ?thesis using outlives_chain by presburger
qed

lemma register_outlives: "register_tx sec now fresh name d = Commit a d' \<Longrightarrow> outlives d d'"
proof (erule register_Commit)
  fix uid th d1 d2 d3 d4 rh sh
  assume d1: "d1 = d\<lparr>crew := (crew d)\<lparr>accounts := accounts (crew d) @
       [\<lparr>account_id = uid, account_state = Active, account_display_name = name, account_verselink_name = None\<rparr>]\<rparr>\<rparr>"
    and inserts: "insert_login_token th uid d1 = Some d2" "insert_recovery_key rh uid d2 = Some d3"
    "insert_group (fresh 1) (crew_title name) uid d3 = Some d4" "createDashboardSession sh uid now d4 = Some d'"
  have "outlives d d1" unfolding d1 by (rule outlives_same) simp_all
  then have "outlives d d2" by (rule outlives_chain) (use inserts_outlive(1) [OF inserts(1)] in simp_all)
  then have "outlives d d3" by (rule outlives_chain) (use inserts_outlive(2) [OF inserts(2)] in simp_all)
  then have "outlives d d4" by (rule outlives_trans) (use insert_group_outlives [OF inserts(3)] in simp_all)
  then show ?thesis by (rule outlives_chain) (use inserts_outlive(3) [OF inserts(4)] in simp_all)
qed

lemma login_outlives: "login_tx sec now t d = Commit a d' \<Longrightarrow> outlives d d'"
proof -
  let ?d1 = "d\<lparr>login_tokens := update_where (\<lambda>x. tok_hash x = tok_hash t) (\<lambda>x. x\<lparr>tok_used_at := Some now\<rparr>) (login_tokens d)\<rparr>"
  have "outlives d ?d1" by (rule outlives_marked) (auto intro!: update_where_keeps)
  note more = outlives_chain [OF this]
  show "login_tx sec now t d = Commit a d' \<Longrightarrow> ?thesis"
    by (auto simp: login_tx_def Let_def split: option.splits dest!: inserts_outlive(3) intro!: more)
qed

lemma rotate_outlives: "rotate_tx sec now uid d = Commit a d' \<Longrightarrow> outlives d d'"
proof -
  let ?d1 = "revoke_keys_where (\<lambda>r. rec_user r = uid \<and> rec_revoked_at r = None) now d"
  have "outlives d ?d1" by (rule revoke_keys_outlives)
  note more = outlives_chain [OF this]
  show "rotate_tx sec now uid d = Commit a d' \<Longrightarrow> ?thesis"
    by (auto simp: rotate_tx_def Let_def split: option.splits if_splits dest!: inserts_outlive(2) intro!: more)
qed

lemma remove_user_outlives:
  assumes "remove_user_tx uid d = Commit a d'"
  shows "outlives d d'"
proof -
  note rows = remove_user_Commit [OF assms]
  have rest: "login_tokens (delete_groups_where P x) = login_tokens x" "recovery_keys (delete_groups_where P x) = recovery_keys x"
    "accounts (crew (delete_groups_where P x)) = accounts (crew x)" for P x
    by (simp_all add: delete_groups_where_def delete_crew_groups_def Let_def)
  have "uid \<notin> account_ids (crew d')" by (auto simp: rows(1) set_delete_where)
  then have "v \<noteq> uid" if "v \<in> account_ids (crew d')" for v using that by blast
  then show ?thesis
    unfolding outlives_def dead_token_def dead_key_def rows(4,5) rest set_delete_where by simp blast
qed

lemma account_step_outlives: "account_step serial d d' \<Longrightarrow> outlives d d'"
proof (induction rule: account_step.induct)
  case step_transfer then show ?case by (auto elim!: transfer_Commit simp: set_owner_def intro: outlives_same)
next
  case step_status then show ?case by (auto simp: status_tx_def Let_def split: if_splits intro: outlives_same)
next
  case step_join then show ?case by (auto elim!: join_Commit intro: outlives_same)
next
  case step_invite then show ?case by (auto simp: insert_invite_def split: if_splits intro: outlives_same)
next
  case step_group then show ?case using insert_group_outlives by blast
qed (auto intro: register_outlives recover_outlives login_outlives rotate_outlives remove_user_outlives outlives_same
    simp: remove_member_def delete_groups_where_def Let_def)

text \<open>Steps during which the account exists.\<close>

definition step_with :: "bool \<Rightarrow> jsstr \<Rightarrow> account_db \<Rightarrow> account_db \<Rightarrow> bool" where
  "step_with serial uid d d' \<longleftrightarrow> account_step serial d d' \<and> uid \<in> account_ids (crew d')"

lemma steps_outlive:
  assumes "(step_with serial uid)\<^sup>*\<^sup>* d d'"
  shows "(dead_token uid h d \<longrightarrow> dead_token uid h d') \<and> (dead_key uid h d \<longrightarrow> dead_key uid h d') \<and>
    (crew_invariant serial d \<longrightarrow> crew_invariant serial d')"
  using assms
proof (induction rule: rtranclp_induct)
  case (step y z)
  then have "outlives y z" "uid \<in> account_ids (crew z)" "crew_invariant serial y \<longrightarrow> crew_invariant serial z"
    using account_step_outlives account_step_ok by (auto simp: step_with_def)
  with step.IH show ?case by (simp add: outlives_def)
qed simp

lemma dead_token_refused:
  assumes ok: "crew_invariant serial d" and dead: "dead_token uid h d"
  shows "find_login d h = None"
proof -
  obtain t where t: "t \<in> set (login_tokens d)" "tok_hash t = h" "tok_revoked_at t \<noteq> None"
    using dead by (auto simp: dead_token_def)
  have "distinct (map tok_hash (login_tokens d))" using ok by (simp add: invariant_parts token_part_def)
  from key_unique [OF this _ t(1)] t(2,3)
  have "\<forall>s \<in> set (login_tokens d). \<not> (tok_hash s = h \<and> tok_revoked_at s = None)" by metis
  then have "find (\<lambda>t. tok_hash t = h \<and> tok_revoked_at t = None) (login_tokens d) = None" by (simp add: find_none_iff)
  then show ?thesis by (simp add: find_login_def)
qed

lemma dead_key_refused:
  assumes ok: "crew_invariant serial d" and dead: "dead_key uid h d"
  shows "recover_tx sec now h d = Rollback invalid_recovery"
proof -
  obtain r where r: "r \<in> set (recovery_keys d)" "rec_hash r = h" "rec_revoked_at r \<noteq> None"
    using dead by (auto simp: dead_key_def)
  have "distinct (map rec_hash (recovery_keys d))" using ok by (simp add: invariant_parts key_part_def)
  then have "find (\<lambda>r. rec_hash r = h) (recovery_keys d) = Some r" using r by (simp add: find_key_Some)
  with r(3) show ?thesis
    by (auto simp: recover_tx_def find_recovery_def split: option.splits)
qed

lemma recover_kills:
  assumes ok: "crew_invariant serial d" and run: "recover_tx sec now h d = Commit a d1" and r: "find_recovery d h = Some (r, acc)"
  shows "dead_key (rec_user r) h d1" "t \<in> set (login_tokens d) \<Longrightarrow> tok_user t = rec_user r \<Longrightarrow> dead_token (rec_user r) (tok_hash t) d1"
    "\<forall>s \<in> set (sessions d1). session_user s \<noteq> rec_user r" "rec_user r \<in> account_ids (crew d1)"
proof -
  obtain th rh d2 d3 where inserts: "insert_login_token th (rec_user r) (revoke_tokens_of (rec_user r) now d) = Some d2"
    "insert_recovery_key rh (rec_user r) (revoke_keys_where (\<lambda>x. rec_hash x = h) now d2) = Some d3"
    and d1: "d1 = d3\<lparr>sessions := delete_where (\<lambda>s. session_user s = rec_user r) (sessions d3)\<rparr>"
    using run r by (auto elim!: recover_Commit)
  note i = insert_login_token_Some [OF inserts(1)] insert_recovery_key_Some [OF inserts(2)]
  have keys: "recovery_keys d2 = recovery_keys d" using i(1) by (simp add: revoke_tokens_of_def)
  have toks: "set (login_tokens (revoke_tokens_of (rec_user r) now d)) \<subseteq> set (login_tokens d1)"
    using i by (auto simp: d1 revoke_keys_where_def)
  have "r\<lparr>rec_revoked_at := Some now, rec_used_at := Some now\<rparr> \<in> set (recovery_keys d1)"
    using i(2) find_recovery_Some [OF r] by (auto simp: d1 revoke_keys_where_def keys set_update_where)
  then show "dead_key (rec_user r) h d1"
    unfolding dead_key_def by (rule bexI [rotated]) (use find_recovery_Some [OF r] in simp)
  show "\<forall>s \<in> set (sessions d1). session_user s \<noteq> rec_user r" by (simp add: d1 set_delete_where)
  show "rec_user r \<in> account_ids (crew d1)" using i by (simp add: d1 revoke_keys_where_def)
  assume t: "t \<in> set (login_tokens d)" "tok_user t = rec_user r"
  let ?f = "\<lambda>t. t\<lparr>tok_revoked_at := Some now\<rparr>"
  have rows: "login_tokens (revoke_tokens_of (rec_user r) now d) =
      update_where (\<lambda>t. tok_user t = rec_user r \<and> tok_revoked_at t = None) ?f (login_tokens d)"
    by (simp add: revoke_tokens_of_def)
  have "(if tok_user t = rec_user r \<and> tok_revoked_at t = None then ?f t else t) \<in> set (login_tokens d1)"
    by (rule subsetD [OF toks]) (unfold rows update_where_mem, rule bexI [OF refl t(1)])
  with t show "dead_token (rec_user r) (tok_hash t) d1" unfolding dead_token_def by (rule_tac bexI) auto
qed

text \<open>C11. A recovery supersedes every earlier secret of its account: right after it the account has no session, and as
  long as the account exists its recovery key and all its earlier login tokens are refused, whatever is
  committed in between.\<close>

theorem recovery_supersedes:
  assumes ok: "crew_invariant serial d" and run: "recover_tx sec now h d = Commit a d1" and r: "find_recovery d h = Some (r, acc)"
    and later: "(step_with serial (rec_user r))\<^sup>*\<^sup>* d1 d2"
  shows "(\<forall>s \<in> set (sessions d1). session_user s \<noteq> rec_user r) \<and>
    recover_tx sec' now' h d2 = Rollback invalid_recovery \<and>
    (\<forall>t \<in> set (login_tokens d). tok_user t = rec_user r \<longrightarrow> find_login d2 (tok_hash t) = None)"
proof -
  note kills = recover_kills [OF ok run r]
  have ok2: "crew_invariant serial d2" using steps_outlive [OF later] recover_ok [OF ok run] by blast
  have "dead_key (rec_user r) h d2" using steps_outlive [OF later] kills(1) by blast
  moreover have "find_login d2 (tok_hash t) = None" if "t \<in> set (login_tokens d)" "tok_user t = rec_user r" for t
    using dead_token_refused [OF ok2] steps_outlive [OF later] kills(2) [OF that] by blast
  ultimately show ?thesis using kills(3) dead_key_refused [OF ok2] by blast
qed

theorem recovery_supersedes_witness:
  "\<exists>a d1. recover_tx sample_secrets 5 (js ''r'') sample_accounts = Commit a d1 \<and> find_login sample_accounts (js ''t'') \<noteq> None \<and>
     find_login d1 (js ''t'') = None \<and> recover_tx sample_secrets 6 (js ''r'') d1 = Rollback invalid_recovery"
proof -
  let ?t = "generateVerseLinkToken (random_bytes sample_secrets 0)" and ?k = "generateRecoveryToken (random_bytes sample_secrets 1)"
  have new: "token_hash_of sample_secrets ?t \<noteq> js ''t''" "recovery_hash_of sample_secrets ?k \<noteq> js ''r''"
    by (simp_all add: token_hash_of_def recovery_hash_of_def hashAuthToken_def hashRecoveryToken_def sample_secrets_def js_def)
  obtain a d1 where run: "recover_tx sample_secrets 5 (js ''r'') sample_accounts = Commit a d1"
    using new by (simp add: recover_tx_def find_recovery_def find_account_def sample_accounts_def Let_def insert_login_token_def
        revoke_tokens_of_def insert_recovery_key_def revoke_keys_where_def update_where_def)
  have r: "find_recovery sample_accounts (js ''r'') = Some (\<lparr>rec_hash = js ''r'', rec_user = js ''u'', rec_used_at = None, rec_revoked_at = None\<rparr>,
      \<lparr>account_id = js ''u'', account_state = Active, account_display_name = js ''A'', account_verselink_name = None\<rparr>)"
    by (simp add: find_recovery_def find_account_def sample_accounts_def)
  have "find_login sample_accounts (js ''t'') \<noteq> None" by (simp add: find_login_def find_account_def sample_accounts_def)
  moreover have "\<exists>t \<in> set (login_tokens sample_accounts). tok_hash t = js ''t'' \<and> tok_user t = js ''u''"
    by (simp add: sample_accounts_def)
  ultimately show ?thesis
    using run recovery_supersedes [OF sample_accounts_ok run r rtranclp.rtrancl_refl, of sample_secrets 6] by auto
qed

end
