(* ===== verification/Account_Routes.thy ===== *)
theory Account_Routes
  imports Account_Theorems
begin

text \<open>
  The account and group routes as a refinement of \<open>account_step\<close>, whatever is committed between a request's
  queries; who may change a group; what an invite admits; what the checks of a transfer do not see.
\<close>

section \<open>Requests\<close>

datatype account_request =
    Register bool "obj option"
  | Recover bool "json option"
  | Login bool "obj option"
  | Logout "jsstr option"
  | Rotate "jsstr option" bool
  | Invite "jsstr option" bool parameters
  | Join "jsstr option" parameters
  | Revoke_invite "jsstr option" bool parameters
  | Create_group "jsstr option" parameters
  | Rename_group "jsstr option" parameters
  | Leave_group "jsstr option" parameters
  | Remove_member "jsstr option" bool parameters
  | Transfer_owner "jsstr option" parameters
  | Admin_transfer bool parameters
  | Delete_group "jsstr option" parameters
  | User_status "caller option" parameters
  | Remove_user "caller option" parameters

datatype account_reply = From_auth auth_result | From_groups group_answer

record account_config =
  secrets_of :: auth_secrets
  calendar_of :: calendar
  group_age :: "jsstr \<Rightarrow> int"
  uuid_reader :: "jsstr \<Rightarrow> jsstr option"

fun auth_routes :: "account_config \<Rightarrow> account_db route_env \<Rightarrow> account_request \<Rightarrow> account_db \<Rightarrow> (auth_result \<times> account_db) option" where
  "auth_routes cfg env (Register ok body) d = Some (handleRegister (secrets_of cfg) env ok body d)"
| "auth_routes cfg env (Recover ok body) d = Some (handleRecover (secrets_of cfg) env ok body d)"
| "auth_routes cfg env (Login ok body) d = Some (handleLogin (secrets_of cfg) env ok body d)"
| "auth_routes cfg env (Logout cookie) d = Some (logout (secrets_of cfg) env cookie d)"
| "auth_routes cfg env (Rotate context ok) d = Some (rotateRecoveryKey (secrets_of cfg) env context ok d)"
| "auth_routes cfg env r d = None"

fun group_routes :: "account_config \<Rightarrow> account_db route_env \<Rightarrow> account_request \<Rightarrow> account_db \<Rightarrow> (group_answer \<times> account_db) option" where
  "group_routes cfg env (Invite context admin get) d =
     Some (createInvite (secrets_of cfg) (calendar_of cfg) (group_age cfg) env context admin get d)"
| "group_routes cfg env (Join context get) d = Some (joinGroup (secrets_of cfg) env context get d)"
| "group_routes cfg env (Revoke_invite context admin get) d = Some (revokeInvite (uuid_reader cfg) env context admin get d)"
| "group_routes cfg env (Create_group context get) d = Some (createGroup env context get d)"
| "group_routes cfg env (Rename_group context get) d = Some (renameGroup (uuid_reader cfg) env context get d)"
| "group_routes cfg env (Leave_group context get) d = Some (leaveGroup (uuid_reader cfg) env context get d)"
| "group_routes cfg env (Remove_member context admin get) d = Some (removeMember (uuid_reader cfg) env context admin get d)"
| "group_routes cfg env (Transfer_owner context get) d = Some (transferOwner (uuid_reader cfg) env context get d)"
| "group_routes cfg env (Admin_transfer admin get) d = Some (adminTransferOwner (uuid_reader cfg) env admin get d)"
| "group_routes cfg env (Delete_group context get) d = Some (deleteGroup (uuid_reader cfg) env context get d)"
| "group_routes cfg env (User_status current get) d = Some (setUserStatus (uuid_reader cfg) env current get d)"
| "group_routes cfg env (Remove_user current get) d = Some (removeUser (uuid_reader cfg) env current get d)"
| "group_routes cfg env r d = None"

definition account_routes :: "account_config \<Rightarrow> account_db route_env \<Rightarrow> account_request \<Rightarrow> account_db \<Rightarrow> account_reply \<times> account_db" where
  "account_routes cfg env r d =
     (case auth_routes cfg env r d of
        Some (a, d') \<Rightarrow> (From_auth a, d')
      | None \<Rightarrow> (case group_routes cfg env r d of Some (a, d') \<Rightarrow> (From_groups a, d') | None \<Rightarrow> (From_groups Group_done, d)))"

definition auth_failed :: "auth_result \<Rightarrow> bool" where
  "auth_failed r \<longleftrightarrow> (\<exists>st e. fst r = Auth_error st e)"

definition group_failed :: "group_answer \<Rightarrow> bool" where
  "group_failed a \<longleftrightarrow> (\<exists>st e. a = Group_error st e)"

fun failed_reply :: "account_reply \<Rightarrow> bool" where
  "failed_reply (From_auth r) \<longleftrightarrow> auth_failed r"
| "failed_reply (From_groups a) \<longleftrightarrow> group_failed a"

section \<open>Routes as steps\<close>

abbreviation auth_outcome :: "account_db route_env \<Rightarrow> account_db \<Rightarrow> auth_result \<times> account_db \<Rightarrow> bool" where
  "auth_outcome env d0 \<equiv> routed_result (account_step False) env d0 auth_failed"

abbreviation group_outcome :: "account_db route_env \<Rightarrow> account_db \<Rightarrow> group_answer \<times> account_db \<Rightarrow> bool" where
  "group_outcome env d0 \<equiv> routed_result (account_step False) env d0 group_failed"

lemma answers_not_failed [simp]:
  "group_failed Group_done = False" "group_failed (Group_created a b) = False" "group_failed (Group_renamed a b) = False"
  "group_failed (Invite_created a i j c) = False"
  by (simp_all add: group_failed_def)

lemmas stepped = routed_result_step [where step = "account_step False"]

lemma uuid_results:
  "(\<And>u. group_outcome env d0 (f u)) \<Longrightarrow> group_outcome env d0 x \<Longrightarrow> group_outcome env d0 y \<Longrightarrow>
     group_outcome env d0 (case v of No_uuid \<Rightarrow> x | Bad_uuid \<Rightarrow> y | Uuid u \<Rightarrow> f u)"
  by (cases v) simp_all

lemma auth_transactions:
  "met env d0 d \<Longrightarrow> auth_outcome env d0 (run_tx (tx_ends env) e (register_tx sec now fresh name) d)"
  "met env d0 d \<Longrightarrow> auth_outcome env d0 (run_tx (tx_ends env) e (recover_tx sec now h) d)"
  "met env d0 d \<Longrightarrow> auth_outcome env d0 (run_tx (tx_ends env) e (login_tx sec now t) d)"
  "met env d0 d \<Longrightarrow> auth_outcome env d0 (run_tx (tx_ends env) e (rotate_tx sec now uid) d)"
proof -
  show "met env d0 d \<Longrightarrow> auth_outcome env d0 (run_tx (tx_ends env) e (register_tx sec now fresh name) d)"
    by (erule routed_result_tx) (rule conjI, erule step_register,
      auto simp: register_tx_def Let_def auth_failed_def split: if_splits option.splits)
  show "met env d0 d \<Longrightarrow> auth_outcome env d0 (run_tx (tx_ends env) e (recover_tx sec now h) d)"
    by (erule routed_result_tx) (rule conjI, erule step_recover, erule recover_Commit, simp add: auth_failed_def)
  show "met env d0 d \<Longrightarrow> auth_outcome env d0 (run_tx (tx_ends env) e (login_tx sec now t) d)"
    by (erule routed_result_tx) (rule conjI, erule step_login, auto simp: login_tx_def Let_def auth_failed_def split: option.splits)
  show "met env d0 d \<Longrightarrow> auth_outcome env d0 (run_tx (tx_ends env) e (rotate_tx sec now uid) d)"
    by (erule routed_result_tx) (rule conjI, erule step_rotate,
      auto simp: rotate_tx_def Let_def auth_failed_def split: if_splits option.splits)
qed

lemma auth_outcomes:
  "auth_outcome env d0 (handleRegister sec env ok form d0)" "auth_outcome env d0 (handleRecover sec env ok body d0)"
  "auth_outcome env d0 (handleLogin sec env ok form d0)" "auth_outcome env d0 (rotateRecoveryKey sec env context ok d0)"
  "auth_outcome env d0 (logout sec env cookie d0)"
proof -
  have login: "auth_outcome env d0 (case find_login d h of None \<Rightarrow> (invalid_login, d)
      | Some (t, a) \<Rightarrow> if account_state a \<noteq> Active then (invalid_login, d) else f t a)"
    if "met env d0 d" "\<And>t a. auth_outcome env d0 (f t a)" for d h f
    using that by (auto intro: routed_results split: option.splits)
  have logged_out: "auth_outcome env d0 ((Logged_out, Untouched), d\<lparr>sessions := delete_where P (sessions d)\<rparr>)" if "met env d0 d" for d P
    using that by (rule stepped [OF _ step_sessions]) (simp add: auth_failed_def)
  show "auth_outcome env d0 (handleRegister sec env ok form d0)"
    unfolding handleRegister_def Let_def by (intro routed_results auth_transactions)
  show "auth_outcome env d0 (handleRecover sec env ok body d0)"
    unfolding handleRecover_def Let_def by (intro routed_results auth_transactions)
  show "auth_outcome env d0 (handleLogin sec env ok form d0)"
    unfolding handleLogin_def Let_def by (intro routed_results(1,2,4,5) login auth_transactions routed_results(3))
  show "auth_outcome env d0 (rotateRecoveryKey sec env context ok d0)"
    unfolding rotateRecoveryKey_def Let_def by (intro routed_results auth_transactions)
  show "auth_outcome env d0 (logout sec env cookie d0)"
    unfolding logout_def Let_def by (intro routed_results(2-5) logged_out routed_results(1))
qed

lemma same_step: "account_step False d d"
  using step_elsewhere [of "crew d" d False] by simp

lemma group_transactions:
  assumes d: "met env d0 d"
  shows
  "group_outcome env d0 (run_tx (tx_ends env) e (join_tx now h uid) d)"
  "group_outcome env d0 (run_tx (tx_ends env) e (transfer_tx v1 v2 owner g u) d)"
  "group_outcome env d0 (run_tx (tx_ends env) e (\<lambda>d. if \<not> pg_text name then Throw
     else case insert_group gid name uid d of None \<Rightarrow> Throw | Some d' \<Rightarrow> Commit (Group_created gid name) d') d)"
  "group_outcome env d0 (run_tx (tx_ends env) e
     (\<lambda>d. case g of Uuid gid \<Rightarrow> Commit Group_done (remove_member gid uid now d) | _ \<Rightarrow> Throw) d)"
  "group_outcome env d0 (run_tx (tx_ends env) e (\<lambda>d. case (g, u) of
     (Uuid gid, Uuid member) \<Rightarrow> Commit Group_done (if admin \<or> owns_group d gid uid then remove_member gid member now d else d)
   | (g, u) \<Rightarrow> if g = Bad_uuid \<or> u = Bad_uuid then Throw else Commit Group_done d) d)"
  "group_outcome env d0 (run_tx (tx_ends env) e
     (\<lambda>d. case u of Uuid uid \<Rightarrow> status_tx self uid st now d | _ \<Rightarrow> Throw) d)"
  "group_outcome env d0 (run_tx (tx_ends env) e (\<lambda>d. case u of Uuid uid \<Rightarrow> remove_user_tx uid d | _ \<Rightarrow> Throw) d)"
proof -
  note tx = routed_result_tx [OF d]
  show "group_outcome env d0 (run_tx (tx_ends env) e (join_tx now h uid) d)"
    by (rule tx) (rule conjI, erule step_join, erule join_Commit, simp)
  show "group_outcome env d0 (run_tx (tx_ends env) e (transfer_tx v1 v2 owner g u) d)"
    by (rule tx) (rule conjI, erule step_transfer, simp, erule transfer_Commit, simp)
  show "group_outcome env d0 (run_tx (tx_ends env) e (\<lambda>d. if \<not> pg_text name then Throw
     else case insert_group gid name uid d of None \<Rightarrow> Throw | Some d' \<Rightarrow> Commit (Group_created gid name) d') d)"
    by (rule tx) (auto intro: step_group split: if_splits option.splits)
  show "group_outcome env d0 (run_tx (tx_ends env) e
     (\<lambda>d. case g of Uuid gid \<Rightarrow> Commit Group_done (remove_member gid uid now d) | _ \<Rightarrow> Throw) d)"
    by (rule tx) (auto intro: step_remove_member split: uuid_arg.splits)
  show "group_outcome env d0 (run_tx (tx_ends env) e (\<lambda>d. case (g, u) of
     (Uuid gid, Uuid member) \<Rightarrow> Commit Group_done (if admin \<or> owns_group d gid uid then remove_member gid member now d else d)
   | (g, u) \<Rightarrow> if g = Bad_uuid \<or> u = Bad_uuid then Throw else Commit Group_done d) d)"
    by (rule tx) (auto intro: step_remove_member same_step split: uuid_arg.splits if_splits)
  show "group_outcome env d0 (run_tx (tx_ends env) e (\<lambda>d. case u of Uuid uid \<Rightarrow> status_tx self uid st now d | _ \<Rightarrow> Throw) d)"
  proof (rule tx)
    fix a d' assume "(case u of Uuid uid \<Rightarrow> status_tx self uid st now d | _ \<Rightarrow> Throw) = Commit a d'"
    then obtain v where "status_tx self v st now d = Commit a d'" by (auto split: uuid_arg.splits)
    then show "account_step False d d' \<and> \<not> group_failed a"
      by (intro conjI, elim step_status) (auto simp: status_tx_def Let_def split: if_splits)
  qed
  show "group_outcome env d0 (run_tx (tx_ends env) e (\<lambda>d. case u of Uuid uid \<Rightarrow> remove_user_tx uid d | _ \<Rightarrow> Throw) d)"
    by (rule tx) (auto intro: step_remove_user dest: remove_user_Commit(8) split: uuid_arg.splits)
qed

lemma group_outcomes:
  "group_outcome env d0 (joinGroup sec env context get d0)" "group_outcome env d0 (revokeInvite read env context admin get d0)"
  "group_outcome env d0 (deleteGroup read env context get d0)" "group_outcome env d0 (createGroup env context get d0)"
  "group_outcome env d0 (leaveGroup read env context get d0)" "group_outcome env d0 (removeMember read env context admin get d0)"
  "group_outcome env d0 (transferOwner read env context get d0)" "group_outcome env d0 (adminTransferOwner read env admin get d0)"
  "group_outcome env d0 (setUserStatus read env current get d0)" "group_outcome env d0 (removeUser read env current get d0)"
proof -
  have single: "group_outcome env d0 (Group_done, d\<lparr>invites := delete_where P (invites d)\<rparr>)"
    "group_outcome env d0 (Group_done, delete_groups_where Q d)" if "met env d0 d" for d P Q
    using that by (auto intro: stepped [OF _ step_delete_invites] stepped [OF _ step_delete_groups])
  note flow = routed_results(2-5) uuid_results group_transactions single routed_results(1)
  show "group_outcome env d0 (joinGroup sec env context get d0)" unfolding joinGroup_def Let_def by (intro flow)
  show "group_outcome env d0 (revokeInvite read env context admin get d0)" unfolding revokeInvite_def Let_def by (intro flow)
  show "group_outcome env d0 (deleteGroup read env context get d0)" unfolding deleteGroup_def Let_def by (intro flow)
  show "group_outcome env d0 (createGroup env context get d0)" unfolding createGroup_def Let_def by (intro flow)
  show "group_outcome env d0 (leaveGroup read env context get d0)" unfolding leaveGroup_def Let_def by (intro flow)
  show "group_outcome env d0 (removeMember read env context admin get d0)" unfolding removeMember_def Let_def by (intro flow)
  show "group_outcome env d0 (transferOwner read env context get d0)" unfolding transferOwner_def Let_def by (intro flow)
  show "group_outcome env d0 (adminTransferOwner read env admin get d0)" unfolding adminTransferOwner_def Let_def by (intro flow)
  show "group_outcome env d0 (setUserStatus read env current get d0)" unfolding setUserStatus_def Let_def by (intro flow)
  show "group_outcome env d0 (removeUser read env current get d0)" unfolding removeUser_def Let_def by (intro flow)
qed

lemma createInvite_outcome: "group_outcome env d0 (createInvite sec cal age env context admin get d0)"
proof -
  have ins: "group_outcome env d0 (case insert_invite fresh gid h code expires (if b then None else Some 1) d of
      None \<Rightarrow> (group_unavailable, d) | Some d3 \<Rightarrow> (Invite_created x y z w, d3))" if "met env d0 d"
    for fresh gid h code expires b d x y z w
  proof (cases "insert_invite fresh gid h code expires (if b then None else Some 1) d")
    case (Some d3)
    show ?thesis unfolding Some option.case by (rule stepped [OF that step_invite [OF Some]]) simp_all
  qed (use that in \<open>simp add: routed_results\<close>)
  show ?thesis
    unfolding createInvite_def Let_def by (intro routed_results(1,2,4,5) ins routed_results(3))
qed

lemma renameGroup_outcome: "group_outcome env d0 (renameGroup read env context get d0)"
proof -
  have ren: "account_step False d (d\<lparr>crew := (crew d)\<lparr>group_rows :=
      update_where (\<lambda>g. group_id g = gid) (\<lambda>g. g\<lparr>group_name := name\<rparr>) (group_rows (crew d))\<rparr>\<rparr>)" for gid name d
    by (rule step_elsewhere) (simp_all add: map_key_update_where)
  show ?thesis
    unfolding renameGroup_def Let_def
    by (intro routed_results uuid_results stepped [OF _ ren]; simp)
qed

lemmas account_outcomes = auth_outcomes group_outcomes createInvite_outcome renameGroup_outcome

lemma account_routes_outcome:
  "routed (account_step False) env d0 (failed_reply (fst (account_routes cfg env r d0))) (snd (account_routes cfg env r d0))"
  by (cases r) (simp_all only: account_routes_def auth_routes.simps group_routes.simps option.case case_prod_beta fst_conv snd_conv
      failed_reply.simps account_outcomes [unfolded routed_result_def])

text \<open>C17. However account and group requests interleave with other commits, what a request makes of the tables is at most
  one committed step, so their invariant holds after it; and a request answered with an error has changed
  nothing, unless the database lost the acknowledgement of its commit.\<close>

theorem account_routes_refine:
  assumes others: "\<And>i z. (account_step False)\<^sup>*\<^sup>* z (others env i z)"
    and run: "account_routes cfg env r d0 = (reply, d')"
  shows "(account_step False)\<^sup>*\<^sup>* d0 d' \<and> (crew_invariant False d0 \<longrightarrow> crew_invariant False d') \<and>
    (failed_reply reply \<and> tx_ends env \<noteq> Tx_lost_ack \<longrightarrow> met env d0 d')"
proof -
  have "routed (account_step False) env d0 (failed_reply reply) d'" using account_routes_outcome [of env d0 cfg r] run by simp
  then show ?thesis by (rule account_requests.routed_requests [OF others])
qed

theorem account_routes_refine_witness:
  "\<exists>cfg get d. account_routes cfg undisturbed (Leave_group (Some (js ''v'')) get) sample_accounts = (From_groups Group_done, d) \<and>
     role_of (crew d) (js ''g'') (js ''v'') = None \<and> crew_invariant False d"
proof -
  define cfg where "cfg = \<lparr>secrets_of = sample_secrets, calendar_of = \<lparr>local_day = id, local_midnight = id\<rparr>, group_age = (\<lambda>g. 0),
    uuid_reader = (\<lambda>s. Some (js ''g''))\<rparr>"
  define get :: parameters where "get = (\<lambda>n. Some (replicate 36 48))"
  obtain d where d: "account_routes cfg undisturbed (Leave_group (Some (js ''v'')) get) sample_accounts = (From_groups Group_done, d)"
    "role_of (crew d) (js ''g'') (js ''v'') = None"
    by (simp add: account_routes_def leaveGroup_def cfg_def get_def group_id_pattern_def uuid_arg_of_def hex_digit_def list_all_iff
        run_tx_def remove_member_def sample_accounts_def role_of_def Let_def delete_where_def)
  have others: "(account_step False)\<^sup>*\<^sup>* z (others undisturbed i z)" for i z by simp
  from account_routes_refine [OF others d(1)] sample_accounts_ok d show ?thesis by blast
qed

section \<open>Invites\<close>

definition spent :: "jsstr \<Rightarrow> account_db \<Rightarrow> bool" where
  "spent h d \<longleftrightarrow> (\<forall>i \<in> set (invites d). invite_hash i = h \<longrightarrow> invite_accepted_at i \<noteq> None)"

text \<open>Where the invites of a later state come from.\<close>

definition invites_from :: "account_db \<Rightarrow> account_db \<Rightarrow> bool" where
  "invites_from d d' \<longleftrightarrow> (\<forall>i \<in> set (invites d'). i \<in> set (invites d) \<or>
     (\<exists>now. \<exists>j \<in> set (invites d). invite_open now j \<and> i = use_invite now j) \<or> invite_hash i \<notin> invite_hash ` set (invites d))"

lemma invites_from_same: "set (invites d') \<subseteq> set (invites d) \<Longrightarrow> invites_from d d'"
  by (auto simp: invites_from_def)

lemma marks_invites [simp]:
  "invites (revoke_tokens_of uid now d) = invites d" "invites (revoke_keys_where P now d) = invites d" "invites (set_owner gid uid d) = invites d"
  by (simp_all add: revoke_tokens_of_def revoke_keys_where_def set_owner_def)

lemma inserts_invites:
  "insert_login_token h uid d = Some d' \<Longrightarrow> invites d' = invites d" "insert_recovery_key h uid d = Some d' \<Longrightarrow> invites d' = invites d"
  "createDashboardSession h uid now d = Some d' \<Longrightarrow> invites d' = invites d" "insert_group gid name uid d = Some d' \<Longrightarrow> invites d' = invites d"
  by (auto dest!: insert_login_token_Some insert_recovery_key_Some createDashboardSession_Some insert_group_Some)

lemma step_invites_from: "account_step serial d d' \<Longrightarrow> crew_invariant serial d \<Longrightarrow> invites_from d d'"
proof (induction rule: account_step.induct)
  case (step_register sec now fresh name d a d')
  from step_register(1) have "invites d' = invites d" by (elim register_Commit) (auto dest!: inserts_invites)
  then show ?case by (simp add: invites_from_same)
next
  case (step_recover sec now h d a d')
  from step_recover(1) have "invites d' = invites d" by (elim recover_Commit) (auto dest!: inserts_invites)
  then show ?case by (simp add: invites_from_same)
next
  case (step_login sec now t d a d')
  then have "invites d' = invites d" by (auto simp: login_tx_def Let_def split: option.splits dest!: inserts_invites(3))
  then show ?case by (simp add: invites_from_same)
next
  case (step_rotate sec now uid d a d')
  then have "invites d' = invites d"
    by (auto simp: rotate_tx_def Let_def split: option.splits if_splits dest!: inserts_invites(2))
  then show ?case by (simp add: invites_from_same)
next
  case (step_invite fresh gid h code expires mx d d')
  then show ?case by (auto simp: insert_invite_def invites_from_def split: if_splits)
next
  case (step_join now h uid d a d')
  from step_join(1) show ?case
  proof (rule join_Commit)
    fix i assume i: "i \<in> set (invites d)" "invite_open now i"
      and d': "d' = d\<lparr>crew := add_member (invite_group i) uid (crew d),
            invites := update_where (\<lambda>x. invite_id x = invite_id i) (use_invite now) (invites d)\<rparr>"
    have dist: "distinct (map invite_id (invites d))" using step_join(2) by (simp add: invariant_parts invite_part_def)
    have "\<forall>x \<in> set (update_where (\<lambda>x. invite_id x = invite_id i) (use_invite now) (invites d)).
        x \<in> set (invites d) \<or> (\<exists>t. \<exists>j \<in> set (invites d). invite_open t j \<and> x = use_invite t j)"
    proof (rule update_where_all)
      fix x assume "x \<in> set (invites d)" "invite_id x = invite_id i"
      with key_unique [OF dist _ i(1)] have "x = i" by blast
      with i show "use_invite now x \<in> set (invites d) \<or>
          (\<exists>t. \<exists>j \<in> set (invites d). invite_open t j \<and> use_invite now x = use_invite t j)" by blast
    qed simp
    then show ?thesis unfolding invites_from_def d' account_db.select_convs account_db.update_convs by simp blast
  qed
next
  case (step_group gid name uid d d')
  then have "invites d' = invites d" by (blast dest: inserts_invites(4))
  then show ?case by (simp add: invites_from_same)
next
  case (step_transfer v1 v2 owner g u d a d')
  then show ?case by (auto elim!: transfer_Commit intro!: invites_from_same simp: set_owner_def)
next
  case (step_status self uid st now d a d')
  then show ?case by (auto simp: status_tx_def Let_def intro!: invites_from_same split: if_splits)
next
  case (step_remove_user uid d a d')
  from remove_user_Commit(7) [OF step_remove_user(1)] show ?case
    by (auto intro!: invites_from_same simp: delete_groups_where_def Let_def row_simps)
qed (auto intro!: invites_from_same simp: remove_member_def delete_groups_where_def Let_def row_simps)

text \<open>Steps that do not create an invite with the hash.\<close>

definition step_without :: "bool \<Rightarrow> jsstr \<Rightarrow> account_db \<Rightarrow> account_db \<Rightarrow> bool" where
  "step_without serial h d d' \<longleftrightarrow> account_step serial d d' \<and>
     (h \<in> invite_hash ` set (invites d') \<longrightarrow> h \<in> invite_hash ` set (invites d))"

lemma use_invite_hash [simp]: "invite_hash (use_invite now i) = invite_hash i"
  by (simp add: use_invite_def)

lemma spent_step:
  assumes "step_without serial h d d'" "crew_invariant serial d" "spent h d"
  shows "spent h d' \<and> crew_invariant serial d'"
proof
  have from_d: "invites_from d d'" using step_invites_from assms(1,2) by (auto simp: step_without_def)
  show "spent h d'"
    unfolding spent_def
  proof (intro ballI impI)
    fix i assume i: "i \<in> set (invites d')" "invite_hash i = h"
    with assms(1) have "h \<in> invite_hash ` set (invites d)" unfolding step_without_def by (metis imageI)
    with from_d i consider "i \<in> set (invites d)" | now j where "j \<in> set (invites d)" "invite_open now j" "i = use_invite now j"
      unfolding invites_from_def by metis
    then show "invite_accepted_at i \<noteq> None"
      using assms(3) i(2) by cases (auto simp: spent_def invite_open_def)
  qed
qed (use assms in \<open>auto simp: step_without_def intro: account_step_ok\<close>)

lemma spent_refused: "spent h d \<Longrightarrow> join_tx now h uid d = Rollback (Group_error 400 ''invite invalid or expired'')"
  by (auto simp: join_tx_def spent_def invite_open_def find_Some_iff split: option.splits)

lemma role_of_add_member:
  "role_of (add_member gid uid m) g v = (if g = gid \<and> v = uid \<and> role_of m g v = None then Some Member else role_of m g v)"
proof -
  have "(\<exists>x \<in> set (members m). member_group x = gid \<and> member_user x = uid) \<longleftrightarrow> role_of m gid uid \<noteq> None"
    by (auto simp: role_of_def find_None_iff)
  then show ?thesis by (auto simp: add_member_def role_of_def find_snoc split: option.splits)
qed

text \<open>C12. A single-use invite admits once: joining with it makes exactly the caller a member of its group, without
  changing a role anyone has, and afterwards everyone is refused, whatever is committed in between.\<close>

theorem invite_admits_once:
  assumes ok: "crew_invariant serial d" and first: "join_tx now h uid d = Commit a d1"
    and single: "\<And>i. i \<in> set (invites d) \<Longrightarrow> invite_hash i = h \<Longrightarrow> invite_max_uses i = Some 1"
    and later: "(step_without serial h)\<^sup>*\<^sup>* d1 d2"
  shows "(\<exists>i \<in> set (invites d). invite_hash i = h \<and> invite_open now i \<and>
      (\<forall>g v. role_of (crew d1) g v =
        (if g = invite_group i \<and> v = uid \<and> role_of (crew d) g v = None then Some Member else role_of (crew d) g v))) \<and>
    join_tx now' h uid' d2 = Rollback (Group_error 400 ''invite invalid or expired'')"
  using first
proof (rule join_Commit)
  fix i assume i: "i \<in> set (invites d)" "invite_hash i = h" "invite_open now i"
    and d1: "d1 = d\<lparr>crew := add_member (invite_group i) uid (crew d),
            invites := update_where (\<lambda>x. invite_id x = invite_id i) (use_invite now) (invites d)\<rparr>"
  have dist: "distinct (map invite_hash (invites d))" using ok by (simp add: invariant_parts invite_part_def)
  have "\<forall>x \<in> set (update_where (\<lambda>x. invite_id x = invite_id i) (use_invite now) (invites d)).
      invite_hash x = h \<longrightarrow> invite_accepted_at x \<noteq> None"
  proof (rule update_where_all; intro impI)
    fix x assume "x \<in> set (invites d)" "invite_hash (use_invite now x) = h"
    with single [of x] show "invite_accepted_at (use_invite now x) \<noteq> None" by (simp add: use_invite_def)
  next
    fix x assume "x \<in> set (invites d)" "invite_id x \<noteq> invite_id i" "invite_hash x = h"
    with key_unique [OF dist _ i(1)] i(2) show "invite_accepted_at x \<noteq> None" by metis
  qed
  then have "spent h d1" unfolding spent_def d1 by simp
  moreover have "crew_invariant serial d1" by (rule join_ok [OF ok first])
  moreover have "(step_without serial h)\<^sup>*\<^sup>* x y \<Longrightarrow> spent h x \<Longrightarrow> crew_invariant serial x \<Longrightarrow> spent h y \<and> crew_invariant serial y" for x y
    by (induction rule: rtranclp_induct) (auto dest: spent_step)
  ultimately have "spent h d2 \<and> crew_invariant serial d2" using later by blast
  then have "join_tx now' h uid' d2 = Rollback (Group_error 400 ''invite invalid or expired'')" using spent_refused by blast
  moreover have "role_of (crew d1) g v =
      (if g = invite_group i \<and> v = uid \<and> role_of (crew d) g v = None then Some Member else role_of (crew d) g v)" for g v
    by (simp add: d1 role_of_add_member)
  ultimately show ?thesis using i by blast
qed

theorem invite_admits_once_witness:
  "\<exists>d. join_tx 5 (js ''h'') (js ''v'') sample_accounts = Commit Group_done d \<and>
     join_tx 6 (js ''h'') (js ''u'') d = Rollback (Group_error 400 ''invite invalid or expired'')"
proof -
  obtain d where d: "join_tx 5 (js ''h'') (js ''v'') sample_accounts = Commit Group_done d"
    by (simp add: join_tx_def sample_accounts_def invite_open_def)
  have "invite_max_uses i = Some 1" if "i \<in> set (invites sample_accounts)" for i
    using that by (simp add: sample_accounts_def)
  from invite_admits_once [OF sample_accounts_ok d this rtranclp.rtrancl_refl, of 6 "js ''u''"] d show ?thesis by blast
qed

end
