(* ===== verification/Account_Safety.thy ===== *)
theory Account_Safety
  imports Account_Routes
begin

text \<open>
  Who may change a group, and what the checks of a transfer of ownership do not see.
\<close>

section \<open>Changes of a group\<close>

text \<open>A group as its members see it: its row, its memberships and its invites.\<close>

definition group_view :: "jsstr \<Rightarrow> account_db \<Rightarrow> group_row list \<times> member_row list \<times> invite list" where
  "group_view gid d = (filter (\<lambda>g. group_id g = gid) (group_rows (crew d)), filter (\<lambda>m. member_group m = gid) (members (crew d)),
     filter (\<lambda>i. invite_group i = gid) (invites d))"

text \<open>Everything of the groups but the memberships of \<open>uid\<close> and the use counts of invites.\<close>

definition groups_but :: "jsstr \<Rightarrow> account_db \<Rightarrow> group_row list \<times> member_row list \<times> jsstr list" where
  "groups_but uid d = (group_rows (crew d), filter (\<lambda>m. member_user m \<noteq> uid) (members (crew d)), map invite_id (invites d))"

lemma filter_delete_where: "(\<And>r. r \<in> set rows \<Longrightarrow> P r \<Longrightarrow> \<not> Q r) \<Longrightarrow> filter Q (delete_where P rows) = filter Q rows"
  by (auto simp: delete_where_def intro!: filter_cong)

lemma filter_update_where: "(\<And>r. P r \<Longrightarrow> Q r = Q (f r)) \<Longrightarrow> (\<And>r. P r \<Longrightarrow> \<not> Q r) \<Longrightarrow> filter Q (update_where P f rows) = filter Q rows"
  by (rule filter_update_where_other) auto

lemma remove_member_view:
  "gid' \<noteq> gid \<Longrightarrow> group_view gid' (remove_member gid uid now d) = group_view gid' d"
  "groups_but uid (remove_member gid uid now d) = groups_but uid d"
  by (auto simp: remove_member_def Let_def group_view_def groups_but_def intro!: filter_delete_where)

lemma set_owner_view: "gid' \<noteq> gid \<Longrightarrow> group_view gid' (set_owner gid uid d) = group_view gid' d"
  by (auto simp: set_owner_def group_view_def intro!: filter_update_where)

lemma set_owner_members: "members (crew (set_owner gid uid d)) = update_where (\<lambda>x. member_group x = gid)
    (\<lambda>x. x\<lparr>member_role := (if member_user x = uid then Owner else Member)\<rparr>) (members (crew d))"
  by (simp add: set_owner_def)

lemma delete_groups_view:
  assumes "\<And>g. P g \<Longrightarrow> group_id g \<noteq> gid"
  shows "group_view gid (delete_groups_where P d) = group_view gid d"
proof -
  have kept: "gid \<notin> group_id ` set (filter P (group_rows (crew d)))" using assms by auto
  show ?thesis
    unfolding group_view_def delete_groups_where_def delete_crew_groups_def Let_def prod.inject
    using kept assms by (intro conjI) (simp_all, (rule filter_delete_where, force)+)
qed

lemma insert_group_view: "insert_group g name uid d = Some d' \<Longrightarrow> gid \<noteq> g \<Longrightarrow> group_view gid d' = group_view gid d"
  by (auto dest!: insert_group_Some simp: group_view_def)

lemma insert_invite_view: "insert_invite fresh g h code e mx d = Some d' \<Longrightarrow> gid \<noteq> g \<Longrightarrow> group_view gid d' = group_view gid d"
  by (auto simp: insert_invite_def group_view_def split: if_splits)

lemma join_view: "join_tx now h uid d = Commit a d' \<Longrightarrow> groups_but uid d' = groups_but uid d"
  by (erule join_Commit) (auto simp: groups_but_def add_member_def map_key_update_where use_invite_def)

lemma invitable_owned: "invitable_group age uid False requested d = Some gid \<Longrightarrow> owns_group d gid uid"
proof -
  let ?ids = "map group_id (filter (\<lambda>g. (requested = [] \<or> group_id g = requested) \<and> owns_group d (group_id g) uid) (group_rows (crew d)))"
  assume "invitable_group age uid False requested d = Some gid"
  then obtain rest where "sort_key age ?ids = gid # rest" by (auto simp: invitable_group_def split: list.splits)
  then have "gid \<in> set (sort_key age ?ids)" by simp
  then show ?thesis by auto
qed

section \<open>Who may change a group\<close>

fun acts_as :: "account_request \<Rightarrow> (jsstr \<times> bool) option" where
  "acts_as (Invite context admin get) = map_option (\<lambda>u. (u, admin)) context"
| "acts_as (Join context get) = map_option (\<lambda>u. (u, False)) context"
| "acts_as (Revoke_invite context admin get) = map_option (\<lambda>u. (u, admin)) context"
| "acts_as (Create_group context get) = map_option (\<lambda>u. (u, False)) context"
| "acts_as (Rename_group context get) = map_option (\<lambda>u. (u, False)) context"
| "acts_as (Leave_group context get) = map_option (\<lambda>u. (u, False)) context"
| "acts_as (Remove_member context admin get) = map_option (\<lambda>u. (u, admin)) context"
| "acts_as (Transfer_owner context get) = map_option (\<lambda>u. (u, False)) context"
| "acts_as (Delete_group context get) = map_option (\<lambda>u. (u, False)) context"
| "acts_as (User_status current get) = map_option (\<lambda>c. (caller_id c, caller_admin c)) current"
| "acts_as (Remove_user current get) = map_option (\<lambda>c. (caller_id c, caller_admin c)) current"
| "acts_as r = None"

text \<open>What a request of a member who is no administrator may do to group \<open>gid\<close>.\<close>

definition allowed_change :: "jsstr \<Rightarrow> jsstr \<Rightarrow> account_db \<Rightarrow> account_db \<Rightarrow> bool" where
  "allowed_change gid uid d d' \<longleftrightarrow>
     group_view gid d' = group_view gid d \<or> owns_group d gid uid \<or> gid \<notin> group_ids (crew d) \<or> groups_but uid d' = groups_but uid d"

lemma allowed_same [simp]: "allowed_change gid uid d d"
  by (simp add: allowed_change_def)

lemma allowed_tx:
  "(\<And>a d'. body d = Commit a d' \<Longrightarrow> allowed_change gid uid d d') \<Longrightarrow> allowed_change gid uid d (snd (run_tx fault e body d))"
  by (cases "body d") (auto simp: run_tx_def)

lemma allowed_cases:
  "group_view gid d' = group_view gid d \<Longrightarrow> allowed_change gid uid d d'" "owns_group d gid uid \<Longrightarrow> allowed_change gid uid d d'"
  "groups_but uid d' = groups_but uid d \<Longrightarrow> allowed_change gid uid d d'" "gid \<notin> group_ids (crew d) \<Longrightarrow> allowed_change gid uid d d'"
  by (simp_all add: allowed_change_def)

lemma remove_allowed: "owns_group d g uid \<Longrightarrow> allowed_change gid uid d (remove_member g member now d)"
  by (cases "gid = g") (auto intro: allowed_cases remove_member_view)

lemma transfer_allowed: "transfer_tx d v (Some uid) g u d = Commit a d' \<Longrightarrow> allowed_change gid uid d d'"
proof (erule transfer_Commit)
  fix g' member assume "d' = set_owner g' member d" "\<And>u. Some uid = Some u \<Longrightarrow> owns_group d g' u"
  then show ?thesis by (cases "gid = g'") (auto intro: allowed_cases set_owner_view)
qed

lemma invite_allowed: "insert_invite fresh g h code e mx d = Some d' \<Longrightarrow> owns_group d g uid \<Longrightarrow> allowed_change gid uid d d'"
  by (cases "gid = g") (auto intro: allowed_cases insert_invite_view)

lemma group_allowed: "insert_group g name u d = Some d' \<Longrightarrow> allowed_change gid uid d d'"
proof (cases "gid = g")
  case True
  assume "insert_group g name u d = Some d'"
  with True have "gid \<notin> group_ids (crew d)" by (blast dest: insert_group_Some)
  then show ?thesis by (rule allowed_cases)
next
  case False
  assume "insert_group g name u d = Some d'"
  then show ?thesis using False by (intro allowed_cases(1) insert_group_view)
qed

lemma delete_allowed: "allowed_change gid uid d (delete_groups_where (\<lambda>g. group_id g = x \<and> owns_group d x uid) d)"
  by (cases "owns_group d gid uid") (auto intro: allowed_cases delete_groups_view)

lemma revoke_allowed: "allowed_change gid uid d (d\<lparr>invites := delete_where (\<lambda>i. invite_id i = x \<and> owns_group d (invite_group i) uid) (invites d)\<rparr>)"
proof (cases "owns_group d gid uid")
  case False
  then have "filter (\<lambda>i. invite_group i = gid) (delete_where (\<lambda>i. invite_id i = x \<and> owns_group d (invite_group i) uid) (invites d)) =
      filter (\<lambda>i. invite_group i = gid) (invites d)" by (intro filter_delete_where) auto
  then show ?thesis by (intro allowed_cases(1)) (simp add: group_view_def)
qed (rule allowed_cases)

lemma rename_allowed:
  assumes "owns_group d x uid"
  shows "allowed_change gid uid d (d\<lparr>crew := (crew d)\<lparr>group_rows := update_where (\<lambda>g. group_id g = x) (\<lambda>g. g\<lparr>group_name := name\<rparr>) (group_rows (crew d))\<rparr>\<rparr>)"
proof (cases "gid = x")
  case False
  then have "filter (\<lambda>g. group_id g = gid) (update_where (\<lambda>g. group_id g = x) (\<lambda>g. g\<lparr>group_name := name\<rparr>) (group_rows (crew d))) =
      filter (\<lambda>g. group_id g = gid) (group_rows (crew d))" by (intro filter_update_where) auto
  then show ?thesis by (intro allowed_cases(1)) (simp add: group_view_def)
qed (use assms in \<open>auto intro: allowed_cases\<close>)

lemma leave_allowed: "allowed_change gid uid d (remove_member g uid now d)"
  by (rule allowed_cases(3)) (rule remove_member_view)

lemma route_allowed:
  assumes quiet: "\<And>i z. others env i z = z"
  shows
    "allowed_change gid uid d (snd (createInvite sec cal age env (Some uid) False get d))"
    "allowed_change gid uid d (snd (joinGroup sec env (Some uid) get d))"
    "allowed_change gid uid d (snd (revokeInvite ru env (Some uid) False get d))"
    "allowed_change gid uid d (snd (createGroup env (Some uid) get d))"
    "allowed_change gid uid d (snd (renameGroup ru env (Some uid) get d))"
    "allowed_change gid uid d (snd (leaveGroup ru env (Some uid) get d))"
    "allowed_change gid uid d (snd (removeMember ru env (Some uid) False get d))"
    "allowed_change gid uid d (snd (transferOwner ru env (Some uid) get d))"
    "allowed_change gid uid d (snd (deleteGroup ru env (Some uid) get d))"
proof -
  show "allowed_change gid uid d (snd (createInvite sec cal age env (Some uid) False get d))"
    by (auto simp: createInvite_def Let_def quiet dest: invitable_owned intro: invite_allowed split: option.splits)
  show "allowed_change gid uid d (snd (joinGroup sec env (Some uid) get d))"
    by (auto simp: joinGroup_def Let_def quiet intro!: allowed_tx intro: allowed_cases(3) join_view)
  show "allowed_change gid uid d (snd (revokeInvite ru env (Some uid) False get d))"
    by (auto simp: revokeInvite_def Let_def quiet intro: revoke_allowed split: uuid_arg.splits)
  show "allowed_change gid uid d (snd (createGroup env (Some uid) get d))"
    by (auto simp: createGroup_def Let_def quiet intro!: allowed_tx intro: group_allowed split: option.splits if_splits)
  show "allowed_change gid uid d (snd (renameGroup ru env (Some uid) get d))"
    by (auto simp: renameGroup_def Let_def quiet intro: rename_allowed split: uuid_arg.splits option.splits)
  show "allowed_change gid uid d (snd (leaveGroup ru env (Some uid) get d))"
    by (auto simp: leaveGroup_def Let_def quiet intro!: allowed_tx intro: leave_allowed split: uuid_arg.splits)
  show "allowed_change gid uid d (snd (removeMember ru env (Some uid) False get d))"
    by (auto simp: removeMember_def Let_def quiet intro!: allowed_tx intro: remove_allowed split: uuid_arg.splits if_splits)
  show "allowed_change gid uid d (snd (transferOwner ru env (Some uid) get d))"
    by (auto simp: transferOwner_def Let_def quiet intro!: allowed_tx elim: transfer_allowed)
  show "allowed_change gid uid d (snd (deleteGroup ru env (Some uid) get d))"
    by (auto simp: deleteGroup_def Let_def quiet intro: delete_allowed split: uuid_arg.splits)
qed



section \<open>A transfer to a member who leaves\<close>

text \<open>The checks of a transfer see the rows of an earlier moment: if the member leaves between the check and the
  update, the transfer still commits, and the group is left without an owner.\<close>

theorem transfer_leaves_no_owner:
  assumes ok: "group_ok (crew d)" and member: "role_of (crew d) gid member = Some Member"
    and owner: "\<And>uid. owner = Some uid \<Longrightarrow> owns_group d gid uid"
  shows "\<exists>d'. transfer_tx d d owner (Uuid gid) (Uuid member) (remove_member gid member now d) = Commit Group_done d' \<and>
    gid \<in> group_ids (crew d') \<and> (\<forall>x \<in> set (members (crew d')). member_group x = gid \<longrightarrow> member_role x = Member)"
proof -
  let ?d = "remove_member gid member now d"
  have rows: "members (crew ?d) = delete_where (\<lambda>x. member_group x = gid \<and> member_user x = member \<and> member_role x \<noteq> Owner) (members (crew d))"
    "group_rows (crew ?d) = group_rows (crew d)"
    using member by (simp_all add: remove_member_def Let_def)
  have "\<not> (member_group x = gid \<and> member_user x = member)" if "x \<in> set (members (crew ?d))" for x
    using that role_of_mem [OF ok, of x] member by (auto simp: rows set_delete_where)
  then have "\<forall>x \<in> set (members (crew (set_owner gid member ?d))). member_group x = gid \<longrightarrow> member_role x = Member"
    unfolding set_owner_members by (intro update_where_all) auto
  moreover have "transfer_tx d d owner (Uuid gid) (Uuid member) ?d = Commit Group_done (set_owner gid member ?d)"
    using member owner by (auto simp: transfer_tx_def split: option.splits)
  moreover have "gid \<in> group_ids (crew (set_owner gid member ?d))"
    using role_of_exists [OF ok, of gid member] member by (simp add: set_owner_def rows)
  ultimately show ?thesis by blast
qed

theorem transfer_leaves_no_owner_witness:
  "\<exists>d. transfer_tx sample_accounts sample_accounts (Some (js ''u'')) (Uuid (js ''g'')) (Uuid (js ''v''))
       (remove_member (js ''g'') (js ''v'') 5 sample_accounts) = Commit Group_done d \<and> js ''g'' \<in> group_ids (crew d) \<and>
     (\<forall>x \<in> set (members (crew d)). member_group x = js ''g'' \<longrightarrow> member_role x = Member)"
proof -
  have ok: "group_ok (crew sample_accounts)" using sample_accounts_ok by (simp add: crew_invariant_def accounts_ok_def)
  have role: "role_of (crew sample_accounts) (js ''g'') (js ''v'') = Some Member" by (simp add: sample_accounts_def role_of_def js_def)
  show ?thesis
    by (rule transfer_leaves_no_owner [OF ok role]) (simp add: sample_accounts_def owns_group_def role_of_def js_def)
qed

end
