(* ===== verification/Telemetry_View.thy ===== *)
theory Telemetry_View
  imports Session
begin

text \<open>
  The private presence history as the profile page shows it (\<open>src/public/js/telemetry-history-view.js\<close>):
  repeated snapshots are grouped, groups are put under their days, everything is rendered as HTML text. Texts
  that may be \<open>null\<close> are options. How the browser reads and writes dates is a parameter (\<open>view_env\<close>).
  The grouping is two nested loops over indices; they are \<open>partial_function\<close>s, so that they return is proved.
\<close>

section \<open>Entries\<close>

record view_entry =
  view_id :: jsstr
  view_device :: jsstr
  view_device_name :: "jsstr option"
  view_location_raw :: "jsstr option"
  view_jurisdiction :: "jsstr option"
  view_ship_name :: "jsstr option"
  view_observed_at :: "jsstr option"
  view_received_at :: "jsstr option"

text \<open>\<open>read_date\<close> is \<open>new Date(value).getTime()\<close>, \<open>None\<close> for \<open>NaN\<close>.\<close>

record view_env =
  read_date :: "jsstr \<Rightarrow> int option"
  iso_text :: "int \<Rightarrow> jsstr"
  local_text :: "int \<Rightarrow> jsstr"
  local_date :: "int \<Rightarrow> jsstr"
  full_date :: "int \<Rightarrow> jsstr"

definition escape_char :: "nat \<Rightarrow> jsstr" where
  "escape_char c =
     (if c = 38 then js ''&amp;'' else if c = 60 then js ''&lt;'' else if c = 62 then js ''&gt;''
      else if c = 34 then js ''&quot;'' else if c = 39 then js ''&#39;'' else [c])"

definition escapeHtml :: "jsstr \<Rightarrow> jsstr" where
  "escapeHtml s = concat (map escape_char s)"

definition displayValue :: "jsstr option \<Rightarrow> jsstr" where
  "displayValue v = (case v of None \<Rightarrow> [] | Some s \<Rightarrow> s)"

definition sameSnapshotState :: "view_entry \<Rightarrow> view_entry \<Rightarrow> bool" where
  "sameSnapshotState l r \<longleftrightarrow> view_device l = view_device r \<and>
     displayValue (view_device_name l) = displayValue (view_device_name r) \<and>
     displayValue (view_location_raw l) = displayValue (view_location_raw r) \<and>
     displayValue (view_jurisdiction l) = displayValue (view_jurisdiction r) \<and>
     displayValue (view_ship_name l) = displayValue (view_ship_name r)"

definition parsedDate :: "view_env \<Rightarrow> jsstr option \<Rightarrow> int option" where
  "parsedDate env v = (case v of None \<Rightarrow> None | Some s \<Rightarrow> if s = [] then None else read_date env s)"

definition formatTime :: "view_env \<Rightarrow> jsstr option \<Rightarrow> jsstr" where
  "formatTime env v = (case parsedDate env v of Some t \<Rightarrow> local_text env t | None \<Rightarrow> js ''Unknown'')"

definition dateSectionKey :: "view_env \<Rightarrow> view_entry \<Rightarrow> jsstr" where
  "dateSectionKey env e = (case parsedDate env (view_received_at e) of Some t \<Rightarrow> local_date env t | None \<Rightarrow> js ''Unknown date'')"

section \<open>Grouping\<close>

definition appendTelemetryHistoryPage :: "view_entry list \<Rightarrow> view_entry list \<Rightarrow> view_entry list" where
  "appendTelemetryHistoryPage existing page = existing @ page"

record history_group =
  records :: "view_entry list"
  olderNeighbor :: "view_entry option"

definition same_group :: "view_env \<Rightarrow> view_entry \<Rightarrow> view_entry \<Rightarrow> bool" where
  "same_group env l r \<longleftrightarrow> sameSnapshotState l r \<and> dateSectionKey env l = dateSectionKey env r"

definition entry_at :: "view_entry list \<Rightarrow> nat \<Rightarrow> view_entry option" where
  "entry_at entries i = (if i < length entries then Some (entries ! i) else None)"

text \<open>The inner loop collects the entries of a group, the outer one the groups.\<close>

partial_function (option) group_while ::
    "view_env \<Rightarrow> view_entry \<Rightarrow> view_entry list \<Rightarrow> nat \<Rightarrow> view_entry list \<Rightarrow> (nat \<times> view_entry list) option" where
  "group_while env first entries next found =
     (if next < length entries \<and> same_group env first (entries ! next)
      then group_while env first entries (next + 1) (found @ [entries ! next])
      else Some (next, found))"

partial_function (option) group_for ::
    "view_env \<Rightarrow> view_entry list \<Rightarrow> nat \<Rightarrow> history_group list \<Rightarrow> history_group list option" where
  "group_for env entries index groups =
     (if index < length entries
      then Option.bind (group_while env (entries ! index) entries (index + 1) [entries ! index])
        (\<lambda>p. group_for env entries (fst p) (groups @ [\<lparr>records = snd p, olderNeighbor = entry_at entries (fst p)\<rparr>]))
      else Some groups)"

definition groupTelemetryHistory :: "view_env \<Rightarrow> view_entry list \<Rightarrow> history_group list option" where
  "groupTelemetryHistory env entries = group_for env entries 0 []"

section \<open>Texts\<close>

definition locationText :: "view_entry \<Rightarrow> jsstr" where
  "locationText e =
     (let raw = displayValue (view_location_raw e);
          location = (if raw \<noteq> [] then js ''Location ID (unresolved): '' @ raw else js ''Unknown location'');
          jurisdiction = displayValue (view_jurisdiction e) in
      if jurisdiction \<noteq> [] then location @ [32, 183, 32] @ jurisdiction else location)"

definition shipText :: "view_entry \<Rightarrow> jsstr" where
  "shipText e = (let s = displayValue (view_ship_name e) in if s = [] then js ''Unknown ship'' else s)"

definition name_of :: "view_entry \<Rightarrow> jsstr" where
  "name_of e = js_trim (displayValue (view_device_name e))"

definition short_id :: "view_entry \<Rightarrow> jsstr" where
  "short_id e = take 8 (filter (\<lambda>c. c \<noteq> 45) (view_device e))"

definition device_label :: "view_entry list \<Rightarrow> view_entry \<Rightarrow> jsstr" where
  "device_label entries e =
     (if name_of e = []
      then (if short_id e \<noteq> [] then js ''Unknown device '' @ [183, 32] @ short_id e else js ''Unknown device'')
      else if 1 < length (remdups (map view_device (filter (\<lambda>x. name_of x = name_of e) entries)))
      then name_of e @ [32, 183, 32] @ short_id e
      else name_of e)"

text \<open>The map of labels: the last entry with an id decides.\<close>

definition deviceLabels :: "view_entry list \<Rightarrow> jsstr \<Rightarrow> jsstr option" where
  "deviceLabels entries = map_of (rev (map (\<lambda>e. (view_id e, device_label entries e)) entries))"

definition changeLabel :: "view_entry \<Rightarrow> view_entry option \<Rightarrow> string" where
  "changeLabel e older =
     (case older of
        None \<Rightarrow> ''Snapshot''
      | Some old \<Rightarrow>
          let moved = (displayValue (view_location_raw e) \<noteq> displayValue (view_location_raw old) \<or>
                displayValue (view_jurisdiction e) \<noteq> displayValue (view_jurisdiction old));
              ship = displayValue (view_ship_name e) \<noteq> displayValue (view_ship_name old) in
          if moved \<and> ship then ''Location and ship changed''
          else if moved then ''Location changed'' else if ship then ''Ship changed'' else ''Snapshot'')"

section \<open>Markup\<close>

definition time_element :: "view_env \<Rightarrow> jsstr option \<Rightarrow> jsstr" where
  \<open>time_element env v =
     (case parsedDate env v of
        Some t \<Rightarrow> js ''<time datetime="'' @ escapeHtml (iso_text env t) @ js ''">'' @ escapeHtml (formatTime env v) @ js ''</time>''
      | None \<Rightarrow> js ''<span>Unknown</span>'')\<close>

definition timeMarkup :: "view_env \<Rightarrow> string \<Rightarrow> jsstr option \<Rightarrow> jsstr" where
  \<open>timeMarkup env label v =
     js ''<span class="profile-telemetry-history-time"><span>'' @ js label @ js ''</span>'' @ time_element env v @ js ''</span>''\<close>

definition timeRangeMarkup :: "view_env \<Rightarrow> string \<Rightarrow> jsstr option \<Rightarrow> jsstr option \<Rightarrow> jsstr" where
  \<open>timeRangeMarkup env label first final =
     (let first_markup = time_element env first; last_markup = time_element env final;
          range = (if first \<noteq> None \<and> first = final then first_markup else first_markup @ [32, 8211, 32] @ last_markup) in
      js ''<span class="profile-telemetry-history-time"><span>'' @ js label @ js ''</span><span>'' @ range @ js ''</span></span>'')\<close>

definition snapshotMarkup :: "view_env \<Rightarrow> view_entry \<Rightarrow> jsstr \<Rightarrow> jsstr \<Rightarrow> jsstr" where
  \<open>snapshotMarkup env e label device =
     js ''<li class="profile-telemetry-history-snapshot" data-history-id="'' @ escapeHtml (view_id e) @ js ''">\<newline>'' @
     js ''  <span class="profile-telemetry-history-change">'' @ escapeHtml label @ js ''</span>\<newline>'' @
     js ''  <span class="profile-telemetry-history-location">'' @ escapeHtml (locationText e) @ js ''</span>\<newline>'' @
     js ''  <span class="profile-telemetry-history-ship">'' @ escapeHtml (shipText e) @ js ''</span>\<newline>'' @
     js ''  <span class="profile-telemetry-history-device">Device: '' @ escapeHtml device @ js ''</span>\<newline>'' @
     js ''  <span class="profile-telemetry-history-times">'' @ timeMarkup env ''Observed (game)'' (view_observed_at e) @
     timeMarkup env ''Received (server)'' (view_received_at e) @ js ''</span>\<newline>'' @ js ''</li>''\<close>

text \<open>The label of every snapshot of a group compares it with the next older one.\<close>

definition older_of :: "history_group \<Rightarrow> nat \<Rightarrow> view_entry option" where
  "older_of g i = (if i + 1 < length (records g) then Some (records g ! (i + 1)) else olderNeighbor g)"

definition groupMarkup :: "view_env \<Rightarrow> history_group \<Rightarrow> jsstr \<Rightarrow> jsstr" where
  \<open>groupMarkup env g device =
     (let newest = hd (records g); size = length (records g); edge = List.last (records g);
          label = (if 1 < size then decimal size @ js '' repeated snapshots'' else js (changeLabel newest (olderNeighbor g))) in
      if size = 1
      then js ''<article class="profile-telemetry-history-entry" data-history-group-size="1"><ol>'' @
           snapshotMarkup env newest label device @ js ''</ol></article>''
      else js ''<details class="profile-telemetry-history-entry" data-history-group-size="'' @ decimal size @ js ''">\<newline>'' @
           js ''    <summary><span class="profile-telemetry-history-change">'' @ escapeHtml label @ js ''</span><span>'' @
           escapeHtml (locationText newest) @ js ''</span><span>'' @ escapeHtml (shipText newest) @ js ''</span><span>Device: '' @
           escapeHtml device @ js ''</span><span class="profile-telemetry-history-times">'' @
           timeRangeMarkup env ''Observed (game)'' (view_observed_at newest) (view_observed_at edge) @
           timeRangeMarkup env ''Received (server)'' (view_received_at newest) (view_received_at edge) @ js ''</span></summary>\<newline>'' @
           js ''    <ol>'' @
           concat (map (\<lambda>i. snapshotMarkup env (records g ! i) (js (changeLabel (records g ! i) (older_of g i))) device) [0..<size]) @
           js ''</ol>\<newline>'' @ js ''  </details>'')\<close>

section \<open>Days\<close>

record day_section =
  section_key :: jsstr
  section_date :: "jsstr option"
  section_groups :: "history_group list"

definition add_group :: "view_env \<Rightarrow> day_section list \<Rightarrow> history_group \<Rightarrow> day_section list" where
  "add_group env sections g =
     (let e = hd (records g); key = dateSectionKey env e in
      if sections = [] \<or> section_key (List.last sections) \<noteq> key
      then sections @ [\<lparr>section_key = key, section_date = view_received_at e, section_groups = [g]\<rparr>]
      else butlast sections @ [(List.last sections)\<lparr>section_groups := section_groups (List.last sections) @ [g]\<rparr>])"

definition day_sections :: "view_env \<Rightarrow> history_group list \<Rightarrow> day_section list" where
  "day_sections env groups = foldl (add_group env) [] groups"

definition sectionMarkup :: "view_env \<Rightarrow> (jsstr \<Rightarrow> jsstr option) \<Rightarrow> day_section \<Rightarrow> jsstr" where
  \<open>sectionMarkup env labels sec =
     (let heading = (case parsedDate env (section_date sec) of
            Some t \<Rightarrow> js ''<time datetime="'' @ escapeHtml (iso_text env t) @ js ''">'' @ escapeHtml (full_date env t) @ js ''</time>''
          | None \<Rightarrow> js ''Unknown date'') in
      js ''<section class="profile-telemetry-history-day"><h3>'' @ heading @ js ''</h3><ol>'' @
      concat (map (\<lambda>g. js ''<li>'' @ groupMarkup env g
          (case labels (view_id (hd (records g))) of None \<Rightarrow> js ''Unknown device'' | Some l \<Rightarrow> if l = [] then js ''Unknown device'' else l) @
          js ''</li>'') (section_groups sec)) @
      js ''</ol></section>'')\<close>

definition renderTelemetryHistory :: "view_env \<Rightarrow> view_entry list \<Rightarrow> jsstr option" where
  \<open>renderTelemetryHistory env entries =
     (if entries = []
      then Some (js ''<p class="profile-note profile-telemetry-history-empty">No presence history has been recorded yet.</p>'')
      else map_option (\<lambda>groups.
        js ''<div class="profile-telemetry-history-list" aria-label="Private presence history">'' @
        concat (map (sectionMarkup env (deviceLabels entries)) (day_sections env groups)) @ js ''</div>'')
        (groupTelemetryHistory env entries))\<close>

section \<open>Grouping, proved\<close>

text \<open>What the loops compute: the runs of entries like the first of each.\<close>

function runs :: "('a \<Rightarrow> 'a \<Rightarrow> bool) \<Rightarrow> 'a list \<Rightarrow> 'a list list" where
  "runs R [] = []"
| "runs R (x # xs) = (x # takeWhile (R x) xs) # runs R (dropWhile (R x) xs)"
  by pat_completeness auto
termination by (relation "measure (length \<circ> snd)") (auto simp: length_dropWhile_le less_Suc_eq_le)

lemma group_while_returns:
  assumes "next \<le> length entries"
  shows "group_while env first entries next found =
    Some (next + length (takeWhile (same_group env first) (drop next entries)), found @ takeWhile (same_group env first) (drop next entries))"
  using assms
proof (induction "length entries - next" arbitrary: "next" found)
  case 0
  then show ?case by (subst group_while.simps) simp
next
  case (Suc n)
  then have lt: "next < length entries" by simp
  then have "drop next entries = entries ! next # drop (next + 1) entries" by (simp add: Cons_nth_drop_Suc)
  with Suc lt show ?case by (subst group_while.simps) simp
qed

lemma runs_concat [simp]: "concat (runs R xs) = xs"
  by (induction R xs rule: runs.induct) simp_all

end
