(* ===== verification/Telemetry_View_Proofs.thy ===== *)
theory Telemetry_View_Proofs
  imports Telemetry_View
begin

text \<open>
  What the view of the presence history promises: the loops return, every entry is shown once, in order, in a
  group of equal snapshots of one day, and no text of an entry is read as markup.
\<close>

section \<open>Groups\<close>

fun with_neighbours :: "view_entry list list \<Rightarrow> history_group list" where
  "with_neighbours [] = []"
| "with_neighbours [r] = [\<lparr>records = r, olderNeighbor = None\<rparr>]"
| "with_neighbours (r # q # rs) = \<lparr>records = r, olderNeighbor = Some (hd q)\<rparr> # with_neighbours (q # rs)"

lemma runs_Nil_iff [simp]: "runs R xs = [] \<longleftrightarrow> xs = []"
  by (cases xs) simp_all

lemma hd_runs: "xs \<noteq> [] \<Longrightarrow> hd (hd (runs R xs)) = hd xs"
  by (cases xs) simp_all

lemma with_neighbours_Cons:
  "with_neighbours (r # runs R xs) =
     \<lparr>records = r, olderNeighbor = (if xs = [] then None else Some (hd xs))\<rparr> # with_neighbours (runs R xs)"
  by (cases xs) simp_all

lemma group_for_returns:
  assumes "index \<le> length entries"
  shows "group_for env entries index groups = Some (groups @ with_neighbours (runs (same_group env) (drop index entries)))"
  using assms
proof (induction "length entries - index" arbitrary: index groups rule: less_induct)
  case less
  show ?case
  proof (cases "index < length entries")
    case True
    let ?x = "entries ! index" and ?rest = "drop (Suc index) entries"
    let ?tw = "takeWhile (same_group env ?x) ?rest" and ?dw = "dropWhile (same_group env ?x) ?rest"
    have split: "drop index entries = ?x # ?rest" using True by (simp add: Cons_nth_drop_Suc)
    have fits: "Suc (index + length ?tw) \<le> length entries" using True length_takeWhile_le [of "same_group env ?x" ?rest] by simp
    have tail: "drop (Suc (index + length ?tw)) entries = ?dw"
      using dropWhile_eq_drop [of "same_group env ?x" ?rest] by (simp add: add.commute)
    have "entry_at entries (Suc (index + length ?tw)) = (if ?dw = [] then None else Some (hd ?dw))"
      using fits tail unfolding entry_at_def
      by (metis (no_types, lifting) drop_eq_Nil hd_drop_conv_nth linorder_not_less)
    then show ?thesis
      using True fits less(1) [of "Suc (index + length ?tw)"]
      by (subst group_for.simps) (simp add: group_while_returns split tail with_neighbours_Cons)
  next
    case False
    then show ?thesis using less(2) by (subst group_for.simps) simp
  qed
qed

lemma groups_return: "groupTelemetryHistory env entries = Some (with_neighbours (runs (same_group env) entries))"
  by (simp add: groupTelemetryHistory_def group_for_returns)

lemma records_with_neighbours [simp]: "map records (with_neighbours rs) = rs"
  by (induction rs rule: with_neighbours.induct) simp_all

lemma with_neighbours_linked:
  "successively P rs \<Longrightarrow> successively (\<lambda>g h. P (records g) (records h) \<and> olderNeighbor g = Some (hd (records h))) (with_neighbours rs)"
proof (induction rs rule: with_neighbours.induct)
  case (3 r q rs)
  then show ?case by (cases rs) simp_all
qed simp_all

lemma with_neighbours_last: "rs \<noteq> [] \<Longrightarrow> olderNeighbor (last (with_neighbours rs)) = None \<and> with_neighbours rs \<noteq> []"
  by (induction rs rule: with_neighbours.induct) simp_all

lemma runs_apart: "successively (\<lambda>r q. \<not> R (hd r) (hd q)) (runs R xs)"
proof (induction R xs rule: runs.induct)
  case (2 R x xs)
  show ?case
  proof (cases "dropWhile (R x) xs")
    case Nil
    then show ?thesis by (simp only: runs.simps successively.simps)
  next
    case (Cons y ys)
    have "\<not> R x (hd (dropWhile (R x) xs))" by (rule hd_dropWhile) (simp add: Cons)
    with 2 show ?thesis by (simp only: Cons runs.simps successively.simps list.sel) simp
  qed
qed simp

lemma runs_uniform: "r \<in> set (runs R xs) \<Longrightarrow> r \<noteq> [] \<and> (\<forall>y \<in> set (tl r). R (hd r) y)"
  by (induction R xs rule: runs.induct) (auto dest: set_takeWhileD)

lemma same_group_sym: "same_group env a b \<Longrightarrow> same_group env a c \<Longrightarrow> same_group env b c"
  by (simp add: same_group_def sameSnapshotState_def)

lemma same_group_refl [simp]: "same_group env a a"
  by (simp add: same_group_def sameSnapshotState_def)

lemma runs_same:
  assumes "r \<in> set (runs (same_group env) xs)"
  shows "r \<noteq> [] \<and> (\<forall>y \<in> set r. same_group env (hd r) y)"
  using runs_uniform [OF assms] by (cases r) auto

section \<open>Days\<close>

definition sections_ok :: "view_env \<Rightarrow> day_section list \<Rightarrow> history_group list \<Rightarrow> bool" where
  "sections_ok env sections groups \<longleftrightarrow> concat (map section_groups sections) = groups \<and>
     (\<forall>s \<in> set sections. section_groups s \<noteq> [] \<and> (\<forall>g \<in> set (section_groups s). dateSectionKey env (hd (records g)) = section_key s)) \<and>
     successively (\<lambda>s t. section_key s \<noteq> section_key t) sections"

lemma add_group_ok:
  assumes "sections_ok env sections groups"
  shows "sections_ok env (add_group env sections g) (groups @ [g])"
proof (cases "sections = [] \<or> section_key (last sections) \<noteq> dateSectionKey env (hd (records g))")
  case True
  with assms show ?thesis by (auto simp: sections_ok_def add_group_def Let_def successively_append_iff)
next
  case False
  then obtain init final where sections: "sections = init @ [final]" by (cases sections rule: rev_cases) auto
  with assms False show ?thesis
    by (auto simp: sections_ok_def add_group_def Let_def successively_append_iff)
qed

lemma day_sections_ok: "sections_ok env (day_sections env groups) groups"
proof (induction groups rule: rev_induct)
  case Nil
  then show ?case by (simp add: day_sections_def sections_ok_def)
next
  case (snoc g groups)
  then show ?case using add_group_ok by (simp add: day_sections_def)
qed

text \<open>C32. The grouping returns, and shows every entry exactly once and in order: its groups are the longest runs
  of equal snapshots of one day, each knows the entry after it, and the days are the longest runs of groups
  received on one day.\<close>

theorem history_view_complete:
  "\<exists>groups. groupTelemetryHistory env entries = Some groups \<and> concat (map records groups) = entries \<and>
     (\<forall>g \<in> set groups. records g \<noteq> [] \<and> (\<forall>e \<in> set (records g). same_group env (hd (records g)) e)) \<and>
     successively (\<lambda>g h. \<not> same_group env (hd (records g)) (hd (records h)) \<and> olderNeighbor g = Some (hd (records h))) groups \<and>
     (groups \<noteq> [] \<longrightarrow> olderNeighbor (last groups) = None) \<and>
     concat (map section_groups (day_sections env groups)) = groups \<and>
     (\<forall>s \<in> set (day_sections env groups). \<forall>g \<in> set (section_groups s). \<forall>e \<in> set (records g). dateSectionKey env e = section_key s) \<and>
     successively (\<lambda>s t. section_key s \<noteq> section_key t) (day_sections env groups)"
proof -
  let ?rs = "runs (same_group env) entries"
  let ?gs = "with_neighbours ?rs"
  have same: "records g \<noteq> [] \<and> (\<forall>e \<in> set (records g). same_group env (hd (records g)) e)" if "g \<in> set ?gs" for g
  proof (rule runs_same)
    have "records g \<in> set (map records ?gs)" using that unfolding set_map by (rule imageI)
    then show "records g \<in> set ?rs" unfolding records_with_neighbours .
  qed
  have linked: "successively (\<lambda>g h. \<not> same_group env (hd (records g)) (hd (records h)) \<and> olderNeighbor g = Some (hd (records h))) ?gs"
    using with_neighbours_linked [OF runs_apart [of "same_group env" entries]] .
  have days: "sections_ok env (day_sections env ?gs) ?gs" by (rule day_sections_ok)
  have day: "dateSectionKey env e = section_key s"
    if s: "s \<in> set (day_sections env ?gs)" "g \<in> set (section_groups s)" and e: "e \<in> set (records g)" for s g e
  proof -
    have "g \<in> set (concat (map section_groups (day_sections env ?gs)))" using s by auto
    then have "g \<in> set ?gs" using days unfolding sections_ok_def by (elim conjE) (simp only:)
    then have "same_group env (hd (records g)) e" using same e by blast
    then have "dateSectionKey env e = dateSectionKey env (hd (records g))" by (simp add: same_group_def)
    then show ?thesis using days s by (auto simp: sections_ok_def)
  qed
  have "?gs \<noteq> [] \<longrightarrow> olderNeighbor (last ?gs) = None" using with_neighbours_last [of ?rs] by (cases "?rs = []") auto
  then show ?thesis
    using same linked days day
    by (intro exI [of _ ?gs] conjI groups_return) (unfold records_with_neighbours runs_concat sections_ok_def, blast+)
qed

theorem history_view_complete_witness:
  "\<exists>entries env groups. length entries = 3 \<and> groupTelemetryHistory env entries = Some groups \<and> map (\<lambda>g. length (records g)) groups = [2, 1] \<and>
     concat (map records groups) = entries \<and> length (day_sections env groups) = 1 \<and>
     concat (map section_groups (day_sections env groups)) = groups"
proof -
  define e where "e = (\<lambda>i ship. \<lparr>view_id = js i, view_device = js ''d'', view_device_name = None, view_location_raw = None,
    view_jurisdiction = None, view_ship_name = ship, view_observed_at = None, view_received_at = None\<rparr>)"
  define entries where "entries = [e ''1'' None, e ''2'' None, e ''3'' (Some (js ''s''))]"
  define env where "env = \<lparr>read_date = (\<lambda>s. None), iso_text = (\<lambda>t. []), local_text = (\<lambda>t. []), local_date = (\<lambda>t. []), full_date = (\<lambda>t. [])\<rparr>"
  obtain groups where groups: "groupTelemetryHistory env entries = Some groups" "concat (map records groups) = entries"
    "concat (map section_groups (day_sections env groups)) = groups"
    using history_view_complete [of env entries] by (elim exE conjE)
  have shape: "groups = with_neighbours (runs (same_group env) entries)" using groups(1) by (simp add: groups_return)
  have "map (\<lambda>g. length (records g)) groups = [2, 1]" "length (day_sections env groups) = 1" "length entries = 3"
    unfolding shape by (simp_all add: entries_def e_def same_group_def sameSnapshotState_def displayValue_def dateSectionKey_def
        parsedDate_def env_def day_sections_def add_group_def Let_def js_def)
  with groups show ?thesis by (intro exI conjI)
qed

section \<open>Escaping\<close>

text \<open>How a browser reads the five entities.\<close>

function unescape :: "jsstr \<Rightarrow> jsstr" where
  "unescape s =
     (if s = [] then []
      else if take 5 s = js ''&amp;'' then 38 # unescape (drop 5 s)
      else if take 4 s = js ''&lt;'' then 60 # unescape (drop 4 s)
      else if take 4 s = js ''&gt;'' then 62 # unescape (drop 4 s)
      else if take 6 s = js ''&quot;'' then 34 # unescape (drop 6 s)
      else if take 5 s = js ''&#39;'' then 39 # unescape (drop 5 s)
      else hd s # unescape (tl s))"
  by pat_completeness auto
termination by (relation "measure length") (auto simp: length_greater_0_conv [symmetric] simp del: length_greater_0_conv)

declare unescape.simps [simp del]

lemma escapeHtml_simps [simp]: "escapeHtml [] = []" "escapeHtml (c # s) = escape_char c @ escapeHtml s"
  by (simp_all add: escapeHtml_def)

lemma unescape_char: "unescape (escape_char c @ s) = c # unescape s"
  by (subst unescape.simps) (simp add: escape_char_def js_def)

lemma unescape_escape [simp]: "unescape (escapeHtml s) = s"
proof (induction s)
  case Nil
  show ?case by (subst unescape.simps) simp
qed (simp add: unescape_char)

lemma escapeHtml_safe: "c \<in> set (escapeHtml s) \<Longrightarrow> c \<notin> {34, 39, 60, 62}"
  by (induction s) (auto simp: escape_char_def js_def split: if_splits)

lemma escapeHtml_plain: "set s \<inter> {34, 38, 39, 60, 62} = {} \<Longrightarrow> escapeHtml s = s"
  by (induction s) (auto simp: escape_char_def)

section \<open>Markup\<close>

text \<open>The view's own markup.\<close>

definition page_markup :: "string list" where
  \<open>page_markup =
    [''<time datetime="'',
     ''">'',
     ''</time>'',
     ''<span>Unknown</span>'',
     ''<span class="profile-telemetry-history-time"><span>'',
     ''</span>'',
     ''</span><span>'',
     ''</span></span>'',
     ''<li class="profile-telemetry-history-snapshot" data-history-id="'',
     ''">\<newline>'',
     ''  <span class="profile-telemetry-history-change">'',
     ''</span>\<newline>'',
     ''  <span class="profile-telemetry-history-location">'',
     ''  <span class="profile-telemetry-history-ship">'',
     ''  <span class="profile-telemetry-history-device">Device: '',
     ''  <span class="profile-telemetry-history-times">'',
     ''</li>'',
     ''<article class="profile-telemetry-history-entry" data-history-group-size="1"><ol>'',
     ''</ol></article>'',
     ''<details class="profile-telemetry-history-entry" data-history-group-size="'',
     ''    <summary><span class="profile-telemetry-history-change">'',
     ''</span><span>Device: '',
     ''</span><span class="profile-telemetry-history-times">'',
     ''</span></summary>\<newline>'',
     ''    <ol>'',
     ''</ol>\<newline>'',
     ''  </details>'',
     ''<section class="profile-telemetry-history-day"><h3>'',
     ''</h3><ol>'',
     ''<li>'',
     ''</ol></section>'',
     ''<p class="profile-note profile-telemetry-history-empty">No presence history has been recorded yet.</p>'',
     ''<div class="profile-telemetry-history-list" aria-label="Private presence history">'',
     ''</div>'']\<close>

definition shown :: "string + jsstr \<Rightarrow> jsstr" where
  "shown p = (case p of Inl m \<Rightarrow> js m | Inr t \<Rightarrow> escapeHtml t)"

definition built :: "jsstr \<Rightarrow> bool" where
  "built s \<longleftrightarrow> (\<exists>ps. s = concat (map shown ps) \<and> (\<forall>m. Inl m \<in> set ps \<longrightarrow> m \<in> set page_markup))"

lemma built_text: "built (escapeHtml t)"
  unfolding built_def by (rule exI [of _ "[Inr t]"]) (simp add: shown_def)

lemma built_plain: "set s \<inter> {34, 38, 39, 60, 62} = {} \<Longrightarrow> built s"
  using built_text [of s] by (simp add: escapeHtml_plain)

lemma built_markup: "m \<in> set page_markup \<Longrightarrow> built (js m)"
  unfolding built_def by (rule exI [of _ "[Inl m]"]) (simp add: shown_def)

lemma built_append: "built a \<Longrightarrow> built b \<Longrightarrow> built (a @ b)"
  unfolding built_def
proof (elim exE conjE)
  fix ps qs
  assume "a = concat (map shown ps)" "\<forall>m. Inl m \<in> set ps \<longrightarrow> m \<in> set page_markup"
    "b = concat (map shown qs)" "\<forall>m. Inl m \<in> set qs \<longrightarrow> m \<in> set page_markup"
  then show "\<exists>rs. a @ b = concat (map shown rs) \<and> (\<forall>m. Inl m \<in> set rs \<longrightarrow> m \<in> set page_markup)"
    by (intro exI [of _ "ps @ qs"]) auto
qed

lemma built_concat: "(\<And>x. x \<in> set xs \<Longrightarrow> built (f x)) \<Longrightarrow> built (concat (map f xs))"
proof (induction xs)
  case Nil
  show ?case by (simp add: built_plain)
qed (auto intro: built_append)

lemma built_decimal: "built (decimal n)"
  using decimal_plain [of n] by (intro built_plain) auto

lemma built_if: "(P \<Longrightarrow> built a) \<Longrightarrow> (\<not> P \<Longrightarrow> built b) \<Longrightarrow> built (if P then a else b)"
  by simp

lemmas built_intros = built_append built_text built_decimal built_concat built_if

lemma built_time: "built (time_element env v)"
  by (cases "parsedDate env v") (auto simp: time_element_def page_markup_def intro!: built_intros built_markup)

lemma built_label: "label \<in> {''Observed (game)'', ''Received (server)''} \<Longrightarrow> built (js label)"
  by (rule built_plain) (auto simp: js_def)

lemma built_times:
  assumes "label \<in> {''Observed (game)'', ''Received (server)''}"
  shows "built (timeMarkup env label v)" "built (timeRangeMarkup env label v w)"
proof -
  have dash: "built [32, 8211, 32]" by (rule built_plain) simp
  note intros = built_label [OF assms] dash built_time built_intros built_markup
  show "built (timeMarkup env label v)" unfolding timeMarkup_def by (intro intros) (simp_all add: page_markup_def)
  show "built (timeRangeMarkup env label v w)" unfolding timeRangeMarkup_def Let_def by (intro intros) (simp_all add: page_markup_def)
qed

lemma built_snapshot: "built (snapshotMarkup env e label device)"
  unfolding snapshotMarkup_def by (intro built_intros built_markup built_times) (simp_all add: page_markup_def)

lemma built_group: "built (groupMarkup env g device)"
  unfolding groupMarkup_def Let_def by (intro built_intros built_markup built_times built_snapshot) (simp_all add: page_markup_def)

lemma built_section: "built (sectionMarkup env labels sec)"
proof -
  have unknown: "built (js ''Unknown date'')" by (rule built_plain) (simp add: js_def)
  show ?thesis
    unfolding sectionMarkup_def Let_def
    by (cases "parsedDate env (section_date sec)")
      (simp_all only: option.case, (intro unknown built_intros built_group built_markup; simp add: page_markup_def)+)
qed

lemma rendered_built: "\<exists>html. renderTelemetryHistory env entries = Some html \<and> built html"
proof (cases "entries = []")
  case True
  show ?thesis
    unfolding renderTelemetryHistory_def if_P [OF True] by (intro exI conjI, rule refl, rule built_markup, simp add: page_markup_def)
next
  case False
  show ?thesis
    unfolding renderTelemetryHistory_def if_not_P [OF False] groups_return option.map
    by (intro exI conjI, rule refl, intro built_append built_concat built_section built_markup) (simp_all add: page_markup_def)
qed

text \<open>C33. The rendering returns, whatever the history holds, and no text of an entry is read as markup: the page is made of
  the view's own markup and of escaped texts, an escaped text holds no quote and no angle bracket, and a
  browser reads it back as the text it was.\<close>

theorem history_view_injection_free:
  "\<exists>ps. renderTelemetryHistory env entries = Some (concat (map shown ps)) \<and> (\<forall>m. Inl m \<in> set ps \<longrightarrow> m \<in> set page_markup) \<and>
     (\<forall>t. Inr t \<in> set ps \<longrightarrow> set (shown (Inr t)) \<inter> {34, 39, 60, 62} = {} \<and> unescape (shown (Inr t)) = t)"
proof -
  obtain html where html: "renderTelemetryHistory env entries = Some html" "built html"
    using rendered_built by blast
  then obtain ps where "html = concat (map shown ps)" "\<forall>m. Inl m \<in> set ps \<longrightarrow> m \<in> set page_markup" by (auto simp: built_def)
  with html(1) show ?thesis using escapeHtml_safe by (intro exI [of _ ps]) (auto simp: shown_def)
qed

theorem history_view_injection_free_witness:
  "\<exists>env entry html. view_id entry = js ''<b>'' \<and> renderTelemetryHistory env [entry] = Some html \<and>
     (\<exists>ps. html = concat (map shown ps) \<and> (\<forall>m. Inl m \<in> set ps \<longrightarrow> m \<in> set page_markup))"
proof -
  define e where "e = \<lparr>view_id = js ''<b>'', view_device = js ''d'', view_device_name = None, view_location_raw = None,
    view_jurisdiction = None, view_ship_name = None, view_observed_at = None, view_received_at = None\<rparr>"
  define env where "env = \<lparr>read_date = (\<lambda>s. None), iso_text = (\<lambda>t. []), local_text = (\<lambda>t. []), local_date = (\<lambda>t. []), full_date = (\<lambda>t. [])\<rparr>"
  have "view_id e = js ''<b>''" by (simp add: e_def)
  moreover obtain ps where "renderTelemetryHistory env [e] = Some (concat (map shown ps))" "\<forall>m. Inl m \<in> set ps \<longrightarrow> m \<in> set page_markup"
    using history_view_injection_free [of env "[e]"] by (elim exE conjE)
  ultimately show ?thesis by (intro exI conjI) (assumption | rule refl)+
qed

end
