(* ===== verification/Material_Db.thy ===== *)
theory Material_Db
  imports Account_Groups
begin

text \<open>
  The material stock of a group (\<open>/api/material-inventory/*\<close> in \<open>src/src/server.js\<close>): what members report or
  deposit, what they take out, and how the server computes what is left. Quantities are exact; \<open>lower\<close> is
  \<open>toLowerCase\<close>, whose tables are Unicode's. Times are microseconds.
\<close>

section \<open>Tables\<close>

record material_in =
  min_id :: jsstr
  min_group :: jsstr
  min_material :: jsstr
  min_band :: int
  min_user :: jsstr
  min_quantity :: rat
  min_quality :: int
  min_deposited :: bool
  min_source :: "jsstr option"
  min_note :: "jsstr option"
  min_refinery :: bool
  min_station :: "jsstr option"
  min_created :: int
  min_deposited_at :: "int option"

record material_out =
  mout_id :: jsstr
  mout_group :: jsstr
  mout_material :: jsstr
  mout_band :: int
  mout_quality :: "int option"
  mout_user :: jsstr
  mout_contributor :: "jsstr option"
  mout_warehouse :: "jsstr option"
  mout_quantity :: rat
  mout_note :: "jsstr option"
  mout_created :: int

record material_db = group_db +
  stock_in :: "material_in list"
  stock_out :: "material_out list"

definition in_checks :: "material_db \<Rightarrow> material_in \<Rightarrow> bool" where
  "in_checks d c \<longleftrightarrow> 1 \<le> min_band c \<and> min_band c \<le> 8 \<and> 0 < min_quantity c \<and> 1 \<le> min_quality c \<and> min_quality c \<le> 1000 \<and>
     min_group c \<in> group_id ` set (group_rows d) \<and> min_user c \<in> account_id ` set (accounts d)"

definition out_checks :: "material_db \<Rightarrow> material_out \<Rightarrow> bool" where
  "out_checks d w \<longleftrightarrow> 0 < mout_quantity w \<and> mout_group w \<in> group_id ` set (group_rows d) \<and>
     mout_user w \<in> account_id ` set (accounts d) \<and>
     (case mout_contributor w of None \<Rightarrow> True | Some u \<Rightarrow> u \<in> account_id ` set (accounts d))"

definition materials_ok :: "material_db \<Rightarrow> bool" where
  "materials_ok d \<longleftrightarrow> distinct (map min_id (stock_in d)) \<and> (\<forall>c \<in> set (stock_in d). in_checks d c) \<and>
     distinct (map mout_id (stock_out d)) \<and> (\<forall>w \<in> set (stock_out d). out_checks d w)"

text \<open>\<open>None\<close>: the database refuses.\<close>

definition texts_storable :: "jsstr option list \<Rightarrow> bool" where
  "texts_storable vs \<longleftrightarrow> list_all pg_text_option vs"

definition insert_in :: "material_in \<Rightarrow> material_db \<Rightarrow> material_db option" where
  "insert_in c d =
     (if min_id c \<in> min_id ` set (stock_in d) \<or> \<not> in_checks d c \<or>
        \<not> texts_storable [Some (min_material c), min_source c, min_note c, min_station c] then None
      else Some (d\<lparr>stock_in := stock_in d @ [c]\<rparr>))"

definition insert_out :: "material_out \<Rightarrow> material_db \<Rightarrow> material_db option" where
  "insert_out w d =
     (if mout_id w \<in> mout_id ` set (stock_out d) \<or> \<not> out_checks d w \<or>
        \<not> texts_storable [Some (mout_material w), mout_warehouse w, mout_note w] then None
      else Some (d\<lparr>stock_out := stock_out d @ [w]\<rparr>))"

section \<open>What is left\<close>

record net_row =
  net_first :: material_in
  net_quantity :: rat
  net_notes :: "jsstr list"
  net_withdrawn :: rat

definition int_text :: "int \<Rightarrow> jsstr" where
  "int_text i = (if i < 0 then 45 # decimal (nat (- i)) else decimal (nat i))"

text \<open>The key of a row joins its parts with a bar.\<close>

definition row_key :: "(jsstr \<Rightarrow> jsstr) \<Rightarrow> material_in \<Rightarrow> jsstr" where
  "row_key lower c =
     join_with 124 [min_user c, lower (min_material c), int_text (min_band c), int_text (min_quality c), or_empty (min_source c)]"

definition add_note :: "jsstr option \<Rightarrow> jsstr list \<Rightarrow> jsstr list" where
  "add_note v notes = (case v of None \<Rightarrow> notes | Some n \<Rightarrow> if n = [] \<or> n \<in> set notes then notes else notes @ [n])"

definition credit_row :: "material_in \<Rightarrow> net_row \<Rightarrow> net_row" where
  "credit_row c r = r\<lparr>net_quantity := net_quantity r + min_quantity c, net_notes := add_note (min_note c) (net_notes r)\<rparr>"

text \<open>A \<open>Map\<close>: a key that is there keeps its place.\<close>

fun credit :: "(jsstr \<Rightarrow> jsstr) \<Rightarrow> material_in \<Rightarrow> (jsstr \<times> net_row) list \<Rightarrow> (jsstr \<times> net_row) list" where
  "credit lower c [] = [(row_key lower c, credit_row c \<lparr>net_first = c, net_quantity = 0, net_notes = [], net_withdrawn = 0\<rparr>)]"
| "credit lower c ((k, r) # rows) = (if k = row_key lower c then (k, credit_row c r) # rows else (k, r) # credit lower c rows)"

definition row_matches :: "(jsstr \<Rightarrow> jsstr) \<Rightarrow> material_out \<Rightarrow> net_row \<Rightarrow> bool" where
  "row_matches lower w r \<longleftrightarrow>
     lower (min_material (net_first r)) = lower (mout_material w) \<and> min_band (net_first r) = mout_band w \<and>
     or_empty (min_source (net_first r)) = or_empty (mout_warehouse w) \<and>
     (case mout_quality w of
        None \<Rightarrow> True
      | Some q \<Rightarrow> min_quality (net_first r) = q \<and> (or_empty (mout_contributor w) = [] \<or> mout_contributor w = Some (min_user (net_first r))))"

definition available :: "net_row \<Rightarrow> rat" where
  "available r = max 0 (net_quantity r - net_withdrawn r)"

fun debit :: "(net_row \<Rightarrow> bool) \<Rightarrow> rat \<Rightarrow> net_row list \<Rightarrow> net_row list" where
  "debit P remaining [] = []"
| "debit P remaining (r # rows) =
     (if P r
      then let used = min (available r) remaining; r' = r\<lparr>net_withdrawn := net_withdrawn r + used\<rparr> in
        if remaining - used \<le> 0 then r' # rows else r' # debit P (remaining - used) rows
      else r # debit P remaining rows)"

definition group_in :: "jsstr \<Rightarrow> material_db \<Rightarrow> material_in list" where
  "group_in gid d =
     sort_key (\<lambda>c. (min_created c, min_id c)) (filter (\<lambda>c. min_group c = gid \<and> find_account d (min_user c) \<noteq> None) (stock_in d))"

definition group_out :: "jsstr \<Rightarrow> material_db \<Rightarrow> material_out list" where
  "group_out gid d = sort_key (\<lambda>w. (mout_created w, mout_id w)) (filter (\<lambda>w. mout_group w = gid) (stock_out d))"

definition materialInventoryNetRows :: "(jsstr \<Rightarrow> jsstr) \<Rightarrow> jsstr \<Rightarrow> material_db \<Rightarrow> net_row list" where
  "materialInventoryNetRows lower gid d =
     foldl (\<lambda>rows w. debit (row_matches lower w) (mout_quantity w) rows)
       (map snd (foldl (\<lambda>rows c. credit lower c rows) [] (group_in gid d))) (group_out gid d)"

end
