(* ===== verification/Material_Stock.thy ===== *)
theory Material_Stock
  imports Material_Db
begin

text \<open>
  The routes of the material stock: reporting, taking out, moving, moving everything and clearing. The
  advisory lock makes the transactions of one member in one group run one after the other, so a transaction is a
  function of the rows it locks.
\<close>

section \<open>Answers\<close>

datatype material_answer =
    Material_error nat string
  | Material_saved jsstr
  | Materials_moved nat
  | Materials_cleared

definition material_unavailable :: material_answer where
  "material_unavailable = Material_error 503 ''service unavailable''"

definition not_logged_in :: material_answer where
  "not_logged_in = Material_error 401 ''login required''"

definition or_null :: "jsstr option \<Rightarrow> jsstr option" where
  "or_null v = (if or_empty v = [] then None else v)"

section \<open>Reporting\<close>

record material_report =
  report_material :: jsstr
  report_quality :: int
  report_band :: int
  report_quantity :: rat

definition read_report :: "parameters \<Rightarrow> material_report option" where
  "read_report get =
     (case (integer_of (param_number (get ''quality_value'')), integer_of (param_number (get ''quality_band'')),
            finite_number (param_number (get ''quantity_scu''))) of
        (Some q, Some b, Some n) \<Rightarrow>
          if \<not> group_id_pattern (get ''group_id'') \<or> or_empty (get ''material_name'') = [] \<or> q < 1 \<or> 1000 < q \<or> b < 1 \<or> 8 < b \<or> n \<le> 0
          then None
          else Some \<lparr>report_material = or_empty (get ''material_name''), report_quality = q, report_band = b, report_quantity = n\<rparr>
      | _ \<Rightarrow> None)"

definition reported_row :: "parameters \<Rightarrow> material_report \<Rightarrow> jsstr \<Rightarrow> jsstr \<Rightarrow> jsstr \<Rightarrow> int \<Rightarrow> material_in" where
  "reported_row get r fresh gid uid now =
     \<lparr>min_id = fresh, min_group = gid, min_material = report_material r, min_band = report_band r, min_user = uid,
      min_quantity = report_quantity r, min_quality = report_quality r, min_deposited = (get ''status'' = Some (js ''deposited'')),
      min_source = (if or_empty (get ''source_location'') \<noteq> [] then get ''source_location'' else or_null (get ''source'')),
      min_note = or_null (get ''note''), min_refinery = (or_empty (get ''in_refinery'') \<in> {js ''1'', js ''on'', js ''true''}),
      min_station = or_null (get ''refinery_station''), min_created = now,
      min_deposited_at = (if get ''status'' = Some (js ''deposited'') then Some now else None)\<rparr>"

definition contributeMaterial ::
    "(jsstr \<Rightarrow> jsstr option) \<Rightarrow> material_db route_env \<Rightarrow> jsstr option \<Rightarrow> parameters \<Rightarrow> material_db \<Rightarrow> material_answer \<times> material_db" where
  "contributeMaterial read_uuid env context get d0 =
     (case context of
        None \<Rightarrow> (not_logged_in, d0)
      | Some uid \<Rightarrow>
          let d1 = others env 0 d0 in
          case read_report get of
            None \<Rightarrow> (Material_error 400 ''invalid contribution'', d1)
          | Some r \<Rightarrow>
              if query_fails env 0 then (material_unavailable, d1)
              else case read_uuid (or_empty (get ''group_id'')) of
                None \<Rightarrow> (material_unavailable, d1)
              | Some gid \<Rightarrow>
                  if role_of d1 gid uid = None then (Material_error 403 ''group member required'', d1)
                  else let d2 = others env 1 d1 in
                    if query_fails env 1 then (material_unavailable, d2)
                    else case insert_in (reported_row get r (new_id env 0) gid uid (moment env)) d2 of
                      None \<Rightarrow> (material_unavailable, d2)
                    | Some d3 \<Rightarrow> (Material_saved (new_id env 0), d3))"

section \<open>Taking out and moving\<close>

record stock_request =
  want_group :: jsstr
  want_material :: jsstr
  want_band :: int
  want_quality :: int
  want_user :: jsstr
  want_source :: jsstr
  want_quantity :: rat

definition find_stock :: "(jsstr \<Rightarrow> jsstr) \<Rightarrow> stock_request \<Rightarrow> material_db \<Rightarrow> net_row option" where
  "find_stock lower q d =
     find (\<lambda>r. min_user (net_first r) = want_user q \<and> lower (min_material (net_first r)) = lower (want_material q) \<and>
         min_band (net_first r) = want_band q \<and> min_quality (net_first r) = want_quality q \<and>
         or_empty (min_source (net_first r)) = want_source q)
       (materialInventoryNetRows lower (want_group q) d)"

definition taken_row :: "stock_request \<Rightarrow> jsstr \<Rightarrow> jsstr option \<Rightarrow> jsstr option \<Rightarrow> int \<Rightarrow> material_out" where
  "taken_row q fresh warehouse note now =
     \<lparr>mout_id = fresh, mout_group = want_group q, mout_material = want_material q, mout_band = want_band q,
      mout_quality = Some (want_quality q), mout_user = want_user q, mout_contributor = Some (want_user q), mout_warehouse = warehouse,
      mout_quantity = want_quantity q, mout_note = note, mout_created = now\<rparr>"

definition moved_row :: "stock_request \<Rightarrow> jsstr \<Rightarrow> jsstr \<Rightarrow> int \<Rightarrow> material_in" where
  "moved_row q fresh destination now =
     \<lparr>min_id = fresh, min_group = want_group q, min_material = want_material q, min_band = want_band q, min_user = want_user q,
      min_quantity = want_quantity q, min_quality = want_quality q, min_deposited = False, min_source = Some destination, min_note = None,
      min_refinery = False, min_station = None, min_created = now, min_deposited_at = None\<rparr>"

definition withdraw_tx ::
    "(jsstr \<Rightarrow> jsstr) \<Rightarrow> stock_request \<Rightarrow> jsstr \<Rightarrow> jsstr option \<Rightarrow> int \<Rightarrow> material_db \<Rightarrow> (material_answer, material_db) tx_outcome" where
  "withdraw_tx lower q fresh note now d =
     (case find_stock lower q d of
        None \<Rightarrow> Rollback (Material_error 400 ''withdrawal exceeds available stock'')
      | Some r \<Rightarrow>
          if available r < want_quantity q then Rollback (Material_error 400 ''withdrawal exceeds available stock'')
          else case insert_out (taken_row q fresh (or_null (Some (want_source q))) note now) d of
            None \<Rightarrow> Throw
          | Some d' \<Rightarrow> Commit (Material_saved fresh) d')"

definition move_tx ::
    "(jsstr \<Rightarrow> jsstr) \<Rightarrow> stock_request \<Rightarrow> jsstr \<Rightarrow> jsstr \<Rightarrow> jsstr \<Rightarrow> int \<Rightarrow> material_db \<Rightarrow> (material_answer, material_db) tx_outcome" where
  "move_tx lower q destination fresh1 fresh2 now d =
     (case find_stock lower q d of
        None \<Rightarrow> Rollback (Material_error 400 ''move exceeds available stock'')
      | Some r \<Rightarrow>
          if available r < want_quantity q then Rollback (Material_error 400 ''move exceeds available stock'')
          else case Option.bind (insert_out (taken_row q fresh1 (Some (want_source q)) None now) d)
                 (insert_in (moved_row q fresh2 destination now)) of
            None \<Rightarrow> Throw
          | Some d' \<Rightarrow> Commit (Material_saved fresh2) d')"

text \<open>The request of a member for own stock: \<open>warehouse\<close> or \<open>source_location\<close> names where it is.\<close>

definition read_stock_request :: "string \<Rightarrow> parameters \<Rightarrow> jsstr \<Rightarrow> stock_request option" where
  "read_stock_request place get gid =
     (case (integer_of (param_number (get ''quality_band'')), integer_of (param_number (get ''quality_value'')),
            finite_number (param_number (get ''quantity_scu''))) of
        (Some b, Some v, Some n) \<Rightarrow>
          if \<not> group_id_pattern (get ''group_id'') \<or> or_empty (get ''material_name'') = [] \<or>
             \<not> group_id_pattern (get ''contributor_user_id'') \<or> n \<le> 0
          then None
          else Some \<lparr>want_group = gid, want_material = or_empty (get ''material_name''), want_band = b, want_quality = v,
            want_user = or_empty (get ''contributor_user_id''), want_source = or_empty (get place), want_quantity = n\<rparr>
      | _ \<Rightarrow> None)"

definition withdrawMaterial ::
    "(jsstr \<Rightarrow> jsstr) \<Rightarrow> (jsstr \<Rightarrow> jsstr option) \<Rightarrow> material_db route_env \<Rightarrow> jsstr option \<Rightarrow> parameters \<Rightarrow> material_db \<Rightarrow>
     material_answer \<times> material_db" where
  "withdrawMaterial lower read_uuid env context get d0 =
     (case context of
        None \<Rightarrow> (not_logged_in, d0)
      | Some uid \<Rightarrow>
          let d1 = others env 0 d0 in
          if query_fails env 0 then (material_unavailable, d1)
          else case read_uuid (or_empty (get ''group_id'')) of
            None \<Rightarrow> (material_unavailable, d1)
          | Some gid \<Rightarrow>
              if role_of d1 gid uid = None then (Material_error 403 ''group member required'', d1)
              else if or_empty (get ''contributor_user_id'') \<noteq> uid
              then (Material_error 403 ''only the contribution owner can withdraw this stock'', d1)
              else case read_stock_request ''warehouse'' get gid of
                None \<Rightarrow> (Material_error 400 ''invalid withdrawal'', d1)
              | Some q \<Rightarrow>
                  let d2 = others env 1 d1 in
                  if query_fails env 1 then (material_unavailable, d2)
                  else run_tx (tx_ends env) (Material_error 500 ''withdrawal could not be saved'')
                    (withdraw_tx lower q (new_id env 0) (or_null (get ''note'')) (moment env)) d2)"

definition handleMaterialInventoryMove ::
    "(jsstr \<Rightarrow> jsstr) \<Rightarrow> (jsstr \<Rightarrow> jsstr option) \<Rightarrow> material_db route_env \<Rightarrow> jsstr option \<Rightarrow> parameters \<Rightarrow> material_db \<Rightarrow>
     material_answer \<times> material_db" where
  "handleMaterialInventoryMove lower read_uuid env context get d0 =
     (case context of
        None \<Rightarrow> (not_logged_in, d0)
      | Some uid \<Rightarrow>
          let d1 = others env 0 d0; destination = js_trim (or_empty (get ''destination'')) in
          if query_fails env 0 then (material_unavailable, d1)
          else case read_uuid (or_empty (get ''group_id'')) of
            None \<Rightarrow> (material_unavailable, d1)
          | Some gid \<Rightarrow>
              if role_of d1 gid uid = None then (Material_error 403 ''group member required'', d1)
              else if or_empty (get ''contributor_user_id'') \<noteq> uid
              then (Material_error 403 ''only the contribution owner can move this stock'', d1)
              else case read_stock_request ''source_location'' get gid of
                None \<Rightarrow> (Material_error 400 ''invalid move'', d1)
              | Some q \<Rightarrow>
                  if destination = [] \<or> destination = want_source q then (Material_error 400 ''invalid move'', d1)
                  else let d2 = others env 1 d1 in
                    if query_fails env 1 then (material_unavailable, d2)
                    else run_tx (tx_ends env) (Material_error 500 ''material move could not be saved'')
                      (move_tx lower q destination (new_id env 0) (new_id env 1) (moment env)) d2)"

section \<open>Moving everything\<close>

definition row_request :: "jsstr \<Rightarrow> jsstr \<Rightarrow> net_row \<Rightarrow> stock_request" where
  "row_request gid uid r =
     (let c = net_first r in
      \<lparr>want_group = gid, want_material = min_material c, want_band = min_band c, want_quality = min_quality c, want_user = uid,
       want_source = or_empty (min_source c), want_quantity = available r\<rparr>)"

fun move_rows :: "jsstr \<Rightarrow> jsstr \<Rightarrow> jsstr \<Rightarrow> (nat \<Rightarrow> jsstr) \<Rightarrow> int \<Rightarrow> nat \<Rightarrow> net_row list \<Rightarrow> material_db \<Rightarrow> material_db option" where
  "move_rows gid uid destination fresh now n [] d = Some d"
| "move_rows gid uid destination fresh now n (r # rows) d =
     (let q = row_request gid uid r in
      Option.bind (insert_out (taken_row q (fresh n) (or_null (min_source (net_first r))) None now) d) (\<lambda>d1.
        Option.bind (insert_in (moved_row q (fresh (n + 1)) destination now) d1)
          (move_rows gid uid destination fresh now (n + 2) rows)))"

definition move_all_tx ::
    "(jsstr \<Rightarrow> jsstr) \<Rightarrow> jsstr \<Rightarrow> jsstr \<Rightarrow> jsstr \<Rightarrow> (nat \<Rightarrow> jsstr) \<Rightarrow> int \<Rightarrow> material_db \<Rightarrow> (material_answer, material_db) tx_outcome" where
  "move_all_tx lower gid uid destination fresh now d =
     (let rows = filter (\<lambda>r. min_user (net_first r) = uid \<and> 0 < available r) (materialInventoryNetRows lower gid d) in
      case move_rows gid uid destination fresh now 0 rows d of
        None \<Rightarrow> Throw
      | Some d' \<Rightarrow> Commit (Materials_moved (length rows)) d')"

definition moveAllMaterial ::
    "(jsstr \<Rightarrow> jsstr) \<Rightarrow> (jsstr \<Rightarrow> jsstr option) \<Rightarrow> material_db route_env \<Rightarrow> jsstr option \<Rightarrow> parameters \<Rightarrow> material_db \<Rightarrow>
     material_answer \<times> material_db" where
  "moveAllMaterial lower read_uuid env context get d0 =
     (case context of
        None \<Rightarrow> (not_logged_in, d0)
      | Some uid \<Rightarrow>
          let d1 = others env 0 d0; destination = js_trim (or_empty (get ''destination'')) in
          if \<not> group_id_pattern (get ''group_id'') \<or> destination = [] then (Material_error 400 ''invalid move-all request'', d1)
          else if query_fails env 0 then (material_unavailable, d1)
          else case read_uuid (or_empty (get ''group_id'')) of
            None \<Rightarrow> (material_unavailable, d1)
          | Some gid \<Rightarrow>
              if role_of d1 gid uid = None then (Material_error 403 ''group member required'', d1)
              else let d2 = others env 1 d1 in
                if query_fails env 1 then (material_unavailable, d2)
                else run_tx (tx_ends env) (Material_error 500 ''all material could not be moved'')
                  (move_all_tx lower gid uid destination (new_id env) (moment env)) d2)"

section \<open>Clearing\<close>

text \<open>The statements go through the pool, each on a connection of its own: every deletion commits by itself.\<close>

definition clear_out :: "jsstr \<Rightarrow> material_db \<Rightarrow> material_db" where
  "clear_out gid d = d\<lparr>stock_out := delete_where (\<lambda>w. mout_group w = gid) (stock_out d)\<rparr>"

definition clear_in :: "jsstr \<Rightarrow> material_db \<Rightarrow> material_db" where
  "clear_in gid d = d\<lparr>stock_in := delete_where (\<lambda>c. min_group c = gid) (stock_in d)\<rparr>"

definition clearMaterialInventory ::
    "(jsstr \<Rightarrow> jsstr option) \<Rightarrow> material_db route_env \<Rightarrow> jsstr option \<Rightarrow> parameters \<Rightarrow> material_db \<Rightarrow> material_answer \<times> material_db" where
  "clearMaterialInventory read_uuid env context get d0 =
     (case context of
        None \<Rightarrow> (not_logged_in, d0)
      | Some uid \<Rightarrow>
          let d1 = others env 0 d0 in
          if \<not> group_id_pattern (get ''group_id'') then (Material_error 400 ''invalid group'', d1)
          else if query_fails env 0 then (material_unavailable, d1)
          else case read_uuid (or_empty (get ''group_id'')) of
            None \<Rightarrow> (material_unavailable, d1)
          | Some gid \<Rightarrow>
              if role_of d1 gid uid \<noteq> Some Owner then (Material_error 403 ''group owner required'', d1)
              else let d2 = others env 1 d1 in
                if query_fails env 1 then (material_unavailable, d2)
                else let d3 = others env 2 d2 in
                  if query_fails env 2 then (Material_error 500 ''material inventory could not be cleared'', d3)
                  else let d4 = others env 3 (clear_out gid d3) in
                    if query_fails env 3 then (Material_error 500 ''material inventory could not be cleared'', d4)
                    else let d5 = others env 4 (clear_in gid d4) in
                      if query_fails env 4 then (Material_error 500 ''material inventory could not be cleared'', d5)
                      else (Materials_cleared, d5))"

end
