(* ===== verification/Material_Proofs.thy ===== *)
theory Material_Proofs
  imports Material_Stock "HOL-Library.Multiset"
begin

text \<open>
  The stock the server shows is the sum of what was put in less what was taken out, key by key; what every
  transaction does to it; and how the texts of two keys may coincide.
\<close>

section \<open>Keys\<close>

type_synonym stock_key = "jsstr \<times> jsstr \<times> int \<times> int \<times> jsstr"

definition key_of :: "(jsstr \<Rightarrow> jsstr) \<Rightarrow> material_in \<Rightarrow> stock_key" where
  "key_of lower c = (min_user c, lower (min_material c), min_band c, min_quality c, or_empty (min_source c))"

definition out_key :: "(jsstr \<Rightarrow> jsstr) \<Rightarrow> material_out \<Rightarrow> stock_key" where
  "out_key lower w = (or_empty (mout_contributor w), lower (mout_material w), mout_band w, the (mout_quality w), or_empty (mout_warehouse w))"

text \<open>Keys whose text can be read back.\<close>

definition barless :: "(jsstr \<Rightarrow> jsstr) \<Rightarrow> material_in \<Rightarrow> bool" where
  "barless lower c \<longleftrightarrow> 124 \<notin> set (min_user c) \<and> 124 \<notin> set (lower (min_material c))"

lemma bar_split: "124 \<notin> set a \<Longrightarrow> 124 \<notin> set b \<Longrightarrow> a @ (124::nat) # x = b @ 124 # y \<longleftrightarrow> a = b \<and> x = y"
proof (induction a arbitrary: b)
  case Nil
  then show ?case by (cases b) auto
next
  case (Cons u a)
  then show ?case by (cases b) auto
qed

lemma decimal_no: "c < 48 \<or> 57 < c \<Longrightarrow> c \<notin> set (decimal n)"
  using decimal_plain [of n] by auto

lemma decimal_not_Nil [simp]: "decimal n \<noteq> []"
  by (subst decimal.simps) simp

lemma int_text_bar [simp]: "124 \<notin> set (int_text i)"
  by (simp add: int_text_def decimal_no)

lemma minus_decimal [simp]: "decimal n \<noteq> 45 # s"
  using decimal_no [of 45 n] by auto

lemma int_text_inject [simp]: "int_text i = int_text j \<longleftrightarrow> i = j"
  using minus_decimal [symmetric] by (auto simp: int_text_def)

lemma row_key_iff: "barless lower c \<Longrightarrow> barless lower e \<Longrightarrow> row_key lower c = row_key lower e \<longleftrightarrow> key_of lower c = key_of lower e"
  by (auto simp: row_key_def key_of_def barless_def bar_split)

text \<open>Withdrawals that name a quality and a contributor, as the routes write them.\<close>

definition exact_out :: "material_out \<Rightarrow> bool" where
  "exact_out w \<longleftrightarrow> mout_quality w \<noteq> None \<and> mout_contributor w = Some (mout_user w) \<and> mout_user w \<noteq> []"

lemma row_matches_key: "exact_out w \<Longrightarrow> row_matches lower w r \<longleftrightarrow> key_of lower (net_first r) = out_key lower w"
  by (auto simp: exact_out_def row_matches_def key_of_def out_key_def or_empty_def)

section \<open>Sums\<close>

definition put_in :: "(material_in \<Rightarrow> bool) \<Rightarrow> material_in list \<Rightarrow> rat" where
  "put_in P cs = sum_list (map min_quantity (filter P cs))"

definition taken_out :: "(material_out \<Rightarrow> bool) \<Rightarrow> material_out list \<Rightarrow> rat" where
  "taken_out P ws = sum_list (map mout_quantity (filter P ws))"

lemma sums_simps [simp]:
  "put_in P [] = 0" "put_in P (c # cs) = (if P c then min_quantity c else 0) + put_in P cs"
  "put_in P (cs @ cs') = put_in P cs + put_in P cs'"
  "taken_out Q [] = 0" "taken_out Q (w # ws) = (if Q w then mout_quantity w else 0) + taken_out Q ws"
  "taken_out Q (ws @ ws') = taken_out Q ws + taken_out Q ws'"
  by (simp_all add: put_in_def taken_out_def)

lemma put_in_mset: "put_in P cs = (\<Sum>c \<in># filter_mset P (mset cs). min_quantity c)"
  by (simp add: put_in_def sum_mset_sum_list flip: mset_filter mset_map)

lemma taken_out_mset: "taken_out P ws = (\<Sum>w \<in># filter_mset P (mset ws). mout_quantity w)"
  by (simp add: taken_out_def sum_mset_sum_list flip: mset_filter mset_map)

lemma sums_sorted [simp]: "put_in P (sort_key f cs) = put_in P cs" "taken_out Q (sort_key g ws) = taken_out Q ws"
  by (simp_all add: put_in_mset taken_out_mset)

lemma sums_filter: "put_in P (filter R0 cs) = put_in (\<lambda>c. P c \<and> R0 c) cs" "taken_out Q (filter R ws) = taken_out (\<lambda>w. Q w \<and> R w) ws"
  by (simp_all add: put_in_def taken_out_def conj_commute)

lemma put_in_nonneg: "(\<And>c. c \<in> set cs \<Longrightarrow> 0 < min_quantity c) \<Longrightarrow> 0 \<le> put_in P cs"
  by (induction cs) (force simp: less_imp_le)+

lemma put_in_none: "(\<And>c. c \<in> set cs \<Longrightarrow> \<not> P c) \<Longrightarrow> put_in P cs = 0"
  by (induction cs) auto

lemma taken_out_nonneg: "(\<And>w. w \<in> set ws \<Longrightarrow> 0 < mout_quantity w) \<Longrightarrow> 0 \<le> taken_out P ws"
  by (induction ws) (force simp: less_imp_le)+

section \<open>The rows\<close>

lemma credit_keys: "map fst (credit lower c rows) = (if row_key lower c \<in> fst ` set rows then map fst rows else map fst rows @ [row_key lower c])"
  by (induction rows) (auto, force+)

lemma credit_row_simps [simp]:
  "net_first (credit_row c r) = net_first r" "net_quantity (credit_row c r) = net_quantity r + min_quantity c"
  "net_withdrawn (credit_row c r) = net_withdrawn r"
  by (simp_all add: credit_row_def)

text \<open>The rows of the contributions \<open>cs\<close>: one per key text, with its first contribution and its sum.\<close>

definition credited :: "(jsstr \<Rightarrow> jsstr) \<Rightarrow> material_in list \<Rightarrow> (jsstr \<times> net_row) list \<Rightarrow> bool" where
  "credited lower cs rows \<longleftrightarrow> distinct (map fst rows) \<and> fst ` set rows = row_key lower ` set cs \<and>
     (\<forall>(k, r) \<in> set rows. net_first r \<in> set cs \<and> k = row_key lower (net_first r) \<and> net_withdrawn r = 0 \<and>
        net_quantity r = put_in (\<lambda>c. row_key lower c = k) cs)"

lemma credit_mem:
  assumes "distinct (map fst rows)"
  shows "(k, r) \<in> set (credit lower c rows) \<longleftrightarrow>
    (if k = row_key lower c
     then (\<exists>r0. (k, r0) \<in> set rows \<and> r = credit_row c r0) \<or>
       (k \<notin> fst ` set rows \<and> r = credit_row c \<lparr>net_first = c, net_quantity = 0, net_notes = [], net_withdrawn = 0\<rparr>)
     else (k, r) \<in> set rows)"
  using assms by (induction rows) (force split: if_splits)+

lemma credited_step:
  assumes "credited lower cs rows"
  shows "credited lower (cs @ [c]) (credit lower c rows)"
proof -
  have keys: "distinct (map fst rows)" "fst ` set rows = row_key lower ` set cs" using assms by (auto simp: credited_def)
  have rows: "net_first r \<in> set cs \<and> k = row_key lower (net_first r) \<and> net_withdrawn r = 0 \<and> net_quantity r = put_in (\<lambda>c. row_key lower c = k) cs"
    if "(k, r) \<in> set rows" for k r using assms that by (auto simp: credited_def)
  have "distinct (map fst (credit lower c rows))" using keys(1) by (simp add: credit_keys)
  moreover have "fst ` set (credit lower c rows) = row_key lower ` set (cs @ [c])"
    using arg_cong [OF credit_keys [of lower c rows], of set] keys(2) by (auto split: if_splits)
  moreover have "net_first r \<in> set (cs @ [c]) \<and> k = row_key lower (net_first r) \<and> net_withdrawn r = 0 \<and>
      net_quantity r = put_in (\<lambda>c. row_key lower c = k) (cs @ [c])" if "(k, r) \<in> set (credit lower c rows)" for k r
  proof (cases "k = row_key lower c")
    case True
    with that consider r0 where "(k, r0) \<in> set rows" "r = credit_row c r0"
      | "k \<notin> fst ` set rows" "r = credit_row c \<lparr>net_first = c, net_quantity = 0, net_notes = [], net_withdrawn = 0\<rparr>"
      by (auto simp: credit_mem [OF keys(1)])
    then show ?thesis
    proof cases
      case 1
      with rows [OF 1(1)] True show ?thesis by simp
    next
      case 2
      then have "put_in (\<lambda>c. row_key lower c = k) cs = 0" using keys(2) by (intro put_in_none) auto
      with 2 True show ?thesis by simp
    qed
  next
    case False
    with that rows [of k r] show ?thesis by (auto simp: credit_mem [OF keys(1)])
  qed
  ultimately show ?thesis unfolding credited_def by blast
qed

lemma credited_all: "credited lower cs (foldl (\<lambda>rows c. credit lower c rows) [] cs)"
proof (induction cs rule: rev_induct)
  case Nil
  then show ?case by (simp add: credited_def)
next
  case (snoc c cs)
  then show ?case using credited_step by simp
qed

section \<open>Taking out\<close>

lemma debit_none: "(\<And>r. r \<in> set rows \<Longrightarrow> \<not> P r) \<Longrightarrow> debit P q rows = rows"
  by (induction rows) simp_all

lemma debit_one:
  assumes "distinct (map f rows)"
  shows "debit (\<lambda>r. f r = k) q rows =
    map (\<lambda>r. if f r = k then r\<lparr>net_withdrawn := net_withdrawn r + min (available r) q\<rparr> else r) rows"
  using assms
proof (induction rows)
  case (Cons r rows)
  show ?case
  proof (cases "f r = k")
    case True
    then have others: "f x \<noteq> k" if "x \<in> set rows" for x using Cons.prems imageI [OF that, of f] by auto
    then have "debit (\<lambda>r. f r = k) u rows = rows" for u by (intro debit_none)
    moreover have "map (\<lambda>r. if f r = k then r\<lparr>net_withdrawn := net_withdrawn r + min (available r) q\<rparr> else r) rows = rows"
      using others by (simp add: map_idI)
    ultimately show ?thesis using True by (simp add: Let_def)
  qed (use Cons in simp)
qed simp

abbreviation row_stock :: "(jsstr \<Rightarrow> jsstr) \<Rightarrow> net_row \<Rightarrow> stock_key" where
  "row_stock lower r \<equiv> key_of lower (net_first r)"

definition drawn :: "(jsstr \<Rightarrow> jsstr) \<Rightarrow> material_out list \<Rightarrow> net_row \<Rightarrow> net_row" where
  "drawn lower ws r = r\<lparr>net_withdrawn := min (net_quantity r) (taken_out (\<lambda>w. out_key lower w = row_stock lower r) ws)\<rparr>"

lemma drawn_simps [simp]:
  "net_first (drawn lower ws r) = net_first r" "net_quantity (drawn lower ws r) = net_quantity r"
  "net_withdrawn (drawn lower ws r) = min (net_quantity r) (taken_out (\<lambda>w. out_key lower w = row_stock lower r) ws)"
  "available (drawn lower ws r) = max 0 (net_quantity r - taken_out (\<lambda>w. out_key lower w = row_stock lower r) ws)"
  by (simp_all add: drawn_def available_def)

lemma draw_all:
  assumes dist: "distinct (map (row_stock lower) rows)" and fresh: "\<And>r. r \<in> set rows \<Longrightarrow> net_withdrawn r = 0 \<and> 0 \<le> net_quantity r"
    and ws: "\<And>w. w \<in> set ws \<Longrightarrow> exact_out w \<and> 0 < mout_quantity w"
  shows "foldl (\<lambda>rows w. debit (row_matches lower w) (mout_quantity w) rows) rows ws = map (drawn lower ws) rows"
  using ws
proof (induction ws rule: rev_induct)
  case Nil
  have "drawn lower [] r = r" if "r \<in> set rows" for r
    using fresh [OF that] by (cases r) (simp add: drawn_def)
  then show ?case by (simp add: map_idI)
next
  case (snoc w ws)
  let ?rows = "map (drawn lower ws) rows"
  have dist': "distinct (map (row_stock lower) ?rows)" using dist by (simp add: comp_def)
  have match: "row_matches lower w = (\<lambda>r. row_stock lower r = out_key lower w)"
    using snoc.prems row_matches_key by auto
  have pos: "0 < mout_quantity w" "0 \<le> taken_out Q ws" for Q using snoc.prems by (auto intro: taken_out_nonneg)
  have step: "(if row_stock lower (drawn lower ws r) = out_key lower w
      then (drawn lower ws r)\<lparr>net_withdrawn := net_withdrawn (drawn lower ws r) + min (available (drawn lower ws r)) (mout_quantity w)\<rparr>
      else drawn lower ws r) = drawn lower (ws @ [w]) r" for r
    using pos(1) pos(2) [of "\<lambda>w. out_key lower w = row_stock lower r"] by (auto simp: drawn_def available_def min_def max_def)
  have "foldl (\<lambda>rows w. debit (row_matches lower w) (mout_quantity w) rows) rows (ws @ [w]) =
      debit (row_matches lower w) (mout_quantity w) ?rows" using snoc by simp
  also have "\<dots> = map (drawn lower (ws @ [w])) rows"
    unfolding match debit_one [OF dist'] map_map comp_def step ..
  finally show ?case .
qed

section \<open>The stock\<close>

definition put_of :: "(jsstr \<Rightarrow> jsstr) \<Rightarrow> jsstr \<Rightarrow> material_db \<Rightarrow> stock_key \<Rightarrow> rat" where
  "put_of lower gid d k = put_in (\<lambda>c. min_group c = gid \<and> key_of lower c = k) (stock_in d)"

definition taken_of :: "(jsstr \<Rightarrow> jsstr) \<Rightarrow> jsstr \<Rightarrow> material_db \<Rightarrow> stock_key \<Rightarrow> rat" where
  "taken_of lower gid d k = taken_out (\<lambda>w. mout_group w = gid \<and> out_key lower w = k) (stock_out d)"

definition stock :: "(jsstr \<Rightarrow> jsstr) \<Rightarrow> jsstr \<Rightarrow> material_db \<Rightarrow> stock_key \<Rightarrow> rat" where
  "stock lower gid d k = put_of lower gid d k - taken_of lower gid d k"

definition stock_sound :: "(jsstr \<Rightarrow> jsstr) \<Rightarrow> material_db \<Rightarrow> bool" where
  "stock_sound lower d \<longleftrightarrow> materials_ok d \<and> (\<forall>c \<in> set (stock_in d). barless lower c) \<and> (\<forall>w \<in> set (stock_out d). exact_out w) \<and>
     [] \<notin> account_id ` set (accounts d) \<and> (\<forall>gid k. 0 \<le> stock lower gid d k)"

lemma account_found: "uid \<in> account_id ` set (accounts d) \<Longrightarrow> find_account d uid \<noteq> None"
  by (auto simp: find_account_def find_None_iff)

lemma group_in_simps:
  assumes "materials_ok d"
  shows "set (group_in gid d) = {c \<in> set (stock_in d). min_group c = gid}"
    "put_in P (group_in gid d) = put_in (\<lambda>c. P c \<and> min_group c = gid) (stock_in d)"
proof -
  have all: "filter (\<lambda>c. min_group c = gid \<and> find_account d (min_user c) \<noteq> None) (stock_in d) = filter (\<lambda>c. min_group c = gid) (stock_in d)"
  proof (intro filter_cong refl)
    fix c assume "c \<in> set (stock_in d)"
    then have "min_user c \<in> account_id ` set (accounts d)" using assms by (simp add: materials_ok_def in_checks_def)
    from account_found [OF this] show "(min_group c = gid \<and> find_account d (min_user c) \<noteq> None) = (min_group c = gid)" by simp
  qed
  show "set (group_in gid d) = {c \<in> set (stock_in d). min_group c = gid}"
    unfolding group_in_def all by auto
  show "put_in P (group_in gid d) = put_in (\<lambda>c. P c \<and> min_group c = gid) (stock_in d)"
    unfolding group_in_def all by (simp add: sums_filter)
qed

lemma net_rows:
  assumes "stock_sound lower d"
  shows "distinct (map (row_stock lower) (materialInventoryNetRows lower gid d))" (is ?dist)
    "row_stock lower ` set (materialInventoryNetRows lower gid d) = key_of lower ` {c \<in> set (stock_in d). min_group c = gid}" (is ?keys)
    "r \<in> set (materialInventoryNetRows lower gid d) \<Longrightarrow> net_first r \<in> set (stock_in d) \<and> min_group (net_first r) = gid \<and>
       net_quantity r = put_of lower gid d (row_stock lower r) \<and> available r = stock lower gid d (row_stock lower r)"
proof -
  let ?cs = "group_in gid d" and ?ws = "group_out gid d"
  let ?kr = "foldl (\<lambda>rows c. credit lower c rows) [] ?cs"
  have ok: "materials_ok d" and bars: "\<And>c. c \<in> set (stock_in d) \<Longrightarrow> barless lower c"
    and exact: "\<And>w. w \<in> set (stock_out d) \<Longrightarrow> exact_out w" and pos: "\<And>k. 0 \<le> stock lower gid d k"
    using assms by (auto simp: stock_sound_def)
  note cs = group_in_simps [OF ok]
  have credited: "distinct (map fst ?kr)" "fst ` set ?kr = row_key lower ` set ?cs"
    and rows: "\<And>k r. (k, r) \<in> set ?kr \<Longrightarrow> net_first r \<in> set ?cs \<and> k = row_key lower (net_first r) \<and> net_withdrawn r = 0 \<and>
      net_quantity r = put_in (\<lambda>c. row_key lower c = k) ?cs"
    using credited_all [of lower ?cs] by (auto simp: credited_def)
  have keys: "row_key lower c = row_key lower e \<longleftrightarrow> key_of lower c = key_of lower e" if "c \<in> set ?cs" "e \<in> set ?cs" for c e
    using that bars by (intro row_key_iff) (auto simp: cs)
  have quantity: "net_quantity r = put_of lower gid d (row_stock lower r)" if "(k, r) \<in> set ?kr" for k r
  proof -
    have "put_in (\<lambda>c. row_key lower c = k) ?cs = put_in (\<lambda>c. key_of lower c = row_stock lower r) ?cs"
      unfolding put_in_def using rows [OF that] keys by (intro arg_cong [of _ _ "\<lambda>xs. sum_list (map min_quantity xs)"] filter_cong) auto
    then show ?thesis using rows [OF that] by (simp add: cs(2) put_of_def conj_commute)
  qed
  have dist: "distinct (map (row_stock lower) (map snd ?kr))"
  proof -
    have "map fst ?kr = map (row_key lower \<circ> net_first \<circ> snd) ?kr" using rows by auto
    with credited(1) have "inj_on (row_key lower \<circ> net_first \<circ> snd) (set ?kr)" "distinct ?kr" by (simp_all add: distinct_map)
    moreover have "inj_on (row_stock lower \<circ> snd) (set ?kr)"
      using calculation(1) rows keys unfolding inj_on_def comp_def by (metis prod.collapse)
    ultimately show ?thesis by (simp add: distinct_map)
  qed
  have nonneg: "0 \<le> net_quantity r" if "(k, r) \<in> set ?kr" for k r
    using rows [OF that] ok by (auto simp: cs materials_ok_def in_checks_def intro!: put_in_nonneg)
  have ws: "\<And>w. w \<in> set ?ws \<Longrightarrow> exact_out w \<and> 0 < mout_quantity w"
    using exact ok by (auto simp: group_out_def materials_ok_def out_checks_def)
  have net: "materialInventoryNetRows lower gid d = map (drawn lower ?ws) (map snd ?kr)"
    unfolding materialInventoryNetRows_def by (rule draw_all [OF dist _ ws]) (use rows nonneg in auto)
  have taken: "taken_out (\<lambda>w. out_key lower w = k) ?ws = taken_of lower gid d k" for k
    by (simp add: group_out_def taken_of_def sums_filter conj_commute)
  show ?dist using dist by (simp add: net comp_def)
  have "row_stock lower ` snd ` set ?kr = key_of lower ` set ?cs"
  proof (intro equalityI subsetI)
    fix k assume "k \<in> key_of lower ` set ?cs"
    then obtain c where c: "c \<in> set ?cs" "k = key_of lower c" by blast
    then have "row_key lower c \<in> fst ` set ?kr" using credited(2) by blast
    then obtain r where r: "(row_key lower c, r) \<in> set ?kr" by auto
    with rows keys c show "k \<in> row_stock lower ` snd ` set ?kr" by (metis (no_types, lifting) image_eqI snd_conv)
  qed (use rows in force)
  then show ?keys by (simp add: net image_image cs)
  assume "r \<in> set (materialInventoryNetRows lower gid d)"
  then obtain k r0 where r0: "(k, r0) \<in> set ?kr" "r = drawn lower ?ws r0" by (auto simp: net)
  with rows [OF r0(1)] quantity [OF r0(1)] pos [of "row_stock lower r0"]
  show "net_first r \<in> set (stock_in d) \<and> min_group (net_first r) = gid \<and>
       net_quantity r = put_of lower gid d (row_stock lower r) \<and> available r = stock lower gid d (row_stock lower r)"
    by (simp add: taken stock_def cs)
qed

end
