(* ===== verification/Material_Theorems.thy ===== *)
theory Material_Theorems
  imports Material_Proofs
begin

text \<open>
  What every transaction does to the material stock, the steps of the stock and the routes that take them.
\<close>

section \<open>Changes of the stock\<close>

text \<open>The sum over the keys with a property: one key, or one holding wherever it lies.\<close>

definition total_of :: "(jsstr \<Rightarrow> jsstr) \<Rightarrow> jsstr \<Rightarrow> (stock_key \<Rightarrow> bool) \<Rightarrow> material_db \<Rightarrow> rat" where
  "total_of lower gid Q d = put_in (\<lambda>c. min_group c = gid \<and> Q (key_of lower c)) (stock_in d) -
     taken_out (\<lambda>w. mout_group w = gid \<and> Q (out_key lower w)) (stock_out d)"

lemma stock_total: "stock lower gid d k = total_of lower gid (\<lambda>x. x = k) d"
  by (simp add: stock_def put_of_def taken_of_def total_of_def)

fun holding :: "stock_key \<Rightarrow> jsstr \<times> jsstr \<times> int \<times> int" where
  "holding (u, m, b, q, place) = (u, m, b, q)"

fun place_of :: "stock_key \<Rightarrow> jsstr" where
  "place_of (u, m, b, q, place) = place"

fun at_place :: "jsstr \<Rightarrow> stock_key \<Rightarrow> stock_key" where
  "at_place place (u, m, b, q, old) = (u, m, b, q, place)"

lemma at_place_simps [simp]: "holding (at_place p k) = holding k" "place_of (at_place p k) = p" "fst (at_place p k) = fst k"
  by (cases k; simp)+

text \<open>What a member holds of a material, band and quality in a group.\<close>

definition held :: "(jsstr \<Rightarrow> jsstr) \<Rightarrow> jsstr \<Rightarrow> material_db \<Rightarrow> jsstr \<times> jsstr \<times> int \<times> int \<Rightarrow> rat" where
  "held lower gid d h = total_of lower gid (\<lambda>x. holding x = h) d"

lemma insert_in_total: "insert_in c d = Some d' \<Longrightarrow>
    total_of lower gid Q d' = total_of lower gid Q d + (if min_group c = gid \<and> Q (key_of lower c) then min_quantity c else 0)"
  by (auto simp: insert_in_def total_of_def split: if_splits)

lemma insert_out_total: "insert_out w d = Some d' \<Longrightarrow>
    total_of lower gid Q d' = total_of lower gid Q d - (if mout_group w = gid \<and> Q (out_key lower w) then mout_quantity w else 0)"
  by (auto simp: insert_out_def total_of_def split: if_splits)

lemma checks_simps [simp]:
  "in_checks (d\<lparr>stock_in := cs\<rparr>) c = in_checks d c" "in_checks (d\<lparr>stock_out := ws\<rparr>) c = in_checks d c"
  "out_checks (d\<lparr>stock_in := cs\<rparr>) w = out_checks d w" "out_checks (d\<lparr>stock_out := ws\<rparr>) w = out_checks d w"
  by (simp_all add: in_checks_def out_checks_def split: option.split)

lemma insert_in_Some: "insert_in c d = Some d' \<Longrightarrow> in_checks d c \<and> d' = d\<lparr>stock_in := stock_in d @ [c]\<rparr> \<and> (materials_ok d \<longrightarrow> materials_ok d')"
  by (auto simp: insert_in_def materials_ok_def split: if_splits)

lemma insert_out_Some: "insert_out w d = Some d' \<Longrightarrow> out_checks d w \<and> d' = d\<lparr>stock_out := stock_out d @ [w]\<rparr> \<and> (materials_ok d \<longrightarrow> materials_ok d')"
  by (auto simp: insert_out_def materials_ok_def split: if_splits)

lemma sound_nonneg: "stock_sound lower d \<Longrightarrow> 0 \<le> total_of lower gid (\<lambda>x. x = k) d"
  unfolding stock_sound_def stock_total by blast

lemma sound_in:
  assumes "stock_sound lower d" "insert_in c d = Some d'" "barless lower c"
  shows "stock_sound lower d'"
proof -
  note i = insert_in_Some [OF assms(2)]
  have "0 \<le> stock lower gid d' k" for gid k
    using sound_nonneg [OF assms(1), of gid k] conjunct1 [OF i] insert_in_total [OF assms(2), of lower gid "\<lambda>x. x = k"]
    unfolding stock_total in_checks_def by simp
  then show ?thesis using assms i by (auto simp: stock_sound_def)
qed

lemma sound_out:
  assumes "stock_sound lower d" "insert_out w d = Some d'" "mout_contributor w = Some (mout_user w)" "mout_quality w \<noteq> None"
    and enough: "mout_quantity w \<le> stock lower (mout_group w) d (out_key lower w)"
  shows "stock_sound lower d'"
proof -
  note i = insert_out_Some [OF assms(2)]
  have "0 \<le> stock lower gid d' k" for gid k
    using sound_nonneg [OF assms(1), of gid k] enough insert_out_total [OF assms(2), of lower gid "\<lambda>x. x = k"]
    unfolding stock_total by auto
  moreover have "exact_out w" using assms i by (auto simp: exact_out_def out_checks_def stock_sound_def)
  ultimately show ?thesis using assms(1) i by (auto simp: stock_sound_def)
qed

definition want_key :: "(jsstr \<Rightarrow> jsstr) \<Rightarrow> stock_request \<Rightarrow> stock_key" where
  "want_key lower q = (want_user q, lower (want_material q), want_band q, want_quality q, want_source q)"

lemma or_empty_or_null [simp]: "or_empty (or_null v) = or_empty v"
  by (simp add: or_null_def or_empty_def split: option.split)

lemma or_empty_Some [simp]: "or_empty (Some s) = s"
  by (simp add: or_empty_def)

lemma taken_row_simps [simp]:
  "mout_group (taken_row q f w n t) = want_group q" "mout_quantity (taken_row q f w n t) = want_quantity q"
  "mout_contributor (taken_row q f w n t) = Some (want_user q)" "mout_user (taken_row q f w n t) = want_user q"
  "mout_quality (taken_row q f w n t) = Some (want_quality q)"
  "or_empty w = want_source q \<Longrightarrow> out_key lower (taken_row q f w n t) = want_key lower q"
  by (simp_all add: taken_row_def out_key_def want_key_def)

lemma moved_row_simps [simp]:
  "min_group (moved_row q f p t) = want_group q" "min_quantity (moved_row q f p t) = want_quantity q"
  "key_of lower (moved_row q f p t) = at_place p (want_key lower q)"
  "barless lower (moved_row q f p t) \<longleftrightarrow> 124 \<notin> set (want_user q) \<and> 124 \<notin> set (lower (want_material q))"
  by (simp_all add: moved_row_def key_of_def want_key_def barless_def)

lemma find_stock_row:
  assumes "stock_sound lower d" "find_stock lower q d = Some r"
  shows "row_stock lower r = want_key lower q" "available r = stock lower (want_group q) d (want_key lower q)"
    "124 \<notin> set (want_user q) \<and> 124 \<notin> set (lower (want_material q))"
proof -
  from assms(2) have r: "r \<in> set (materialInventoryNetRows lower (want_group q) d)" "row_stock lower r = want_key lower q"
    by (auto simp: find_stock_def key_of_def want_key_def dest: find_Some_mem)
  show "row_stock lower r = want_key lower q" by fact
  from net_rows(3) [OF assms(1) r(1)] r(2) assms(1)
  show "available r = stock lower (want_group q) d (want_key lower q)" "124 \<notin> set (want_user q) \<and> 124 \<notin> set (lower (want_material q))"
    by (auto simp: stock_sound_def barless_def key_of_def want_key_def)
qed

lemma withdraw_Commit:
  assumes sound: "stock_sound lower d" and run: "withdraw_tx lower q fresh note now d = Commit a d'"
  shows "0 < want_quantity q \<and> want_quantity q \<le> stock lower (want_group q) d (want_key lower q)"
    "stock_sound lower d'"
    "total_of lower gid Q d' = total_of lower gid Q d - (if want_group q = gid \<and> Q (want_key lower q) then want_quantity q else 0)"
proof -
  obtain r where r: "find_stock lower q d = Some r" "want_quantity q \<le> available r"
    and w: "insert_out (taken_row q fresh (or_null (Some (want_source q))) note now) d = Some d'"
    using run by (auto simp: withdraw_tx_def not_less split: option.splits if_splits)
  note row = find_stock_row [OF sound r(1)]
  show "0 < want_quantity q \<and> want_quantity q \<le> stock lower (want_group q) d (want_key lower q)"
    using r(2) row(2) insert_out_Some [OF w] by (simp add: out_checks_def)
  show "stock_sound lower d'" by (rule sound_out [OF sound w]) (use r(2) row(2) in simp_all)
  show "total_of lower gid Q d' = total_of lower gid Q d - (if want_group q = gid \<and> Q (want_key lower q) then want_quantity q else 0)"
    using insert_out_total [OF w] by simp
qed

lemma move_Commit:
  assumes sound: "stock_sound lower d" and run: "move_tx lower q place fresh1 fresh2 now d = Commit a d'"
  shows "0 < want_quantity q \<and> want_quantity q \<le> stock lower (want_group q) d (want_key lower q)"
    "stock_sound lower d'"
    "total_of lower gid Q d' = total_of lower gid Q d - (if want_group q = gid \<and> Q (want_key lower q) then want_quantity q else 0) +
       (if want_group q = gid \<and> Q (at_place place (want_key lower q)) then want_quantity q else 0)"
proof -
  obtain r d1 where r: "find_stock lower q d = Some r" "want_quantity q \<le> available r"
    and w: "insert_out (taken_row q fresh1 (Some (want_source q)) None now) d = Some d1"
    and i: "insert_in (moved_row q fresh2 place now) d1 = Some d'"
    using run by (auto simp: move_tx_def not_less bind_eq_Some_conv split: option.splits if_splits)
  note row = find_stock_row [OF sound r(1)]
  show "0 < want_quantity q \<and> want_quantity q \<le> stock lower (want_group q) d (want_key lower q)"
    using r(2) row(2) insert_out_Some [OF w] by (simp add: out_checks_def)
  have "stock_sound lower d1" by (rule sound_out [OF sound w]) (use r(2) row(2) in simp_all)
  then show "stock_sound lower d'" by (rule sound_in [OF _ i]) (use row(3) in simp)
  show "total_of lower gid Q d' = total_of lower gid Q d - (if want_group q = gid \<and> Q (want_key lower q) then want_quantity q else 0) +
       (if want_group q = gid \<and> Q (at_place place (want_key lower q)) then want_quantity q else 0)"
    using insert_out_total [OF w, of lower gid Q] insert_in_total [OF i, of lower gid Q] by simp
qed

section \<open>Moving everything\<close>

lemma sum_none: "(\<And>r. r \<in> set rows \<Longrightarrow> f r \<noteq> k) \<Longrightarrow> (\<Sum>r \<leftarrow> rows. if f r = k then g r else (0 :: rat)) = 0"
  by (induction rows) auto

lemma sum_one: "distinct (map f rows) \<Longrightarrow> r \<in> set rows \<Longrightarrow> (\<Sum>x \<leftarrow> rows. if f x = f r then g x else (0 :: rat)) = g r"
proof (induction rows)
  case (Cons y rows)
  show ?case
  proof (cases "f y = f r")
    case True
    then have "f x \<noteq> f r" if "x \<in> set rows" for x using Cons.prems(1) imageI [OF that, of f] by auto
    then have "(\<Sum>x \<leftarrow> rows. if f x = f r then g x else 0) = 0" by (rule sum_none)
    moreover have "y = r" using True Cons.prems by (auto dest: imageI [of r "set rows" f])
    ultimately show ?thesis by simp
  qed (use Cons in auto)
qed simp

lemma row_request_key [simp]: "min_user (net_first r) = uid \<Longrightarrow> want_key lower (row_request gid uid r) = row_stock lower r"
  by (simp add: want_key_def row_request_def Let_def key_of_def)

lemma row_request_simps [simp]:
  "want_group (row_request gid uid r) = gid" "want_quantity (row_request gid uid r) = available r" "want_user (row_request gid uid r) = uid"
  "want_material (row_request gid uid r) = min_material (net_first r)" "want_source (row_request gid uid r) = or_empty (min_source (net_first r))"
  by (simp_all add: row_request_def Let_def)

lemma move_rows_Cons:
  assumes "move_rows gid uid place fresh now n (r # rows) d = Some d'"
  obtains d1 d2 where
    "insert_out (taken_row (row_request gid uid r) (fresh n) (or_null (min_source (net_first r))) None now) d = Some d1"
    "insert_in (moved_row (row_request gid uid r) (fresh (n + 1)) place now) d1 = Some d2"
    "move_rows gid uid place fresh now (n + 2) rows d2 = Some d'"
  using assms by (auto simp: Let_def bind_eq_Some_conv)

lemma move_row_total:
  assumes "insert_out (taken_row (row_request gid uid r) f1 (or_null (min_source (net_first r))) None now) d = Some d1"
    and "insert_in (moved_row (row_request gid uid r) f2 place now) d1 = Some d2" and "min_user (net_first r) = uid"
  shows "total_of lower g Q d2 = total_of lower g Q d - (if g = gid \<and> Q (row_stock lower r) then available r else 0) +
    (if g = gid \<and> Q (at_place place (row_stock lower r)) then available r else 0)"
  using insert_out_total [OF assms(1), of lower g Q] insert_in_total [OF assms(2), of lower g Q] assms(3) by auto

lemma move_rows_total:
  assumes "move_rows gid uid place fresh now n rows d = Some d'" "\<forall>r \<in> set rows. min_user (net_first r) = uid"
  shows "total_of lower gid Q d' = total_of lower gid Q d - (\<Sum>r \<leftarrow> rows. if Q (row_stock lower r) then available r else 0) +
      (\<Sum>r \<leftarrow> rows. if Q (at_place place (row_stock lower r)) then available r else 0)"
    "g \<noteq> gid \<Longrightarrow> total_of lower g Q d' = total_of lower g Q d"
  using assms
proof (induction rows arbitrary: n d)
  case (Cons r rows)
  { case 1
    from 1(1) obtain d1 d2 where steps: "insert_out (taken_row (row_request gid uid r) (fresh n) (or_null (min_source (net_first r))) None now) d = Some d1"
      "insert_in (moved_row (row_request gid uid r) (fresh (n + 1)) place now) d1 = Some d2"
      "move_rows gid uid place fresh now (n + 2) rows d2 = Some d'" by (rule move_rows_Cons)
    from Cons.IH(1) [OF steps(3)] move_row_total [OF steps(1,2), of lower gid Q] 1(2) show ?case by simp }
  { case 2
    from 2(2) obtain d1 d2 where steps: "insert_out (taken_row (row_request gid uid r) (fresh n) (or_null (min_source (net_first r))) None now) d = Some d1"
      "insert_in (moved_row (row_request gid uid r) (fresh (n + 1)) place now) d1 = Some d2"
      "move_rows gid uid place fresh now (n + 2) rows d2 = Some d'" by (rule move_rows_Cons)
    from Cons.IH(2) [OF 2(1) steps(3)] move_row_total [OF steps(1,2), of lower g Q] 2 show ?case by simp }
qed simp_all

lemma move_rows_sound:
  assumes "move_rows gid uid place fresh now n rows d = Some d'" "stock_sound lower d" "distinct (map (row_stock lower) rows)"
    and "\<And>r. r \<in> set rows \<Longrightarrow> min_user (net_first r) = uid \<and> barless lower (net_first r) \<and> available r \<le> stock lower gid d (row_stock lower r)"
  shows "stock_sound lower d'"
  using assms
proof (induction rows arbitrary: n d)
  case (Cons r rows)
  from Cons.prems(1) obtain d1 d2 where
    steps: "insert_out (taken_row (row_request gid uid r) (fresh n) (or_null (min_source (net_first r))) None now) d = Some d1"
      "insert_in (moved_row (row_request gid uid r) (fresh (n + 1)) place now) d1 = Some d2"
      "move_rows gid uid place fresh now (n + 2) rows d2 = Some d'" by (rule move_rows_Cons)
  have r: "min_user (net_first r) = uid" "barless lower (net_first r)" "available r \<le> stock lower gid d (row_stock lower r)"
    using Cons.prems(4) by auto
  have "stock_sound lower d1" by (rule sound_out [OF Cons.prems(2) steps(1)]) (use r in simp_all)
  then have "stock_sound lower d2" by (rule sound_in [OF _ steps(2)]) (use r in \<open>simp_all add: barless_def [of lower "net_first r"]\<close>)
  moreover have "available x \<le> stock lower gid d2 (row_stock lower x)" if x: "x \<in> set rows" for x
  proof -
    have "row_stock lower r \<noteq> row_stock lower x" using Cons.prems(3) imageI [OF x, of "row_stock lower"] by auto
    moreover have "0 < available r" using insert_out_Some [OF steps(1)] by (simp add: out_checks_def)
    ultimately show ?thesis
      using move_row_total [OF steps(1,2) r(1), of lower gid "\<lambda>k. k = row_stock lower x"] Cons.prems(4) [of x] x
      unfolding stock_total by auto
  qed
  ultimately show ?case using Cons.prems by (intro Cons.IH [OF steps(3)]) auto
qed simp

lemma move_all_Commit:
  assumes sound: "stock_sound lower d" and run: "move_all_tx lower gid uid place fresh now d = Commit a d'"
  shows "stock_sound lower d'" "g \<noteq> gid \<Longrightarrow> stock lower g d' k = stock lower g d k"
    "fst k \<noteq> uid \<Longrightarrow> stock lower gid d' k = stock lower gid d k"
    "fst k = uid \<Longrightarrow> place_of k \<noteq> place \<Longrightarrow> stock lower gid d' k = 0"
    "held lower g d' h = held lower g d h"
proof -
  let ?all = "materialInventoryNetRows lower gid d"
  let ?rows = "filter (\<lambda>r. min_user (net_first r) = uid \<and> 0 < available r) ?all"
  have moved: "move_rows gid uid place fresh now 0 ?rows d = Some d'"
    using run by (auto simp: move_all_tx_def Let_def split: option.splits)
  have own: "min_user (net_first r) = uid" if "r \<in> set ?rows" for r using that by simp
  have dist: "distinct (map (row_stock lower) ?rows)" using net_rows(1) [OF sound, of gid] by (simp add: distinct_map_filter)
  have row: "barless lower (net_first r) \<and> available r = stock lower gid d (row_stock lower r)" if "r \<in> set ?rows" for r
    using net_rows(3) [OF sound, of r gid] that sound by (auto simp: stock_sound_def)
  show "stock_sound lower d'"
  proof (rule move_rows_sound [OF moved sound dist])
    fix r assume r: "r \<in> set ?rows"
    show "min_user (net_first r) = uid \<and> barless lower (net_first r) \<and> available r \<le> stock lower gid d (row_stock lower r)"
      using own [OF r] row [OF r] by simp
  qed
  have all_own: "\<forall>r \<in> set ?rows. min_user (net_first r) = uid" by simp
  note total = move_rows_total [OF moved all_own]
  show "g \<noteq> gid \<Longrightarrow> stock lower g d' k = stock lower g d k" unfolding stock_total by (rule total(2))
  have user: "fst (row_stock lower r) = uid" if "r \<in> set ?rows" for r using own [OF that] by (simp add: key_of_def)
  show "fst k \<noteq> uid \<Longrightarrow> stock lower gid d' k = stock lower gid d k"
  proof -
    assume k: "fst k \<noteq> uid"
    have "(\<Sum>r \<leftarrow> ?rows. if row_stock lower r = k then available r else 0) = 0"
      "(\<Sum>r \<leftarrow> ?rows. if at_place place (row_stock lower r) = k then available r else 0) = 0"
      by (rule sum_none; use k user at_place_simps(3) in metis)+
    then show ?thesis unfolding stock_total total(1) by simp
  qed
  show "fst k = uid \<Longrightarrow> place_of k \<noteq> place \<Longrightarrow> stock lower gid d' k = 0"
  proof -
    assume k: "fst k = uid" "place_of k \<noteq> place"
    have "(\<Sum>r \<leftarrow> ?rows. if at_place place (row_stock lower r) = k then available r else 0) = 0"
      by (rule sum_none) (use k(2) in auto)
    moreover have "(\<Sum>r \<leftarrow> ?rows. if row_stock lower r = k then available r else 0) = stock lower gid d k"
    proof (cases "k \<in> row_stock lower ` set ?rows")
      case True
      then obtain r where r: "r \<in> set ?rows" "k = row_stock lower r" by blast
      show ?thesis unfolding r(2) sum_one [OF dist r(1)] using row [OF r(1)] by simp
    next
      case False
      have "stock lower gid d k = 0"
      proof (cases "k \<in> row_stock lower ` set ?all")
        case True
        then obtain r where r: "r \<in> set ?all" "k = row_stock lower r" by blast
        with k(1) have "min_user (net_first r) = uid" by (simp add: key_of_def)
        with False r have "\<not> 0 < available r" by auto
        with net_rows(3) [OF sound r(1)] r(2) sound_nonneg [OF sound, of gid k] show ?thesis by (simp add: stock_total)
      next
        case False
        then have "put_of lower gid d k = 0"
          unfolding put_of_def net_rows(2) [OF sound] by (intro put_in_none) auto
        moreover have "0 \<le> taken_of lower gid d k" unfolding taken_of_def
          using sound by (intro taken_out_nonneg) (auto simp: stock_sound_def materials_ok_def out_checks_def)
        ultimately show ?thesis using sound_nonneg [OF sound, of gid k] unfolding stock_total [symmetric] stock_def by simp
      qed
      moreover have "(\<Sum>r \<leftarrow> ?rows. if row_stock lower r = k then available r else 0) = 0"
        by (rule sum_none) (use False in blast)
      ultimately show ?thesis by simp
    qed
    ultimately show ?thesis unfolding stock_total total(1) by simp
  qed
  show "held lower g d' h = held lower g d h"
    unfolding held_def by (cases "g = gid") (simp_all add: total)
qed

end
