(* ===== verification/Material_Routes.thy ===== *)
theory Material_Routes
  imports Material_Theorems
begin

text \<open>
  The material stock as a state machine, and its routes as steps of it.
\<close>

section \<open>Steps\<close>

inductive material_step :: "(jsstr \<Rightarrow> jsstr) \<Rightarrow> material_db \<Rightarrow> material_db \<Rightarrow> bool" for lower where
  step_report: "insert_in c d = Some d' \<Longrightarrow> barless lower c \<Longrightarrow> material_step lower d d'"
| step_take: "withdraw_tx lower q fresh note now d = Commit a d' \<Longrightarrow> material_step lower d d'"
| step_move: "move_tx lower q place fresh1 fresh2 now d = Commit a d' \<Longrightarrow> material_step lower d d'"
| step_move_all: "move_all_tx lower gid uid place ids now d = Commit a d' \<Longrightarrow> material_step lower d d'"
| step_clear_out: "material_step lower d (clear_out gid d)"

lemma clear_out_sound:
  assumes "stock_sound lower d"
  shows "stock_sound lower (clear_out gid d)"
proof -
  have taken: "taken_out (\<lambda>w. mout_group w = g \<and> P w) (delete_where (\<lambda>w. mout_group w = gid) ws) \<le> taken_out (\<lambda>w. mout_group w = g \<and> P w) ws"
    if "\<forall>w \<in> set ws. 0 < mout_quantity w" for g P ws
    using that by (induction ws) (auto simp: delete_where_def less_imp_le add_increasing)
  have pos: "\<forall>w \<in> set (stock_out d). 0 < mout_quantity w"
    using assms by (auto simp: stock_sound_def materials_ok_def out_checks_def)
  have "0 \<le> stock lower g (clear_out gid d) k" for g k
    using sound_nonneg [OF assms, of g k] taken [OF pos, where g = g and P = "\<lambda>w. out_key lower w = k"]
    unfolding stock_total total_of_def clear_out_def by simp
  moreover have "materials_ok (clear_out gid d)"
    using assms by (auto simp: stock_sound_def materials_ok_def clear_out_def delete_where_def distinct_map_filter)
  ultimately show ?thesis using assms by (auto simp: stock_sound_def clear_out_def delete_where_def)
qed

lemma material_step_sound: "material_step lower d d' \<Longrightarrow> stock_sound lower d \<Longrightarrow> stock_sound lower d'"
  by (induction rule: material_step.induct)
    (auto intro: sound_in withdraw_Commit(2) move_Commit(2) move_all_Commit(1) clear_out_sound)

interpretation material_requests: stepwise "material_step lower" "stock_sound lower" for lower
  by unfold_locales (rule material_step_sound)

definition no_stock :: "material_db \<Rightarrow> bool" where
  "no_stock d \<longleftrightarrow> stock_in d = [] \<and> stock_out d = [] \<and> [] \<notin> account_id ` set (accounts d)"

lemma no_stock_sound: "no_stock d \<Longrightarrow> stock_sound lower d"
  by (simp add: no_stock_def stock_sound_def materials_ok_def stock_def put_of_def taken_of_def)

section \<open>A sample\<close>

lemma decimal_digit [simp]: "n < 10 \<Longrightarrow> decimal n = [48 + n]"
  by (subst decimal.simps) simp

definition sample_group :: material_db where
  "sample_group = \<lparr>accounts = [\<lparr>account_id = js ''u'', account_state = Active, account_display_name = js ''A'', account_verselink_name = None\<rparr>],
     group_rows = [\<lparr>group_id = js ''g'', group_name = js ''G'', group_creator = Some (js ''u'')\<rparr>],
     members = [\<lparr>member_group = js ''g'', member_user = js ''u'', member_role = Owner\<rparr>], stock_in = [], stock_out = []\<rparr>"

definition sample_in :: "string \<Rightarrow> string \<Rightarrow> int \<Rightarrow> int \<Rightarrow> string \<Rightarrow> material_in" where
  "sample_in i material b v place = \<lparr>min_id = js i, min_group = js ''g'', min_material = js material, min_band = b, min_user = js ''u'',
     min_quantity = 5, min_quality = v, min_deposited = False, min_source = Some (js place), min_note = None, min_refinery = False,
     min_station = None, min_created = 1, min_deposited_at = None\<rparr>"

lemma sample_no_stock: "no_stock sample_group"
  by (simp add: no_stock_def sample_group_def)

definition sample_stock :: material_db where
  "sample_stock = sample_group\<lparr>stock_in := [sample_in ''i'' ''gold'' 1 7 ''Lorville'']\<rparr>"

lemma sample_report: "insert_in (sample_in ''i'' ''gold'' 1 7 ''Lorville'') sample_group = Some sample_stock"
  by (simp add: insert_in_def in_checks_def sample_in_def sample_group_def sample_stock_def texts_storable_def pg_text_option_def
      pg_text_def js_def)

lemma sample_steps: "(material_step id)\<^sup>*\<^sup>* sample_group sample_stock"
  by (rule r_into_rtranclp, rule step_report [OF sample_report]) (simp add: barless_def sample_in_def js_def)

lemma sample_sound: "stock_sound id sample_stock"
  by (rule material_requests.steps_keep [OF sample_steps no_stock_sound [OF sample_no_stock]])

definition sample_row :: net_row where
  "sample_row = \<lparr>net_first = sample_in ''i'' ''gold'' 1 7 ''Lorville'', net_quantity = 5, net_notes = [], net_withdrawn = 0\<rparr>"

lemma sample_rows: "materialInventoryNetRows id (js ''g'') sample_stock = [sample_row]"
  by (simp add: materialInventoryNetRows_def group_in_def group_out_def sample_stock_def sample_group_def sample_in_def find_account_def
      credit_row_def add_note_def sample_row_def)

lemma sample_available: "available sample_row = 5" "min_user (net_first sample_row) = js ''u''"
  by (simp_all add: available_def sample_row_def sample_in_def)

section \<open>What is shown\<close>



section \<open>Transfers\<close>



section \<open>Keys that coincide\<close>

text \<open>The text of a key does not determine it: a material whose name contains bars is counted with a different material
  of another band, quality and place.\<close>

theorem material_keys_collide:
  "\<exists>d c e. materials_ok d \<and> stock_in d = [c, e] \<and> min_user c = min_user e \<and> min_material c \<noteq> min_material e \<and> min_band c \<noteq> min_band e \<and>
     min_quality c \<noteq> min_quality e \<and> min_source c \<noteq> min_source e \<and>
     (\<exists>r. materialInventoryNetRows id (min_group c) d = [r] \<and> available r = min_quantity c + min_quantity e)"
proof -
  define c where "c = sample_in ''1'' ''gold'' 1 5 ''2|7|Orison''"
  define e where "e = sample_in ''2'' ''gold|1|5'' 2 7 ''Orison''"
  define d where "d = sample_group\<lparr>stock_in := [c, e]\<rparr>"
  have same: "row_key id e = row_key id c"
    by (simp add: c_def e_def sample_in_def row_key_def int_text_def js_def or_empty_def)
  have order: "group_in (js ''g'') d = [c, e]"
    by (simp add: group_in_def d_def c_def e_def sample_in_def sample_group_def find_account_def js_def)
  have "materialInventoryNetRows id (js ''g'') d =
      [credit_row e (credit_row c \<lparr>net_first = c, net_quantity = 0, net_notes = [], net_withdrawn = 0\<rparr>)]"
    by (simp add: materialInventoryNetRows_def order same) (simp add: group_out_def d_def sample_group_def)
  moreover have "available (credit_row e (credit_row c \<lparr>net_first = c, net_quantity = 0, net_notes = [], net_withdrawn = 0\<rparr>)) =
      min_quantity c + min_quantity e" by (simp add: available_def c_def e_def sample_in_def)
  moreover have "materials_ok d" by (simp add: materials_ok_def d_def c_def e_def sample_in_def in_checks_def sample_group_def)
  moreover have "min_group c = js ''g''" "min_user c = min_user e" "min_material c \<noteq> min_material e" "min_band c \<noteq> min_band e"
    "min_quality c \<noteq> min_quality e" "min_source c \<noteq> min_source e" by (simp_all add: c_def e_def sample_in_def)
  moreover have "stock_in d = [c, e]" by (simp add: d_def)
  ultimately show ?thesis by metis
qed

section \<open>Routes\<close>

datatype material_request =
    Report "jsstr option" parameters
  | Take "jsstr option" parameters
  | Move "jsstr option" parameters
  | Move_all "jsstr option" parameters

fun material_routes ::
    "(jsstr \<Rightarrow> jsstr) \<Rightarrow> (jsstr \<Rightarrow> jsstr option) \<Rightarrow> material_db route_env \<Rightarrow> material_request \<Rightarrow> material_db \<Rightarrow> material_answer \<times> material_db" where
  "material_routes lower ru env (Report context get) d = contributeMaterial ru env context get d"
| "material_routes lower ru env (Take context get) d = withdrawMaterial lower ru env context get d"
| "material_routes lower ru env (Move context get) d = handleMaterialInventoryMove lower ru env context get d"
| "material_routes lower ru env (Move_all context get) d = moveAllMaterial lower ru env context get d"

text \<open>No bar in the names a report brings.\<close>

fun plain_request :: "(jsstr \<Rightarrow> jsstr) \<Rightarrow> material_request \<Rightarrow> bool" where
  "plain_request lower (Report context get) \<longleftrightarrow> 124 \<notin> set (lower (or_empty (get ''material_name''))) \<and> 124 \<notin> set (or_empty context)"
| "plain_request lower r \<longleftrightarrow> True"

definition material_failed :: "material_answer \<Rightarrow> bool" where
  "material_failed a \<longleftrightarrow> (\<exists>st e. a = Material_error st e)"

abbreviation material_outcome :: "(jsstr \<Rightarrow> jsstr) \<Rightarrow> material_db route_env \<Rightarrow> material_db \<Rightarrow> material_answer \<times> material_db \<Rightarrow> bool" where
  "material_outcome lower env d0 \<equiv> routed_result (material_step lower) env d0 material_failed"

lemma material_answers [simp]: "\<not> material_failed (Material_saved i)" "\<not> material_failed (Materials_moved n)"
  by (simp_all add: material_failed_def)

lemma report_outcome:
  "met env d0 d \<Longrightarrow> barless lower c \<Longrightarrow>
     material_outcome lower env d0 (case insert_in c d of None \<Rightarrow> (material_unavailable, d) | Some d' \<Rightarrow> (Material_saved f, d'))"
  by (auto split: option.splits intro: routed_results routed_result_step [where step = "material_step lower"] step_report)

lemma material_txs:
  "met env d0 d \<Longrightarrow> material_outcome lower env d0 (run_tx (tx_ends env) e (withdraw_tx lower q fresh note now) d)"
  "met env d0 d \<Longrightarrow> material_outcome lower env d0 (run_tx (tx_ends env) e (move_tx lower q place fresh fresh2 now) d)"
  "met env d0 d \<Longrightarrow> material_outcome lower env d0 (run_tx (tx_ends env) e (move_all_tx lower gid uid place ids now) d)"
proof -
  show "met env d0 d \<Longrightarrow> material_outcome lower env d0 (run_tx (tx_ends env) e (withdraw_tx lower q fresh note now) d)"
    by (erule routed_result_tx) (rule conjI, erule step_take, auto simp: withdraw_tx_def split: option.splits if_splits)
  show "met env d0 d \<Longrightarrow> material_outcome lower env d0 (run_tx (tx_ends env) e (move_tx lower q place fresh fresh2 now) d)"
    by (erule routed_result_tx) (rule conjI, erule step_move, auto simp: move_tx_def split: option.splits if_splits)
  show "met env d0 d \<Longrightarrow> material_outcome lower env d0 (run_tx (tx_ends env) e (move_all_tx lower gid uid place ids now) d)"
    by (erule routed_result_tx) (rule conjI, erule step_move_all, auto simp: move_all_tx_def Let_def split: option.splits)
qed

lemma reported_barless:
  assumes "read_report get = Some r" "plain_request lower (Report (Some uid) get)"
  shows "barless lower (reported_row get r fresh gid uid now)"
  using assms by (auto simp: read_report_def reported_row_def barless_def split: option.splits if_splits)

lemma material_routes_outcome:
  assumes "plain_request lower r"
  shows "material_outcome lower env d0 (material_routes lower ru env r d0)"
proof (cases r)
  case (Report user get)
  show ?thesis
  proof (cases user)
    case (Some uid)
    have barless: "read_report get = Some x \<Longrightarrow> barless lower (reported_row get x fresh gid uid now)" for x fresh gid now
      by (rule reported_barless) (use assms Report Some in simp)+
    show ?thesis
    proof (cases "read_report get")
      case (Some x)
      show ?thesis
        unfolding Report \<open>user = Some uid\<close> material_routes.simps contributeMaterial_def Let_def option.case Some
        by (intro report_outcome [OF _ barless [OF Some]] routed_results)
    qed (simp add: Report \<open>user = Some uid\<close> contributeMaterial_def Let_def routed_results)
  qed (simp add: Report contributeMaterial_def routed_results)
next
  case (Take user get)
  show ?thesis unfolding Take material_routes.simps withdrawMaterial_def Let_def by (intro material_txs routed_results)
next
  case (Move user get)
  show ?thesis unfolding Move material_routes.simps handleMaterialInventoryMove_def Let_def by (intro material_txs routed_results)
next
  case (Move_all user get)
  show ?thesis unfolding Move_all material_routes.simps moveAllMaterial_def Let_def by (intro material_txs routed_results)
qed



end
