(* ===== verification/Orders.thy ===== *)
theory Orders
  imports Account_Groups
begin

text \<open>
  Material orders of a group (\<open>/api/orders\<close>, \<open>/api/orders/action\<close>, \<open>/api/admin/orders/clear\<close> in
  \<open>src/src/server.js\<close>). An action reads the order first and changes it later, so each of its statements
  sees what is committed when it runs. Quantities are exact; the year of an instant, the text of a number and
  \<open>toLowerCase\<close> are parameters.
\<close>

section \<open>Tables\<close>

datatype order_status = Order_open | Order_claimed | Order_reported | Order_completed | Order_cancelled

record order =
  ord_id :: jsstr
  ord_number :: jsstr
  ord_group :: jsstr
  ord_creator :: jsstr
  ord_assignee :: "jsstr option"
  ord_tag :: "jsstr option"
  ord_material :: jsstr
  ord_required :: rat
  ord_unit :: jsstr
  ord_quality :: "jsstr option"
  ord_delivered :: "rat option"
  ord_delivered_quality :: "jsstr option"
  ord_status :: order_status
  ord_note :: "jsstr option"
  ord_created :: int
  ord_completed :: "int option"
  ord_hidden :: "int option"

record delivery =
  del_id :: jsstr
  del_order :: jsstr
  del_user :: jsstr
  del_quantity :: rat
  del_quality :: "jsstr option"

record order_note =
  onote_user :: jsstr
  onote_kind :: string
  onote_title :: jsstr
  onote_message :: jsstr
  onote_order :: "jsstr option"

record order_db = group_db +
  orders :: "order list"
  deliveries :: "delivery list"
  order_notes :: "order_note list"
  order_seq :: nat

definition orders_ok :: "order_db \<Rightarrow> bool" where
  "orders_ok d \<longleftrightarrow> distinct (map ord_id (orders d)) \<and> distinct (map ord_number (orders d)) \<and>
     (\<forall>x \<in> set (orders d). 0 < ord_required x \<and> ord_group x \<in> group_id ` set (group_rows d) \<and>
        ord_creator x \<in> account_id ` set (accounts d) \<and>
        (case ord_assignee x of None \<Rightarrow> True | Some u \<Rightarrow> u \<in> account_id ` set (accounts d))) \<and>
     distinct (map del_id (deliveries d)) \<and>
     (\<forall>y \<in> set (deliveries d). 0 < del_quantity y \<and> del_order y \<in> ord_id ` set (orders d) \<and> del_user y \<in> account_id ` set (accounts d))"

section \<open>Order numbers\<close>

definition materialOrderCodes :: "(string \<times> string) list" where
  "materialOrderCodes =
     [(''agricium'', ''AGRI''), (''aluminum'', ''ALUM''), (''aphorite'', ''APHO''), (''aslarite'', ''ASLA''), (''beryl'', ''BERY''),
      (''bexalite'', ''BEXA''), (''boron'', ''BORO''), (''borase'', ''BORA''), (''copper'', ''COPP''), (''corundum'', ''CORU''),
      (''diamond'', ''DIAM''), (''dolivine'', ''DOLI''), (''gold'', ''GOLD''), (''hadanite'', ''HADA''), (''hephaestanite'', ''HEPH''),
      (''iron'', ''IRON''), (''janalite'', ''JANA''), (''laranite'', ''LARA''), (''ouratite'', ''OURA''), (''quantainium'', ''QUAN''),
      (''savrilium'', ''SAVR''), (''stileron'', ''STIL''), (''taranite'', ''TARA''), (''titanium'', ''TITA''), (''tungsten'', ''TUNG'')]"

definition materialOrderCode :: "(jsstr \<Rightarrow> jsstr) \<Rightarrow> jsstr \<Rightarrow> jsstr" where
  "materialOrderCode lower material =
     (case map_of (map (\<lambda>(n, c). (js n, js c)) materialOrderCodes) (lower (js_trim material)) of None \<Rightarrow> js ''ITEM'' | Some c \<Rightarrow> c)"

text \<open>\<open>lpad(text, n, '0')\<close>, which cuts off what is longer.\<close>

definition lpad :: "nat \<Rightarrow> jsstr \<Rightarrow> jsstr" where
  "lpad n s = replicate (n - length s) 48 @ take n s"

definition order_number :: "jsstr \<Rightarrow> nat \<Rightarrow> nat \<Rightarrow> jsstr" where
  "order_number code year n = code @ 45 # decimal year @ 45 # lpad 4 (decimal n)"

section \<open>Creating\<close>

datatype order_answer = Order_error nat string | Order_created jsstr jsstr | Order_done

definition order_unavailable :: order_answer where
  "order_unavailable = Order_error 503 ''service unavailable''"

record order_config =
  order_uuid :: "jsstr \<Rightarrow> jsstr option"
  order_lower :: "jsstr \<Rightarrow> jsstr"
  order_year :: "int \<Rightarrow> nat"
  order_number_text :: "rat \<Rightarrow> jsstr"

definition nonempty :: "jsstr option \<Rightarrow> jsstr option" where
  "nonempty v = (if or_empty v = [] then None else v)"

definition unit_param :: "parameters \<Rightarrow> jsstr" where
  "unit_param get = (if or_empty (get ''quantity_unit'') = [] then js ''SCU'' else or_empty (get ''quantity_unit''))"

definition new_order :: "order_config \<Rightarrow> parameters \<Rightarrow> jsstr \<Rightarrow> rat \<Rightarrow> jsstr \<Rightarrow> jsstr \<Rightarrow> jsstr \<Rightarrow> int \<Rightarrow> nat \<Rightarrow> order" where
  "new_order cfg get material qty fresh gid uid now n =
     \<lparr>ord_id = fresh, ord_number = order_number (materialOrderCode (order_lower cfg) material) (order_year cfg now) n, ord_group = gid,
      ord_creator = uid, ord_assignee = None, ord_tag = nonempty (get ''blueprint_tag''), ord_material = material, ord_required = qty,
      ord_unit = unit_param get, ord_quality = nonempty (get ''required_quality''), ord_delivered = None, ord_delivered_quality = None,
      ord_status = Order_open, ord_note = nonempty (get ''note''), ord_created = now, ord_completed = None, ord_hidden = None\<rparr>"

text \<open>\<open>nextval\<close> advances whether or not the row is accepted.\<close>

definition next_order :: "order_db \<Rightarrow> order_db" where
  "next_order d = d\<lparr>order_seq := order_seq d + 1\<rparr>"

definition order_accepted :: "order \<Rightarrow> order_db \<Rightarrow> bool" where
  "order_accepted x d \<longleftrightarrow> ord_id x \<notin> ord_id ` set (orders d) \<and> ord_number x \<notin> ord_number ` set (orders d) \<and> 0 < ord_required x \<and>
     ord_group x \<in> group_id ` set (group_rows d) \<and> ord_creator x \<in> account_id ` set (accounts d) \<and>
     list_all pg_text_option [Some (ord_material x), ord_tag x, Some (ord_unit x), ord_quality x, ord_note x]"

definition created_notes :: "order_config \<Rightarrow> order \<Rightarrow> order_db \<Rightarrow> order_note list" where
  "created_notes cfg x d =
     map (\<lambda>m. \<lparr>onote_user = member_user m, onote_kind = ''order_created'', onote_title = js ''NEW ORDER '' @ ord_number x,
          onote_message = ord_material x @ [32, 183, 32] @ order_number_text cfg (ord_required x) @ 32 # ord_unit x,
          onote_order = Some (ord_id x)\<rparr>)
       (filter (\<lambda>m. member_group m = ord_group x \<and> member_user m \<noteq> ord_creator x) (members d))"

definition createOrder ::
    "order_config \<Rightarrow> order_db route_env \<Rightarrow> jsstr option \<Rightarrow> parameters \<Rightarrow> order_db \<Rightarrow> order_answer \<times> order_db" where
  "createOrder cfg env context get d0 =
     (case context of
        None \<Rightarrow> (Order_error 401 ''login required'', d0)
      | Some uid \<Rightarrow>
          let d1 = others env 0 d0; material = js_trim (or_empty (get ''material_name'')) in
          case finite_number (param_number (get ''required_quantity'')) of
            None \<Rightarrow> (Order_error 400 ''invalid order'', d1)
          | Some qty \<Rightarrow>
              if \<not> group_id_pattern (get ''group_id'') \<or> \<not> validText 120 (Some (JStr material)) \<or> qty \<le> 0
              then (Order_error 400 ''invalid order'', d1)
              else if query_fails env 0 then (order_unavailable, d1)
              else case order_uuid cfg (or_empty (get ''group_id'')) of
                None \<Rightarrow> (order_unavailable, d1)
              | Some gid \<Rightarrow>
                  if role_of d1 gid uid = None then (Order_error 403 ''group member required'', d1)
                  else let d2 = others env 1 d1; x = new_order cfg get material qty (new_id env 0) gid uid (moment env) (order_seq d2 + 1) in
                    if query_fails env 1 then (order_unavailable, d2)
                    else if \<not> order_accepted x d2 then (order_unavailable, next_order d2)
                    else let d3 = others env 2 ((next_order d2)\<lparr>orders := orders d2 @ [x]\<rparr>) in
                      if query_fails env 2 \<or> ord_id x \<notin> ord_id ` set (orders d3) then (order_unavailable, d3)
                      else let d4 = others env 3 (d3\<lparr>order_notes := order_notes d3 @ created_notes cfg x d3\<rparr>) in
                        if query_fails env 3 then (order_unavailable, d4)
                        else (Order_created (ord_id x) (ord_number x), d4))"

section \<open>Actions\<close>

definition find_order :: "jsstr \<Rightarrow> jsstr \<Rightarrow> order_db \<Rightarrow> order option" where
  "find_order i uid d = find (\<lambda>x. ord_id x = i \<and> role_of d (ord_group x) uid \<noteq> None) (orders d)"

definition set_order :: "jsstr \<Rightarrow> (order \<Rightarrow> order) \<Rightarrow> order_db \<Rightarrow> order_db" where
  "set_order i f d = d\<lparr>orders := update_where (\<lambda>x. ord_id x = i) f (orders d)\<rparr>"

text \<open>A notification whose account or order is gone is refused.\<close>

definition add_order_note :: "order_note \<Rightarrow> order_db \<Rightarrow> order_db option" where
  "add_order_note n d =
     (if onote_user n \<in> account_id ` set (accounts d) \<and> (case onote_order n of None \<Rightarrow> True | Some i \<Rightarrow> i \<in> ord_id ` set (orders d))
      then Some (d\<lparr>order_notes := order_notes d @ [n]\<rparr>) else None)"

definition claimed_note :: "caller option \<Rightarrow> order \<Rightarrow> order_note" where
  "claimed_note current x =
     \<lparr>onote_user = ord_creator x, onote_kind = ''order_claimed'', onote_title = js ''ORDER CLAIMED '' @ ord_number x,
      onote_message = (case current of None \<Rightarrow> js ''A member'' | Some c \<Rightarrow> missionActorName c) @ [32, 183, 32] @ ord_material x,
      onote_order = Some (ord_id x)\<rparr>"

definition claimOrder ::
    "order_db route_env \<Rightarrow> jsstr \<Rightarrow> caller option \<Rightarrow> order \<Rightarrow> order_db \<Rightarrow> order_answer \<times> order_db" where
  "claimOrder env uid current x d1 =
     (if ord_status x \<noteq> Order_open then (Order_error 409 ''order not open'', d1)
      else let d2 = others env 1 d1 in
        if query_fails env 1 \<or> uid \<notin> account_id ` set (accounts d2) then (order_unavailable, d2)
        else let d3 = set_order (ord_id x) (\<lambda>y. y\<lparr>ord_status := Order_claimed, ord_assignee := Some uid\<rparr>) d2 in
          if map_option caller_id current = Some (ord_creator x) then (Order_done, d3)
          else let d4 = others env 2 d3 in
            if query_fails env 2 then (order_unavailable, d4)
            else case add_order_note (claimed_note current x) d4 of None \<Rightarrow> (order_unavailable, d4) | Some d5 \<Rightarrow> (Order_done, d5))"

definition delivered_sum :: "jsstr \<Rightarrow> order_db \<Rightarrow> rat" where
  "delivered_sum i d = sum_list (map del_quantity (filter (\<lambda>y. del_order y = i) (deliveries d)))"

text \<open>The transaction of a report: \<open>v\<close> is what is committed when its sum is computed.\<close>

definition report_tx ::
    "order_config \<Rightarrow> order_db \<Rightarrow> order \<Rightarrow> jsstr \<Rightarrow> rat \<Rightarrow> jsstr option \<Rightarrow> jsstr \<Rightarrow> int \<Rightarrow> order_db \<Rightarrow> (order_answer, order_db) tx_outcome" where
  "report_tx cfg v x uid qty quality fresh now d =
     (if fresh \<in> del_id ` set (deliveries d) \<or> qty \<le> 0 \<or> ord_id x \<notin> ord_id ` set (orders d) \<or> uid \<notin> account_id ` set (accounts d) \<or>
        \<not> pg_text_option quality then Throw
      else let total_quantity = delivered_sum (ord_id x) v + qty;
               next_status = (if ord_required x \<le> total_quantity then Order_completed else Order_reported);
               d1 = d\<lparr>deliveries := deliveries d @ [\<lparr>del_id = fresh, del_order = ord_id x, del_user = uid, del_quantity = qty, del_quality = quality\<rparr>]\<rparr>;
               d2 = set_order (ord_id x) (\<lambda>y. y\<lparr>ord_status := next_status, ord_delivered := Some total_quantity, ord_delivered_quality := quality,
                 ord_completed := (if next_status = Order_completed then Some now else None)\<rparr>) d1 in
        if next_status = Order_completed \<and> ord_status x \<noteq> Order_completed
        then (case add_order_note \<lparr>onote_user = ord_creator x, onote_kind = ''order_completed'', onote_title = js ''ORDER COMPLETED '' @ ord_number x,
                onote_message = ord_material x @ [32, 183, 32] @ order_number_text cfg total_quantity @ 32 # ord_unit x,
                onote_order = Some (ord_id x)\<rparr> d2 of None \<Rightarrow> Throw | Some d3 \<Rightarrow> Commit Order_done d3)
        else Commit Order_done d2)"

definition delivered_so_far :: "order \<Rightarrow> rat" where
  "delivered_so_far x = (case ord_delivered x of None \<Rightarrow> 0 | Some q \<Rightarrow> q)"

definition reportOrder ::
    "order_config \<Rightarrow> order_db route_env \<Rightarrow> jsstr \<Rightarrow> parameters \<Rightarrow> order \<Rightarrow> order_db \<Rightarrow> order_answer \<times> order_db" where
  "reportOrder cfg env uid get x d1 =
     (case finite_number (param_number (get ''delivered_quantity'')) of
        None \<Rightarrow> (Order_error 400 ''invalid quantity'', d1)
      | Some qty \<Rightarrow>
          if qty \<le> 0 then (Order_error 400 ''invalid quantity'', d1)
          else if ord_status x \<in> {Order_completed, Order_cancelled} then (Order_error 409 ''order is not open for delivery'', d1)
          else if max (ord_required x - delivered_so_far x) 0 < qty then (Order_error 400 ''delivery exceeds remaining quantity'', d1)
          else let v = others env 1 d1; d2 = others env 2 v in
            if query_fails env 1 then (order_unavailable, v)
            else run_tx (tx_ends env) order_unavailable
              (report_tx cfg v x uid qty (nonempty (get ''delivered_quality'')) (new_id env 0) (moment env)) d2)"

text \<open>The three actions of the creator or an administrator: one update each.\<close>

definition manageOrder ::
    "order_db route_env \<Rightarrow> caller option \<Rightarrow> bool \<Rightarrow> order_answer \<Rightarrow> (order \<Rightarrow> order) \<Rightarrow> order \<Rightarrow> order_db \<Rightarrow> order_answer \<times> order_db" where
  "manageOrder env current guard refused f x d1 =
     (if \<not> (case current of None \<Rightarrow> False | Some c \<Rightarrow> caller_admin c \<or> caller_id c = ord_creator x)
      then (Order_error 403 ''creator or app admin required'', d1)
      else if \<not> guard then (refused, d1)
      else let d2 = others env 1 d1 in
        if query_fails env 1 then (order_unavailable, d2) else (Order_done, set_order (ord_id x) f d2))"

definition orderAction ::
    "order_config \<Rightarrow> order_db route_env \<Rightarrow> jsstr option \<Rightarrow> caller option \<Rightarrow> parameters \<Rightarrow> order_db \<Rightarrow> order_answer \<times> order_db" where
  "orderAction cfg env context current get d0 =
     (case context of
        None \<Rightarrow> (Order_error 401 ''login required'', d0)
      | Some uid \<Rightarrow>
          let d1 = others env 0 d0; action = or_empty (get ''action'') in
          if query_fails env 0 then (order_unavailable, d1)
          else case order_uuid cfg (or_empty (get ''id'')) of
            None \<Rightarrow> (order_unavailable, d1)
          | Some i \<Rightarrow>
              case find_order i uid d1 of
                None \<Rightarrow> (Order_error 404 ''order not found'', d1)
              | Some x \<Rightarrow>
                  if action = js ''claim'' then claimOrder env uid current x d1
                  else if action = js ''report'' then reportOrder cfg env uid get x d1
                  else if action = js ''complete''
                  then manageOrder env current (ord_required x \<le> delivered_so_far x) (Order_error 409 ''required quantity not reached'')
                    (\<lambda>y. y\<lparr>ord_status := Order_completed, ord_completed := Some (moment env)\<rparr>) x d1
                  else if action = js ''hide''
                  then manageOrder env current True Order_done (\<lambda>y. y\<lparr>ord_hidden := Some (moment env)\<rparr>) x d1
                  else if action = js ''cancel''
                  then manageOrder env current True Order_done (\<lambda>y. y\<lparr>ord_status := Order_cancelled\<rparr>) x d1
                  else (Order_error 400 ''invalid action'', d1))"

definition clear_orders :: "order_db \<Rightarrow> order_db" where
  "clear_orders d = d\<lparr>orders := [], deliveries := [], order_notes := delete_where (\<lambda>n. onote_order n \<noteq> None) (order_notes d)\<rparr>"

definition clearOrders :: "order_db route_env \<Rightarrow> bool \<Rightarrow> order_db \<Rightarrow> order_answer \<times> order_db" where
  "clearOrders env admin d0 =
     (if \<not> admin then (Order_error 403 ''app admin required'', d0)
      else let d1 = others env 0 d0 in
        if query_fails env 0 then (order_unavailable, d1)
        else run_tx (tx_ends env) (Order_error 500 ''unable to clear orders'') (\<lambda>d. Commit Order_done (clear_orders d)) d1)"

section \<open>What is shown\<close>

datatype shown_status = Shown_open | Shown_progress | Shown_completed | Shown_cancelled

definition normalizeOrderStatus :: "rat \<Rightarrow> order \<Rightarrow> shown_status" where
  "normalizeOrderStatus delivered_quantity x =
     (if ord_status x = Order_cancelled then Shown_cancelled
      else let required = max (ord_required x) 0; delivered = max delivered_quantity 0 in
        if 0 < required \<and> required \<le> delivered then Shown_completed
        else if 0 < delivered \<or> or_empty (ord_assignee x) \<noteq> [] \<or> ord_status x \<in> {Order_claimed, Order_reported} then Shown_progress
        else Shown_open)"

text \<open>\<open>COALESCE(d.delivered_quantity, o.delivered_quantity, 0)\<close> of the list.\<close>

definition listed_delivered :: "order_db \<Rightarrow> order \<Rightarrow> rat" where
  "listed_delivered d x =
     (if \<exists>y \<in> set (deliveries d). del_order y = ord_id x then delivered_sum (ord_id x) d else delivered_so_far x)"

end
