(* ===== verification/Orders_Theorems.thy ===== *)
theory Orders_Theorems
  imports Orders
begin

text \<open>
  What the material orders keep: the numbers they get, and the books of an order while requests follow one another.
\<close>

section \<open>Numbers\<close>

lemma decimal_long: "10 \<le> n \<Longrightarrow> decimal n = decimal (n div 10) @ [48 + n mod 10]"
  by (subst decimal.simps) simp

lemma length_decimal_le: "n < 10 ^ Suc k \<Longrightarrow> length (decimal n) \<le> Suc k"
proof (induction k arbitrary: n)
  case 0
  then show ?case by (subst decimal.simps) simp
next
  case (Suc k)
  show ?case
  proof (cases "n < 10")
    case True
    then show ?thesis by (subst decimal.simps) simp
  next
    case False
    have "n div 10 < 10 ^ Suc k" using Suc.prems by (simp add: less_mult_imp_div_less mult.commute)
    from Suc.IH [OF this] False show ?thesis by (simp add: decimal_long)
  qed
qed

lemma length_decimal_ge: "10 ^ k \<le> n \<Longrightarrow> Suc k \<le> length (decimal n)"
proof (induction k arbitrary: n)
  case 0
  then show ?case by (subst decimal.simps) simp
next
  case (Suc k)
  have "10 ^ k \<le> n div 10" using Suc.prems by (simp add: less_eq_div_iff_mult_less_eq mult.commute)
  moreover have "10 \<le> n" using Suc.prems by (meson dual_order.trans power_increasing one_le_numeral power_one_right le_add1 Suc_leI zero_less_Suc self_le_power)
  ultimately show ?case using Suc.IH by (simp add: decimal_long)
qed

lemma take_decimal: "10000 \<le> n \<Longrightarrow> take 4 (decimal n) = take 4 (decimal (n div 10))"
  using length_decimal_ge [of 3 "n div 10"] decimal_long [of n] by simp

lemma lpad_long: "1000 \<le> n \<Longrightarrow> lpad 4 (decimal n) = take 4 (decimal n)"
  using length_decimal_ge [of 3 n] by (simp add: lpad_def)

lemma number_cut: "1000 \<le> n \<Longrightarrow> \<exists>m \<in> {1000..9999}. lpad 4 (decimal n) = lpad 4 (decimal m)"
proof (induction n rule: less_induct)
  case (less n)
  show ?case
  proof (cases "n < 10000")
    case True
    with less.prems show ?thesis by (intro bexI [of _ n]) simp_all
  next
    case False
    then have "1000 \<le> n div 10" "n div 10 < n" by simp_all
    with less.IH [of "n div 10"] False show ?thesis by (simp add: lpad_long take_decimal)
  qed
qed

lemma digits_value_zeros: "digits_value 0 (replicate k 48 @ s) = digits_value 0 s"
  by (induction k) simp_all

lemma lpad_value: "n < 10000 \<Longrightarrow> digits_value 0 (lpad 4 (decimal n)) = n"
  using length_decimal_le [of n 3] by (simp add: lpad_def digits_value_zeros decimal_value)

lemma length_materialOrderCode: "length (materialOrderCode lower m) = 4"
proof -
  have "\<forall>p \<in> set materialOrderCodes. length (snd p) = 4" by (simp add: materialOrderCodes_def)
  then show ?thesis by (fastforce simp: materialOrderCode_def js_def dest!: map_of_SomeD split: option.splits)
qed

lemma decimal_bar: "takeWhile ((\<noteq>) 45) (decimal y @ 45 # s) = decimal y"
  using decimal_plain [of y] by (subst takeWhile_append2) auto

lemma order_number_inject:
  assumes "length c = length c'"
  shows "order_number c y m = order_number c' y' n \<longleftrightarrow> c = c' \<and> y = y' \<and> lpad 4 (decimal m) = lpad 4 (decimal n)"
proof
  assume "order_number c y m = order_number c' y' n"
  with assms have *: "c = c'" "decimal y @ 45 # lpad 4 (decimal m) = decimal y' @ 45 # lpad 4 (decimal n)"
    by (simp_all add: order_number_def)
  from arg_cong [OF *(2), of "takeWhile ((\<noteq>) 45)"] have "decimal y = decimal y'" unfolding decimal_bar .
  with * show "c = c' \<and> y = y' \<and> lpad 4 (decimal m) = lpad 4 (decimal n)" by simp
qed (simp add: order_number_def)

text \<open>No other request while this one waits.\<close>

definition quiet :: "'d route_env \<Rightarrow> bool" where
  "quiet env \<longleftrightarrow> (\<forall>i d. others env i d = d)"

lemma quiet_others [simp]: "quiet env \<Longrightarrow> others env i d = d"
  by (simp add: quiet_def)

lemma undisturbed_quiet [simp]: "quiet (undisturbed :: 'd route_env)"
  by (simp add: quiet_def)

definition order_failed :: "order_answer \<Rightarrow> bool" where
  "order_failed a \<longleftrightarrow> (\<exists>st e. a = Order_error st e)"

lemma order_answers [simp]: "order_failed (Order_error st e)" "order_failed order_unavailable" "\<not> order_failed Order_done"
  "\<not> order_failed (Order_created i n)"
  by (simp_all add: order_failed_def order_unavailable_def)

lemma lpad_inject: "m < 10000 \<Longrightarrow> n < 10000 \<Longrightarrow> lpad 4 (decimal m) = lpad 4 (decimal n) \<longleftrightarrow> m = n"
  by (metis lpad_value)

text \<open>What is created, if anything is.\<close>

lemma createOrder_cases:
  assumes quiet: "quiet env" and run: "createOrder cfg env context get d = (a, d')"
  shows "order_failed a \<and> orders d' = orders d \<and> deliveries d' = deliveries d \<or>
    (\<exists>x qty gid uid. x = new_order cfg get (js_trim (or_empty (get ''material_name''))) qty (new_id env 0) gid uid (moment env) (order_seq d + 1) \<and>
       order_accepted x d \<and> orders d' = orders d @ [x] \<and> deliveries d' = deliveries d)"
proof (cases "order_failed a \<and> d' = d \<or> order_failed a \<and> d' = next_order d")
  case True
  then show ?thesis by (auto simp: next_order_def)
next
  case False
  from run quiet False obtain x qty gid uid where x: "x = new_order cfg get (js_trim (or_empty (get ''material_name''))) qty (new_id env 0) gid uid (moment env) (order_seq d + 1)"
      "order_accepted x d" and d': "orders d' = orders d @ [x]" "deliveries d' = deliveries d"
    unfolding createOrder_def Let_def
    by (simp split: option.split_asm if_split_asm) (auto simp: next_order_def)
  then show ?thesis by blast
qed

text \<open>C25. Up to sequence value 9999 two orders have one number only with the same code, year and value; every
  later value gets the number of an earlier one, and an order whose number is taken is refused.\<close>

theorem order_numbers_limited:
  "(m < 10000 \<and> n < 10000 \<longrightarrow>
      (order_number (materialOrderCode lower a) y m = order_number (materialOrderCode lower b) y' n \<longleftrightarrow>
         materialOrderCode lower a = materialOrderCode lower b \<and> y = y' \<and> m = n)) \<and>
   (10000 \<le> n \<longrightarrow> (\<exists>k \<in> {1000..9999}. \<forall>c y. order_number c y n = order_number c y k)) \<and>
   (quiet env \<and> order_number (materialOrderCode (order_lower cfg) (js_trim (or_empty (get ''material_name'')))) (order_year cfg (moment env))
        (order_seq d + 1) \<in> ord_number ` set (orders d) \<longrightarrow> order_failed (fst (createOrder cfg env context get d)))"
proof (intro conjI impI)
  assume small: "m < 10000 \<and> n < 10000"
  show "order_number (materialOrderCode lower a) y m = order_number (materialOrderCode lower b) y' n \<longleftrightarrow>
         materialOrderCode lower a = materialOrderCode lower b \<and> y = y' \<and> m = n"
    using small by (simp add: order_number_inject length_materialOrderCode lpad_inject)
next
  assume "10000 \<le> n"
  then obtain k where "k \<in> {1000..9999}" "lpad 4 (decimal n) = lpad 4 (decimal k)" using number_cut [of n] by auto
  then show "\<exists>k \<in> {1000..9999}. \<forall>c y. order_number c y n = order_number c y k"
    by (intro bexI [of _ k]) (auto simp: order_number_def)
next
  assume taken: "quiet env \<and> order_number (materialOrderCode (order_lower cfg) (js_trim (or_empty (get ''material_name'')))) (order_year cfg (moment env))
        (order_seq d + 1) \<in> ord_number ` set (orders d)"
  then show "order_failed (fst (createOrder cfg env context get d))"
    using createOrder_cases [of env cfg "context" get d "fst (createOrder cfg env context get d)" "snd (createOrder cfg env context get d)"]
    by (auto simp: order_accepted_def new_order_def)
qed

section \<open>The books of an order\<close>

datatype order_request =
    Create_order "jsstr option" parameters
  | Act_on_order "jsstr option" "caller option" parameters
  | Clear_orders bool

fun order_routes :: "order_config \<Rightarrow> order_db route_env \<Rightarrow> order_request \<Rightarrow> order_db \<Rightarrow> order_answer \<times> order_db" where
  "order_routes cfg env (Create_order context get) d = createOrder cfg env context get d"
| "order_routes cfg env (Act_on_order context current get) d = orderAction cfg env context current get d"
| "order_routes cfg env (Clear_orders admin) d = clearOrders env admin d"

text \<open>One request after the other, with faults of the database.\<close>

inductive served :: "order_config \<Rightarrow> order_db \<Rightarrow> order_db \<Rightarrow> bool" for cfg where
  served: "quiet env \<Longrightarrow> order_routes cfg env r d = (a, d') \<Longrightarrow> served cfg d d'"

definition order_sound :: "order_db \<Rightarrow> order \<Rightarrow> bool" where
  "order_sound d x \<longleftrightarrow> 0 < ord_required x \<and>
     ord_delivered x = (if \<exists>y \<in> set (deliveries d). del_order y = ord_id x then Some (delivered_sum (ord_id x) d) else None) \<and>
     delivered_sum (ord_id x) d \<le> ord_required x \<and>
     (ord_status x \<noteq> Order_cancelled \<longrightarrow> (ord_status x = Order_completed \<longleftrightarrow> delivered_sum (ord_id x) d = ord_required x)) \<and>
     (ord_status x = Order_open \<longrightarrow> ord_assignee x = None \<and> ord_delivered x = None)"

definition orders_sound :: "order_db \<Rightarrow> bool" where
  "orders_sound d \<longleftrightarrow> distinct (map ord_id (orders d)) \<and>
     (\<forall>y \<in> set (deliveries d). 0 < del_quantity y \<and> del_order y \<in> ord_id ` set (orders d)) \<and>
     (\<forall>x \<in> set (orders d). order_sound d x)"

definition no_orders :: "order_db \<Rightarrow> bool" where
  "no_orders d \<longleftrightarrow> orders d = [] \<and> deliveries d = []"

lemma no_orders_sound: "no_orders d \<Longrightarrow> orders_sound d"
  by (simp add: no_orders_def orders_sound_def)

lemma delivered_sum_cong: "deliveries d' = deliveries d \<Longrightarrow> delivered_sum i d' = delivered_sum i d"
  by (simp add: delivered_sum_def)

lemma order_sound_cong: "deliveries d' = deliveries d \<Longrightarrow> order_sound d' x = order_sound d x"
  by (simp add: order_sound_def delivered_sum_def)

lemma orders_sound_cong: "orders d' = orders d \<Longrightarrow> deliveries d' = deliveries d \<Longrightarrow> orders_sound d' = orders_sound d"
  unfolding orders_sound_def by (simp add: order_sound_cong [where d = d and d' = d'])

lemma no_deliveries_sum: "\<not> (\<exists>y \<in> set (deliveries d). del_order y = i) \<Longrightarrow> delivered_sum i d = 0"
proof -
  assume "\<not> (\<exists>y \<in> set (deliveries d). del_order y = i)"
  then have "filter (\<lambda>y. del_order y = i) (deliveries d) = []" by (simp add: filter_empty_conv)
  then show ?thesis by (simp add: delivered_sum_def)
qed

lemma delivered_sum_nonneg: "orders_sound d \<Longrightarrow> 0 \<le> delivered_sum i d"
  unfolding delivered_sum_def orders_sound_def by (intro sum_list_nonneg) (auto simp: less_imp_le)

lemma sound_delivered: "order_sound d x \<Longrightarrow> delivered_so_far x = delivered_sum (ord_id x) d"
  using no_deliveries_sum [of d "ord_id x"] by (auto simp: order_sound_def delivered_so_far_def)

lemma find_order_mem: "find_order i uid d = Some x \<Longrightarrow> x \<in> set (orders d) \<and> ord_id x = i"
  unfolding find_order_def by (auto dest: find_Some_mem)

lemma set_order_fields [simp]: "deliveries (set_order i f d) = deliveries d"
  "orders (set_order i f d) = update_where (\<lambda>x. ord_id x = i) f (orders d)"
  by (simp_all add: set_order_def)

lemma find_order_sound: "find_order i uid d = Some x \<Longrightarrow> orders_sound d \<Longrightarrow> order_sound d x"
  by (auto simp: orders_sound_def dest!: find_order_mem)

lemma same_order:
  assumes "orders_sound d" "x \<in> set (orders d)" "y \<in> set (orders d)" "ord_id y = ord_id x"
  shows "y = x"
  using assms by (auto simp: orders_sound_def distinct_map dest: inj_onD)

lemma append_order_sound:
  assumes sound: "orders_sound d" and fresh: "ord_id x \<notin> ord_id ` set (orders d)" and new: "0 < ord_required x" "ord_status x = Order_open"
    "ord_assignee x = None" "ord_delivered x = None" and d': "orders d' = orders d @ [x]" "deliveries d' = deliveries d"
  shows "orders_sound d'"
proof -
  have none: "\<not> (\<exists>y \<in> set (deliveries d). del_order y = ord_id x)" using sound fresh unfolding orders_sound_def by (metis (mono_tags))
  from none no_deliveries_sum [OF none] new have "order_sound d x" by (auto simp: order_sound_def)
  with sound fresh d' show ?thesis unfolding orders_sound_def by (auto simp: order_sound_cong [OF d'(2)])
qed

lemma set_order_sound:
  assumes sound: "orders_sound d" and x: "x \<in> set (orders d)" and f: "order_sound d' (f x)" "ord_id (f x) = ord_id x"
    and keep: "\<And>y. ord_id (f y) = ord_id y"
    and d': "orders d' = update_where (\<lambda>y. ord_id y = ord_id x) f (orders d)"
    and others: "\<And>y. y \<in> set (orders d) \<Longrightarrow> ord_id y \<noteq> ord_id x \<Longrightarrow> order_sound d y \<Longrightarrow> order_sound d' y"
    and del: "\<forall>y \<in> set (deliveries d'). 0 < del_quantity y \<and> del_order y \<in> ord_id ` set (orders d)"
  shows "orders_sound d'"
proof -
  have ids: "map ord_id (orders d') = map ord_id (orders d)" unfolding d' by (simp add: update_where_def keep)
  have "order_sound d' z" if z: "z \<in> set (orders d')" for z
  proof -
    from z obtain y where y: "y \<in> set (orders d)" "z = (if ord_id y = ord_id x then f y else y)"
      by (auto simp: d' update_where_def)
    show ?thesis
    proof (cases "ord_id y = ord_id x")
      case True
      with same_order [OF sound x y(1)] y(2) f(1) show ?thesis by simp
    next
      case False
      with y sound others [OF y(1)] show ?thesis by (simp add: orders_sound_def)
    qed
  qed
  moreover have "ord_id ` set (orders d') = ord_id ` set (orders d)" using arg_cong [OF ids, of set] by simp
  ultimately show ?thesis using del sound unfolding orders_sound_def ids by simp
qed

lemma update_order_sound:
  assumes "orders_sound d" "x \<in> set (orders d)" "order_sound d (f x)" "\<And>y. ord_id (f y) = ord_id y"
    and "orders d' = update_where (\<lambda>y. ord_id y = ord_id x) f (orders d)" "deliveries d' = deliveries d"
  shows "orders_sound d'"
  by (rule set_order_sound [OF assms(1,2) _ _ assms(4,5)])
    (use assms in \<open>simp_all add: order_sound_cong [OF assms(6)] orders_sound_def\<close>)

section \<open>Each request keeps them\<close>

lemma createOrder_sound:
  assumes "quiet env" "createOrder cfg env context get d = (a, d')" "orders_sound d"
  shows "orders_sound d'"
  using createOrder_cases [OF assms(1,2)]
proof (elim disjE exE conjE)
  assume "orders d' = orders d" "deliveries d' = deliveries d"
  then show ?thesis using assms(3) orders_sound_cong by blast
next
  fix x qty gid uid
  assume x: "x = new_order cfg get (js_trim (or_empty (get ''material_name''))) qty (new_id env 0) gid uid (moment env) (order_seq d + 1)"
    "order_accepted x d" and d': "orders d' = orders d @ [x]" "deliveries d' = deliveries d"
  show ?thesis
    by (rule append_order_sound [OF assms(3) _ _ _ _ _ d']) (use x in \<open>auto simp: order_accepted_def new_order_def\<close>)
qed

lemma add_order_note_keeps: "add_order_note n d = Some d' \<Longrightarrow> orders d' = orders d \<and> deliveries d' = deliveries d"
  by (auto simp: add_order_note_def split: if_splits)

lemma run_tx_cases: "run_tx f e body d = (a, d') \<Longrightarrow> d' = d \<or> (\<exists>b. body d = Commit b d')"
  by (auto simp: run_tx_def split: tx_outcome.splits tx_fault.splits if_splits)

definition reported_order :: "order \<Rightarrow> rat \<Rightarrow> jsstr option \<Rightarrow> int \<Rightarrow> order \<Rightarrow> order" where
  "reported_order x total_quantity quality now y =
     y\<lparr>ord_status := (if ord_required x \<le> total_quantity then Order_completed else Order_reported), ord_delivered := Some total_quantity,
       ord_delivered_quality := quality, ord_completed := (if ord_required x \<le> total_quantity then Some now else None)\<rparr>"

lemma report_shape:
  assumes "report_tx cfg v x uid qty quality fresh now d = Commit a d'"
  shows "0 < qty \<and> ord_id x \<in> ord_id ` set (orders d) \<and>
    deliveries d' = deliveries d @ [\<lparr>del_id = fresh, del_order = ord_id x, del_user = uid, del_quantity = qty, del_quality = quality\<rparr>] \<and>
    orders d' = update_where (\<lambda>y. ord_id y = ord_id x) (reported_order x (delivered_sum (ord_id x) v + qty) quality now) (orders d)"
proof -
  note report = assms [unfolded report_tx_def Let_def]
  from report have "0 < qty" "ord_id x \<in> ord_id ` set (orders d)" by (simp_all split: if_split_asm)
  with report show ?thesis
    by (auto simp: reported_order_def fun_eq_iff dest!: add_order_note_keeps intro!: arg_cong2 [where f = "update_where _"]
        arg_cong [where f = "\<lambda>g. update_where _ g _"] split: if_split_asm option.split_asm)
qed

lemma delivered_sum_snoc:
  "deliveries d' = deliveries d @ [y] \<Longrightarrow>
     delivered_sum i d' = delivered_sum i d + (if del_order y = i then del_quantity y else 0)"
  by (simp add: delivered_sum_def)

lemma report_sound:
  assumes sound: "orders_sound d" and x: "x \<in> set (orders d)" and open_order: "ord_status x \<noteq> Order_completed" "ord_status x \<noteq> Order_cancelled"
    and room: "qty \<le> max (ord_required x - delivered_so_far x) 0"
    and run: "report_tx cfg d x uid qty quality fresh now d = Commit a d'"
  shows "orders_sound d'"
proof -
  let ?f = "reported_order x (delivered_sum (ord_id x) d + qty) quality now"
  from report_shape [OF run] have pos: "0 < qty" and dels: "deliveries d' = deliveries d @
      [\<lparr>del_id = fresh, del_order = ord_id x, del_user = uid, del_quantity = qty, del_quality = quality\<rparr>]"
    and ords: "orders d' = update_where (\<lambda>y. ord_id y = ord_id x) ?f (orders d)" by blast+
  from x sound have sx: "order_sound d x" by (simp add: orders_sound_def)
  have sum_x: "delivered_sum (ord_id x) d' = delivered_sum (ord_id x) d + qty" unfolding delivered_sum_snoc [OF dels] by simp
  have le: "delivered_sum (ord_id x) d + qty \<le> ord_required x" using room pos sound_delivered [OF sx] by (simp add: max_def split: if_splits)
  show ?thesis
  proof (rule set_order_sound [OF sound x _ _ _ ords])
    have req: "0 < ord_required x" using sx by (simp add: order_sound_def)
    show "order_sound d' (?f x)" unfolding order_sound_def using le req sum_x
      by (simp add: reported_order_def dels)
    show "ord_id (?f y) = ord_id y" for y by (simp add: reported_order_def)
    show "order_sound d' y" if "ord_id y \<noteq> ord_id x" "order_sound d y" for y
    proof -
      have "delivered_sum (ord_id y) d' = delivered_sum (ord_id y) d" unfolding delivered_sum_snoc [OF dels] using that by simp
      with that show ?thesis unfolding order_sound_def by (auto simp: dels split: if_split_asm)
    qed
    show "\<forall>y \<in> set (deliveries d'). 0 < del_quantity y \<and> del_order y \<in> ord_id ` set (orders d)"
      using sound pos x by (auto simp: dels orders_sound_def)
  qed (simp add: reported_order_def)
qed

lemma reportOrder_sound:
  assumes quiet: "quiet env" and sound: "orders_sound d" and x: "x \<in> set (orders d)" and run: "reportOrder cfg env uid get x d = (a, d')"
  shows "orders_sound d'"
proof (cases "d' = d")
  case False
  then obtain qty b where "ord_status x \<noteq> Order_completed" "ord_status x \<noteq> Order_cancelled"
      "qty \<le> max (ord_required x - delivered_so_far x) 0"
      "report_tx cfg d x uid qty (nonempty (get ''delivered_quality'')) (new_id env 0) (moment env) d = Commit b d'"
    using run quiet by (auto simp: reportOrder_def Let_def not_less dest!: run_tx_cases split: option.split_asm if_split_asm)
  then show ?thesis by (rule report_sound [OF sound x])
qed (use sound in simp)

lemma claimOrder_sound:
  assumes quiet: "quiet env" and sound: "orders_sound d" and x: "x \<in> set (orders d)" and run: "claimOrder env uid current x d = (a, d')"
  shows "orders_sound d'"
proof (cases "d' = d")
  case False
  let ?f = "\<lambda>y. y\<lparr>ord_status := Order_claimed, ord_assignee := Some uid\<rparr>"
  from False run quiet have opened: "ord_status x = Order_open"
    and d': "orders d' = update_where (\<lambda>y. ord_id y = ord_id x) ?f (orders d)" "deliveries d' = deliveries d"
    by (auto simp: claimOrder_def Let_def dest!: add_order_note_keeps split: option.split_asm if_split_asm)
  from x sound have "order_sound d x" by (simp add: orders_sound_def)
  with opened have "order_sound d (?f x)" by (auto simp: order_sound_def)
  then show ?thesis by (rule update_order_sound [OF sound x _ _ d']) simp
qed (use sound in simp)

lemma manageOrder_sound:
  assumes quiet: "quiet env" and sound: "orders_sound d" and x: "x \<in> set (orders d)" and run: "manageOrder env current guard refused f x d = (a, d')"
    and f: "guard \<Longrightarrow> order_sound d x \<Longrightarrow> order_sound d (f x)" "\<And>y. ord_id (f y) = ord_id y"
  shows "orders_sound d'"
proof (cases "d' = d")
  case False
  with run quiet have guard: "guard" and d': "d' = set_order (ord_id x) f d"
    by (auto simp: manageOrder_def Let_def split: if_split_asm)
  from x sound have "order_sound d x" by (simp add: orders_sound_def)
  with f(1) guard show ?thesis by (intro update_order_sound [OF sound x _ f(2)]) (simp_all add: d')
qed (use sound in simp)

lemma hide_cancel_sound:
  "order_sound d x \<Longrightarrow> order_sound d (x\<lparr>ord_hidden := h\<rparr>)"
  "order_sound d x \<Longrightarrow> order_sound d (x\<lparr>ord_status := Order_cancelled\<rparr>)"
  "ord_required x \<le> delivered_so_far x \<Longrightarrow> order_sound d x \<Longrightarrow> order_sound d (x\<lparr>ord_status := Order_completed, ord_completed := c\<rparr>)"
  using sound_delivered [of d x] by (auto simp: order_sound_def split: if_split_asm)

lemma orderAction_sound:
  assumes quiet: "quiet env" and run: "orderAction cfg env user current get d = (a, d')" and sound: "orders_sound d"
  shows "orders_sound d'"
proof (cases "d' = d")
  case False
  let ?act = "\<lambda>n. or_empty (get ''action'') = js n"
  from False run quiet obtain uid i x where x: "find_order i uid d = Some x"
    and act: "claimOrder env uid current x d = (a, d') \<or> reportOrder cfg env uid get x d = (a, d') \<or>
      manageOrder env current (ord_required x \<le> delivered_so_far x) (Order_error 409 ''required quantity not reached'')
                    (\<lambda>y. y\<lparr>ord_status := Order_completed, ord_completed := Some (moment env)\<rparr>) x d = (a, d') \<or>
      manageOrder env current True Order_done (\<lambda>y. y\<lparr>ord_hidden := Some (moment env)\<rparr>) x d = (a, d') \<or>
      manageOrder env current True Order_done (\<lambda>y. y\<lparr>ord_status := Order_cancelled\<rparr>) x d = (a, d')"
    unfolding orderAction_def Let_def by (simp split: option.split_asm if_split_asm)
  from find_order_mem [OF x] have mem: "x \<in> set (orders d)" by blast
  from act show ?thesis
    by (elim disjE) (erule claimOrder_sound [OF quiet sound mem] reportOrder_sound [OF quiet sound mem]
      manageOrder_sound [OF quiet sound mem]; simp add: hide_cancel_sound)+
qed (use sound in simp)

lemma clearOrders_sound: "quiet env \<Longrightarrow> clearOrders env admin d = (a, d') \<Longrightarrow> orders_sound d \<Longrightarrow> orders_sound d'"
  by (auto simp: clearOrders_def Let_def clear_orders_def orders_sound_def dest!: run_tx_cases split: if_split_asm)

lemma served_sound: "served cfg d d' \<Longrightarrow> orders_sound d \<Longrightarrow> orders_sound d'"
proof (induction rule: served.induct)
  case (served env r d a d')
  then show ?case by (cases r) (auto intro: createOrder_sound orderAction_sound clearOrders_sound)
qed

interpretation order_requests: stepwise "served cfg" orders_sound for cfg
  by unfold_locales (rule served_sound)

definition shown_as :: "order_status \<Rightarrow> shown_status" where
  "shown_as s = (case s of Order_open \<Rightarrow> Shown_open | Order_claimed \<Rightarrow> Shown_progress | Order_reported \<Rightarrow> Shown_progress |
     Order_completed \<Rightarrow> Shown_completed | Order_cancelled \<Rightarrow> Shown_cancelled)"


end
