(* ===== verification/Orders_Overlap.thy ===== *)
theory Orders_Overlap
  imports Orders_Theorems
begin

text \<open>
  An order from its creation to its deliveries, and what happens to its books when two reports overlap.
\<close>

section \<open>A sample\<close>


lemma six: "param_number (Some (js ''6'')) = Fin 6" "param_number (Some (js ''10'')) = Fin 10"
  by (simp_all add: param_number_def number_of_string_def js_trim_def trim_space_def white_space_def radix_of_def split_sign_def
      unsigned_decimal_def to_double_def dec_digit_def digit_value_def base_value_def exponent_part_def js_def Let_def)

lemma gold: "js_trim (js ''gold'') = js ''gold''"
  by (simp add: js_trim_def trim_space_def white_space_def js_def)

definition sample_book :: order_db where
  "sample_book = \<lparr>accounts = [\<lparr>account_id = js ''u'', account_state = Active, account_display_name = js ''A'', account_verselink_name = None\<rparr>],
     group_rows = [\<lparr>group_id = replicate 36 48, group_name = js ''G'', group_creator = Some (js ''u'')\<rparr>],
     members = [\<lparr>member_group = replicate 36 48, member_user = js ''u'', member_role = Owner\<rparr>], orders = [], deliveries = [], order_notes = [], order_seq = 1\<rparr>"

definition sample_form :: parameters where
  "sample_form = (\<lambda>n. if n = ''group_id'' then Some (replicate 36 48) else if n = ''material_name'' then Some (js ''gold'')
     else if n = ''required_quantity'' then Some (js ''10'') else if n = ''action'' then Some (js ''report'') else if n = ''id'' then Some (js ''n'')
     else if n = ''delivered_quantity'' then Some (js ''6'') else None)"

definition sample_config :: order_config where
  "sample_config = \<lparr>order_uuid = Some, order_lower = id, order_year = (\<lambda>t. 2955), order_number_text = (\<lambda>q. [])\<rparr>"

definition sample_order :: order where
  "sample_order = \<lparr>ord_id = js ''n'', ord_number = js ''GOLD-2955-0002'', ord_group = replicate 36 48, ord_creator = js ''u'', ord_assignee = None,
     ord_tag = None, ord_material = js ''gold'', ord_required = 10, ord_unit = js ''SCU'', ord_quality = None, ord_delivered = None,
     ord_delivered_quality = None, ord_status = Order_open, ord_note = None, ord_created = 1000, ord_completed = None, ord_hidden = None\<rparr>"

lemma sample_form_fields [simp]:
  "sample_form ''group_id'' = Some (replicate 36 48)" "sample_form ''material_name'' = Some (js ''gold'')"
  "sample_form ''required_quantity'' = Some (js ''10'')" "sample_form ''action'' = Some (js ''report'')" "sample_form ''id'' = Some (js ''n'')"
  "sample_form ''delivered_quantity'' = Some (js ''6'')" "sample_form ''blueprint_tag'' = None" "sample_form ''quantity_unit'' = None"
  "sample_form ''required_quality'' = None" "sample_form ''note'' = None" "sample_form ''delivered_quality'' = None"
  by (simp_all add: sample_form_def)

lemma sample_created: "createOrder sample_config undisturbed (Some (js ''u'')) sample_form sample_book =
    (Order_created (js ''n'') (js ''GOLD-2955-0002''), sample_book\<lparr>orders := [sample_order], order_seq := 2\<rparr>)"
proof -
  have number: "order_number (materialOrderCode id (js ''gold'')) 2955 2 = js ''GOLD-2955-0002''"
    by (simp add: materialOrderCode_def materialOrderCodes_def order_number_def lpad_def gold decimal.simps)
      (simp add: js_def numeral_eq_Suc)
  have id_ok: "group_id_pattern (Some (replicate 36 48))" by (simp add: group_id_pattern_def hex_digit_def list_all_iff)
  have member: "role_of sample_book (replicate 36 48) (js ''u'') = Some Owner" by (simp add: role_of_def sample_book_def)
  have name: "js ''n'' = [110]" "length (js ''gold'') \<le> 120" "js ''gold'' \<noteq> []" by (simp_all add: js_def)
  have new: "new_order sample_config sample_form (js ''gold'') 10 [110] (replicate 36 48) (js ''u'') 1000 2 = sample_order"
    using number name by (simp add: new_order_def sample_config_def sample_order_def nonempty_def unit_param_def or_empty_def)
  have accepted: "order_accepted sample_order sample_book"
    by (simp add: order_accepted_def sample_order_def sample_book_def pg_text_option_def pg_text_def) (simp add: js_def)
  have no_notes: "created_notes sample_config sample_order d = []" if "members d = members sample_book" for d
    using that by (simp add: created_notes_def sample_order_def sample_book_def)
  have cfg: "order_uuid sample_config s = Some s" for s by (simp add: sample_config_def)
  have seq: "order_seq sample_book + 1 = 2" "orders sample_book = []" by (simp_all add: sample_book_def)
  have ids: "ord_id sample_order = js ''n''" "ord_number sample_order = js ''GOLD-2955-0002''" by (simp_all add: sample_order_def)
  show ?thesis
    unfolding createOrder_def Let_def option.case sample_form_fields or_empty_def six
    by (simp add: gold six validText_def id_ok name member cfg seq [simplified] new [unfolded numeral_2_eq_2] accepted no_notes next_order_def ids)
qed

definition sample_placed :: order_db where
  "sample_placed = sample_book\<lparr>orders := [sample_order], order_seq := 2\<rparr>"

lemma sample_served: "(served sample_config)\<^sup>*\<^sup>* sample_book sample_placed"
  by (rule r_into_rtranclp, rule served [where r = "Create_order (Some (js ''u'')) sample_form" and env = undisturbed])
    (simp_all add: sample_created sample_placed_def)

lemma sample_empty: "no_orders sample_book"
  by (simp add: no_orders_def sample_book_def)

text \<open>The order after deliveries of 6 of which the books show one.\<close>

definition sample_delivered :: "jsstr list \<Rightarrow> order_db" where
  "sample_delivered ids = sample_placed\<lparr>orders := [sample_order\<lparr>ord_status := Order_reported, ord_delivered := Some 6\<rparr>],
     deliveries := map (\<lambda>i. \<lparr>del_id = i, del_order = js ''n'', del_user = js ''u'', del_quantity = 6, del_quality = None\<rparr>) ids\<rparr>"

lemma sample_report_tx:
  "report_tx sample_config sample_placed sample_order (js ''u'') 6 None fresh 1000 sample_placed = Commit Order_done (sample_delivered [fresh])"
  "fresh \<noteq> other \<Longrightarrow> report_tx sample_config sample_placed sample_order (js ''u'') 6 None fresh 1000 (sample_delivered [other]) =
     Commit Order_done (sample_delivered [other, fresh])"
  by (simp_all add: report_tx_def Let_def sample_placed_def sample_delivered_def sample_book_def sample_order_def delivered_sum_def
      set_order_def update_where_def pg_text_option_def)

lemma sample_find: "find_order (js ''n'') (js ''u'') sample_placed = Some sample_order"
  by (simp add: find_order_def sample_placed_def sample_book_def sample_order_def role_of_def)

lemma js_distinct: "js ''report'' \<noteq> js ''claim''" by (simp add: js_def)

lemma sample_order_report:
  assumes "others env 0 sample_placed = sample_placed" "others env 1 sample_placed = sample_placed" "\<And>i. \<not> query_fails env i"
    and "tx_ends env = Tx_ok" "moment env = 1000"
  shows "orderAction sample_config env (Some (js ''u'')) None sample_form sample_placed =
    run_tx Tx_ok order_unavailable (report_tx sample_config sample_placed sample_order (js ''u'') 6 None (new_id env 0) 1000) (others env 2 sample_placed)"
proof -
  have "order_uuid sample_config s = Some s" for s by (simp add: sample_config_def)
  moreover have "ord_status sample_order = Order_open" "delivered_so_far sample_order = 0" "ord_required sample_order = 10"
    by (simp_all add: sample_order_def delivered_so_far_def)
  ultimately show ?thesis using assms
    by (simp add: orderAction_def Let_def or_empty_def sample_find js_distinct reportOrder_def six nonempty_def)
qed


theorem order_numbers_limited_witness:
  "order_number (materialOrderCode id (js ''gold'')) 2955 1 \<noteq> order_number (materialOrderCode id (js ''gold'')) 2955 2 \<and>
   (\<exists>k \<in> {1000..9999}. order_number [] 2955 10000 = order_number [] 2955 k) \<and>
   (\<exists>d. order_failed (fst (createOrder sample_config undisturbed (Some (js ''u'')) sample_form d)) \<and> orders d \<noteq> [])"
proof -
  let ?n = "order_number (materialOrderCode (order_lower sample_config) (js_trim (or_empty (sample_form ''material_name''))))
    (order_year sample_config (moment (undisturbed :: order_db route_env)))"
  let ?d = "sample_placed\<lparr>orders := [sample_order\<lparr>ord_number := ?n (order_seq sample_placed + 1)\<rparr>]\<rparr>"
  have "quiet (undisturbed :: order_db route_env) \<and> ?n (order_seq ?d + 1) \<in> ord_number ` set (orders ?d)" by simp
  with order_numbers_limited have "order_failed (fst (createOrder sample_config undisturbed (Some (js ''u'')) sample_form ?d))" by blast
  moreover have "orders ?d \<noteq> []" by simp
  moreover have "order_number (materialOrderCode id (js ''gold'')) 2955 1 \<noteq> order_number (materialOrderCode id (js ''gold'')) 2955 2"
    using order_numbers_limited [where m = 1 and n = 2 and lower = id and a = "js ''gold''" and b = "js ''gold''" and y = 2955 and y' = 2955]
    by auto
  moreover have "\<exists>k \<in> {1000..9999}. order_number [] 2955 10000 = order_number [] 2955 k"
    using order_numbers_limited [where n = 10000] by fastforce
  ultimately show ?thesis by blast
qed

section \<open>Two reports at once\<close>

text \<open>While one report waits for its update, another one is answered; both are accepted, the order has received more than
  it requires, and its stored amount and status show one report only.\<close>

theorem reports_overlap:
  "\<exists>env d d' x. (served sample_config)\<^sup>*\<^sup>* sample_book d \<and>
     (\<forall>i. others env i d = d \<or> served sample_config d (others env i d)) \<and>
     orderAction sample_config env (Some (js ''u'')) None sample_form d = (Order_done, d') \<and> orders d' = [x] \<and>
     ord_required x < delivered_sum (ord_id x) d' \<and> delivered_so_far x < ord_required x \<and> ord_status x = Order_reported \<and>
     normalizeOrderStatus (listed_delivered d' x) x = Shown_completed"
proof -
  let ?second = "undisturbed\<lparr>new_id := \<lambda>i. js ''m''\<rparr> :: order_db route_env"
  let ?env = "undisturbed\<lparr>others := \<lambda>i d. if i = 2 then snd (orderAction sample_config ?second (Some (js ''u'')) None sample_form d) else d\<rparr> :: order_db route_env"
  let ?d = "sample_delivered [js ''m'', [110]]" and ?x = "sample_order\<lparr>ord_status := Order_reported, ord_delivered := Some 6\<rparr>"
  have second: "orderAction sample_config ?second (Some (js ''u'')) None sample_form sample_placed = (Order_done, sample_delivered [js ''m''])"
    by (subst sample_order_report) (simp_all add: sample_report_tx(1) run_tx_def)
  then have "served sample_config sample_placed (sample_delivered [js ''m''])"
    by (intro served [where r = "Act_on_order (Some (js ''u'')) None sample_form" and env = ?second]) (simp_all add: quiet_def)
  then have others: "\<forall>i. others ?env i sample_placed = sample_placed \<or> served sample_config sample_placed (others ?env i sample_placed)"
    using second by simp
  have "[110] \<noteq> js ''m''" by (simp add: js_def)
  then have first: "orderAction sample_config ?env (Some (js ''u'')) None sample_form sample_placed = (Order_done, ?d)"
    using second by (subst sample_order_report) (simp_all add: sample_report_tx(2) run_tx_def)
  have sum: "delivered_sum (ord_id ?x) ?d = 12" by (simp add: delivered_sum_def sample_delivered_def sample_order_def)
  have "\<exists>y \<in> set (deliveries ?d). del_order y = ord_id ?x" by (simp add: sample_delivered_def sample_order_def)
  then have "listed_delivered ?d ?x = 12" using sum by (simp add: listed_delivered_def)
  then have "normalizeOrderStatus (listed_delivered ?d ?x) ?x = Shown_completed"
    by (simp add: normalizeOrderStatus_def sample_order_def)
  moreover have "orders ?d = [?x]" by (simp add: sample_delivered_def)
  moreover have "ord_required ?x < delivered_sum (ord_id ?x) ?d" "delivered_so_far ?x < ord_required ?x" "ord_status ?x = Order_reported"
    using sum by (simp_all add: sample_order_def delivered_so_far_def)
  ultimately show ?thesis using sample_served others first
    by (intro exI [of _ ?env] exI [of _ sample_placed] exI [of _ ?d] exI [of _ ?x] conjI)
qed

end
