(* ===== verification/Js_Sort.thy ===== *)
theory Js_Sort
  imports Prelude "HOL-Library.Multiset"
begin

text \<open>
  \<open>Array.prototype.sort\<close> with a comparison: a stable sort, and what its results are.
\<close>

text \<open>A stable sort: \<open>le x y\<close> when the comparison puts \<open>x\<close> before \<open>y\<close> or leaves them.\<close>

fun insert_by :: "('a \<Rightarrow> 'a \<Rightarrow> bool) \<Rightarrow> 'a \<Rightarrow> 'a list \<Rightarrow> 'a list" where
  "insert_by le x [] = [x]"
| "insert_by le x (y # ys) = (if le x y then x # y # ys else y # insert_by le x ys)"

definition sort_by :: "('a \<Rightarrow> 'a \<Rightarrow> bool) \<Rightarrow> 'a list \<Rightarrow> 'a list" where
  "sort_by le xs = foldr (insert_by le) xs []"

lemma mset_insert_by [simp]: "mset (insert_by le x xs) = add_mset x (mset xs)"
  by (induction xs) auto

lemma mset_sort_by [simp]: "mset (sort_by le xs) = mset xs"
  unfolding sort_by_def by (induction xs) simp_all

lemma set_sort_by [simp]: "set (sort_by le xs) = set xs"
  by (metis mset_sort_by set_mset_mset)

lemma set_insert_by [simp]: "set (insert_by le x xs) = insert x (set xs)"
  by (metis mset_insert_by set_mset_mset set_mset_add_mset_insert)

definition total_order_of :: "('a \<Rightarrow> 'a \<Rightarrow> bool) \<Rightarrow> 'a set \<Rightarrow> bool" where
  "total_order_of le S \<longleftrightarrow> (\<forall>x \<in> S. \<forall>y \<in> S. le x y \<or> le y x) \<and> (\<forall>x \<in> S. \<forall>y \<in> S. \<forall>z \<in> S. le x y \<and> le y z \<longrightarrow> le x z)"

lemma total_order_ofD:
  assumes "total_order_of le S"
  shows "x \<in> S \<Longrightarrow> y \<in> S \<Longrightarrow> le x y \<or> le y x" "x \<in> S \<Longrightarrow> y \<in> S \<Longrightarrow> z \<in> S \<Longrightarrow> le x y \<Longrightarrow> le y z \<Longrightarrow> le x z"
  using assms unfolding total_order_of_def by blast+

lemma sorted_insert_by:
  assumes "total_order_of le S" "x \<in> S" "set xs \<subseteq> S" "sorted_wrt le xs"
  shows "sorted_wrt le (insert_by le x xs)"
  using assms(3,4)
proof (induction xs)
  case (Cons y ys)
  show ?case
  proof (cases "le x y")
    case True
    have "le x z" if "z \<in> set ys" for z
      by (rule total_order_ofD(2) [OF assms(1,2) _ _ True]) (use Cons.prems that in auto)
    with True Cons.prems show ?thesis by simp
  next
    case False
    then have "le y x" using total_order_ofD(1) [OF assms(1,2), of y] Cons.prems by simp
    with False Cons show ?thesis by simp
  qed
qed simp

lemma sorted_sort_by: "total_order_of le S \<Longrightarrow> set xs \<subseteq> S \<Longrightarrow> sorted_wrt le (sort_by le xs)"
proof (induction xs)
  case (Cons x xs)
  then have "sorted_wrt le (sort_by le xs)" "x \<in> S" "set (sort_by le xs) \<subseteq> S" by simp_all
  with sorted_insert_by [OF Cons.prems(1)] show ?case by (simp add: sort_by_def)
qed (simp add: sort_by_def)

text \<open>What compares equal keeps its order.\<close>

lemma filter_insert_by:
  assumes "\<And>y. y \<in> set xs \<Longrightarrow> P x \<Longrightarrow> P y \<Longrightarrow> le x y"
  shows "filter P (insert_by le x xs) = (if P x then x # filter P xs else filter P xs)"
  using assms by (induction xs) auto

lemma sort_by_stable:
  assumes "\<And>x y. P x \<Longrightarrow> P y \<Longrightarrow> le x y"
  shows "filter P (sort_by le xs) = filter P xs"
proof (induction xs)
  case (Cons x xs)
  have "filter P (insert_by le x (sort_by le xs)) = (if P x then x # filter P (sort_by le xs) else filter P (sort_by le xs))"
    by (rule filter_insert_by) (use assms in blast)
  with Cons show ?case by (simp add: sort_by_def)
qed (simp add: sort_by_def)

text \<open>The first of a list sorted by falling scores is the first one of the highest score.\<close>

lemma first_by_score:
  fixes score :: "'a \<Rightarrow> 'b :: linorder"
  assumes "sort_by (\<lambda>x y. score y \<le> score x) xs = z # zs"
  shows "z \<in> set xs" "\<forall>x \<in> set xs. score x \<le> score z" "\<exists>us. filter (\<lambda>x. score x = score z) xs = z # us"
proof -
  show "z \<in> set xs" by (metis assms list.set_intros(1) set_sort_by)
  have "sorted_wrt (\<lambda>x y. score y \<le> score x) (z # zs)"
    unfolding assms [symmetric] by (rule sorted_sort_by [where S = UNIV]) (auto simp: total_order_of_def)
  then show "\<forall>x \<in> set xs. score x \<le> score z" using assms set_sort_by [of "\<lambda>x y. score y \<le> score x" xs] by auto
  have "filter (\<lambda>x. score x = score z) xs = filter (\<lambda>x. score x = score z) (z # zs)"
    unfolding assms [symmetric] by (rule sort_by_stable [symmetric]) simp
  then show "\<exists>us. filter (\<lambda>x. score x = score z) xs = z # us" by simp
qed

end
