(* ===== verification/Trading.thy ===== *)
theory Trading
  imports Account_Groups Js_Sort
begin

text \<open>
  Trading routes (\<open>/api/trading/routes\<close>, \<open>/api/trading/config\<close> and the functions above \<open>calculateTradingRoutes\<close> in
  \<open>src/src/server.js\<close>): the price rows of a foreign service, cached for half an hour, and the routes between two
  terminals of a system that a ship and a capital allow. Arithmetic is exact, the clock stands still while routes are
  computed, and \<open>None\<close> stands for an exception. The text of a number, \<open>toLowerCase\<close>, \<open>Date.parse\<close> and
  \<open>localeCompare\<close> are parameters.
\<close>

section \<open>Ships and systems\<close>

definition tradingShips :: "(string \<times> string \<times> nat) list" where
  "tradingShips =
     [(''hull_e'', ''Hull E'', 12288), (''hull_d'', ''Hull D'', 6912), (''hull_c'', ''Hull C'', 4608), (''merchantman'', ''Merchantman'', 2880),
      (''ironclad'', ''Ironclad'', 2200), (''ironclad_assault'', ''Ironclad Assault'', 1440), (''pioneer'', ''Pioneer'', 1000),
      (''c2_hercules'', ''C2 Hercules Starlifter'', 696), (''railen'', ''Railen'', 640), (''caterpillar'', ''Caterpillar'', 576),
      (''m2_hercules'', ''M2 Hercules Starlifter'', 522), (''hull_b'', ''Hull B'', 512), (''a2_hercules'', ''A2 Hercules Starlifter'', 216),
      (''raft'', ''RAFT'', 192), (''constellation_taurus'', ''Constellation Taurus'', 174), (''freelancer_max'', ''Freelancer MAX'', 120),
      (''mercury_star_runner'', ''Mercury Star Runner'', 114), (''constellation_andromeda'', ''Constellation Andromeda'', 96),
      (''freelancer'', ''Freelancer'', 66), (''c1_spirit'', ''C1 Spirit'', 64), (''hull_a'', ''Hull A'', 64), (''cutlass_black'', ''Cutlass Black'', 46),
      (''nomad'', ''Nomad'', 24), (''315p'', ''315p'', 12), (''aurora_cl'', ''Aurora CL'', 6), (''135c'', ''135c'', 6), (''reliant_kore'', ''Reliant Kore'', 6),
      (''cutter'', ''Cutter'', 4), (''mustang_alpha'', ''Mustang Alpha'', 4), (''mpuv_cargo'', ''MPUV Cargo'', 2)]"

definition tradingShipOptions :: "(string \<times> string \<times> nat) list" where
  "tradingShipOptions = sort_key (\<lambda>(i, n, cargo). - int cargo) tradingShips"

definition tradingSystems :: "(string \<times> string) list" where
  "tradingSystems = [(''stanton'', ''Stanton''), (''pyro'', ''Pyro''), (''nyx'', ''Nyx'')]"

text \<open>A property of an object literal by a lower-case name: an own one, one of \<open>Object.prototype\<close> (\<open>Some None\<close>), or none.\<close>

definition looked_up :: "(string \<times> 'a) list \<Rightarrow> jsstr \<Rightarrow> 'a option option" where
  "looked_up table k =
     (case map_of (map (\<lambda>(n, v). (js n, v)) table) k of
        Some v \<Rightarrow> Some (Some v)
      | None \<Rightarrow> if k = js ''constructor'' \<or> k = js ''__proto__'' then Some None else None)"

section \<open>Price rows\<close>

record price_row =
  commodityId :: "json option"
  commodity :: json
  buyPrice :: rat
  sellPrice :: rat
  buyStock :: rat
  sellDemand :: rat
  terminalId :: "json option"
  terminal :: json
  systemId :: "json option"
  system_name :: "json option"
  updatedAt :: "json option"

record trading_config =
  number_text :: "jsnum \<Rightarrow> jsstr"
  to_lower :: "jsstr \<Rightarrow> jsstr"
  parse_date :: "json option \<Rightarrow> rat option"
  collate :: "jsstr \<Rightarrow> jsstr \<Rightarrow> int"

definition tradingNumber :: "json option \<Rightarrow> rat" where
  "tradingNumber v = (case js_number v of Fin r \<Rightarrow> if 0 \<le> r then r else 0 | _ \<Rightarrow> 0)"

definition nullish :: "json option \<Rightarrow> bool" where
  "nullish v \<longleftrightarrow> v = None \<or> v = Some JNull"

definition tradingField :: "json \<Rightarrow> string list \<Rightarrow> json option" where
  "tradingField row names = (case filter (\<lambda>v. \<not> nullish v) (map (prop_of (props_of row)) names) of [] \<Rightarrow> None | v # _ \<Rightarrow> v)"

text \<open>\<open>String(v)\<close>.\<close>

definition key_text :: "trading_config \<Rightarrow> json option \<Rightarrow> jsstr option" where
  "key_text cfg v = (case v of None \<Rightarrow> Some (js ''undefined'') | Some x \<Rightarrow> json_text (number_text cfg) x)"

definition named :: "json option \<Rightarrow> string \<Rightarrow> json" where
  "named v fallback = (if falsy v then JStr (js fallback) else case v of None \<Rightarrow> JNull | Some x \<Rightarrow> x)"

text \<open>The \<open>data\<close> of an answer, when it is an array.\<close>

definition data_of :: "json \<Rightarrow> json list" where
  "data_of payload = (case prop_of (props_of payload) ''data'' of Some (JArr xs) \<Rightarrow> xs | _ \<Rightarrow> [])"

definition terminal_entry :: "trading_config \<Rightarrow> json \<Rightarrow> (jsstr \<times> json) option" where
  "terminal_entry cfg t = (if t = JNull then None else map_option (\<lambda>k. (k, t)) (key_text cfg (prop_of (props_of t) ''id'')))"

definition terminal_map :: "trading_config \<Rightarrow> json list \<Rightarrow> (jsstr \<times> json) list option" where
  "terminal_map cfg ts = map_option rev (those (map (terminal_entry cfg) ts))"

text \<open>\<open>terminals.get(String(...))?.[name]\<close>.\<close>

definition terminal_prop :: "trading_config \<Rightarrow> (jsstr \<times> json) list \<Rightarrow> json \<Rightarrow> string \<Rightarrow> json option option" where
  "terminal_prop cfg terminals row name =
     map_option (\<lambda>k. case map_of terminals k of None \<Rightarrow> None | Some t \<Rightarrow> prop_of (props_of t) name)
       (key_text cfg (tradingField row [''id_terminal'', ''terminal_id'']))"

definition uex_row :: "trading_config \<Rightarrow> (jsstr \<times> json) list \<Rightarrow> json \<Rightarrow> price_row option" where
  "uex_row cfg terminals row =
     (let own_id = tradingField row [''id_star_system'', ''star_system_id'']; own_name = tradingField row [''star_system_name'', ''name_star_system'', ''star_system''] in
      case (if nullish own_id then terminal_prop cfg terminals row ''id_star_system'' else Some own_id,
            if falsy own_name then map_option (\<lambda>v. if falsy v then Some (JStr []) else v) (terminal_prop cfg terminals row ''star_system_name'') else Some own_name) of
        (Some sid, Some name) \<Rightarrow>
          Some \<lparr>commodityId = tradingField row [''id_commodity'', ''commodity_id''],
            commodity = named (tradingField row [''commodity_name'', ''name_commodity'', ''commodity'']) ''Unknown commodity'',
            buyPrice = tradingNumber (tradingField row [''price_buy'', ''buy_price'']),
            sellPrice = tradingNumber (tradingField row [''price_sell'', ''sell_price'']),
            buyStock = tradingNumber (tradingField row [''scu_buy'', ''buy_stock'', ''stock_buy'']),
            sellDemand = tradingNumber (tradingField row [''scu_sell'', ''sell_demand'', ''demand_sell'']),
            terminalId = tradingField row [''id_terminal'', ''terminal_id''],
            terminal = named (tradingField row [''terminal_name'', ''name_terminal'', ''terminal'']) ''Unknown terminal'',
            systemId = sid, system_name = name,
            updatedAt = tradingField row [''date_modified'', ''date_updated'', ''updated_at'', ''last_updated'']\<rparr>
      | _ \<Rightarrow> None)"

definition usable_row :: "price_row \<Rightarrow> bool" where
  "usable_row r \<longleftrightarrow> \<not> nullish (commodityId r) \<and> \<not> nullish (terminalId r) \<and> \<not> falsy (system_name r)"

definition normalizeUexRows :: "trading_config \<Rightarrow> json \<Rightarrow> json \<Rightarrow> price_row list option" where
  "normalizeUexRows cfg payload terminalsPayload =
     (case terminal_map cfg (data_of terminalsPayload) of
        None \<Rightarrow> None
      | Some terminals \<Rightarrow> map_option (filter usable_row) (those (map (uex_row cfg terminals) (data_of payload))))"

section \<open>Routes\<close>

datatype load_status = Load_full | Load_partial | Load_poor

record trade_route =
  route_commodity :: json
  buyLocation :: json
  sellLocation :: json
  route_stock :: rat
  route_demand :: rat
  usableSCU :: "int option"
  route_buy :: rat
  route_sell :: rat
  investment :: "rat option"
  sellRevenue :: "rat option"
  netProfit :: "rat option"
  profitPerSCU :: "rat option"
  roi :: "rat option"
  loadPercent :: "rat option"
  loadStatus :: load_status
  dataAgeSeconds :: "int option"

definition tradingAgeSeconds :: "trading_config \<Rightarrow> rat \<Rightarrow> json option \<Rightarrow> int option" where
  "tradingAgeSeconds cfg now v =
     map_option (\<lambda>time. max 0 \<lfloor>(now - time) / 1000\<rfloor>)
       (case js_number v of
          Fin n \<Rightarrow> if 0 < n then Some (if n < 10 ^ 12 then n * 1000 else n) else parse_date cfg (if falsy v then Some (JStr []) else v)
        | _ \<Rightarrow> parse_date cfg (if falsy v then Some (JStr []) else v))"

definition data_age :: "trading_config \<Rightarrow> rat \<Rightarrow> price_row \<Rightarrow> price_row \<Rightarrow> int option" where
  "data_age cfg now b s =
     (case (tradingAgeSeconds cfg now (updatedAt b), tradingAgeSeconds cfg now (updatedAt s)) of
        (Some x, Some y) \<Rightarrow> Some (max x y)
      | (Some x, None) \<Rightarrow> Some x
      | (None, y) \<Rightarrow> y)"

text \<open>\<open>None\<close> is \<open>NaN\<close>: the cargo of a ship that is no ship.\<close>

definition usable_scu :: "rat option \<Rightarrow> rat option \<Rightarrow> price_row \<Rightarrow> price_row \<Rightarrow> int option" where
  "usable_scu cargo capital b s =
     map_option (\<lambda>c. let room = min (min c (buyStock b)) (sellDemand s) in
       \<lfloor>case capital of None \<Rightarrow> room | Some q \<Rightarrow> min room (of_int \<lfloor>q / buyPrice b\<rfloor>)\<rfloor>) cargo"

definition made_route :: "rat option \<Rightarrow> rat option \<Rightarrow> int option \<Rightarrow> price_row \<Rightarrow> price_row \<Rightarrow> trade_route" where
  "made_route cargo capital age b s =
     (let usable = usable_scu cargo capital b s;
          times = (\<lambda>p. map_option (\<lambda>u. of_int u * p) usable);
          spent = times (buyPrice b); revenue = times (sellPrice s);
          net = (case (revenue, spent) of (Some x, Some y) \<Rightarrow> Some (x - y) | _ \<Rightarrow> None);
          share = (case (usable, cargo) of (Some u, Some c) \<Rightarrow> Some (of_int u / c * 100) | _ \<Rightarrow> None) in
      \<lparr>route_commodity = commodity b, buyLocation = terminal b, sellLocation = terminal s, route_stock = buyStock b, route_demand = sellDemand s,
       usableSCU = usable, route_buy = buyPrice b, route_sell = sellPrice s, investment = spent, sellRevenue = revenue, netProfit = net,
       profitPerSCU = (case (net, usable) of (Some x, Some u) \<Rightarrow> Some (x / of_int u) | _ \<Rightarrow> None),
       roi = (case (net, spent) of (Some x, Some y) \<Rightarrow> Some (if y = 0 then 0 else x / y * 100) | _ \<Rightarrow> Some 0),
       loadPercent = share,
       loadStatus = (case share of None \<Rightarrow> Load_poor | Some p \<Rightarrow> if 100 \<le> p then Load_full else if 25 \<le> p then Load_partial else Load_poor),
       dataAgeSeconds = age\<rparr>)"

text \<open>The body of the inner loop: the route of a pair, \<open>Some None\<close> when it is skipped.\<close>

definition route_of :: "trading_config \<Rightarrow> rat \<Rightarrow> rat option \<Rightarrow> rat option \<Rightarrow> bool \<Rightarrow> bool \<Rightarrow> price_row \<Rightarrow> price_row \<Rightarrow> trade_route option option" where
  "route_of cfg now cargo capital fullLoadOnly hideOutdated b s =
     (case (key_text cfg (terminalId b), key_text cfg (terminalId s)) of
        (Some i, Some j) \<Rightarrow>
          Some (if i = j \<or> sellPrice s \<le> buyPrice b then None
            else let age = data_age cfg now b s in
              if hideOutdated \<and> (case age of None \<Rightarrow> True | Some a \<Rightarrow> 6 * 60 * 60 < a) then None
              else if (case usable_scu cargo capital b s of None \<Rightarrow> False | Some u \<Rightarrow> u \<le> 0) then None
              else let r = made_route cargo capital age b s in if fullLoadOnly \<and> loadStatus r \<noteq> Load_full then None else Some r)
      | _ \<Rightarrow> None)"

text \<open>A \<open>Map\<close> from keys to the rows pushed under them, in the order of insertion.\<close>

fun put_row :: "jsstr \<Rightarrow> 'r \<Rightarrow> (jsstr \<times> 'r list) list \<Rightarrow> (jsstr \<times> 'r list) list" where
  "put_row k r [] = [(k, [r])]"
| "put_row k r ((j, rs) # m) = (if j = k then (j, rs @ [r]) # m else (j, rs) # put_row k r m)"

definition grouped :: "(jsstr \<times> 'r) list \<Rightarrow> (jsstr \<times> 'r list) list" where
  "grouped keyed = foldl (\<lambda>m (k, r). put_row k r m) [] keyed"

definition offered :: "price_row \<Rightarrow> bool" where
  "offered r \<longleftrightarrow> 0 < buyPrice r \<and> 0 < buyStock r"

definition wanted :: "price_row \<Rightarrow> bool" where
  "wanted r \<longleftrightarrow> 0 < sellPrice r \<and> 0 < sellDemand r"

definition entries_of :: "(jsstr \<times> 'r list) list \<Rightarrow> jsstr \<Rightarrow> 'r list" where
  "entries_of m k = (case map_of m k of None \<Rightarrow> [] | Some rs \<Rightarrow> rs)"

definition lower_name :: "trading_config \<Rightarrow> json option \<Rightarrow> jsstr option" where
  "lower_name cfg v = (case v of Some (JStr s) \<Rightarrow> Some (to_lower cfg s) | _ \<Rightarrow> None)"

definition in_system :: "trading_config \<Rightarrow> jsstr option \<Rightarrow> price_row \<Rightarrow> bool option" where
  "in_system cfg system r =
     (case (lower_name cfg (system_name r), map_option (to_lower cfg) system) of (Some x, Some y) \<Rightarrow> Some (x = y) | _ \<Rightarrow> None)"

definition keyed_row :: "trading_config \<Rightarrow> price_row \<Rightarrow> (jsstr \<times> price_row) option" where
  "keyed_row cfg r = map_option (\<lambda>k. (k, r)) (key_text cfg (commodityId r))"

definition system_rows :: "trading_config \<Rightarrow> jsstr option \<Rightarrow> price_row list \<Rightarrow> (jsstr \<times> price_row) list option" where
  "system_rows cfg system rows =
     (case those (map (in_system cfg system) rows) of
        None \<Rightarrow> None
      | Some hits \<Rightarrow> those (map (keyed_row cfg) (map snd (filter fst (zip hits rows)))))"

definition pairs_of :: "(jsstr \<times> price_row) list \<Rightarrow> (price_row \<times> price_row) list" where
  "pairs_of keyed =
     (let buys = grouped (filter (\<lambda>(k, r). offered r) keyed); sells = grouped (filter (\<lambda>(k, r). wanted r) keyed) in
      concat (map (\<lambda>(k, bs). concat (map (\<lambda>b. map (Pair b) (entries_of sells k)) bs)) buys))"

section \<open>Sorting\<close>

definition sorters :: "(string \<times> (trade_route \<Rightarrow> rat option)) list" where
  "sorters = [(''profit'', netProfit), (''roi'', roi), (''profit_per_scu'', profitPerSCU), (''investment'', investment), (''revenue'', sellRevenue),
     (''load'', \<lambda>r. map_option of_int (usableSCU r)), (''buy_stock'', \<lambda>r. Some (route_stock r)), (''sell_demand'', \<lambda>r. Some (route_demand r))]"

definition sort_field :: "jsstr \<Rightarrow> trade_route \<Rightarrow> rat option" where
  "sort_field s = (case map_of (map (\<lambda>(n, f). (js n, f)) sorters) s of None \<Rightarrow> netProfit | Some f \<Rightarrow> f)"

definition location_text :: "trading_config \<Rightarrow> trade_route \<Rightarrow> jsstr option" where
  "location_text cfg r =
     (case (json_text (number_text cfg) (buyLocation r), json_text (number_text cfg) (sellLocation r)) of
        (Some x, Some y) \<Rightarrow> Some (x @ 32 # y) | _ \<Rightarrow> None)"

definition route_le :: "trading_config \<Rightarrow> jsstr \<Rightarrow> trade_route \<Rightarrow> trade_route \<Rightarrow> bool" where
  "route_le cfg s x y =
     (if s = js ''buy_location''
      then (case (location_text cfg x, location_text cfg y) of (Some p, Some q) \<Rightarrow> collate cfg p q \<le> 0 | _ \<Rightarrow> True)
      else if s = js ''age''
      then (case (dataAgeSeconds x, dataAgeSeconds y) of (Some p, Some q) \<Rightarrow> p \<le> q | (None, Some q) \<Rightarrow> False | _ \<Rightarrow> True)
      else (case (sort_field s x, sort_field s y) of (Some p, Some q) \<Rightarrow> q \<le> p | _ \<Rightarrow> True))"

definition calculateTradingRoutes ::
    "trading_config \<Rightarrow> rat \<Rightarrow> price_row list \<Rightarrow> jsstr option \<Rightarrow> rat option \<Rightarrow> rat option \<Rightarrow> bool \<Rightarrow> bool \<Rightarrow> jsstr \<Rightarrow> trade_route list option" where
  "calculateTradingRoutes cfg now rows system cargo capital fullLoadOnly hideOutdated sorting =
     (case system_rows cfg system rows of
        None \<Rightarrow> None
      | Some keyed \<Rightarrow>
          case those (map (\<lambda>(b, s). route_of cfg now cargo capital fullLoadOnly hideOutdated b s) (pairs_of keyed)) of
            None \<Rightarrow> None
          | Some found \<Rightarrow>
              let routes = List.map_filter id found in
              if sorting = js ''buy_location'' \<and> 1 < length routes \<and> (\<exists>r \<in> set routes. location_text cfg r = None) then None
              else Some (sort_by (route_le cfg sorting) routes))"

section \<open>The cache and the route\<close>

record trading_cache =
  cached_rows :: "price_row list option"
  cached_at :: "int option"
  cache_expires :: int

text \<open>What comes back from the price service: nothing, or a status and a body (\<open>None\<close> when it is not JSON).\<close>

datatype fetched = Unreachable | Responded nat "json option"

record trading_env =
  uexApiToken :: jsstr
  prices :: fetched
  terminals_answer :: fetched
  asked_at :: int
  stored_at :: int

definition ok_payload :: "json \<Rightarrow> bool" where
  "ok_payload p \<longleftrightarrow> prop_of (props_of p) ''status'' = Some (jstr ''ok'')"

text \<open>\<open>Inl\<close> is the status that the caller answers an exception with.\<close>

definition getUexPrices :: "trading_config \<Rightarrow> trading_env \<Rightarrow> trading_cache \<Rightarrow> (nat + trading_cache) \<times> trading_cache" where
  "getUexPrices cfg env cache =
     (if cached_rows cache \<noteq> None \<and> asked_at env < cache_expires cache then (Inr cache, cache)
      else if uexApiToken env = [] then (Inl 503, cache)
      else case prices env of
        Unreachable \<Rightarrow> (Inl 502, cache)
      | Responded st body \<Rightarrow>
          if st = 429 then (Inl 429, cache)
          else if \<not> (200 \<le> st \<and> st \<le> 299) then (Inl 502, cache)
          else case body of
            None \<Rightarrow> (Inl 502, cache)
          | Some payload \<Rightarrow>
              if \<not> ok_payload payload then (Inl 502, cache)
              else case terminals_answer env of
                Unreachable \<Rightarrow> (Inl 502, cache)
              | Responded st2 body2 \<Rightarrow>
                  if \<not> (200 \<le> st2 \<and> st2 \<le> 299) then (Inl 502, cache)
                  else case body2 of
                    None \<Rightarrow> (Inl 502, cache)
                  | Some terminalPayload \<Rightarrow>
                      if \<not> ok_payload terminalPayload then (Inl 502, cache)
                      else case normalizeUexRows cfg payload terminalPayload of
                        None \<Rightarrow> (Inl 502, cache)
                      | Some rows \<Rightarrow>
                          let fresh = \<lparr>cached_rows = Some rows, cached_at = Some (stored_at env), cache_expires = stored_at env + 1800000\<rparr> in
                          (Inr fresh, fresh))"

datatype trading_answer =
    Trading_error nat string
  | Trading_failed nat
  | Trading_deferred "jsstr option" "int option"
  | Trading_routes "jsstr option" jsstr "(string \<times> nat) option" trading_cache "trade_route list"

definition sort_names :: "string list" where
  "sort_names = [''profit'', ''roi'', ''profit_per_scu'', ''investment'', ''revenue'', ''load'', ''age'', ''buy_stock'', ''sell_demand'', ''buy_location'']"

definition or_default :: "jsstr option \<Rightarrow> string \<Rightarrow> jsstr" where
  "or_default v fallback = (if or_empty v = [] then js fallback else or_empty v)"

definition tradingRoutes ::
    "trading_config \<Rightarrow> trading_env \<Rightarrow> jsstr option \<Rightarrow> parameters \<Rightarrow> rat \<Rightarrow> trading_cache \<Rightarrow> trading_answer \<times> trading_cache" where
  "tradingRoutes cfg env context get now cache =
     (if context = None then (Trading_error 401 ''authentication required'', cache)
      else let systems = looked_up tradingSystems (to_lower cfg (or_default (get ''system'') ''stanton''));
               shipId = to_lower cfg (or_default (get ''ship'') ''railen'') in
        if get ''execute'' \<noteq> Some (js ''true'')
        then (Trading_deferred (case systems of None \<Rightarrow> Some (js ''Stanton'') | Some s \<Rightarrow> map_option js s) (cached_at cache), cache)
        else case systems of
          None \<Rightarrow> (Trading_error 400 ''invalid system'', cache)
        | Some system \<Rightarrow>
            case looked_up tradingShips shipId of
              None \<Rightarrow> (Trading_error 400 ''invalid ship'', cache)
            | Some ship \<Rightarrow>
                let given_capital = \<not> (case get ''capital'' of None \<Rightarrow> True | Some c \<Rightarrow> js_trim c = []);
                    capital = finite_number (param_number (get ''capital'')) in
                if given_capital \<and> (case capital of None \<Rightarrow> True | Some c \<Rightarrow> c \<le> 0) then (Trading_error 400 ''invalid capital'', cache)
                else let sorting = or_default (get ''sort'') ''profit'' in
                  if sorting \<notin> js ` set sort_names then (Trading_error 400 ''invalid sort'', cache)
                  else case getUexPrices cfg env cache of
                    (Inl st, cache') \<Rightarrow> (Trading_failed st, cache')
                  | (Inr current, cache') \<Rightarrow>
                      case cached_rows current of
                        None \<Rightarrow> (Trading_failed 502, cache')
                      | Some rows \<Rightarrow>
                          case calculateTradingRoutes cfg now rows (map_option js system) (map_option (\<lambda>(n, cargo). of_nat cargo) ship)
                              (if given_capital then capital else None) (get ''fullLoadOnly'' = Some (js ''true''))
                              (get ''hideOutdated'' = Some (js ''true'')) sorting of
                            None \<Rightarrow> (Trading_failed 502, cache')
                          | Some routes \<Rightarrow> (Trading_routes (map_option js system) shipId ship current routes, cache'))"

end
