(* ===== verification/Trading_Theorems.thy ===== *)
theory Trading_Theorems
  imports Trading
begin

text \<open>
  The trading routes are those of every pair of rows that trade, sorted as asked, and each loads as much as ship,
  stock, demand and capital allow.
\<close>

section \<open>Lists\<close>

lemma those_map_Some: "those xs = Some ys \<Longrightarrow> xs = map Some ys"
  by (induction xs arbitrary: ys) (auto split: option.splits)

lemma those_total: "(\<And>x. x \<in> set xs \<Longrightarrow> x \<noteq> None) \<Longrightarrow> \<exists>ys. those xs = Some ys"
  by (induction xs) (force split: option.splits)+

lemma concat_filter: "concat (map (\<lambda>r. if P r then f r else []) xs) = concat (map f (filter P xs))"
  by (induction xs) simp_all

lemma mset_concat_map: "mset (concat (map f xs)) = (\<Sum>x \<in># mset xs. mset (f x))"
  by (simp add: mset_concat comp_def flip: sum_mset_sum_list mset_map)

lemma concat_map_cong_mset: "mset xs = mset ys \<Longrightarrow> mset (concat (map f xs)) = mset (concat (map f ys))"
  by (simp only: mset_concat_map)

lemma concat_map_concat: "concat (map f (concat (map h xs))) = concat (map (\<lambda>x. concat (map f (h x))) xs)"
  by (induction xs) simp_all

section \<open>Groups\<close>

lemma entries_put: "entries_of (put_row k r m) j = entries_of m j @ (if j = k then [r] else [])"
  by (induction k r m rule: put_row.induct) (auto simp: entries_of_def)

lemma grouped_snoc: "grouped (xs @ [(k, r)]) = put_row k r (grouped xs)"
  by (simp add: grouped_def)

lemma entries_grouped: "entries_of (grouped xs) k = map snd (filter (\<lambda>p. fst p = k) xs)"
  by (induction xs rule: rev_induct) (auto simp: grouped_snoc entries_put, simp add: grouped_def entries_of_def)

lemma mset_put: "mset (concat (map (\<lambda>(k, rs). concat (map (f k) rs)) (put_row k r m))) =
    mset (concat (map (\<lambda>(k, rs). concat (map (f k) rs)) m)) + mset (f k r)"
  by (induction k r m rule: put_row.induct) auto

lemma mset_grouped: "mset (concat (map (\<lambda>(k, rs). concat (map (f k) rs)) (grouped xs))) = mset (concat (map (\<lambda>(k, r). f k r) xs))"
proof (induction xs rule: rev_induct)
  case (snoc x xs)
  then show ?case by (cases x) (simp add: grouped_snoc mset_put)
qed (simp add: grouped_def)

section \<open>The rows of a system\<close>

lemma system_rows_Some:
  assumes "system_rows cfg system rows = Some keyed"
  shows "keyed = map (\<lambda>r. (the (key_text cfg (commodityId r)), r)) (filter (\<lambda>r. in_system cfg system r = Some True) rows)"
    and "\<forall>r \<in> set rows. in_system cfg system r = Some True \<longrightarrow> key_text cfg (commodityId r) \<noteq> None"
proof -
  from assms obtain hits where hits: "map (in_system cfg system) rows = map Some hits"
    and keyed: "map (keyed_row cfg) (map snd (filter fst (zip hits rows))) = map Some keyed"
    by (auto simp: system_rows_def dest!: those_map_Some split: option.splits)
  from hits have "hits = map (\<lambda>r. the (in_system cfg system r)) rows"
    by (metis (no_types, lifting) list.map_comp list.map_cong0 list.map_ident option.sel comp_apply)
  moreover from hits have defined: "\<forall>r \<in> set rows. in_system cfg system r \<noteq> None"
    by (metis (no_types, lifting) in_set_conv_nth length_map nth_map option.distinct(1))
  ultimately have members: "map snd (filter fst (zip hits rows)) = filter (\<lambda>r. in_system cfg system r = Some True) rows"
    by (induction rows arbitrary: hits) auto
  from keyed [unfolded members] have each: "\<forall>r \<in> set (filter (\<lambda>r. in_system cfg system r = Some True) rows). keyed_row cfg r \<noteq> None"
    by (metis (no_types, lifting) in_set_conv_nth length_map nth_map option.distinct(1))
  then show "\<forall>r \<in> set rows. in_system cfg system r = Some True \<longrightarrow> key_text cfg (commodityId r) \<noteq> None"
    by (auto simp: keyed_row_def)
  from arg_cong [OF keyed [unfolded members], of "map the"] have "keyed = map (\<lambda>r. the (keyed_row cfg r)) (filter (\<lambda>r. in_system cfg system r = Some True) rows)"
    by (simp add: comp_def)
  also have "\<dots> = map (\<lambda>r. (the (key_text cfg (commodityId r)), r)) (filter (\<lambda>r. in_system cfg system r = Some True) rows)"
    using each by (intro map_cong) (auto simp: keyed_row_def)
  finally show "keyed = map (\<lambda>r. (the (key_text cfg (commodityId r)), r)) (filter (\<lambda>r. in_system cfg system r = Some True) rows)" .
qed

lemma mset_pairs: "mset (pairs_of keyed) =
    mset (concat (map (\<lambda>(k, b). if offered b then map (Pair b) (map snd (filter (\<lambda>(j, s). j = k \<and> wanted s) keyed)) else []) keyed))"
proof -
  have eq: "filter (\<lambda>p. fst p = k) (filter (\<lambda>(j, s). wanted s) keyed) = filter (\<lambda>(j, s). j = k \<and> wanted s) keyed" for k
    unfolding filter_filter by (rule filter_cong) auto
  have "mset (pairs_of keyed) = mset (concat (map (\<lambda>(k, b). map (Pair b) (entries_of (grouped (filter (\<lambda>(k, r). wanted r) keyed)) k))
      (filter (\<lambda>(k, r). offered r) keyed)))"
    unfolding pairs_of_def Let_def by (rule mset_grouped)
  also have "\<dots> = mset (concat (map (\<lambda>(k, b). map (Pair b) (map snd (filter (\<lambda>(j, s). j = k \<and> wanted s) keyed)))
      (filter (\<lambda>(k, r). offered r) keyed)))"
    unfolding entries_grouped eq ..
  also have "concat (map (\<lambda>(k, b). map (Pair b) (map snd (filter (\<lambda>(j, s). j = k \<and> wanted s) keyed))) (filter (\<lambda>(k, r). offered r) keyed)) =
      concat (map (\<lambda>(k, b). if offered b then map (Pair b) (map snd (filter (\<lambda>(j, s). j = k \<and> wanted s) keyed)) else []) keyed)"
    by (subst concat_filter [symmetric]) (intro arg_cong [where f = concat] map_cong, auto)
  finally show ?thesis .
qed

section \<open>The routes\<close>

text \<open>Every pair of rows of the system that trade in one commodity, in the order of the rows.\<close>

definition traded :: "trading_config \<Rightarrow> jsstr option \<Rightarrow> price_row \<Rightarrow> price_row \<Rightarrow> bool" where
  "traded cfg system b s \<longleftrightarrow> in_system cfg system b = Some True \<and> in_system cfg system s = Some True \<and>
     key_text cfg (commodityId b) = key_text cfg (commodityId s) \<and> offered b \<and> wanted s"

definition reference_routes ::
    "trading_config \<Rightarrow> rat \<Rightarrow> price_row list \<Rightarrow> jsstr option \<Rightarrow> rat option \<Rightarrow> rat option \<Rightarrow> bool \<Rightarrow> bool \<Rightarrow> trade_route list" where
  "reference_routes cfg now rows system cargo capital fullLoadOnly hideOutdated =
     concat (map (\<lambda>b. concat (map (\<lambda>s. if traded cfg system b s
       then (case route_of cfg now cargo capital fullLoadOnly hideOutdated b s of Some (Some r) \<Rightarrow> [r] | _ \<Rightarrow> []) else []) rows)) rows)"

lemma calculated:
  assumes "calculateTradingRoutes cfg now rows system cargo capital fullLoadOnly hideOutdated sorting = Some routes"
  obtains keyed found where "system_rows cfg system rows = Some keyed"
    and "map (\<lambda>(b, s). route_of cfg now cargo capital fullLoadOnly hideOutdated b s) (pairs_of keyed) = map Some found"
    and "routes = sort_by (route_le cfg sorting) (List.map_filter id found)"
    and "sorting = js ''buy_location'' \<and> 1 < length (List.map_filter id found) \<Longrightarrow> \<forall>r \<in> set (List.map_filter id found). location_text cfg r \<noteq> None"
  using assms by (auto simp: calculateTradingRoutes_def Let_def dest!: those_map_Some split: option.splits if_splits)

lemma mset_reference:
  assumes keyed: "system_rows cfg system rows = Some keyed"
    and found: "map (\<lambda>(b, s). route_of cfg now cargo capital full hide b s) (pairs_of keyed) = map Some found"
  shows "mset (List.map_filter id found) = mset (reference_routes cfg now rows system cargo capital full hide)"
proof -
  define g where "g b s = (case route_of cfg now cargo capital full hide b s of Some (Some r) \<Rightarrow> [r] | _ \<Rightarrow> [])" for b s
  define own where "own = filter (\<lambda>r. in_system cfg system r = Some True) rows"
  define key where "key r = the (key_text cfg (commodityId r))" for r :: price_row
  note keys = system_rows_Some [OF keyed, folded own_def key_def]
  have "List.map_filter id found = concat (map (case_prod g) (pairs_of keyed))"
  proof -
    have "concat (map (\<lambda>x. case x of Some (Some r) \<Rightarrow> [r] | _ \<Rightarrow> []) (map Some found)) = List.map_filter id found"
      by (induction found) (auto simp: List.map_filter_simps split: option.splits)
    then show ?thesis unfolding found [symmetric] by (simp add: comp_def case_prod_unfold g_def)
  qed
  then have "mset (List.map_filter id found) = mset (concat (map (case_prod g)
      (concat (map (\<lambda>(k, b). if offered b then map (Pair b) (map snd (filter (\<lambda>(j, s). j = k \<and> wanted s) keyed)) else []) keyed))))"
    using concat_map_cong_mset [OF mset_pairs] by simp
  also have "concat (map (case_prod g) (concat (map (\<lambda>(k, b). if offered b then map (Pair b) (map snd (filter (\<lambda>(j, s). j = k \<and> wanted s) keyed)) else []) keyed))) =
      concat (map (\<lambda>b. if offered b then concat (map (g b) (filter (\<lambda>s. key s = key b \<and> wanted s) own)) else []) own)"
    unfolding keys(1) concat_map_concat map_map comp_def
    by (intro arg_cong [where f = concat] map_cong refl) (simp add: filter_map comp_def case_prod_unfold)
  also have "\<dots> = reference_routes cfg now rows system cargo capital full hide"
  proof -
    have "(if in_system cfg system b = Some True then if offered b then concat (map (g b) (filter (\<lambda>s. key s = key b \<and> wanted s) own)) else [] else []) =
        concat (map (\<lambda>s. if traded cfg system b s then g b s else []) rows)" if b: "b \<in> set rows" for b
    proof -
      have same: "in_system cfg system b = Some True \<Longrightarrow> s \<in> set rows \<Longrightarrow> in_system cfg system s = Some True \<Longrightarrow>
          key s = key b \<longleftrightarrow> key_text cfg (commodityId b) = key_text cfg (commodityId s)" for s
        using keys(2) [rule_format, of b] keys(2) [rule_format, of s] b by (auto simp: key_def)
      have "filter (\<lambda>s. key s = key b \<and> wanted s) own = filter (traded cfg system b) rows" if "in_system cfg system b = Some True" "offered b"
        unfolding own_def filter_filter by (rule filter_cong) (use same that in \<open>auto simp: traded_def\<close>)
      moreover have "filter (traded cfg system b) rows = []" if "\<not> (in_system cfg system b = Some True \<and> offered b)"
        using that by (auto simp: traded_def filter_empty_conv)
      ultimately show ?thesis unfolding concat_filter by auto
    qed
    note inner = this
    have "concat (map (\<lambda>b. if offered b then concat (map (g b) (filter (\<lambda>s. key s = key b \<and> wanted s) own)) else []) own) =
        concat (map (\<lambda>b. if in_system cfg system b = Some True then if offered b then concat (map (g b) (filter (\<lambda>s. key s = key b \<and> wanted s) own)) else [] else []) rows)"
      unfolding concat_filter own_def ..
    also have "\<dots> = concat (map (\<lambda>b. concat (map (\<lambda>s. if traded cfg system b s then g b s else []) rows)) rows)"
      using inner by (intro arg_cong [where f = concat] map_cong) auto
    finally show ?thesis unfolding reference_routes_def g_def .
  qed
  finally show ?thesis .
qed

section \<open>The order\<close>

definition priced :: "trade_route \<Rightarrow> bool" where
  "priced r \<longleftrightarrow> usableSCU r \<noteq> None \<and> netProfit r \<noteq> None \<and> profitPerSCU r \<noteq> None \<and> investment r \<noteq> None \<and> sellRevenue r \<noteq> None \<and> roi r \<noteq> None"

lemma sort_field_Some: "priced r \<Longrightarrow> \<exists>v. sort_field s r = Some v"
proof -
  assume r: "priced r"
  have "\<forall>f \<in> snd ` set sorters. f r \<noteq> None" using r by (simp add: sorters_def priced_def)
  then show ?thesis using r by (fastforce simp: sort_field_def priced_def dest!: map_of_SomeD split: option.splits)
qed

text \<open>\<open>localeCompare\<close> orders texts.\<close>

definition collates :: "trading_config \<Rightarrow> bool" where
  "collates cfg \<longleftrightarrow> (\<forall>p q. collate cfg p q \<le> 0 \<or> collate cfg q p \<le> 0) \<and>
     (\<forall>p q r. collate cfg p q \<le> 0 \<and> collate cfg q r \<le> 0 \<longrightarrow> collate cfg p r \<le> 0)"

lemma route_le_total:
  assumes "collates cfg" "\<forall>r \<in> S. priced r" "s = js ''buy_location'' \<Longrightarrow> \<forall>r \<in> S. location_text cfg r \<noteq> None"
  shows "total_order_of (route_le cfg s) S"
proof -
  consider "s = js ''buy_location''" | "s \<noteq> js ''buy_location''" "s = js ''age''" | "s \<noteq> js ''buy_location''" "s \<noteq> js ''age''" by blast
  then show ?thesis
  proof cases
    case 1
    have total_texts: "collate cfg p q \<le> 0 \<or> collate cfg q p \<le> 0" "collate cfg p q \<le> 0 \<Longrightarrow> collate cfg q r \<le> 0 \<Longrightarrow> collate cfg p r \<le> 0" for p q r
      using assms(1) unfolding collates_def by blast+
    have le: "route_le cfg s x y \<longleftrightarrow> collate cfg (the (location_text cfg x)) (the (location_text cfg y)) \<le> 0" if "x \<in> S" "y \<in> S" for x y
      using assms(3) [OF 1] that by (auto simp: route_le_def 1 split: option.splits)
    show ?thesis unfolding total_order_of_def using le total_texts by blast
  next
    case 2
    then show ?thesis by (auto simp: total_order_of_def route_le_def split: option.splits)
  next
    case 3
    have le: "route_le cfg s x y \<longleftrightarrow> the (sort_field s y) \<le> the (sort_field s x)" if "x \<in> S" "y \<in> S" for x y
      using assms(2) that sort_field_Some [of x s] sort_field_Some [of y s] by (auto simp: route_le_def 3)
    show ?thesis unfolding total_order_of_def using le by (meson linorder_linear order_trans)
  qed
qed

section \<open>A route\<close>

definition loads :: "rat \<Rightarrow> rat option \<Rightarrow> price_row \<Rightarrow> price_row \<Rightarrow> int \<Rightarrow> bool" where
  "loads cargo capital b s u \<longleftrightarrow> of_int u \<le> cargo \<and> of_int u \<le> buyStock b \<and> of_int u \<le> sellDemand s \<and>
     (case capital of None \<Rightarrow> True | Some q \<Rightarrow> of_int u * buyPrice b \<le> q)"

lemma usable_greatest:
  assumes "0 < buyPrice b" "usable_scu (Some cargo) capital b s = Some u"
  shows "loads cargo capital b s v \<longleftrightarrow> v \<le> u"
proof (cases capital)
  case None
  with assms(2) show ?thesis by (auto simp: usable_scu_def loads_def le_floor_iff)
next
  case (Some q)
  have "of_int v * buyPrice b \<le> q \<longleftrightarrow> v \<le> \<lfloor>q / buyPrice b\<rfloor>"
    using assms(1) by (simp add: le_floor_iff pos_le_divide_eq)
  with assms(2) Some show ?thesis by (auto simp: usable_scu_def loads_def le_floor_iff Let_def)
qed

lemma route_of_Some:
  assumes "route_of cfg now (Some cargo) capital full hide b s = Some (Some r)"
  obtains u where "usable_scu (Some cargo) capital b s = Some u" "0 < u" "r = made_route (Some cargo) capital (data_age cfg now b s) b s"
    and "key_text cfg (terminalId b) \<noteq> key_text cfg (terminalId s)" "buyPrice b < sellPrice s"
    and "hide \<Longrightarrow> \<exists>a. data_age cfg now b s = Some a \<and> a \<le> 21600" "full \<Longrightarrow> loadStatus r = Load_full"
  using assms that unfolding route_of_def Let_def
  by (auto simp: usable_scu_def not_less not_le split: option.splits if_splits)

lemma found_routes:
  "calculateTradingRoutes cfg now rows system cargo capital full hide sorting = Some routes \<Longrightarrow>
     mset routes = mset (reference_routes cfg now rows system cargo capital full hide)"
  by (erule calculated) (simp add: mset_reference)

lemma reference_member:
  assumes "r \<in> set (reference_routes cfg now rows system cargo capital full hide)"
  obtains b s where "b \<in> set rows" "s \<in> set rows" "traded cfg system b s" "route_of cfg now cargo capital full hide b s = Some (Some r)"
  using assms by (auto simp: reference_routes_def split: option.splits if_splits)

lemma made_route_fields [simp]:
  "usableSCU (made_route cargo capital age b s) = usable_scu cargo capital b s" "dataAgeSeconds (made_route cargo capital age b s) = age"
  by (simp_all add: made_route_def Let_def)

lemma made_priced: "usable_scu (Some cargo) capital b s = Some u \<Longrightarrow> priced (made_route (Some cargo) capital age b s)"
  by (simp add: priced_def made_route_def Let_def)

section \<open>The routes that are shown\<close>

text \<open>Rows and systems whose texts need no conversion.\<close>

definition plain_row :: "price_row \<Rightarrow> bool" where
  "plain_row r \<longleftrightarrow> (\<exists>s. system_name r = Some (JStr s)) \<and> (\<exists>s n. commodityId r = Some (JStr s) \<or> commodityId r = Some (JNum n)) \<and>
     (\<exists>s n. terminalId r = Some (JStr s) \<or> terminalId r = Some (JNum n)) \<and> (\<exists>s. terminal r = JStr s)"

lemma plain_texts:
  assumes "plain_row r"
  shows "key_text cfg (commodityId r) \<noteq> None" "key_text cfg (terminalId r) \<noteq> None" "json_text nt (terminal r) \<noteq> None"
    "in_system cfg (Some system) r \<noteq> None"
  using assms by (auto simp: plain_row_def key_text_def in_system_def lower_name_def)

lemma pairs_subset:
  assumes "(b, s) \<in> set (pairs_of keyed)"
  shows "b \<in> snd ` set keyed \<and> s \<in> snd ` set keyed"
proof -
  have "(b, s) \<in> set (concat (map (\<lambda>(k, b). if offered b then map (Pair b) (map snd (filter (\<lambda>(j, s). j = k \<and> wanted s) keyed)) else []) keyed))"
    using assms mset_eq_setD [OF mset_pairs] by blast
  then show ?thesis by (force split: if_splits)
qed

lemma calculate_total:
  assumes plain: "\<forall>r \<in> set rows. plain_row r"
  shows "\<exists>routes. calculateTradingRoutes cfg now rows (Some system) cargo capital full hide sorting = Some routes"
proof -
  have "\<exists>hits. those (map (in_system cfg (Some system)) rows) = Some hits"
    by (rule those_total) (use plain plain_texts(4) in auto)
  then obtain hits where hits: "those (map (in_system cfg (Some system)) rows) = Some hits" by blast
  let ?own = "map snd (filter fst (zip hits rows))"
  have own: "set ?own \<subseteq> set rows" by (auto dest: set_zip_rightD)
  have "\<exists>keyed. those (map (keyed_row cfg) ?own) = Some keyed"
    by (rule those_total) (use own plain plain_texts(1) in \<open>fastforce simp: keyed_row_def\<close>)
  then obtain keyed where keyed: "those (map (keyed_row cfg) ?own) = Some keyed" by blast
  with hits have rows: "system_rows cfg (Some system) rows = Some keyed" by (simp add: system_rows_def)
  have from_rows: "snd ` set keyed \<subseteq> set rows" unfolding system_rows_Some(1) [OF rows] by auto
  have texts: "route_of cfg now cargo capital full hide b s \<noteq> None" if "(b, s) \<in> set (pairs_of keyed)" for b s
  proof -
    from pairs_subset [OF that] from_rows plain have "plain_row b" "plain_row s" by blast+
    from plain_texts(2) [OF this(1), of cfg] plain_texts(2) [OF this(2), of cfg] show ?thesis by (auto simp: route_of_def)
  qed
  have "\<exists>found. those (map (\<lambda>(b, s). route_of cfg now cargo capital full hide b s) (pairs_of keyed)) = Some found"
    by (rule those_total) (use texts in auto)
  then obtain found where found: "those (map (\<lambda>(b, s). route_of cfg now cargo capital full hide b s) (pairs_of keyed)) = Some found" by blast
  have "location_text cfg r \<noteq> None" if r: "r \<in> set (List.map_filter id found)" for r
  proof -
    from r have "r \<in> set (reference_routes cfg now rows (Some system) cargo capital full hide)"
      using mset_eq_setD [OF mset_reference [OF rows those_map_Some [OF found]]] by simp
    then obtain b s where bs: "b \<in> set rows" "s \<in> set rows" "route_of cfg now cargo capital full hide b s = Some (Some r)"
      by (rule reference_member)
    then have "buyLocation r = terminal b \<and> sellLocation r = terminal s"
      by (auto simp: route_of_def made_route_def Let_def split: option.splits if_splits)
    from bs plain have "plain_row b" "plain_row s" by blast+
    from \<open>buyLocation r = terminal b \<and> sellLocation r = terminal s\<close> plain_texts(3) [OF this(1), of "number_text cfg"]
      plain_texts(3) [OF this(2), of "number_text cfg"] show ?thesis by (auto simp: location_text_def)
  qed
  then show ?thesis by (auto simp: calculateTradingRoutes_def rows found Let_def)
qed



section \<open>A sample\<close>

definition sample_price :: "string \<Rightarrow> rat \<Rightarrow> rat \<Rightarrow> price_row" where
  "sample_price place buy sell = \<lparr>commodityId = Some (JStr (js ''1'')), commodity = JStr (js ''Gold''), buyPrice = buy, sellPrice = sell,
     buyStock = 100, sellDemand = 50, terminalId = Some (JStr (js place)), terminal = JStr (js place), systemId = None,
     system_name = Some (JStr (js ''Stanton'')), updatedAt = None\<rparr>"

definition sample_prices :: "price_row list" where
  "sample_prices = [sample_price ''A'' 10 0, sample_price ''B'' 0 15]"

definition sample_trading :: trading_config where
  "sample_trading = \<lparr>number_text = (\<lambda>n. []), to_lower = id, parse_date = (\<lambda>v. None), collate = (\<lambda>p q. 0)\<rparr>"

lemma sample_plain: "\<forall>r \<in> set sample_prices. plain_row r"
  by (simp add: sample_prices_def sample_price_def plain_row_def)

lemma sample_routes:
  obtains routes where "calculateTradingRoutes sample_trading 0 sample_prices (Some (js ''Stanton'')) (Some 64) (Some 600) False False (js ''profit'') = Some routes"
    and "routes = [made_route (Some 64) (Some 600) None (sample_price ''A'' 10 0) (sample_price ''B'' 0 15)]"
proof -
  let ?A = "sample_price ''A'' 10 0" and ?B = "sample_price ''B'' 0 15"
  obtain routes where run: "calculateTradingRoutes sample_trading 0 sample_prices (Some (js ''Stanton'')) (Some 64) (Some 600) False False (js ''profit'') = Some routes"
    using calculate_total [OF sample_plain] by blast
  have pairs: "traded sample_trading (Some (js ''Stanton'')) ?A ?B" "\<not> traded sample_trading (Some (js ''Stanton'')) ?B s"
    "\<not> traded sample_trading (Some (js ''Stanton'')) b ?A" for b s
    by (simp_all add: traded_def in_system_def lower_name_def sample_trading_def sample_price_def key_text_def offered_def wanted_def)
  have age: "data_age sample_trading 0 ?A ?B = None"
    by (simp add: data_age_def tradingAgeSeconds_def sample_price_def sample_trading_def js_number_def)
  have usable: "usable_scu (Some 64) (Some 600) ?A ?B = Some 50" by (simp add: usable_scu_def sample_price_def)
  have names: "key_text sample_trading (terminalId ?A) = Some (js ''A'')" "key_text sample_trading (terminalId ?B) = Some (js ''B'')"
    "js ''A'' \<noteq> js ''B''" "\<not> sellPrice ?B \<le> buyPrice ?A" by (simp_all add: key_text_def sample_price_def js_def)
  have route: "route_of sample_trading 0 (Some 64) (Some 600) False False ?A ?B = Some (Some (made_route (Some 64) (Some 600) None ?A ?B))"
    by (simp add: route_of_def names age usable Let_def)
  have "mset routes = mset (reference_routes sample_trading 0 sample_prices (Some (js ''Stanton'')) (Some 64) (Some 600) False False)"
    by (rule found_routes [OF run])
  also have "\<dots> = {#made_route (Some 64) (Some 600) None ?A ?B#}"
    by (simp add: reference_routes_def sample_prices_def pairs route)
  finally have "routes = [made_route (Some 64) (Some 600) None ?A ?B]" by simp
  with run that show ?thesis by blast
qed



section \<open>The cache, and a ship that is none\<close>

text \<open>Rows are used while they are fresh, an exception leaves the cache, and the service is not asked before they expire.\<close>

lemma getUexPrices_cache:
  assumes "getUexPrices cfg env cache = (answer, cache')"
  shows "case answer of
      Inl st \<Rightarrow> st \<in> {429, 502, 503} \<and> cache' = cache
    | Inr current \<Rightarrow> current = cache' \<and> cached_rows current \<noteq> None \<and>
        (current = cache \<and> asked_at env < cache_expires current \<or> cache_expires current = stored_at env + 1800000)"
  using assms by (auto simp: getUexPrices_def Let_def split: if_splits fetched.splits option.splits)

text \<open>\<open>constructor\<close> is a property of every object: taken for a ship, its routes have no figures and are shown.\<close>

theorem inherited_ship_shown:
  "looked_up tradingShips (js ''constructor'') = Some None \<and>
   (\<exists>r. calculateTradingRoutes sample_trading 0 sample_prices (Some (js ''Stanton'')) None None False False (js ''profit'') = Some [r] \<and>
      usableSCU r = None \<and> netProfit r = None)"
proof
  show "looked_up tradingShips (js ''constructor'') = Some None"
    by (simp add: looked_up_def tradingShips_def)
  let ?A = "sample_price ''A'' 10 0" and ?B = "sample_price ''B'' 0 15"
  obtain routes where run: "calculateTradingRoutes sample_trading 0 sample_prices (Some (js ''Stanton'')) None None False False (js ''profit'') = Some routes"
    using calculate_total [OF sample_plain] by blast
  have pairs: "traded sample_trading (Some (js ''Stanton'')) ?A ?B" "\<not> traded sample_trading (Some (js ''Stanton'')) ?B s"
    "\<not> traded sample_trading (Some (js ''Stanton'')) b ?A" for b s
    by (simp_all add: traded_def in_system_def lower_name_def sample_trading_def sample_price_def key_text_def offered_def wanted_def)
  have names: "key_text sample_trading (terminalId ?A) = Some (js ''A'')" "key_text sample_trading (terminalId ?B) = Some (js ''B'')"
    "js ''A'' \<noteq> js ''B''" "\<not> sellPrice ?B \<le> buyPrice ?A" by (simp_all add: key_text_def sample_price_def js_def)
  have usable: "usable_scu None None ?A ?B = None" by (simp add: usable_scu_def)
  have route: "\<exists>r. route_of sample_trading 0 None None False False ?A ?B = Some (Some r) \<and> usableSCU r = None \<and> netProfit r = None"
    by (simp add: route_of_def names usable Let_def) (simp add: made_route_def usable Let_def)
  then obtain r where r: "route_of sample_trading 0 None None False False ?A ?B = Some (Some r)" "usableSCU r = None" "netProfit r = None" by blast
  have "mset routes = {#r#}"
    unfolding found_routes [OF run] by (simp add: reference_routes_def sample_prices_def pairs r)
  then have "routes = [r]" by simp
  with run r show "\<exists>r. calculateTradingRoutes sample_trading 0 sample_prices (Some (js ''Stanton'')) None None False False (js ''profit'') = Some [r] \<and>
      usableSCU r = None \<and> netProfit r = None" by blast
qed

end
