(* ===== verification/Reference.thy ===== *)
theory Reference
  imports Account_Groups Js_Sort
begin

text \<open>
  Finding the picture of a blueprint in a wiki (\<open>src/src/reference-resolver.js\<close>, and \<open>lookupWikiImage\<close> of
  \<open>src/src/server.js\<close>). The wiki is a parameter: what it answers to a search, to a list of images and to the address of
  one, \<open>None\<close> when a request fails. A title is a text or missing; \<open>toLowerCase\<close>, the URL parser and the
  percent coding are parameters too.
\<close>

section \<open>Words\<close>

definition word_char :: "nat \<Rightarrow> bool" where
  "word_char c \<longleftrightarrow> 97 \<le> c \<and> c \<le> 122 \<or> 48 \<le> c \<and> c \<le> 57"

text \<open>\<open>split(/[^a-z0-9]+/).filter(Boolean)\<close>.\<close>

function split_words :: "jsstr \<Rightarrow> jsstr list" where
  "split_words [] = []"
| "split_words (c # s) =
     (if word_char c then (c # takeWhile word_char s) # split_words (dropWhile word_char s) else split_words s)"
  by pat_completeness auto
termination
  by (relation "measure length") (auto simp: le_imp_less_Suc length_dropWhile_le)

definition text_words :: "(jsstr \<Rightarrow> jsstr) \<Rightarrow> jsstr option \<Rightarrow> jsstr list" where
  "text_words lower v = split_words (lower (or_empty v))"

definition SLOT_ALIASES :: "(string \<times> string) list" where
  "SLOT_ALIASES = [(''helmet'', ''HELMET''), (''helmets'', ''HELMET''), (''core'', ''CORE''), (''torso'', ''CORE''),
     (''arms'', ''ARMS''), (''arm'', ''ARMS''), (''legs'', ''LEGS''), (''leg'', ''LEGS'')]"

definition COLOR_WORDS :: "string list" where
  "COLOR_WORDS = [''aqua'', ''black'', ''blue'', ''green'', ''grey'', ''gray'', ''orange'', ''olive'', ''purple'', ''red'', ''sienna'',
     ''tan'', ''violet'', ''white'', ''yellow'']"

definition hasCompleteNameMatch :: "(jsstr \<Rightarrow> jsstr) \<Rightarrow> jsstr option \<Rightarrow> jsstr option \<Rightarrow> bool" where
  "hasCompleteNameMatch lower title name = list_all (\<lambda>w. w \<in> set (text_words lower title)) (text_words lower name)"

definition equipmentSlotFromText :: "(jsstr \<Rightarrow> jsstr) \<Rightarrow> jsstr option \<Rightarrow> string option" where
  "equipmentSlotFromText lower v =
     (case List.map_filter (map_of (map (\<lambda>(a, s). (js a, s)) SLOT_ALIASES)) (text_words lower v) of [] \<Rightarrow> None | s # _ \<Rightarrow> Some s)"

section \<open>Pages\<close>

record wiki_page =
  page_title :: "jsstr option"
  page_thumbnail :: "jsstr option"

definition fits_slot :: "(jsstr \<Rightarrow> jsstr) \<Rightarrow> jsstr option \<Rightarrow> jsstr option \<Rightarrow> bool" where
  "fits_slot lower tag title \<longleftrightarrow> (case equipmentSlotFromText lower tag of None \<Rightarrow> True | Some s \<Rightarrow> equipmentSlotFromText lower title = Some s)"

definition compatible_page :: "(jsstr \<Rightarrow> jsstr) \<Rightarrow> jsstr option \<Rightarrow> jsstr option \<Rightarrow> wiki_page \<Rightarrow> bool" where
  "compatible_page lower name tag p \<longleftrightarrow> hasCompleteNameMatch lower (page_title p) name \<and> fits_slot lower tag (page_title p)"

text \<open>How many words of the title are words of the name.\<close>

definition name_score :: "(jsstr \<Rightarrow> jsstr) \<Rightarrow> jsstr option \<Rightarrow> jsstr option \<Rightarrow> nat" where
  "name_score lower name title = length (filter (\<lambda>w. w \<in> set (text_words lower name)) (text_words lower title))"

definition best_of :: "('a \<Rightarrow> nat) \<Rightarrow> 'a list \<Rightarrow> 'a option" where
  "best_of score xs = (case sort_by (\<lambda>x y. score y \<le> score x) xs of [] \<Rightarrow> None | x # _ \<Rightarrow> Some x)"

definition selectWikiCandidate :: "(jsstr \<Rightarrow> jsstr) \<Rightarrow> wiki_page list \<Rightarrow> jsstr option \<Rightarrow> jsstr option \<Rightarrow> wiki_page option" where
  "selectWikiCandidate lower candidates name tag =
     best_of (\<lambda>p. name_score lower name (page_title p)) (filter (compatible_page lower name tag) candidates)"

section \<open>Images\<close>

text \<open>\<open>replace(/^File:/i, "")\<close>.\<close>

definition ascii_lower :: "nat \<Rightarrow> nat" where
  "ascii_lower c = (if 65 \<le> c \<and> c \<le> 90 then c + 32 else c)"

definition without_file :: "jsstr \<Rightarrow> jsstr" where
  "without_file t = (if map ascii_lower (take 5 t) = js ''file:'' then drop 5 t else t)"

definition compatible_image :: "(jsstr \<Rightarrow> jsstr) \<Rightarrow> jsstr option \<Rightarrow> jsstr option \<Rightarrow> jsstr option \<Rightarrow> bool" where
  "compatible_image lower name tag picture \<longleftrightarrow>
     (let title = without_file (or_empty picture); actual = text_words lower (Some title); expected = remdups (text_words lower name);
          colors = filter (\<lambda>w. w \<in> js ` set COLOR_WORDS) expected; least_score = min 3 (max 1 (length expected - length colors)) in
      title \<noteq> [] \<and> js ''placeholder'' \<notin> set actual \<and> js ''uex'' \<notin> set actual \<and> fits_slot lower tag (Some title) \<and>
      list_all (\<lambda>c. c \<in> set actual) colors \<and> least_score \<le> length (filter (\<lambda>w. w \<in> set expected) (remdups actual)))"

text \<open>\<open>None\<close> is a list of images that is no array.\<close>

definition selectWikiImageFile :: "(jsstr \<Rightarrow> jsstr) \<Rightarrow> jsstr option list option \<Rightarrow> jsstr option \<Rightarrow> jsstr option \<Rightarrow> jsstr option option" where
  "selectWikiImageFile lower images name tag =
     best_of (name_score lower name) (filter (compatible_image lower name tag) (case images of None \<Rightarrow> [] | Some xs \<Rightarrow> xs))"

section \<open>Sources and their age\<close>

record wiki =
  wiki_search :: "jsstr \<Rightarrow> wiki_page list option"
  wiki_images :: "jsstr \<Rightarrow> jsstr option list option option"
  wiki_info :: "jsstr \<Rightarrow> jsstr option option"
  url_path :: "jsstr \<Rightarrow> jsstr option"
  percent_decode :: "jsstr \<Rightarrow> jsstr option"
  percent_encode :: "jsstr \<Rightarrow> jsstr option"
  wiki_lower :: "jsstr \<Rightarrow> jsstr"

definition last_segment :: "jsstr \<Rightarrow> jsstr" where
  "last_segment path = rev (takeWhile (\<lambda>c. c \<noteq> 47) (rev path))"

definition wikiSourceMatchesProduct :: "wiki \<Rightarrow> jsstr option \<Rightarrow> jsstr option \<Rightarrow> bool" where
  "wikiSourceMatchesProduct w source name \<longleftrightarrow> or_empty source \<noteq> [] \<and> or_empty name \<noteq> [] \<and>
     (case Option.bind (url_path w (or_empty source)) (\<lambda>p. percent_decode w (last_segment p)) of
        None \<Rightarrow> False
      | Some t \<Rightarrow> hasCompleteNameMatch (wiki_lower w) (Some (map (\<lambda>c. if c = 95 then 32 else c) t)) name)"

text \<open>\<open>checked\<close>: never, at a time that cannot be read, or at a time.\<close>

definition shouldRefreshReference :: "int option option \<Rightarrow> bool \<Rightarrow> int \<Rightarrow> int \<Rightarrow> bool" where
  "shouldRefreshReference checked force now maxAgeMs =
     (case checked of None \<Rightarrow> True | Some None \<Rightarrow> True | Some (Some t) \<Rightarrow> force \<or> maxAgeMs \<le> now - t)"

section \<open>Looking an image up\<close>

fun spaces_to_bars :: "jsstr \<Rightarrow> jsstr" where
  "spaces_to_bars [] = []"
| "spaces_to_bars (c # s) = (if take 3 (c # s) = js ''%20'' then 95 # spaces_to_bars (drop 2 s) else c # spaces_to_bars s)"

text \<open>\<open>None\<close>: a request failed; \<open>Some None\<close>: no page; otherwise the address of an image, if any, and the page.\<close>

definition lookupWikiImage :: "wiki \<Rightarrow> jsstr option \<Rightarrow> jsstr option \<Rightarrow> (jsstr option \<times> jsstr) option option" where
  "lookupWikiImage w name tag =
     (if \<not> validText 300 (map_option JStr name) then Some None
      else case wiki_search w (or_empty name) of
        None \<Rightarrow> None
      | Some pages \<Rightarrow>
          case selectWikiCandidate (wiki_lower w) pages name tag of
            None \<Rightarrow> Some None
          | Some page \<Rightarrow>
              let title = (case page_title page of None \<Rightarrow> js ''undefined'' | Some t \<Rightarrow> t) in
              case (if or_empty (page_thumbnail page) \<noteq> [] then Some (page_thumbnail page)
                    else case wiki_images w title of
                      None \<Rightarrow> None
                    | Some images \<Rightarrow>
                        case selectWikiImageFile (wiki_lower w) images name tag of
                          Some (Some t) \<Rightarrow> if t = [] then Some None else wiki_info w t
                        | _ \<Rightarrow> Some None) of
                None \<Rightarrow> None
              | Some address \<Rightarrow>
                  map_option (\<lambda>e. Some (if or_empty address = [] then None else address, js ''https://starcitizen.tools/'' @ spaces_to_bars e))
                    (percent_encode w title))"

section \<open>What is selected\<close>

lemma best_of_None: "best_of score xs = None \<longleftrightarrow> xs = []"
proof -
  have "sort_by (\<lambda>x y. score y \<le> score x) xs = [] \<longleftrightarrow> xs = []"
    by (metis set_sort_by set_empty)
  then show ?thesis unfolding best_of_def by (cases "sort_by (\<lambda>x y. score y \<le> score x) xs") simp_all
qed

lemma best_of_Some:
  assumes "best_of score xs = Some z"
  shows "z \<in> set xs \<and> (\<forall>x \<in> set xs. score x \<le> score z) \<and> (\<exists>us. filter (\<lambda>x. score x = score z) xs = z # us)"
proof -
  from assms obtain zs where "sort_by (\<lambda>x y. score y \<le> score x) xs = z # zs" by (auto simp: best_of_def split: list.splits)
  from first_by_score [OF this] show ?thesis by blast
qed


definition sample_page :: wiki_page where
  "sample_page = \<lparr>page_title = Some (js ''helm red''), page_thumbnail = None\<rparr>"


end
