(* ===== verification/Spec2Isabelle.thy ===== *)
theory Spec2Isabelle
  imports Telemetry_System Mission_Safety Sink_Routes Account_Safety Telemetry_View_Proofs Material_Routes Orders_Overlap Trading_Theorems Reference
begin

text \<open>
  Verification of the VerseLink server (\<open>src/src\<close>) and of one of its browser modules
  (\<open>src/public/js/telemetry-history-view.js\<close>).

  VerseLink keeps, for the members of game groups, accounts and groups, paired telemetry devices and the presence
  they report, missions, blueprints and inventories fed by an event sink, shared material stock and material
  orders. One Node process answers HTTP requests over a PostgreSQL database. What can go wrong lies between the two:
  a request waits for the database many times, and what it read may have changed when it writes.

  How the program is modelled. The tables of \<open>schemaSql\<close> are records of lists of rows, extended from component to
  component as the schema refers to itself; a constraint of a table is part of a predicate and of the operation
  that inserts, which fails when it is violated. A handler is a function from the request and an
  environment to the answer and the new state, with the checks, queries and early returns of the code in its order.
  The environment holds what the code does not decide: what other requests commit at the \<open>i\<close>-th \<open>await\<close>
  (\<open>interfere\<close>, \<open>others\<close>), which queries fail, how a transaction ends (\<open>tx_fault\<close>: committed, failed, or
  committed with its acknowledgement lost), the clock, fresh identifiers and random codes. A transaction
  (\<open>run_tx\<close>) is a function of the rows it sees that commits, rolls back or throws; where the code reads before it
  or without a lock, those reads see another state. A component has a relation of its committed steps; the locale
  \<open>stepwise\<close> (\<open>Group_Db\<close>) turns an invariant of the steps into one of every request under every
  interleaving, and is interpreted for each component.

  Parts, in the order of the theories:

    \<^item> \<open>Prelude\<close>: strings as UTF-16 code units (\<open>jsstr\<close>), parsed JSON, answers, rows and the SQL updates on
      them, transactions, decimal numerals.
    \<^item> \<open>Rate_Limit\<close>: \<open>rate-limit.js\<close> and \<open>publicRateLimit\<close> of \<open>server.js\<close>. Lemmas: no more than the limit is
      admitted in any window, entries expire, and the table stays within its size.
    \<^item> \<open>Auth_InFlight\<close>: \<open>telemetry-auth-inflight.js\<close>. The counters are exactly the admissions not released,
      within both limits.
    \<^item> \<open>Pairing_Code\<close>: \<open>telemetry-pairing.js\<close>. A code read back is the code shown, whatever separators and case.
    \<^item> \<open>Telemetry_Db\<close>, \<open>Device_Auth\<close>, \<open>Telemetry_Env\<close>: the telemetry tables and \<open>telemetry-device-auth.js\<close>. A
      request is authenticated exactly for a live device of an active account.
    \<^item> \<open>Session\<close>: \<open>request-origin.js\<close>, \<open>auth-primitives.js\<close>, the session cookie and origin checks.
    \<^item> \<open>Heartbeat\<close>, \<open>Presence_Payload\<close>, \<open>Presence\<close>: \<open>telemetry-heartbeat-handler.js\<close>,
      \<open>telemetry-presence.js\<close>. A valid body satisfies the columns; the stored presence is the one of the highest
      revision, in whatever order requests arrive.
    \<^item> \<open>Pairing\<close>, \<open>Management\<close>, \<open>Telemetry_History\<close>, \<open>Telemetry_System\<close>: pairing, \<open>telemetry-management.js\<close> and
      \<open>telemetry-history-cleanup.js\<close>. A code is claimed once; a revoked device stays revoked; pages of the history
      concatenate to it; every telemetry handler is a sequence of steps that keep the whole invariant.
    \<^item> \<open>Telemetry_View\<close>, \<open>Telemetry_View_Proofs\<close>: the history as the profile page groups and renders it. Its loops
      return, every entry is shown once and in order, and no text of an entry becomes markup.
    \<^item> \<open>Group_Db\<close>, \<open>Js_Values\<close>: what the group routes share, and \<open>Number\<close>, \<open>trim\<close> and the validators of \<open>server.js\<close>.
    \<^item> \<open>Mission_Db\<close> to \<open>Mission_Safety\<close>: missions, tasks and contributions (\<open>/api/missions\<close>). The quota of a task
      holds at every moment, a status is what the quantities say, and only the creator or an owner writes.
    \<^item> \<open>Sink_Db\<close> to \<open>Sink_Routes\<close>: the event sink (\<open>/v1/scmdb/:token\<close>, \<open>/api/profile/scmdb/*\<close>). A revoked token
      stays dead, a repeated event changes nothing, a blueprint event is an operation on a map from tags, and an inventory
      event changes exactly the quantities it names.
    \<^item> \<open>Account_Db\<close> to \<open>Account_Safety\<close>: registration, login, recovery, groups, invites and the administrator's
      routes. One owner of a group, one live login token of an account, an invite admits once.
    \<^item> \<open>Material_Db\<close> to \<open>Material_Routes\<close>: the material stock (\<open>/api/material-inventory/*\<close>). What is shown is what was
      put in less what was taken out; transfers are exact.
    \<^item> \<open>Orders\<close>, \<open>Orders_Theorems\<close>, \<open>Orders_Overlap\<close>: material orders (\<open>/api/orders\<close>). Requests that do not
      overlap keep the books of every order; two that do may not; order numbers repeat past 9999.
    \<^item> \<open>Js_Sort\<close>, \<open>Trading\<close>, \<open>Trading_Theorems\<close>: \<open>Array.prototype.sort\<close> as a stable sort; trading routes
      (\<open>/api/trading/routes\<close>). The grouped computation is the plain one over all pairs, and a route loads the most that
      every limit allows.
    \<^item> \<open>Reference\<close>: \<open>reference-resolver.js\<close>. The page and the image selected are the best of those that fit.

  What is abstracted. Code outside the repository is a parameter: the keyed hash, \<open>JSON.parse\<close>, the URL parser, the reader
  of uuids, the text of a number, Unicode letters and \<open>toLowerCase\<close>, the calendar of the browser. What is relied
  on is stated as a hypothesis of the theorem that uses it (a hash without collisions on what is hashed, a text of a
  number that has only digits). Quantities (\<open>numeric\<close> columns and finite doubles) are exact rationals; rounding
  of doubles is not modelled. Loops are structural or terminate by a proved measure; there is no fuel.
  Times are milliseconds, or microseconds where the database keeps them.

  Not modelled. Pages, assets and mail of HTML routes; the rest of \<open>src/public/js\<close>, which reads and writes the
  page; the synchronisation with UEX and the wiki, whose answers are foreign; Discord messages and the scripts under
  \<open>src/.github\<close>; the companion (C#); administration views, public profiles and search, the personal
  inventory and the mining pools of \<open>server.js\<close>.
\<close>

end
